(* ===== verification/Prelude.thy ===== *)
theory Prelude
  imports Main "HOL-Library.Char_ord" "HOL-Library.List_Lexorder" "HOL-Library.Product_Lexorder"
begin

text \<open>
  Shared vocabulary of the development: Go strings and byte slices (a \<open>string\<close>, one
  \<open>char\<close> per byte), the parts of the Go standard library the components call
  (\<open>bytes.Split\<close>, \<open>strings.Join\<close>, prefix and index searches), results of
  fallible calls (an error on the left of a sum), and the interface of a stream transducer
  whose result does not depend on how the stream was cut into reads or writes.
\<close>

section \<open>Types\<close>

type_synonym bytes = string
type_synonym gostring = string
type_synonym time = int

named_theorems inv_intros \<open>one preservation fact per operation\<close>
named_theorems go_simps \<open>evaluation facts for the modelled Go library functions\<close>

abbreviation code :: "char \<Rightarrow> nat" where
  "code c \<equiv> of_char c"

lemma exI2: "P x y \<Longrightarrow> \<exists>x y. P x y"
  by blast

lemma map_sum_Inr: "map_sum f g s = Inr y \<longleftrightarrow> (\<exists>x. s = Inr x \<and> y = g x)"
  by (cases s) auto

section \<open>bytes.Split and strings.Join\<close>

fun go_split :: "'a \<Rightarrow> 'a list \<Rightarrow> 'a list list" where
  "go_split c [] = [[]]"
| "go_split c (x # xs) =
     (if x = c then [] # go_split c xs
      else (case go_split c xs of [] \<Rightarrow> [[x]] | p # ps \<Rightarrow> (x # p) # ps))"

fun go_join :: "'a list \<Rightarrow> 'a list list \<Rightarrow> 'a list" where
  "go_join sep [] = []"
| "go_join sep [p] = p"
| "go_join sep (p # q # ps) = p @ sep @ go_join sep (q # ps)"

lemma go_split_not_Nil [simp]: "go_split c xs \<noteq> []"
  by (induction xs) (auto split: list.splits)

lemma go_split_no_sep [simp]: "c \<notin> set xs \<Longrightarrow> go_split c xs = [xs]"
  by (induction xs) auto

lemma go_split_append_sep:
  "c \<notin> set xs \<Longrightarrow> go_split c (xs @ c # ys) = xs # go_split c ys"
  by (induction xs) auto

lemma go_split_join:
  assumes "ps \<noteq> []" "\<forall>p\<in>set ps. c \<notin> set p"
  shows "go_split c (go_join [c] ps) = ps"
  using assms by (induction "[c]" ps rule: go_join.induct) (auto simp: go_split_append_sep)

lemma go_join_split: "go_join [c] (go_split c xs) = xs"
proof (induction xs)
  case (Cons x xs)
  then show ?case
    by (cases "go_split c xs" rule: list.exhaust; cases "tl (go_split c xs)") auto
qed simp

section \<open>Searching lists\<close>

lemma find_in: "find P xs = Some x \<Longrightarrow> x \<in> set xs \<and> P x"
  by (auto simp: find_Some_iff)

lemma filter_single:
  assumes "filter P xs = [x]"
  shows "x \<in> set xs \<and> P x \<and> (\<forall>y\<in>set xs. P y \<longrightarrow> y = x)"
proof -
  have "{y \<in> set xs. P y} = {x}" using arg_cong [OF assms, of set] by simp
  then show ?thesis by blast
qed

lemma filter_unique:
  assumes "distinct (map f xs)" and "x \<in> set xs"
  shows "filter (\<lambda>y. f y = f x) xs = [x]"
  using assms
proof (induction xs)
  case Nil
  then show ?case by simp
next
  case (Cons y ys)
  have "f x \<notin> f ` set ys \<Longrightarrow> filter (\<lambda>z. f z = f x) ys = []"
    by (auto simp: filter_empty_conv image_iff eq_commute)
  then show ?case using Cons by auto
qed

lemma find_unique:
  assumes "x \<in> set xs" and "P x" and "\<And>y. y \<in> set xs \<Longrightarrow> P y \<Longrightarrow> y = x"
  shows "find P xs = Some x"
proof (cases "find P xs")
  case None
  then show ?thesis using assms(1,2) by (auto simp: find_None_iff)
next
  case (Some y)
  then show ?thesis using find_in [OF Some] assms(3) by simp
qed

lemma distinct_map_eq: "distinct (map f xs) \<Longrightarrow> x \<in> set xs \<Longrightarrow> y \<in> set xs \<Longrightarrow> f x = f y \<Longrightarrow> x = y"
  by (auto simp: distinct_map inj_on_def)

section \<open>Streams cut into chunks\<close>

fun run_chunks ::
  "('s \<Rightarrow> 'a list \<Rightarrow> 's \<times> 'o) \<Rightarrow> 'o \<Rightarrow> ('o \<Rightarrow> 'o \<Rightarrow> 'o) \<Rightarrow> 's \<Rightarrow> 'a list list \<Rightarrow> 's \<times> 'o" where
  "run_chunks step z pl s [] = (s, z)"
| "run_chunks step z pl s (c # cs) =
     (let (s1, o1) = step s c; (s2, o2) = run_chunks step z pl s1 cs in (s2, pl o1 o2))"

locale chunked =
  fixes step :: "'s \<Rightarrow> 'a list \<Rightarrow> 's \<times> 'o"
    and z :: 'o
    and pl :: "'o \<Rightarrow> 'o \<Rightarrow> 'o"
  assumes step_nil: "step s [] = (s, z)"
    and step_append:
      "step s (xs @ ys) = (let (s1, o1) = step s xs; (s2, o2) = step s1 ys in (s2, pl o1 o2))"
begin

lemma run_concat: "run_chunks step z pl s cs = step s (concat cs)"
  by (induction cs arbitrary: s) (auto simp: step_nil step_append split: prod.splits)

lemma chunking_irrelevant:
  "concat cs = concat ds \<Longrightarrow> run_chunks step z pl s cs = run_chunks step z pl s ds"
  by (simp add: run_concat)

lemma state_of_run: "fst (run_chunks step z pl s cs) = fst (step s (concat cs))"
  by (simp add: run_concat)

end

end
