(* ===== verification/Crlf.thy ===== *)
theory Crlf
  imports Prelude "HOL-Library.Sublist"
begin

text \<open>
  \<open>internal/console/crlf.go\<close>: the writer that turns a bare line feed into carriage
  return, line feed. The state is \<open>lastWasCR\<close>; \<open>crlf_loop\<close> is the loop over
  the written bytes, \<open>crlf_write\<close> the whole \<open>Write\<close> with the error of the
  underlying writer as a value.
\<close>

record crlf_writer =
  lastWasCR :: bool

definition new_crlf_writer :: crlf_writer where
  "new_crlf_writer = \<lparr>lastWasCR = False\<rparr>"

abbreviation LF :: char where "LF \<equiv> CHR 0x0A"
abbreviation CR :: char where "CR \<equiv> CHR 0x0D"

fun crlf_loop :: "crlf_writer \<Rightarrow> bytes \<Rightarrow> crlf_writer \<times> bytes" where
  "crlf_loop c [] = (c, [])"
| "crlf_loop c (b # p) =
     (let pre = (if b = LF \<and> \<not> lastWasCR c then [CR] else []);
          (c', buf) = crlf_loop (c\<lparr>lastWasCR := (b = CR)\<rparr>) p
      in (c', pre @ b # buf))"

text \<open>
  \<open>w\<close> is the wrapped writer's verdict on the single write it is given: \<open>Some e\<close>
  an error. The result is the writer's new state, what was handed to the wrapped writer, and
  the pair Go returns.
\<close>

definition crlf_write ::
  "(bytes \<Rightarrow> 'e option) \<Rightarrow> crlf_writer \<Rightarrow> bytes \<Rightarrow> crlf_writer \<times> bytes \<times> nat \<times> 'e option" where
  "crlf_write w c p =
     (let (c', buf) = crlf_loop c p in
      case w buf of
        Some err \<Rightarrow> (c', buf, 0, Some err)
      | None \<Rightarrow> (c', buf, length p, None))"

fun bare_lf :: "bool \<Rightarrow> bytes \<Rightarrow> bool" where
  "bare_lf cr [] = False"
| "bare_lf cr (b # p) = ((b = LF \<and> \<not> cr) \<or> bare_lf (b = CR) p)"

interpretation crlf: chunked crlf_loop "[]" "(@)"
proof
  show "crlf_loop s [] = (s, [])" for s by simp
  show "crlf_loop s (xs @ ys) =
    (let (s1, o1) = crlf_loop s xs; (s2, o2) = crlf_loop s1 ys in (s2, o1 @ o2))" for s xs ys
    by (induction xs arbitrary: s) (auto simp: Let_def split: prod.splits)
qed

lemma crlf_no_bare: "\<not> bare_lf (lastWasCR c) (snd (crlf_loop c p))"
proof (induction p arbitrary: c)
  case (Cons b p)
  from Cons [of "c\<lparr>lastWasCR := (b = CR)\<rparr>"] show ?case
    by (auto simp add: Let_def case_prod_beta)
qed simp

lemma crlf_identity: "\<not> bare_lf (lastWasCR c) p \<Longrightarrow> snd (crlf_loop c p) = p"
proof (induction p arbitrary: c)
  case (Cons b p)
  then show ?case
    using Cons.IH [of "c\<lparr>lastWasCR := (b = CR)\<rparr>"] by (simp add: Let_def case_prod_beta)
qed simp

fun count_bare :: "bool \<Rightarrow> bytes \<Rightarrow> nat" where
  "count_bare cr [] = 0"
| "count_bare cr (b # p) = (if b = LF \<and> \<not> cr then 1 else 0) + count_bare (b = CR) p"

lemma crlf_length: "length (snd (crlf_loop c p)) = length p + count_bare (lastWasCR c) p"
  by (induction p arbitrary: c) (auto simp: Let_def case_prod_beta)

lemma crlf_subseq: "subseq p (snd (crlf_loop c p))"
  by (induction p arbitrary: c) (auto simp: Let_def case_prod_beta)

section \<open>Properties\<close>

text \<open>however a text is cut into writes, what reaches the raw terminal has no bare line
  feed, contains the text in order, and is longer by exactly one byte per bare line feed of the
  text, so a text that already uses carriage return, line feed passes unchanged.\<close>

theorem crlf_stream:
  "let out = snd (run_chunks crlf_loop [] (@) new_crlf_writer cs) in
     \<not> bare_lf False out \<and> subseq (concat cs) out \<and>
     length out = length (concat cs) + count_bare False (concat cs)"
  using crlf_no_bare [of new_crlf_writer "concat cs"] crlf_length [of new_crlf_writer "concat cs"]
  by (simp add: crlf.run_concat crlf_subseq new_crlf_writer_def)

lemma crlf_write_reports:
  "crlf_write w c p = (c', buf, n, err) \<Longrightarrow> buf = snd (crlf_loop c p) \<and> n \<le> length p \<and> (err = None \<longrightarrow> n = length p)"
  by (auto simp: crlf_write_def split: prod.splits option.splits)

end
