(* ===== verification/EscapeKey.thy ===== *)
theory EscapeKey
  imports Prelude
begin

text \<open>
  \<open>internal/console/escape.go\<close>: the reader that ends a guest console when it sees
  Ctrl+A followed by X. \<open>escape_scan\<close> is the loop over the bytes one underlying read
  returned (\<open>None\<close> when the loop leaves through the match), \<open>escape_read\<close> the
  whole \<open>Read\<close>, \<open>escape_reads\<close> a sequence of reads. The wrapped reader's answer
  is an argument: the bytes it returned and its error.
\<close>

datatype read_error = EOF | ReadErr gostring

record escape_reader =
  er_pending :: bool
  er_done :: bool

definition new_escape_reader :: escape_reader where
  "new_escape_reader = \<lparr>er_pending = False, er_done = False\<rparr>"

definition EscapeHint :: gostring where "EscapeHint = ''Ctrl+A X: disconnect''"

definition escapeByte :: char where "escapeByte = CHR 0x01"
definition escapeKeyUp :: char where "escapeKeyUp = CHR ''X''"
definition escapeKeyLo :: char where "escapeKeyLo = CHR ''x''"

fun escape_scan :: "bool \<Rightarrow> bytes \<Rightarrow> bool option" where
  "escape_scan pending [] = Some pending"
| "escape_scan pending (b # p) =
     (if pending then
        (if b = escapeKeyUp \<or> b = escapeKeyLo then None
         else escape_scan (b = escapeByte) p)
      else if b = escapeByte then escape_scan True p
      else escape_scan pending p)"

definition escape_read ::
  "escape_reader \<Rightarrow> bytes \<times> read_error option \<Rightarrow> escape_reader \<times> bytes \<times> read_error option \<times> bool"
where
  "escape_read e r =
     (if er_done e then (e, [], Some EOF, False)
      else case escape_scan (er_pending e) (fst r) of
        None \<Rightarrow> (e\<lparr>er_done := True\<rparr>, [], Some EOF, True)
      | Some pd \<Rightarrow> (e\<lparr>er_pending := pd\<rparr>, fst r, snd r, False))"

text \<open>Successive reads: the state, everything forwarded, and how often the hook ran.\<close>

fun escape_reads ::
  "escape_reader \<Rightarrow> (bytes \<times> read_error option) list \<Rightarrow> escape_reader \<times> bytes \<times> nat" where
  "escape_reads e [] = (e, [], 0)"
| "escape_reads e (r # rs) =
     (let (e1, out, err, fired) = escape_read e r;
          (e2, outs, n) = escape_reads e1 rs
      in (e2, out @ outs, (if fired then 1 else 0) + n))"

text \<open>What the user typed: Ctrl+A immediately followed by an X of either case.\<close>

definition typed_escape :: "bytes \<Rightarrow> bool" where
  "typed_escape s = (\<exists>u v k. s = u @ escapeByte # k # v \<and> k \<in> {escapeKeyUp, escapeKeyLo})"

lemmas escape_bytes = escapeByte_def escapeKeyUp_def escapeKeyLo_def

lemma typed_escape_Nil [simp]: "\<not> typed_escape []"
  by (simp add: typed_escape_def)

lemma typed_escape_Cons:
  "typed_escape (b # s) \<longleftrightarrow>
     (b = escapeByte \<and> s \<noteq> [] \<and> hd s \<in> {escapeKeyUp, escapeKeyLo}) \<or> typed_escape s"
  unfolding typed_escape_def
  by (auto simp: Cons_eq_append_conv neq_Nil_conv) blast+

lemma escape_scan_None:
  "escape_scan pd s = None \<longleftrightarrow>
     typed_escape (if pd then escapeByte # s else s)"
  by (induction pd s rule: escape_scan.induct)
     (auto simp: typed_escape_Cons escape_bytes split: if_splits)

lemma escape_scan_append:
  "escape_scan pd (xs @ ys) =
     (case escape_scan pd xs of None \<Rightarrow> None | Some pd' \<Rightarrow> escape_scan pd' ys)"
  by (induction pd xs rule: escape_scan.induct) auto

lemma escape_reads_done: "er_done e \<Longrightarrow> escape_reads e rs = (e, [], 0)"
  by (induction rs) (auto simp: escape_read_def)

lemma escape_reads_scan:
  assumes "\<not> er_done e"
  shows "snd (snd (escape_reads e rs)) =
           (if escape_scan (er_pending e) (concat (map fst rs)) = None then 1 else 0)"
    and "escape_scan (er_pending e) (concat (map fst rs)) \<noteq> None \<Longrightarrow>
           fst (snd (escape_reads e rs)) = concat (map fst rs)"
  using assms
proof (induction rs arbitrary: e)
  case (Cons r rs)
  {
    case 1
    show ?case
      using Cons.IH(1) [of "fst (escape_read e r)"] 1
      by (auto simp: escape_read_def escape_scan_append escape_reads_done
            split: option.splits prod.splits)
  next
    case 2
    then show ?case
      using Cons.IH(2) [of "fst (escape_read e r)"]
      by (auto simp: escape_read_def escape_scan_append escape_reads_done
            split: option.splits prod.splits)
  }
qed auto

section \<open>Properties\<close>

lemma escape_reads_ends_done:
  "er_done (fst (escape_reads e rs)) \<longleftrightarrow> er_done e \<or> snd (snd (escape_reads e rs)) \<noteq> 0"
proof (induction rs arbitrary: e)
  case (Cons r rs)
  show ?case
    using Cons.IH [of "fst (escape_read e r)"]
    by (auto simp: case_prod_beta Let_def escape_read_def escape_reads_done split: option.splits)
qed simp

text \<open>over any sequence of reads the hook runs exactly once if the stream contains Ctrl+A
  followed by X, even when the two arrive in different reads, and never otherwise; in the latter
  case every byte is forwarded unchanged, and in the former every later read is at its end.\<close>

theorem escape_fires_once:
  "let s = concat (map fst rs); (e, out, n) = escape_reads new_escape_reader rs in
     if typed_escape s then n = 1 \<and> er_done e \<and> escape_reads e later = (e, [], 0)
     else n = 0 \<and> out = s \<and> \<not> er_done e"
  using escape_reads_scan [of new_escape_reader rs] escape_reads_ends_done [of new_escape_reader rs]
  by (auto simp: escape_scan_None new_escape_reader_def escape_reads_done Let_def split: prod.splits)

end
