(* ===== verification/ModeFilter.thy ===== *)
theory ModeFilter
  imports Prelude
begin

text \<open>
  \<open>internal/console/modefilter.go\<close>: the observer of a guest's output stream that
  decides when the status bar must hide, repaint or reinstall its scroll region. The state is
  the \<open>mode_filter\<close> record, field by field the Go struct (its clock is the
  \<open>now\<close> argument, one reading per call). Bytes are chars, so the sequences read as in
  the source.
\<close>

abbreviation ESC :: char where "ESC \<equiv> CHR 0x1B"

record mode_filter =
  altScreen :: bool
  mf_partial :: bytes
  mf_reset :: bool
  cursorSaved :: bool
  cursorSavedAt :: time
  regionLost :: bool
  originMode :: bool
  leftAltScreen :: bool

definition new_mode_filter :: mode_filter where
  "new_mode_filter = \<lparr>altScreen = False, mf_partial = [], mf_reset = False,
     cursorSaved = False, cursorSavedAt = 0, regionLost = False, originMode = False,
     leftAltScreen = False\<rparr>"

definition TakeLeftAltScreen :: "mode_filter \<Rightarrow> mode_filter \<times> bool" where
  "TakeLeftAltScreen m = (m\<lparr>leftAltScreen := False\<rparr>, leftAltScreen m)"

definition TakeRegionLost :: "mode_filter \<Rightarrow> mode_filter \<times> bool" where
  "TakeRegionLost m = (m\<lparr>regionLost := False\<rparr>, regionLost m)"

definition TakeReset :: "mode_filter \<Rightarrow> mode_filter \<times> bool" where
  "TakeReset m = (m\<lparr>mf_reset := False\<rparr>, mf_reset m)"

definition OriginMode :: "mode_filter \<Rightarrow> bool" where "OriginMode m = originMode m"

definition AltScreen :: "mode_filter \<Rightarrow> bool" where "AltScreen m = altScreen m"

text \<open>\<open>time.Second\<close>, in nanoseconds.\<close>

definition maxCursorHold :: time where "maxCursorHold = 1000000000"

definition CursorSaved :: "time \<Rightarrow> mode_filter \<Rightarrow> mode_filter \<times> bool" where
  "CursorSaved now m =
     (if \<not> cursorSaved m then (m, False)
      else if now - cursorSavedAt m \<ge> maxCursorHold then (m\<lparr>cursorSaved := False\<rparr>, False)
      else (m, True))"

section \<open>Classifying one sequence\<close>

definition isSetScrollRegion :: "bytes \<Rightarrow> bool" where
  "isSetScrollRegion seq = (length seq \<ge> 3 \<and> seq ! 1 = CHR ''['' \<and> last seq = CHR ''r''
     \<and> seq ! 2 \<noteq> CHR ''?'')"

text \<open>The parameters between the introducer and the final byte: \<open>seq[2:len(seq)-1]\<close>.\<close>

definition csi_params :: "bytes \<Rightarrow> bytes" where
  "csi_params seq = drop 2 (butlast seq)"

text \<open>
  The loop both mode parsers run over the parameter list: the private marker is carried from
  the parameter that has it to every later one, and the first private parameter in
  \<open>wanted\<close> decides.
\<close>

fun param_loop :: "bytes list \<Rightarrow> bool \<Rightarrow> bytes list \<Rightarrow> bool" where
  "param_loop wanted private [] = False"
| "param_loop wanted private (param # ps) =
     (let marked = (param \<noteq> [] \<and> hd param = CHR ''?'');
          private = (private \<or> marked);
          param = (if marked then tl param else param)
      in if \<not> private then param_loop wanted private ps
         else if param \<in> set wanted then True
         else param_loop wanted private ps)"

definition parse_mode :: "bytes list \<Rightarrow> bytes \<Rightarrow> bool \<times> bool" where
  "parse_mode wanted seq =
     (if length seq < 4 \<or> seq ! 1 \<noteq> CHR ''['' then (False, False)
      else let final = last seq in
        if final \<noteq> CHR ''h'' \<and> final \<noteq> CHR ''l'' then (False, False)
        else if param_loop wanted False (go_split CHR '';'' (csi_params seq))
             then (final = CHR ''h'', True)
             else (False, False))"

definition parseOriginMode :: "bytes \<Rightarrow> bool \<times> bool" where
  "parseOriginMode = parse_mode [''6'']"

definition parseAltScreen :: "bytes \<Rightarrow> bool \<times> bool" where
  "parseAltScreen = parse_mode [''47'', ''1047'', ''1049'']"

definition isCursorSave :: "bytes \<Rightarrow> bool" where
  "isCursorSave seq =
     ((length seq = 2 \<and> seq ! 0 = ESC \<and> seq ! 1 = CHR ''7'') \<or>
      (length seq = 3 \<and> seq ! 1 = CHR ''['' \<and> seq ! 2 = CHR ''s''))"

definition isCursorRestore :: "bytes \<Rightarrow> bool" where
  "isCursorRestore seq =
     ((length seq = 2 \<and> seq ! 0 = ESC \<and> seq ! 1 = CHR ''8'') \<or>
      (length seq = 3 \<and> seq ! 1 = CHR ''['' \<and> seq ! 2 = CHR ''u''))"

definition isFullReset :: "bytes \<Rightarrow> bool" where
  "isFullReset seq = (length seq = 2 \<and> seq ! 0 = ESC \<and> seq ! 1 = CHR ''c'')"

definition erasesBarRow :: "bytes \<Rightarrow> bool" where
  "erasesBarRow seq =
     (if length seq < 3 \<or> seq ! 1 \<noteq> CHR ''['' then False
      else if last seq \<noteq> CHR ''J'' then False
      else csi_params seq \<in> set ['''', ''0'', ''2'', ''3''])"

section \<open>Framing\<close>

fun csi_end :: "bytes \<Rightarrow> nat \<Rightarrow> nat option" where
  "csi_end [] i = None"
| "csi_end (c # cs) i =
     (if (code c \<ge> 0x30 \<and> code c \<le> 0x3F) \<or> (code c \<ge> 0x20 \<and> code c \<le> 0x2F)
      then csi_end cs (Suc i)
      else if code c \<ge> 0x40 \<and> code c \<le> 0x7E then Some (Suc i)
      else Some (Suc i))"

definition scanEscape :: "bytes \<Rightarrow> (bytes \<times> nat) option" where
  "scanEscape b =
     (if length b < 2 then None
      else if b ! 1 \<noteq> CHR ''['' then Some (take 2 b, 2)
      else case csi_end (drop 2 b) 2 of
        None \<Rightarrow> None
      | Some n \<Rightarrow> Some (take n b, n))"

definition maxPartialEscape :: nat where "maxPartialEscape = 64"

section \<open>Observe\<close>

text \<open>The switch over one complete sequence: the new state and whether to redraw.\<close>

definition apply_seq :: "time \<Rightarrow> mode_filter \<Rightarrow> bytes \<Rightarrow> mode_filter \<times> bool" where
  "apply_seq now m seq =
     (let (alt, ok) = parseAltScreen seq in
      if ok then
        (if alt \<noteq> altScreen m then
           (let m = (if \<not> alt then m\<lparr>leftAltScreen := True\<rparr> else m)
            in (m\<lparr>altScreen := alt\<rparr>, True))
         else (m, False))
      else if isSetScrollRegion seq then (m\<lparr>regionLost := True\<rparr>, True)
      else if isFullReset seq then
        (m\<lparr>mf_reset := True, altScreen := False, cursorSaved := False, originMode := False\<rparr>, True)
      else if isCursorSave seq then (m\<lparr>cursorSaved := True, cursorSavedAt := now\<rparr>, False)
      else if isCursorRestore seq then
        (if cursorSaved m then (m\<lparr>cursorSaved := False\<rparr>, True) else (m, False))
      else if erasesBarRow seq then (m, True)
      else let (origin, ok) = parseOriginMode seq in
        if ok \<and> origin \<noteq> originMode m then (m\<lparr>originMode := origin\<rparr>, True)
        else (m, False))"

lemma csi_end_bounds: "csi_end cs i = Some n \<Longrightarrow> i < n \<and> n \<le> i + length cs"
  by (induction cs i rule: csi_end.induct) (auto split: if_splits)

lemma scanEscape_bounds:
  "scanEscape b = Some (seq, n) \<Longrightarrow> 2 \<le> n \<and> n \<le> length b \<and> seq = take n b"
  by (auto simp: scanEscape_def split: if_splits option.splits dest!: csi_end_bounds)

function observe_loop :: "time \<Rightarrow> mode_filter \<Rightarrow> bytes \<Rightarrow> bool \<Rightarrow> mode_filter \<times> bool" where
  "observe_loop now m [] redraw = (m, redraw)"
| "observe_loop now m (b # bs) redraw =
     (if b \<noteq> ESC then observe_loop now m bs redraw
      else case scanEscape (b # bs) of
        None \<Rightarrow>
          (if length (b # bs) \<le> maxPartialEscape then (m\<lparr>mf_partial := b # bs\<rparr>, redraw)
           else (m, redraw))
      | Some (seq, n) \<Rightarrow>
          (let (m', rd) = apply_seq now m seq
           in observe_loop now m' (drop n (b # bs)) (redraw \<or> rd)))"
  by pat_completeness auto
termination
  by (relation "measure (\<lambda>(now, m, buf, redraw). length buf)")
     (auto dest!: scanEscape_bounds)

definition Observe :: "time \<Rightarrow> mode_filter \<Rightarrow> bytes \<Rightarrow> mode_filter \<times> bool" where
  "Observe now m p = observe_loop now (m\<lparr>mf_partial := []\<rparr>) (mf_partial m @ p) False"

section \<open>Parameter lists\<close>

definition marked :: "bytes \<Rightarrow> bool" where
  "marked p = (p \<noteq> [] \<and> hd p = CHR ''?'')"

definition unmark :: "bytes \<Rightarrow> bytes" where
  "unmark p = (if marked p then tl p else p)"

text \<open>
  What a mode-setting sequence means: a wanted number is listed, at or after a parameter that
  carries the private marker.
\<close>

definition mode_listed :: "bytes list \<Rightarrow> bytes list \<Rightarrow> bool" where
  "mode_listed wanted ps =
     (\<exists>i<length ps. unmark (ps ! i) \<in> set wanted \<and> (\<exists>j\<le>i. marked (ps ! j)))"

lemma param_loop_Cons:
  "param_loop wanted private (p # ps) =
     (((private \<or> marked p) \<and> unmark p \<in> set wanted) \<or> param_loop wanted (private \<or> marked p) ps)"
  by (simp add: Let_def marked_def unmark_def)

declare param_loop.simps(2) [simp del]

lemma ex_less_Suc0: "(\<exists>i<Suc n. P i) \<longleftrightarrow> P 0 \<or> (\<exists>i<n. P (Suc i))"
  using less_Suc_eq_0_disj by auto

lemma ex_le_Suc0: "(\<exists>j\<le>Suc i. P j) \<longleftrightarrow> P 0 \<or> (\<exists>j\<le>i. P (Suc j))"
  by (metis Suc_le_mono le0 not0_implies_Suc)

lemma mode_listed_Cons:
  "mode_listed wanted (p # ps) \<longleftrightarrow>
     (if marked p then \<exists>q\<in>set (p # ps). unmark q \<in> set wanted else mode_listed wanted ps)"
  by (auto simp: mode_listed_def ex_less_Suc0 ex_le_Suc0 Bex_def in_set_conv_nth [of _ ps])

lemma param_loop_private: "param_loop wanted True ps \<longleftrightarrow> (\<exists>q\<in>set ps. unmark q \<in> set wanted)"
  by (induction ps) (auto simp: param_loop_Cons)

lemma param_loop_listed: "param_loop wanted False ps \<longleftrightarrow> mode_listed wanted ps"
proof (induction ps)
  case Nil
  show ?case by (simp add: mode_listed_def)
next
  case (Cons p ps)
  then show ?case by (auto simp: param_loop_Cons mode_listed_Cons param_loop_private)
qed

definition csi_seq :: "bytes list \<Rightarrow> char \<Rightarrow> bytes" where
  "csi_seq ps f = ESC # CHR ''['' # go_join '';'' ps @ [f]"

lemma csi_params_seq: "csi_params (csi_seq ps f) = go_join '';'' ps"
  by (simp add: csi_params_def csi_seq_def butlast_append)

lemma parse_mode_seq:
  assumes "ps \<noteq> []" "\<forall>p\<in>set ps. CHR '';'' \<notin> set p" "go_join '';'' ps \<noteq> []"
    and "f \<in> {CHR ''h'', CHR ''l''}"
  shows "parse_mode wanted (csi_seq ps f) =
           (if mode_listed wanted ps then (f = CHR ''h'', True) else (False, False))"
proof -
  have len: "\<not> length (csi_seq ps f) < 4"
    using assms(3) by (cases "go_join '';'' ps") (auto simp: csi_seq_def)
  have nth: "csi_seq ps f ! 1 = CHR ''[''" by (simp add: csi_seq_def)
  have lst: "last (csi_seq ps f) = f" by (simp add: csi_seq_def)
  show ?thesis
    using assms(4) unfolding parse_mode_def csi_params_seq
    by (auto simp: len nth lst go_split_join [OF assms(1,2)] param_loop_listed
             simp del: One_nat_def)
qed

section \<open>The pending tail and cuts in the stream\<close>

text \<open>The suffix of a buffer that is an unfinished escape sequence.\<close>

function pending_tail :: "bytes \<Rightarrow> bytes" where
  "pending_tail [] = []"
| "pending_tail (b # bs) =
     (if b \<noteq> ESC then pending_tail bs
      else case scanEscape (b # bs) of
        None \<Rightarrow> b # bs
      | Some (seq, n) \<Rightarrow> pending_tail (drop n (b # bs)))"
  by pat_completeness auto
termination
  by (relation "measure length") (auto dest!: scanEscape_bounds)

definition keep_tail :: "bytes \<Rightarrow> bytes" where
  "keep_tail t = (if length t \<le> maxPartialEscape then t else [])"

lemma scan_induct [case_names Nil Text Open Seq]:
  assumes "P []"
    and "\<And>b bs. b \<noteq> ESC \<Longrightarrow> P bs \<Longrightarrow> P (b # bs)"
    and "\<And>bs. scanEscape (ESC # bs) = None \<Longrightarrow> P (ESC # bs)"
    and "\<And>bs seq n. scanEscape (ESC # bs) = Some (seq, n) \<Longrightarrow> P (drop n (ESC # bs)) \<Longrightarrow> P (ESC # bs)"
  shows "P buf"
proof (induction buf rule: pending_tail.induct)
  case (2 b bs)
  show ?case
  proof (cases "b = ESC")
    case True
    show ?thesis
    proof (cases "scanEscape (b # bs)")
      case (Some sn)
      obtain seq n where sn: "sn = (seq, n)" by (cases sn)
      have "P (drop n (b # bs))" by (rule 2(2) [of sn seq n]) (use True Some sn in auto)
      then show ?thesis using assms(4) True Some sn by auto
    qed (use assms(3) True in auto)
  qed (use assms(2) 2 in auto)
qed (rule assms(1))

text \<open>The complete sequences of a buffer, and their effect one after the other.\<close>

function escape_seqs :: "bytes \<Rightarrow> bytes list" where
  "escape_seqs [] = []"
| "escape_seqs (b # bs) =
     (if b \<noteq> ESC then escape_seqs bs
      else case scanEscape (b # bs) of
        None \<Rightarrow> []
      | Some (seq, n) \<Rightarrow> seq # escape_seqs (drop n (b # bs)))"
  by pat_completeness auto
termination
  by (relation "measure length") (auto dest!: scanEscape_bounds)

fun apply_seqs :: "time \<Rightarrow> mode_filter \<Rightarrow> bytes list \<Rightarrow> mode_filter \<times> bool" where
  "apply_seqs now m [] = (m, False)"
| "apply_seqs now m (q # qs) =
     (let (m1, r1) = apply_seq now m q; (m2, r2) = apply_seqs now m1 qs in (m2, r1 \<or> r2))"

interpretation seqs: chunked "apply_seqs now" False "(\<or>)" for now
proof
  show "apply_seqs now s [] = (s, False)" for s by simp
  show "apply_seqs now s (xs @ ys) =
    (let (s1, o1) = apply_seqs now s xs; (s2, o2) = apply_seqs now s1 ys in (s2, o1 \<or> o2))" for s xs ys
    by (induction xs arbitrary: s) (auto split: prod.splits)
qed

lemma csi_end_append: "csi_end xs i = Some n \<Longrightarrow> csi_end (xs @ ys) i = Some n"
  by (induction xs i rule: csi_end.induct) (auto split: if_splits)

lemma scanEscape_append:
  assumes "scanEscape xs = Some (seq, n)"
  shows "scanEscape (xs @ ys) = Some (seq, n)"
proof -
  from assms have "2 \<le> length xs" "xs ! 1 = (xs @ ys) ! 1"
    by (auto simp: scanEscape_def nth_append split: if_splits)
  with assms show ?thesis
    by (auto simp: scanEscape_def csi_end_append split: if_splits option.splits
             dest!: csi_end_bounds dest: csi_end_append [of _ _ _ ys])
qed

lemma scan_drop_append:
  "scanEscape xs = Some (seq, n) \<Longrightarrow> drop n (xs @ ys) = drop n xs @ ys"
  using scanEscape_bounds by fastforce

lemma escape_seqs_append: "escape_seqs (xs @ ys) = escape_seqs xs @ escape_seqs (pending_tail xs @ ys)"
proof (induction xs rule: scan_induct)
  case (Seq bs seq n)
  then show ?case
    using scanEscape_append [OF Seq(1), of ys] scan_drop_append [OF Seq(1), of ys] by simp
qed simp_all

lemma pending_tail_append: "pending_tail (xs @ ys) = pending_tail (pending_tail xs @ ys)"
proof (induction xs rule: scan_induct)
  case (Seq bs seq n)
  then show ?case
    using scanEscape_append [OF Seq(1), of ys] scan_drop_append [OF Seq(1), of ys] by simp
qed simp_all

lemma apply_seq_partial: "mf_partial (fst (apply_seq now m seq)) = mf_partial m"
  by (simp add: apply_seq_def Let_def split: prod.splits)

lemma apply_seqs_partial: "mf_partial (fst (apply_seqs now m qs)) = mf_partial m"
  by (induction qs arbitrary: m)
     (auto simp: case_prod_beta apply_seq_partial)

lemma observe_loop_seqs:
  "mf_partial m = [] \<Longrightarrow>
   observe_loop now m buf rd =
     (let (m', r) = apply_seqs now m (escape_seqs buf)
      in (m'\<lparr>mf_partial := keep_tail (pending_tail buf)\<rparr>, rd \<or> r))"
proof (induction buf arbitrary: m rd rule: scan_induct)
  case (Seq bs seq n)
  obtain m' r' where app: "apply_seq now m seq = (m', r')" by (cases "apply_seq now m seq")
  have "mf_partial m' = []" using apply_seq_partial [of now m seq] app Seq.prems by simp
  from Seq.IH [OF this] Seq(1) app show ?case by (simp add: case_prod_beta Let_def)
qed (simp_all add: keep_tail_def)

lemma Observe_seqs:
  "Observe now m p =
     (let buf = mf_partial m @ p;
          (m', r) = apply_seqs now (m\<lparr>mf_partial := []\<rparr>) (escape_seqs buf)
      in (m'\<lparr>mf_partial := keep_tail (pending_tail buf)\<rparr>, r))"
  by (simp add: Observe_def observe_loop_seqs Let_def)

lemma pending_tail_scan:
  "pending_tail buf \<noteq> [] \<Longrightarrow> scanEscape (pending_tail buf) = None \<and> hd (pending_tail buf) = ESC"
  by (induction buf rule: scan_induct) auto

lemma escape_seqs_text: "ESC \<notin> set p \<Longrightarrow> escape_seqs p = [] \<and> pending_tail p = []"
  by (induction p) auto

lemma Observe_append:
  assumes "length (pending_tail (mf_partial m @ xs)) \<le> maxPartialEscape"
  shows "Observe now m (xs @ ys) =
           (let (m1, r1) = Observe now m xs; (m2, r2) = Observe now m1 ys in (m2, r1 \<or> r2))"
proof -
  let ?m = "m\<lparr>mf_partial := []\<rparr>" and ?b = "mf_partial m @ xs"
  obtain m1 r1 where 1: "apply_seqs now ?m (escape_seqs ?b) = (m1, r1)"
    by (cases "apply_seqs now ?m (escape_seqs ?b)")
  have p1: "m1\<lparr>mf_partial := []\<rparr> = m1"
    using apply_seqs_partial [of now ?m "escape_seqs ?b"] 1 by simp
  have t: "keep_tail (pending_tail ?b) = pending_tail ?b" using assms by (simp add: keep_tail_def)
  show ?thesis
    using escape_seqs_append [of ?b ys] pending_tail_append [of ?b ys] 1 p1 t
    by (simp add: Observe_seqs seqs.step_append Let_def case_prod_beta)
qed

section \<open>What a redraw report means\<close>

lemma apply_seq_quiet:
  "\<not> snd (apply_seq now m seq) \<Longrightarrow>
   (let m' = fst (apply_seq now m seq) in
     altScreen m' = altScreen m \<and> originMode m' = originMode m \<and> mf_reset m' = mf_reset m \<and>
     regionLost m' = regionLost m \<and> leftAltScreen m' = leftAltScreen m \<and>
     (cursorSaved m \<longrightarrow> cursorSaved m'))"
  by (auto simp: apply_seq_def Let_def split: prod.splits if_splits)

lemma apply_seqs_quiet:
  "\<not> snd (apply_seqs now m qs) \<Longrightarrow>
   (let m' = fst (apply_seqs now m qs) in
     altScreen m' = altScreen m \<and> originMode m' = originMode m \<and> mf_reset m' = mf_reset m \<and>
     regionLost m' = regionLost m \<and> leftAltScreen m' = leftAltScreen m \<and>
     (cursorSaved m \<longrightarrow> cursorSaved m'))"
proof (induction qs arbitrary: m)
  case (Cons q qs)
  then have "\<not> snd (apply_seq now m q)"
    and "\<not> snd (apply_seqs now (fst (apply_seq now m q)) qs)"
    by (simp_all add: case_prod_beta)
  with apply_seq_quiet Cons.IH show ?case by (simp add: case_prod_beta Let_def)
qed simp

section \<open>Properties\<close>

text \<open>the alternate-screen parser reports a change exactly when one of the three modes is
  listed at or after a parameter with the private marker, whatever else the list sets and in
  whatever order, and the direction is the final byte's.\<close>

theorem alt_screen_parameters:
  assumes "ps \<noteq> []" "\<forall>p\<in>set ps. CHR '';'' \<notin> set p" "go_join '';'' ps \<noteq> []"
    and "f \<in> {CHR ''h'', CHR ''l''}"
  shows "parseAltScreen (csi_seq ps f) =
           (if mode_listed [''47'', ''1047'', ''1049''] ps then (f = CHR ''h'', True)
            else (False, False))"
  unfolding parseAltScreen_def by (rule parse_mode_seq [OF assms])

lemma alt_screen_parameters_witness:
  "parseAltScreen (csi_seq [''?1000'', ''1049''] CHR ''h'') = (True, True)
   \<and> mode_listed [''47'', ''1047'', ''1049''] [''?1000'', ''1049'']"
proof -
  have l: "mode_listed [''47'', ''1047'', ''1049''] [''?1000'', ''1049'']"
    by (simp add: param_loop_listed [symmetric] param_loop_Cons marked_def unmark_def)
  show ?thesis
    using alt_screen_parameters [of "[''?1000'', ''1049'']" "CHR ''h''"] l by simp
qed

text \<open>C35: cutting the guest's output between two reads at any byte changes neither the state
  nor the redraw decision, as long as the sequence left open at the cut is at most 64 bytes.\<close>

theorem observe_cut:
  assumes "length (pending_tail (mf_partial m @ xs)) \<le> maxPartialEscape"
  shows "Observe now m (xs @ ys) =
           (let (m1, r1) = Observe now m xs; (m2, r2) = Observe now m1 ys in (m2, r1 \<or> r2))"
  by (rule Observe_append [OF assms])

lemma observe_cut_witness:
  "Observe 5 new_mode_filter (ESC # ''[?10'' @ ''49h'') =
     (let (m1, r1) = Observe 5 new_mode_filter (ESC # ''[?10'');
          (m2, r2) = Observe 5 m1 ''49h'' in (m2, r1 \<or> r2))
   \<and> altScreen (fst (Observe 5 new_mode_filter (ESC # ''[?10'' @ ''49h'')))"
proof -
  have t: "length (pending_tail (mf_partial new_mode_filter @ ESC # ''[?10'')) \<le> maxPartialEscape"
    by (simp add: new_mode_filter_def scanEscape_def maxPartialEscape_def)
  have "altScreen (fst (Observe 5 new_mode_filter (ESC # ''[?10'' @ ''49h'')))"
    by code_simp
  then show ?thesis using observe_cut [OF t, of 5 "''49h''"] by simp
qed

text \<open>an observation that reports no redraw changed none of the facts the status bar acts
  on: the screen in use, origin mode, and the three latches that force a reinstall; and it did
  not release the cursor slot.\<close>

theorem observe_quiet:
  assumes "\<not> snd (Observe now m p)"
  shows "let m' = fst (Observe now m p) in
     altScreen m' = altScreen m \<and> originMode m' = originMode m \<and> mf_reset m' = mf_reset m \<and>
     regionLost m' = regionLost m \<and> leftAltScreen m' = leftAltScreen m \<and>
     (cursorSaved m \<longrightarrow> cursorSaved m')"
  using assms apply_seqs_quiet [of now "m\<lparr>mf_partial := []\<rparr>" "escape_seqs (mf_partial m @ p)"]
  by (simp add: Observe_seqs Let_def case_prod_beta)

lemma observe_quiet_witness:
  "\<not> snd (Observe 0 new_mode_filter ''hi'') \<and>
   altScreen (fst (Observe 0 new_mode_filter ''hi'')) = altScreen new_mode_filter"
proof -
  have "\<not> snd (Observe 0 new_mode_filter ''hi'')" by code_simp
  with observe_quiet [OF this] show ?thesis by (simp add: Let_def)
qed

text \<open>A sequence that sets the alternate screen and origin mode together loses the latter.\<close>

lemma origin_mode_shadowed:
  "altScreen (fst (Observe 0 new_mode_filter (csi_seq [''?6'', ''1049''] CHR ''h'')))
   \<and> \<not> originMode (fst (Observe 0 new_mode_filter (csi_seq [''?6'', ''1049''] CHR ''h'')))"
  by code_simp

lemma partial_bounded:
  "length (mf_partial (fst (Observe now m p))) \<le> 64"
  by (simp add: Observe_seqs Let_def case_prod_beta keep_tail_def maxPartialEscape_def)

lemma cursor_hold_bounded:
  "snd (CursorSaved now m) \<longleftrightarrow> cursorSaved m \<and> now < cursorSavedAt m + maxCursorHold"
  by (auto simp: CursorSaved_def)

end
