(* ===== verification/GoText.thy ===== *)
theory GoText
  imports Prelude
begin

text \<open>
  The text functions of Go's standard library that the program relies on, on strings of
  bytes: UTF-8 decoding as \<open>range\<close> over a string and \<open>utf8.DecodeRune\<close> do it
  (an invalid byte is U+FFFD of width one), \<open>strconv.Itoa\<close> and \<open>strconv.Atoi\<close>,
  \<open>strings.TrimSpace\<close>, \<open>strings.ToLower\<close> and the index and prefix searches.
  Unicode tables beyond Latin-1 are parameters of the definitions that need them.
\<close>

section \<open>UTF-8\<close>

definition rune_error :: nat where "rune_error = 0xFFFD"

text \<open>Size and accepted range of the second byte, by first byte.\<close>

definition utf8_lead :: "nat \<Rightarrow> (nat \<times> nat \<times> nat) option" where
  "utf8_lead x =
     (if 0xC2 \<le> x \<and> x \<le> 0xDF then Some (2, 0x80, 0xBF)
      else if x = 0xE0 then Some (3, 0xA0, 0xBF)
      else if x = 0xED then Some (3, 0x80, 0x9F)
      else if 0xE1 \<le> x \<and> x \<le> 0xEF then Some (3, 0x80, 0xBF)
      else if x = 0xF0 then Some (4, 0x90, 0xBF)
      else if 0xF1 \<le> x \<and> x \<le> 0xF3 then Some (4, 0x80, 0xBF)
      else if x = 0xF4 then Some (4, 0x80, 0x8F)
      else None)"

text \<open>The continuation bytes: \<open>k\<close> of them, the first within \<open>lo..hi\<close>.\<close>

fun decode_tail :: "nat \<Rightarrow> nat \<Rightarrow> nat \<Rightarrow> nat \<Rightarrow> bytes \<Rightarrow> nat option" where
  "decode_tail acc lo hi 0 bs = Some acc"
| "decode_tail acc lo hi (Suc k) [] = None"
| "decode_tail acc lo hi (Suc k) (c # cs) =
     (if code c < lo \<or> hi < code c then None
      else decode_tail (acc * 64 + code c mod 64) 0x80 0xBF k cs)"

fun decode_rune :: "bytes \<Rightarrow> nat \<times> nat" where
  "decode_rune [] = (rune_error, 0)"
| "decode_rune (b # bs) =
     (if code b < 0x80 then (code b, 1)
      else case utf8_lead (code b) of
        None \<Rightarrow> (rune_error, 1)
      | Some (sz, lo, hi) \<Rightarrow>
          (case decode_tail (code b mod 2 ^ (7 - sz)) lo hi (sz - 1) bs of
             None \<Rightarrow> (rune_error, 1)
           | Some r \<Rightarrow> (r, sz)))"

lemma decode_tail_length: "decode_tail acc lo hi k bs = Some r \<Longrightarrow> k \<le> length bs"
  by (induction acc lo hi k bs rule: decode_tail.induct) (auto split: if_splits)

lemma decode_tail_append: "k \<le> length xs \<Longrightarrow> decode_tail acc lo hi k (xs @ ys) = decode_tail acc lo hi k xs"
  by (induction acc lo hi k xs rule: decode_tail.induct) auto

lemma decode_tail_ascii:
  "0x80 \<le> lo \<Longrightarrow> ys = [] \<or> code (hd ys) < 0x80 \<Longrightarrow> length xs < k \<Longrightarrow>
   decode_tail acc lo hi k (xs @ ys) = None"
proof (induction acc lo hi k xs rule: decode_tail.induct)
  case (2 acc lo hi k)
  then show ?case by (cases ys) auto
qed auto

lemma utf8_lead_range: "utf8_lead x = Some (sz, lo, hi) \<Longrightarrow> 2 \<le> sz \<and> 0x80 \<le> lo"
  by (auto simp: utf8_lead_def split: if_splits)

lemma decode_rune_size:
  "s \<noteq> [] \<Longrightarrow> 1 \<le> snd (decode_rune s) \<and> snd (decode_rune s) \<le> length s"
  by (cases s) (auto split: option.splits dest!: decode_tail_length utf8_lead_range)

lemma decode_rune_prefix:
  assumes "snd (decode_rune (xs @ ys)) \<le> length xs" "xs \<noteq> []"
  shows "decode_rune xs = decode_rune (xs @ ys)"
proof -
  obtain b bs where xs: "xs = b # bs" using assms by (cases xs) auto
  show ?thesis
  proof (cases "utf8_lead (code b)")
    case (Some t)
    obtain sz lo hi where t: "t = (sz, lo, hi)" by (cases t)
    let ?d = "\<lambda>bs. decode_tail (code b mod 2 ^ (7 - sz)) lo hi (sz - 1) bs"
    have "?d bs = ?d (bs @ ys)" if "\<not> code b < 0x80"
    proof (cases "sz - 1 \<le> length bs")
      case True
      then show ?thesis by (simp add: decode_tail_append)
    next
      case False
      then have "?d (bs @ ys) = None"
        using assms that Some t xs utf8_lead_range [of "code b" sz lo hi]
        by (auto split: option.splits)
      moreover have "?d bs = None" using False decode_tail_length by fastforce
      ultimately show ?thesis by simp
    qed
    then show ?thesis using xs Some t by simp
  qed (simp add: xs)
qed

lemma decode_rune_before_ascii:
  assumes "xs \<noteq> []" "ys = [] \<or> code (hd ys) < 0x80"
  shows "decode_rune (xs @ ys) = decode_rune xs"
proof (rule sym, rule decode_rune_prefix)
  obtain b bs where xs: "xs = b # bs" using assms by (cases xs) auto
  show "snd (decode_rune (xs @ ys)) \<le> length xs"
  proof (rule ccontr)
    assume *: "\<not> ?thesis"
    then obtain sz lo hi r where r: "utf8_lead (code b) = Some (sz, lo, hi)"
      "decode_tail (code b mod 2 ^ (7 - sz)) lo hi (sz - 1) (bs @ ys) = Some r" "Suc (length bs) < sz"
      using xs by (auto split: option.splits if_splits)
    then have "decode_tail (code b mod 2 ^ (7 - sz)) lo hi (sz - 1) (bs @ ys) = None"
      using assms(2) utf8_lead_range [OF r(1)] by (intro decode_tail_ascii) auto
    with r show False by simp
  qed
qed (use assms in simp)

text \<open>The runes of a string with the bytes each was decoded from.\<close>

function segments :: "bytes \<Rightarrow> (nat \<times> bytes) list" where
  "segments [] = []"
| "segments (b # bs) =
     (let (r, n) = decode_rune (b # bs)
      in (r, take n (b # bs)) # segments (drop n (b # bs)))"
  by pat_completeness auto
termination
proof (relation "measure length", goal_cases)
  case (2 b bs x r n)
  then have "1 \<le> n" using decode_rune_size [of "b # bs"] by (metis list.distinct(1) snd_conv)
  then show ?case by simp
qed simp

definition runes :: "bytes \<Rightarrow> nat list" where
  "runes s = map fst (segments s)"

lemma segments_concat: "concat (map snd (segments s)) = s"
  by (induction s rule: segments.induct) (auto split: prod.splits)

lemma segments_ascii: "code b < 0x80 \<Longrightarrow> segments (b # bs) = (code b, [b]) # segments bs"
  by simp

lemma segments_step:
  "s \<noteq> [] \<Longrightarrow> decode_rune s = (r, n) \<Longrightarrow>
   segments s = (r, take n s) # segments (drop n s)"
  by (cases s) (simp_all del: decode_rune.simps)

lemma segments_append_ascii:
  "ys = [] \<or> code (hd ys) < 0x80 \<Longrightarrow> segments (xs @ ys) = segments xs @ segments ys"
proof (induction xs rule: length_induct)
  case (1 xs)
  show ?case
  proof (cases "xs = []")
    case False
    obtain r n where d: "decode_rune xs = (r, n)" by (cases "decode_rune xs")
    have n: "1 \<le> n" "n \<le> length xs" using decode_rune_size [of xs] d False by auto
    have d2: "decode_rune (xs @ ys) = (r, n)"
      using decode_rune_before_ascii [of xs ys] 1 d False by simp
    have "segments (drop n xs @ ys) = segments (drop n xs) @ segments ys"
      using 1 n False by simp
    then show ?thesis
      using segments_step [OF False d] segments_step [OF _ d2] n False by simp
  qed simp
qed

lemma segments_take_prefix:
  "segments s = segs1 @ segs2 \<Longrightarrow> segments (concat (map snd segs1)) = segs1"
proof (induction segs1 arbitrary: s)
  case (Cons sg segs1)
  then have s: "s \<noteq> []" by (cases s) auto
  obtain r n where d: "decode_rune s = (r, n)" by (cases "decode_rune s")
  have n: "1 \<le> n" "n \<le> length s" using decode_rune_size [of s] d s by auto
  have sg: "sg = (r, take n s)" and rest: "segments (drop n s) = segs1 @ segs2"
    using Cons.prems segments_step [OF s d] by auto
  have IH: "segments (concat (map snd segs1)) = segs1" using Cons.IH [OF rest] .
  have "drop n s = concat (map snd (segs1 @ segs2))"
    using segments_concat [of "drop n s"] rest by simp
  then have s2: "s = (take n s @ concat (map snd segs1)) @ concat (map snd segs2)"
    by (metis append.assoc append_take_drop_id concat_append map_append)
  let ?p = "take n s @ concat (map snd segs1)"
  have ne: "?p \<noteq> []" using n s by (cases n) auto
  have "decode_rune ?p = decode_rune (?p @ concat (map snd segs2))"
    using s2 d n ne by (intro decode_rune_prefix) (simp_all add: min_def)
  then have dp: "decode_rune ?p = (r, n)" using s2 d by simp
  show ?case using segments_step [OF ne dp] sg IH n by simp
qed simp

section \<open>Decimal numbers\<close>

definition digit_char :: "nat \<Rightarrow> char" where
  "digit_char d = ''0123456789'' ! d"

definition is_digit :: "char \<Rightarrow> bool" where
  "is_digit c = (48 \<le> code c \<and> code c \<le> 57)"

fun nat_digits :: "nat \<Rightarrow> gostring" where
  "nat_digits n =
     (if n < 10 then [digit_char n] else nat_digits (n div 10) @ [digit_char (n mod 10)])"

declare nat_digits.simps [simp del]

definition itoa :: "int \<Rightarrow> gostring" where
  "itoa i = (if i < 0 then CHR ''-'' # nat_digits (nat (- i)) else nat_digits (nat i))"

definition digits_value :: "gostring \<Rightarrow> nat" where
  "digits_value s = foldl (\<lambda>n c. n * 10 + (code c - 48)) 0 s"

text \<open>
  \<open>strconv.Atoi\<close> on a 64-bit platform: an optional sign, at least one digit, and a
  range error beyond int64.
\<close>

definition atoi_digits :: "int \<Rightarrow> gostring \<Rightarrow> int option" where
  "atoi_digits sign ds =
     (if ds = [] \<or> \<not> list_all is_digit ds then None
      else let v = sign * int (digits_value ds)
           in if - (2 ^ 63) \<le> v \<and> v < 2 ^ 63 then Some v else None)"

definition atoi :: "gostring \<Rightarrow> int option" where
  "atoi s =
     (if s \<noteq> [] \<and> hd s = CHR ''-'' then atoi_digits (- 1) (tl s)
      else if s \<noteq> [] \<and> hd s = CHR ''+'' then atoi_digits 1 (tl s)
      else atoi_digits 1 s)"

lemma less_10_cases:
  "(d::nat) < 10 \<Longrightarrow> d = 0 \<or> d = 1 \<or> d = 2 \<or> d = 3 \<or> d = 4 \<or> d = 5 \<or> d = 6 \<or> d = 7 \<or> d = 8 \<or> d = 9"
  by presburger

lemma code_digit_char: "d < 10 \<Longrightarrow> code (digit_char d) = 48 + d"
  using less_10_cases [of d] by (auto simp: digit_char_def)

lemma digit_char_is_digit: "d < 10 \<Longrightarrow> is_digit (digit_char d)"
  by (simp add: is_digit_def code_digit_char)

lemma nat_digits_all_digits: "list_all is_digit (nat_digits n)"
proof (induction n rule: nat_digits.induct)
  case (1 n)
  then show ?case by (subst nat_digits.simps) (auto simp: digit_char_is_digit)
qed

lemma nat_digits_not_Nil [simp]: "nat_digits n \<noteq> []"
  by (subst nat_digits.simps) simp

lemma digits_value_nat_digits [simp]: "digits_value (nat_digits n) = n"
proof (induction n rule: nat_digits.induct)
  case (1 n)
  then show ?case
    by (subst nat_digits.simps) (auto simp: digits_value_def code_digit_char)
qed

lemma nat_digits_hd: "is_digit (hd (nat_digits n))"
  using nat_digits_all_digits [of n] by (cases "nat_digits n") auto

lemma nat_digits_inj: "nat_digits m = nat_digits n \<Longrightarrow> m = n"
  by (metis digits_value_nat_digits)

lemma is_digit_not_sign: "is_digit c \<Longrightarrow> c \<noteq> CHR ''-'' \<and> c \<noteq> CHR ''+''"
  by (auto simp: is_digit_def)

lemma atoi_itoa: "- (2 ^ 63) \<le> i \<Longrightarrow> i < 2 ^ 63 \<Longrightarrow> atoi (itoa i) = Some i"
  using nat_digits_all_digits is_digit_not_sign [OF nat_digits_hd]
  by (auto simp: atoi_def itoa_def atoi_digits_def)

lemma itoa_inj: "itoa i = itoa j \<longleftrightarrow> i = j"
proof
  assume "itoa i = itoa j"
  then show "i = j"
    using is_digit_not_sign [OF nat_digits_hd [of "nat i"]] is_digit_not_sign [OF nat_digits_hd [of "nat j"]]
    by (auto simp: itoa_def dest!: nat_digits_inj split: if_splits)
       (metis list.sel(1))+
qed simp

section \<open>Case and space\<close>

definition is_ascii :: "bytes \<Rightarrow> bool" where
  "is_ascii s = list_all (\<lambda>c. code c < 0x80) s"

definition ascii_lower :: "char \<Rightarrow> char" where
  "ascii_lower c =
     (if 65 \<le> code c \<and> code c \<le> 90 then ''abcdefghijklmnopqrstuvwxyz'' ! (code c - 65) else c)"

lemma itoa_chars: "list_all (\<lambda>c. is_digit c \<or> c = CHR ''-'') (itoa i)"
  using nat_digits_all_digits by (auto simp: itoa_def list_all_iff)

lemma is_digit_ascii: "is_digit c \<Longrightarrow> code c < 0x80"
  by (simp add: is_digit_def)

lemma itoa_ascii: "is_ascii (itoa i)"
  using itoa_chars [of i] by (auto simp: is_ascii_def list_all_iff dest: is_digit_ascii)

text \<open>\<open>strings.ToLower\<close>; \<open>U\<close> is its Unicode half, used when a byte is not ASCII.\<close>

definition to_lower :: "(bytes \<Rightarrow> bytes) \<Rightarrow> bytes \<Rightarrow> bytes" where
  "to_lower U s = (if is_ascii s then map ascii_lower s else U s)"

text \<open>\<open>strings.EqualFold\<close>, likewise.\<close>

definition equal_fold :: "(bytes \<Rightarrow> bytes \<Rightarrow> bool) \<Rightarrow> bytes \<Rightarrow> bytes \<Rightarrow> bool" where
  "equal_fold U s t =
     (if is_ascii s \<and> is_ascii t then map ascii_lower s = map ascii_lower t else U s t)"

text \<open>The UTF-8 encodings of the runes \<open>unicode.IsSpace\<close> accepts.\<close>

definition space_encs :: "bytes list" where
  "space_encs =
     [[CHR 0x20], [CHR 0x09], [CHR 0x0A], [CHR 0x0B], [CHR 0x0C], [CHR 0x0D],
      [CHR 0xC2, CHR 0x85], [CHR 0xC2, CHR 0xA0], [CHR 0xE1, CHR 0x9A, CHR 0x80],
      [CHR 0xE2, CHR 0x80, CHR 0x80], [CHR 0xE2, CHR 0x80, CHR 0x81],
      [CHR 0xE2, CHR 0x80, CHR 0x82], [CHR 0xE2, CHR 0x80, CHR 0x83],
      [CHR 0xE2, CHR 0x80, CHR 0x84], [CHR 0xE2, CHR 0x80, CHR 0x85],
      [CHR 0xE2, CHR 0x80, CHR 0x86], [CHR 0xE2, CHR 0x80, CHR 0x87],
      [CHR 0xE2, CHR 0x80, CHR 0x88], [CHR 0xE2, CHR 0x80, CHR 0x89],
      [CHR 0xE2, CHR 0x80, CHR 0x8A], [CHR 0xE2, CHR 0x80, CHR 0xA8],
      [CHR 0xE2, CHR 0x80, CHR 0xA9], [CHR 0xE2, CHR 0x80, CHR 0xAF],
      [CHR 0xE2, CHR 0x81, CHR 0x9F], [CHR 0xE3, CHR 0x80, CHR 0x80]]"

definition has_prefix :: "'a list \<Rightarrow> 'a list \<Rightarrow> bool" where
  "has_prefix p s = (take (length p) s = p)"

definition has_suffix :: "'a list \<Rightarrow> 'a list \<Rightarrow> bool" where
  "has_suffix p s = has_prefix (rev p) (rev s)"

definition trim_prefix :: "'a list \<Rightarrow> 'a list \<Rightarrow> 'a list" where
  "trim_prefix p s = (if has_prefix p s then drop (length p) s else s)"

fun strip_left :: "bytes list \<Rightarrow> bytes \<Rightarrow> bytes" where
  "strip_left encs [] = []"
| "strip_left encs (c # s) =
     (case find (\<lambda>e. has_prefix e (c # s)) encs of
        None \<Rightarrow> c # s
      | Some e \<Rightarrow> strip_left encs (drop (length e - 1) s))"

definition trim_space :: "bytes \<Rightarrow> bytes" where
  "trim_space s =
     rev (strip_left (map rev space_encs) (rev (strip_left space_encs s)))"

text \<open>\<open>strings.Fields\<close>.\<close>

definition go_fields :: "bytes \<Rightarrow> bytes list" where
  "go_fields s =
     (let step = (\<lambda>(r, b) (ws, cur).
            if b \<in> set space_encs then (if cur = [] then (ws, []) else (ws @ [cur], []))
            else (ws, cur @ b));
          (ws, cur) = fold step (segments s) ([], [])
      in if cur = [] then ws else ws @ [cur])"

fun go_contains :: "'a list \<Rightarrow> 'a list \<Rightarrow> bool" where
  "go_contains sub [] = (sub = [])"
| "go_contains sub (c # s) = (has_prefix sub (c # s) \<or> go_contains sub s)"

text \<open>\<open>strings.Cut\<close> at the first separator byte and the position of the last one.\<close>

fun go_cut :: "'a \<Rightarrow> 'a list \<Rightarrow> 'a list \<times> 'a list \<times> bool" where
  "go_cut sep [] = ([], [], False)"
| "go_cut sep (c # s) =
     (if c = sep then ([], s, True)
      else let (a, b, ok) = go_cut sep s in (c # a, b, ok))"

fun last_index :: "'a \<Rightarrow> 'a list \<Rightarrow> nat option" where
  "last_index c [] = None"
| "last_index c (x # xs) =
     (case last_index c xs of
        Some i \<Rightarrow> Some (Suc i)
      | None \<Rightarrow> if x = c then Some 0 else None)"

lemma has_prefix_iff: "has_prefix p s \<longleftrightarrow> (\<exists>t. s = p @ t)"
  by (metis append_eq_conv_conj append_take_drop_id has_prefix_def)

lemma go_contains_iff: "go_contains sub s \<longleftrightarrow> (\<exists>u v. s = u @ sub @ v)"
proof (induction s)
  case (Cons c s)
  show ?case
  proof
    assume "go_contains sub (c # s)"
    then consider t where "c # s = sub @ t" | u v where "s = u @ sub @ v"
      using Cons by (auto simp: has_prefix_iff)
    then show "\<exists>u v. c # s = u @ sub @ v"
    proof cases
      case 1
      then have "c # s = [] @ sub @ t" by simp
      then show ?thesis by blast
    next
      case 2
      then have "c # s = (c # u) @ sub @ v" by simp
      then show ?thesis by blast
    qed
  next
    assume "\<exists>u v. c # s = u @ sub @ v"
    then obtain u v where "c # s = u @ sub @ v" by blast
    then have "has_prefix sub (c # s) \<or> (\<exists>u v. s = u @ sub @ v)"
      by (cases u) (auto simp: has_prefix_iff)
    then show "go_contains sub (c # s)" using Cons by simp
  qed
qed simp

lemma last_index_None: "last_index c xs = None \<longleftrightarrow> c \<notin> set xs"
  by (induction xs) (auto split: option.splits)

lemma last_index_Some:
  "last_index c xs = Some i \<Longrightarrow> i < length xs \<and> xs ! i = c \<and> c \<notin> set (drop (Suc i) xs)"
  by (induction xs arbitrary: i) (auto split: option.splits if_splits simp: last_index_None)

lemma last_index_append_sep: "c \<notin> set ys \<Longrightarrow> last_index c (xs @ c # ys) = Some (length xs)"
  by (induction xs) (simp_all add: last_index_None [THEN iffD2])

lemma go_cut_append: "sep \<notin> set a \<Longrightarrow> go_cut sep (a @ sep # b) = (a, b, True)"
  by (induction a) auto

end
