(* ===== verification/StatusBar.thy ===== *)
theory StatusBar
  imports ModeFilter GoText
begin

text \<open>
  \<open>internal/console/statusbar.go\<close> and the label functions and bar writer of
  \<open>barsetup.go\<close>. The state is the \<open>status_bar\<close> record: the fields of the Go
  struct with the buffered channel \<open>dirty\<close> as a flag and \<open>stop\<close> as
  \<open>sb_stopped\<close>. An operation returns the new state and the list of writes it makes, in
  order; one element is one call of \<open>write\<close>. Terminal sizes are unbounded integers. The
  Unicode category table beyond Latin-1 is the parameter \<open>zw\<close> (the runes of the
  categories Mn, Me and Cf). The last section models the terminal the bar talks to and relates
  the two.
\<close>

section \<open>Display width\<close>

definition zero_width :: "(nat \<Rightarrow> bool) \<Rightarrow> nat \<Rightarrow> bool" where
  "zero_width zw r = (if r \<le> 0xFF then r = 0xAD else zw r)"

definition isWideRune :: "nat \<Rightarrow> bool" where
  "isWideRune r =
     ((r \<ge> 0x1100 \<and> r \<le> 0x115F) \<or>
      (r \<ge> 0x2E80 \<and> r \<le> 0xA4CF) \<or>
      (r \<ge> 0xAC00 \<and> r \<le> 0xD7A3) \<or>
      (r \<ge> 0xF900 \<and> r \<le> 0xFAFF) \<or>
      (r \<ge> 0xFE30 \<and> r \<le> 0xFE6F) \<or>
      (r \<ge> 0xFF00 \<and> r \<le> 0xFF60) \<or>
      (r \<ge> 0xFFE0 \<and> r \<le> 0xFFE6) \<or>
      (r \<ge> 0x1F300 \<and> r \<le> 0x1F64F) \<or>
      (r \<ge> 0x1F900 \<and> r \<le> 0x1F9FF) \<or>
      (r \<ge> 0x20000 \<and> r \<le> 0x3FFFD))"

definition runeCells :: "(nat \<Rightarrow> bool) \<Rightarrow> nat \<Rightarrow> int" where
  "runeCells zw r =
     (if r = 0 then 0
      else if zero_width zw r then 0
      else if r < 0x20 \<or> r = 0x7f then 0
      else if isWideRune r then 2
      else 1)"

definition cellWidth :: "(nat \<Rightarrow> bool) \<Rightarrow> gostring \<Rightarrow> int" where
  "cellWidth zw s = foldl (\<lambda>n r. n + runeCells zw r) 0 (runes s)"

fun truncate_loop :: "(nat \<Rightarrow> bool) \<Rightarrow> int \<Rightarrow> int \<Rightarrow> (nat \<times> bytes) list \<Rightarrow> gostring" where
  "truncate_loop zw cols w [] = []"
| "truncate_loop zw cols w ((r, bs) # segs) =
     (let cw = runeCells zw r in
      if w + cw > cols then []
      else bs @ truncate_loop zw cols (w + cw) segs)"

definition truncateCells :: "(nat \<Rightarrow> bool) \<Rightarrow> gostring \<Rightarrow> int \<Rightarrow> gostring" where
  "truncateCells zw s cols =
     (if cols \<le> 0 then [] else truncate_loop zw cols 0 (segments s))"

abbreviation spaces :: "int \<Rightarrow> gostring" where
  "spaces n \<equiv> replicate (nat n) CHR '' ''"

definition barText :: "(nat \<Rightarrow> bool) \<Rightarrow> gostring \<Rightarrow> gostring \<Rightarrow> int \<Rightarrow> gostring" where
  "barText zw left right cols =
     (let l = left; r = right; lw = cellWidth zw l; rw = cellWidth zw r; gap = 1;
          (r, rw) = (if lw + rw + gap > cols then ('''', 0) else (r, rw));
          (l, lw) = (if lw + rw + gap > cols
                     then (let l = truncateCells zw l cols in (l, cellWidth zw l))
                     else (l, lw));
          pad = cols - lw - rw;
          pad = (if pad < 0 then 0 else pad)
      in l @ spaces pad @ r)"

section \<open>The bar\<close>

record status_bar =
  sb_rows :: int
  sb_cols :: int
  sb_left :: gostring
  sb_right :: gostring
  sb_lastBar :: gostring
  sb_active :: bool
  sb_hidden :: bool
  sb_modes :: mode_filter
  sb_dirty :: bool
  sb_stopped :: bool

definition minBarRows :: int where "minBarRows = 4"

definition NewStatusBar :: "int \<Rightarrow> int \<Rightarrow> status_bar" where
  "NewStatusBar cols rows =
     \<lparr>sb_rows = rows, sb_cols = cols, sb_left = '''', sb_right = '''', sb_lastBar = '''',
      sb_active = False, sb_hidden = False, sb_modes = new_mode_filter,
      sb_dirty = False, sb_stopped = False\<rparr>"

definition bar_request :: "status_bar \<Rightarrow> status_bar" where
  "bar_request b = (if sb_dirty b then b else b\<lparr>sb_dirty := True\<rparr>)"

definition SetText :: "status_bar \<Rightarrow> gostring \<Rightarrow> gostring \<Rightarrow> status_bar" where
  "SetText b left right = bar_request (b\<lparr>sb_left := left, sb_right := right\<rparr>)"

definition guestRows :: "status_bar \<Rightarrow> int" where
  "guestRows b = (if sb_rows b < minBarRows then sb_rows b else sb_rows b - 1)"

definition set_region :: "int \<Rightarrow> bytes" where
  "set_region n = ESC # ''[1;'' @ itoa n @ ''r''"

definition bar_Start :: "status_bar \<Rightarrow> status_bar \<times> bytes list" where
  "bar_Start b =
     (if sb_rows b < minBarRows then (b, [])
      else let b = b\<lparr>sb_active := True\<rparr>
           in (bar_request b, [ESC # ''[2J'' @ set_region (guestRows b) @ ESC # ''[1;1H'']))"

definition bar_Stop :: "status_bar \<Rightarrow> status_bar \<times> bytes list" where
  "bar_Stop b =
     (let wasActive = sb_active b; b = b\<lparr>sb_active := False\<rparr> in
      if \<not> wasActive then (b, [])
      else (b\<lparr>sb_stopped := True\<rparr>,
            [ESC # ''[r'' @ ESC # ''['' @ itoa (sb_rows b) @ '';1H'' @ ESC # ''[2K'']))"

definition withCursorKept :: "time \<Rightarrow> status_bar \<Rightarrow> bytes \<Rightarrow> status_bar \<times> bytes" where
  "withCursorKept now b region =
     (let (m, saved) = CursorSaved now (sb_modes b); b = b\<lparr>sb_modes := m\<rparr> in
      if saved then (b, region) else (b, ESC # ''7'' @ region @ ESC # ''8''))"

definition reinstallRegion :: "time \<Rightarrow> status_bar \<Rightarrow> int \<Rightarrow> status_bar \<times> bytes" where
  "reinstallRegion now b guest = withCursorKept now b (set_region guest)"

definition releaseRegion :: "time \<Rightarrow> status_bar \<Rightarrow> status_bar \<times> bytes" where
  "releaseRegion now b = withCursorKept now b (ESC # ''[r'')"

definition bar_Resize :: "time \<Rightarrow> status_bar \<Rightarrow> int \<Rightarrow> int \<Rightarrow> status_bar \<times> bytes list \<times> int" where
  "bar_Resize now b cols rows =
     (let b = b\<lparr>sb_cols := cols, sb_rows := rows, sb_lastBar := ''''\<rparr>;
          guest = guestRows b;
          (b, out) =
            (if \<not> sb_active b then (b, [])
             else if rows < minBarRows then (let (b, s) = releaseRegion now b in (b, [s]))
             else if sb_hidden b then (b, [])
             else (let (b, s) = reinstallRegion now b guest in (b, [s])))
      in (bar_request b, out, guest))"

text \<open>The sequence one repaint writes.\<close>

definition paint_seq :: "int \<Rightarrow> gostring \<Rightarrow> bytes" where
  "paint_seq rows text =
     ESC # ''7'' @ ESC # ''['' @ itoa rows @ '';1H'' @ ESC # ''[0m'' @ ESC # ''[7m'' @
     text @ ESC # ''[0m'' @ ESC # ''8''"

definition bar_draw :: "(nat \<Rightarrow> bool) \<Rightarrow> time \<Rightarrow> status_bar \<Rightarrow> status_bar \<times> bytes list" where
  "bar_draw zw now b =
     (if \<not> sb_active b \<or> sb_hidden b \<or> sb_cols b < 1 then (b, [])
      else if sb_rows b < minBarRows then (b, [])
      else if OriginMode (sb_modes b) then (b, [])
      else let (m, saved) = CursorSaved now (sb_modes b); b = b\<lparr>sb_modes := m\<rparr> in
        if saved then (b, [])
        else let text = barText zw (sb_left b) (sb_right b) (sb_cols b) in
          if text = sb_lastBar b then (b, [])
          else (b\<lparr>sb_lastBar := text\<rparr>, [paint_seq (sb_rows b) text]))"

text \<open>
  The three latches are read with Go's short-circuit \<open>||\<close>: a later one is only taken,
  and so only cleared, when the earlier ones were not set.
\<close>

definition take_region_gone :: "mode_filter \<Rightarrow> mode_filter \<times> bool" where
  "take_region_gone m =
     (let (m, a) = TakeReset m in if a then (m, True)
      else let (m, b) = TakeRegionLost m in if b then (m, True)
      else TakeLeftAltScreen m)"

definition bar_Observe :: "(nat \<Rightarrow> bool) \<Rightarrow> time \<Rightarrow> status_bar \<Rightarrow> bytes \<Rightarrow> status_bar \<times> bytes list" where
  "bar_Observe zw now b p =
     (let (m, changed) = Observe now (sb_modes b) p; b = b\<lparr>sb_modes := m\<rparr> in
      if \<not> changed then (b, [])
      else
        let b = b\<lparr>sb_lastBar := ''''\<rparr>;
            (m, regionGone) = take_region_gone (sb_modes b);
            b = b\<lparr>sb_modes := m\<rparr>;
            alt = AltScreen (sb_modes b);
            b = b\<lparr>sb_hidden := alt\<rparr>;
            (b, out) =
              (if alt \<and> sb_active b then (let (b, s) = releaseRegion now b in (b, [s]))
               else if sb_active b \<and> regionGone then
                 (let (b, s) = reinstallRegion now b (guestRows b) in (b, [s]))
               else (b, []));
            b = bar_request b;
            (b, out') = bar_draw zw now b
        in (b, out @ out'))"

text \<open>
  \<open>barWriter.Write\<close>: the guest's bytes first, as many as the terminal accepted
  (\<open>n\<close>), then the observation of exactly those.
\<close>

definition barWriter_Write ::
  "(nat \<Rightarrow> bool) \<Rightarrow> time \<Rightarrow> status_bar \<Rightarrow> bytes \<Rightarrow> nat \<Rightarrow> status_bar \<times> bytes list" where
  "barWriter_Write zw now b p n =
     (if n > 0 then (let (b, out) = bar_Observe zw now b (take n p) in (b, take n p # out))
      else (b, []))"

definition barTick :: time where "barTick = 50 * 1000000"
definition barIdle :: time where "barIdle = 1000000000"

text \<open>The loop's own variables, and what one pass of its \<open>select\<close> does.\<close>

record bar_loop =
  bl_last :: time
  bl_pending :: bool

datatype loop_case = LoopStop | LoopDirty | LoopTick

definition bar_loop_step ::
  "(nat \<Rightarrow> bool) \<Rightarrow> time \<Rightarrow> loop_case \<Rightarrow> bar_loop \<Rightarrow> status_bar \<Rightarrow>
   (bar_loop \<times> status_bar \<times> bytes list) option"
where
  "bar_loop_step zw now c l b =
     (case c of
        LoopStop \<Rightarrow> None
      | LoopDirty \<Rightarrow> Some (l\<lparr>bl_pending := True\<rparr>, b\<lparr>sb_dirty := False\<rparr>, [])
      | LoopTick \<Rightarrow>
          if \<not> bl_pending l \<and> now - bl_last l < barIdle then Some (l, b, [])
          else let (b, out) = bar_draw zw now b
               in Some (l\<lparr>bl_pending := False, bl_last := now\<rparr>, b, out))"

section \<open>Labels and eligibility (barsetup.go)\<close>

definition barDisabled :: "(bytes \<Rightarrow> bytes) \<Rightarrow> gostring \<Rightarrow> bool" where
  "barDisabled U env =
     (if to_lower U (trim_space env) \<in> set ['''', ''0'', ''no'', ''false''] then False else True)"

definition barLabel :: "gostring \<Rightarrow> gostring \<Rightarrow> int \<Rightarrow> gostring \<Rightarrow> gostring \<Rightarrow> gostring" where
  "barLabel guestName guestType vmid instName publicEndpoint =
     guestName @ ''@'' @ instName @
     (if publicEndpoint \<noteq> '''' then ''@'' @ publicEndpoint else '''') @
     '' ('' @ guestType @ itoa vmid @ '')''"

definition nodeBarLabel :: "gostring \<Rightarrow> gostring \<Rightarrow> gostring" where
  "nodeBarLabel instName publicEndpoint =
     instName @ (if publicEndpoint \<noteq> '''' then ''@'' @ publicEndpoint else '''') @ '' (node)''"

record term_view =
  tv_raw :: bool
  tv_has_out :: bool
  tv_width :: int
  tv_height :: int

definition barEligible :: "(bytes \<Rightarrow> bytes) \<Rightarrow> gostring \<Rightarrow> term_view \<Rightarrow> bool" where
  "barEligible U env tv = (\<not> barDisabled U env \<and> tv_raw tv \<and> tv_has_out tv)"

definition WillDrawBar :: "(bytes \<Rightarrow> bytes) \<Rightarrow> gostring \<Rightarrow> term_view \<Rightarrow> bool" where
  "WillDrawBar U env tv = (barEligible U env tv \<and> tv_height tv \<ge> minBarRows)"

definition startBar ::
  "(bytes \<Rightarrow> bytes) \<Rightarrow> gostring \<Rightarrow> term_view \<Rightarrow> gostring \<Rightarrow> gostring \<Rightarrow>
   status_bar option \<times> bytes list \<times> int" where
  "startBar U env tv label hint =
     (if \<not> barEligible U env tv then (None, [], tv_height tv)
      else let (b, out) = bar_Start (SetText (NewStatusBar (tv_width tv) (tv_height tv)) label hint)
           in (Some b, out, guestRows b))"

definition clearScreenNoBar :: "term_view \<Rightarrow> bytes list" where
  "clearScreenNoBar tv =
     (if \<not> tv_raw tv \<or> \<not> tv_has_out tv then [] else [ESC # ''[2J'' @ ESC # ''[H''])"

section \<open>The width of the bar\<close>

lemma runeCells_nonneg: "0 \<le> runeCells zw r"
  by (simp add: runeCells_def)

lemma runeCells_space [simp]: "runeCells zw 32 = 1"
  by (simp add: runeCells_def zero_width_def isWideRune_def)

lemma foldl_plus: "foldl (\<lambda>n r. n + f r) (a::int) xs = a + sum_list (map f xs)"
  by (induction xs arbitrary: a) auto

lemma cellWidth_sum: "cellWidth zw s = sum_list (map (runeCells zw \<circ> fst) (segments s))"
  by (simp add: cellWidth_def runes_def foldl_plus comp_def)

lemma cellWidth_nonneg [simp]: "0 \<le> cellWidth zw s"
  by (auto simp: cellWidth_sum intro!: sum_list_nonneg runeCells_nonneg)

lemma cellWidth_Nil [simp]: "cellWidth zw [] = 0"
  by (simp add: cellWidth_sum)

lemma cellWidth_append_ascii:
  "ys = [] \<or> code (hd ys) < 0x80 \<Longrightarrow> cellWidth zw (xs @ ys) = cellWidth zw xs + cellWidth zw ys"
  by (simp add: cellWidth_sum segments_append_ascii)

lemma segments_spaces: "segments (replicate n CHR '' '' @ r) = replicate n (32, '' '') @ segments r"
  by (induction n) auto

lemma cellWidth_spaces: "cellWidth zw (replicate n CHR '' '' @ r) = int n + cellWidth zw r"
  by (simp add: cellWidth_sum segments_spaces sum_list_replicate)

lemma truncate_loop_prefix:
  "\<exists>segs1 segs2. segs = segs1 @ segs2 \<and> truncate_loop zw cols w segs = concat (map snd segs1)
     \<and> (w \<le> cols \<longrightarrow> w + sum_list (map (runeCells zw \<circ> fst) segs1) \<le> cols)"
proof (induction zw cols w segs rule: truncate_loop.induct)
  case (2 zw cols w r bs segs)
  let ?cw = "runeCells zw r"
  show ?case
  proof (cases "w + ?cw > cols")
    case True
    then show ?thesis by (intro exI2 [of _ "[]" "(r, bs) # segs"]) simp
  next
    case False
    from 2 [OF refl False] obtain s1 s2 where "segs = s1 @ s2"
      "truncate_loop zw cols (w + ?cw) segs = concat (map snd s1)"
      "w + ?cw \<le> cols \<longrightarrow> w + ?cw + sum_list (map (runeCells zw \<circ> fst) s1) \<le> cols"
      by blast
    with False show ?thesis 
      by (intro exI2 [of _ "(r, bs) # s1" s2]) (simp add: comp_def add.assoc)
  qed
qed auto

lemma truncateCells_width: "0 \<le> cols \<Longrightarrow> cellWidth zw (truncateCells zw s cols) \<le> cols"
proof (cases "cols \<le> 0")
  case False
  obtain s1 s2 where s: "segments s = s1 @ s2" "truncate_loop zw cols 0 (segments s) = concat (map snd s1)"
    "0 \<le> cols \<longrightarrow> 0 + sum_list (map (runeCells zw \<circ> fst) s1) \<le> cols"
    using truncate_loop_prefix [of "segments s" zw cols 0] by blast
  then show ?thesis
    using False segments_take_prefix [OF s(1)] by (simp add: truncateCells_def cellWidth_sum)
qed (simp add: truncateCells_def)

lemma truncateCells_set: "set (truncateCells zw s cols) \<subseteq> set s"
proof -
  obtain s1 s2 where s: "segments s = s1 @ s2" "truncate_loop zw cols 0 (segments s) = concat (map snd s1)"
    using truncate_loop_prefix [of "segments s" zw cols 0] by blast
  have "s = concat (map snd s1) @ concat (map snd s2)"
    using segments_concat [of s] s(1) by simp
  then have "set (concat (map snd s1)) \<subseteq> set s" by (metis Un_upper1 set_append)
  then show ?thesis using s(2) by (simp add: truncateCells_def)
qed

lemma barText_set: "set (barText zw l r cols) \<subseteq> set l \<union> set r \<union> {CHR '' ''}"
  using truncateCells_set [of zw l cols] by (auto simp: barText_def Let_def)

text \<open>the bar is exactly as wide as the terminal in display columns, whatever the labels
  contain (wide runes, combining marks, invalid UTF-8), so a repaint neither wraps nor leaves
  part of the previous bar on the row.\<close>

theorem bar_fills_row:
  assumes "0 \<le> cols"
  shows "cellWidth zw (barText zw left right cols) = cols"
proof -
  let ?lw = "cellWidth zw left" and ?rw = "cellWidth zw right"
  let ?t = "truncateCells zw left cols"
  have w: "cellWidth zw (l @ replicate n CHR '' '' @ r) = cellWidth zw l + int n + cellWidth zw r"
    if "0 < n \<or> r = []" for l n r
  proof -
    have "cellWidth zw (l @ replicate n CHR '' '' @ r) = cellWidth zw l + cellWidth zw (replicate n CHR '' '' @ r)"
      by (rule cellWidth_append_ascii) (use that in \<open>cases n; auto\<close>)
    then show ?thesis by (simp add: cellWidth_spaces)
  qed
  consider "?lw + ?rw + 1 \<le> cols" | "\<not> ?lw + ?rw + 1 \<le> cols" "?lw + 1 \<le> cols"
    | "\<not> ?lw + ?rw + 1 \<le> cols" "\<not> ?lw + 1 \<le> cols" by blast
  then show ?thesis
  proof cases
    case 1
    then show ?thesis using w [of "nat (cols - ?lw - ?rw)" right left] by (auto simp: barText_def Let_def)
  next
    case 2
    then show ?thesis using w [of "nat (cols - ?lw)" "[]" left] by (auto simp: barText_def Let_def)
  next
    case 3
    then show ?thesis
      using w [of "nat (cols - cellWidth zw ?t)" "[]" ?t] truncateCells_width [OF assms, of zw left]
      by (auto simp: barText_def Let_def)
  qed
qed

lemma bar_fills_row_witness:
  "cellWidth (\<lambda>_. False) (barText (\<lambda>_. False) ''web@rome'' ''Ctrl+A X'' 12) = 12"
  using bar_fills_row [of 12 "\<lambda>_. False" "''web@rome''" "''Ctrl+A X''"] by simp

end
