(* ===== verification/BarTerminal.thy ===== *)
theory BarTerminal
  imports StatusBar
begin

text \<open>
  The status bar against the terminal it writes to. \<open>terminal\<close> is the specification
  side: which screen is in use and which scroll region (the parameters of the last DECSTBM,
  \<open>None\<close> for the whole screen) is in force, as xterm and the source's comments describe
  it: RIS, a resize and a return from the alternate screen all discard the region.
  \<open>bar_step\<close> is the transition relation of a console with a bar: relabelling, a
  resize, guest output followed by the observation of it, a repaint. The invariant shows that
  the bar's row is reserved in every reachable state in which the bar may draw.
\<close>

section \<open>The terminal\<close>

record terminal =
  t_alt :: bool
  t_region :: "bytes option"

definition term_seq :: "terminal \<Rightarrow> bytes \<Rightarrow> terminal" where
  "term_seq t q =
     (let (alt, ok) = parseAltScreen q in
      if ok then
        (if alt then t\<lparr>t_alt := True\<rparr>
         else if t_alt t then t\<lparr>t_alt := False, t_region := None\<rparr> else t)
      else if isSetScrollRegion q then
        t\<lparr>t_region := (if csi_params q = [] then None else Some (csi_params q))\<rparr>
      else if isFullReset q then \<lparr>t_alt = False, t_region = None\<rparr>
      else t)"

definition term_feed :: "terminal \<Rightarrow> bytes \<Rightarrow> terminal" where
  "term_feed t p = foldl term_seq t (escape_seqs p)"

definition term_feeds :: "terminal \<Rightarrow> bytes list \<Rightarrow> terminal" where
  "term_feeds t ps = foldl term_feed t ps"

definition term_resize :: "terminal \<Rightarrow> terminal" where
  "term_resize t = t\<lparr>t_region := None\<rparr>"

definition bar_region :: "status_bar \<Rightarrow> bytes option" where
  "bar_region b = Some (''1;'' @ itoa (sb_rows b - 1))"

section \<open>Feeding the bar's own writes\<close>

declare escape_seqs.simps(2) [simp del] pending_tail.simps(2) [simp del]

lemma term_feed_append:
  "pending_tail p = [] \<Longrightarrow> term_feed t (p @ q) = term_feed (term_feed t p) q"
  using escape_seqs_append [of p q] by (simp add: term_feed_def)

definition csi_inner :: "char \<Rightarrow> bool" where
  "csi_inner c = (0x20 \<le> code c \<and> code c \<le> 0x3F)"

lemma csi_end_inner:
  "list_all csi_inner ps \<Longrightarrow> 0x40 \<le> code f \<Longrightarrow>
   csi_end (ps @ f # rest) i = Some (i + length ps + 1)"
  by (induction ps arbitrary: i) (auto simp: csi_inner_def)

lemma scan_csi:
  "list_all csi_inner ps \<Longrightarrow> 0x40 \<le> code f \<Longrightarrow>
   scanEscape (ESC # CHR ''['' # ps @ f # rest) = Some (ESC # CHR ''['' # ps @ [f], length ps + 3)"
  using csi_end_inner [of ps f rest 2] by (simp add: scanEscape_def)

lemma drop_csi: "drop (length ps + 3) (a # b # ps @ f # rest) = rest"
  by (simp add: eval_nat_numeral)

lemma csi_one:
  assumes "list_all csi_inner ps" "0x40 \<le> code f"
  shows "escape_seqs (ESC # CHR ''['' # ps @ f # rest) = (ESC # CHR ''['' # ps @ [f]) # escape_seqs rest"
    and "pending_tail (ESC # CHR ''['' # ps @ f # rest) = pending_tail rest"
  using scan_csi [OF assms, of rest] drop_csi [of ps ESC "CHR ''[''" f rest]
  by (simp_all add: escape_seqs.simps(2) pending_tail.simps(2))

lemma esc_one:
  assumes "f \<noteq> CHR ''[''"
  shows "escape_seqs (ESC # f # rest) = [ESC, f] # escape_seqs rest"
    and "pending_tail (ESC # f # rest) = pending_tail rest"
  using assms by (simp_all add: scanEscape_def escape_seqs.simps(2) pending_tail.simps(2))

lemma text_one:
  assumes "ESC \<notin> set p"
  shows "escape_seqs (p @ rest) = escape_seqs rest" and "pending_tail (p @ rest) = pending_tail rest"
  using escape_seqs_append [of p rest] pending_tail_append [of p rest] escape_seqs_text [OF assms]
  by simp_all

lemma digits_inner: "list_all is_digit ds \<Longrightarrow> list_all csi_inner ds"
  by (induction ds) (auto simp: is_digit_def csi_inner_def)

lemma itoa_inner [simp]: "list_all csi_inner (itoa n)"
  using nat_digits_all_digits [of "nat n"] nat_digits_all_digits [of "nat (- n)"]
  by (auto simp: itoa_def csi_inner_def dest: digits_inner)

lemma itoa_not_Nil [simp]: "itoa n \<noteq> []"
  by (simp add: itoa_def)

lemma region_seq:
  shows "escape_seqs (set_region n @ rest) = set_region n # escape_seqs rest"
    and "pending_tail (set_region n @ rest) = pending_tail rest"
  using csi_one [of "''1;'' @ itoa n" "CHR ''r''" rest]
  by (simp_all add: set_region_def csi_inner_def)

lemma region_effect: "term_seq t (set_region n) = t\<lparr>t_region := Some (''1;'' @ itoa n)\<rparr>"
proof -
  have "parseAltScreen (set_region n) = (False, False)"
    by (simp add: parseAltScreen_def parse_mode_def set_region_def)
  moreover have "isSetScrollRegion (set_region n)"
    by (simp add: isSetScrollRegion_def set_region_def)
  moreover have "csi_params (set_region n) = ''1;'' @ itoa n"
    by (simp add: csi_params_def set_region_def butlast_append)
  ultimately show ?thesis by (simp add: term_seq_def)
qed

lemma release_effect: "term_seq t (ESC # ''[r'') = t\<lparr>t_region := None\<rparr>"
  by (simp add: term_seq_def parseAltScreen_def parse_mode_def isSetScrollRegion_def csi_params_def)

lemma inert_save [simp]: "term_seq t [ESC, CHR ''7''] = t" "term_seq t [ESC, CHR ''8''] = t"
  by (simp_all add: term_seq_def parseAltScreen_def parse_mode_def isSetScrollRegion_def isFullReset_def)

lemma inert_csi:
  "f \<notin> {CHR ''h'', CHR ''l'', CHR ''r''} \<Longrightarrow> term_seq t (ESC # CHR ''['' # ps @ [f]) = t"
  by (simp add: term_seq_def parseAltScreen_def parse_mode_def isSetScrollRegion_def isFullReset_def)

lemma feed_kept:
  "snd (withCursorKept now b s) \<in> {s, ESC # ''7'' @ s @ ESC # ''8''}"
  by (simp add: withCursorKept_def case_prod_beta Let_def)

lemma feed_reinstall:
  "term_feed t (snd (reinstallRegion now b n)) = t\<lparr>t_region := Some (''1;'' @ itoa n)\<rparr>"
  using feed_kept [of now b "set_region n"] region_seq [of n "[]"] region_seq [of n "ESC # ''8''"]
  by (auto simp: reinstallRegion_def term_feed_def esc_one region_effect)

lemma feed_release: "t_alt (term_feed t (snd (releaseRegion now b))) = t_alt t"
  using feed_kept [of now b "ESC # ''[r''"] csi_one [of "[]" "CHR ''r''" "[]"]
    csi_one [of "[]" "CHR ''r''" "ESC # ''8''"]
  by (auto simp: releaseRegion_def term_feed_def esc_one release_effect)

lemma feed_paint:
  assumes "ESC \<notin> set text"
  shows "term_feed t (paint_seq rows text) = t"
proof -
  have "escape_seqs (paint_seq rows text) =
    [ESC # ''7'', ESC # CHR ''['' # (itoa rows @ '';1'') @ [CHR ''H''],
     ESC # CHR ''['' # ''0'' @ [CHR ''m''], ESC # CHR ''['' # ''7'' @ [CHR ''m''],
     ESC # CHR ''['' # ''0'' @ [CHR ''m''], ESC # ''8'']"
  proof -
    note * = csi_one(1) [of "''0''" "CHR ''m''"] csi_one(1) [of "''7''" "CHR ''m''"]
    show ?thesis
      using csi_one(1) [of "itoa rows @ '';1''" "CHR ''H''"
          "ESC # ''[0m'' @ ESC # ''[7m'' @ text @ ESC # ''[0m'' @ ESC # ''8''"]
        *[of "ESC # ''[7m'' @ text @ ESC # ''[0m'' @ ESC # ''8''"]
        *[of "text @ ESC # ''[0m'' @ ESC # ''8''"] *[of "ESC # ''8''"]
        text_one(1) [OF assms, of "ESC # ''[0m'' @ ESC # ''8''"]
      by (simp add: paint_seq_def esc_one csi_inner_def)
  qed
  then show ?thesis
    using inert_csi [of "CHR ''H''" t "itoa rows @ '';1''"] inert_csi [of "CHR ''m''" t "''0''"]
      inert_csi [of "CHR ''m''" t "''7''"]
    by (simp add: term_feed_def)
qed

section \<open>Transitions\<close>

inductive bar_step ::
  "(nat \<Rightarrow> bool) \<Rightarrow> status_bar \<times> terminal \<Rightarrow> status_bar \<times> terminal \<Rightarrow> bool" for zw
where
  step_text: "ESC \<notin> set l \<Longrightarrow> ESC \<notin> set r \<Longrightarrow> bar_step zw (b, t) (SetText b l r, t)"
| step_resize: "bar_Resize now b cols rows = (b', out, g) \<Longrightarrow>
    bar_step zw (b, t) (b', term_feeds (term_resize t) out)"
| step_guest: "pending_tail (take n p) = [] \<Longrightarrow> barWriter_Write zw now b p n = (b', out) \<Longrightarrow>
    bar_step zw (b, t) (b', term_feeds t out)"
| step_loop: "bar_loop_step zw now c l b = Some (l', b', out) \<Longrightarrow>
    bar_step zw (b, t) (b', term_feeds t out)"

inductive bar_reachable :: "(nat \<Rightarrow> bool) \<Rightarrow> status_bar \<times> terminal \<Rightarrow> bool" for zw where
  reach_start: "ESC \<notin> set l \<Longrightarrow> ESC \<notin> set r \<Longrightarrow>
    bar_Start (SetText (NewStatusBar cols rows) l r) = (b, out) \<Longrightarrow>
    bar_reachable zw (b, term_feeds \<lparr>t_alt = False, t_region = reg\<rparr> out)"
| reach_step: "bar_reachable zw s \<Longrightarrow> bar_step zw s s' \<Longrightarrow> bar_reachable zw s'"

definition bar_inv :: "status_bar \<times> terminal \<Rightarrow> bool" where
  "bar_inv s = (case s of (b, t) \<Rightarrow>
     sb_hidden b = altScreen (sb_modes b) \<and> t_alt t = altScreen (sb_modes b) \<and>
     mf_partial (sb_modes b) = [] \<and> ESC \<notin> set (sb_left b) \<and> ESC \<notin> set (sb_right b) \<and>
     (sb_active b \<and> \<not> sb_hidden b \<and> minBarRows \<le> sb_rows b \<longrightarrow> t_region t = bar_region b))"

definition latched :: "mode_filter \<Rightarrow> bool" where
  "latched m = (mf_reset m \<or> regionLost m \<or> leftAltScreen m)"

lemma term_tracks_seq:
  "t_alt t = altScreen m \<Longrightarrow> apply_seq now m q = (m', r) \<Longrightarrow>
   t_alt (term_seq t q) = altScreen m' \<and> (latched m \<longrightarrow> latched m') \<and>
   (t_region (term_seq t q) = t_region t \<or> r \<and> latched m') \<and>
   (altScreen m \<longrightarrow> altScreen m' \<or> latched m')"
  by (cases "parseAltScreen q"; cases "parseOriginMode q")
     (auto simp: apply_seq_def term_seq_def latched_def split: if_splits)

lemma term_tracks_seqs:
  "t_alt t = altScreen m \<Longrightarrow> apply_seqs now m qs = (m', r) \<Longrightarrow>
   t_alt (foldl term_seq t qs) = altScreen m' \<and> (latched m \<longrightarrow> latched m') \<and>
   (t_region (foldl term_seq t qs) = t_region t \<or> r \<and> latched m') \<and>
   (altScreen m \<longrightarrow> altScreen m' \<or> latched m')"
proof (induction qs arbitrary: t m r)
  case (Cons q qs)
  obtain m1 r1 where 1: "apply_seq now m q = (m1, r1)" by (cases "apply_seq now m q")
  obtain r2 where 2: "apply_seqs now m1 qs = (m', r2)" "r = (r1 \<or> r2)"
    using Cons.prems 1 by (auto split: prod.splits)
  note a = term_tracks_seq [OF Cons.prems(1) 1]
  with Cons.IH [OF _ 2(1), of "term_seq t q"] show ?case using 2(2) by auto
qed auto

lemma take_region_gone_spec:
  "take_region_gone m = (m', g) \<Longrightarrow>
   g = latched m \<and> altScreen m' = altScreen m \<and> mf_partial m' = mf_partial m"
  by (auto simp: take_region_gone_def TakeReset_def TakeRegionLost_def TakeLeftAltScreen_def
      latched_def split: if_splits)

lemma CursorSaved_spec:
  "CursorSaved now m = (m', s) \<Longrightarrow> altScreen m' = altScreen m \<and> mf_partial m' = mf_partial m"
  by (auto simp: CursorSaved_def split: if_splits)

lemma withCursorKept_spec:
  "withCursorKept now b s = (b', w) \<Longrightarrow>
   \<exists>m. b' = b\<lparr>sb_modes := m\<rparr> \<and> altScreen m = altScreen (sb_modes b) \<and> mf_partial m = mf_partial (sb_modes b)"
  by (auto simp: withCursorKept_def Let_def dest: CursorSaved_spec split: prod.splits if_splits)

lemma inv_draw [inv_intros]:
  assumes "bar_inv (b, t)" "bar_draw zw now b = (b', out)"
  shows "bar_inv (b', term_feeds t out)"
proof -
  obtain m s where c: "CursorSaved now (sb_modes b) = (m, s)" by (cases "CursorSaved now (sb_modes b)")
  have e: "ESC \<notin> set (barText zw (sb_left b) (sb_right b) (sb_cols b))"
    using assms(1) barText_set [of zw "sb_left b" "sb_right b" "sb_cols b"] by (auto simp: bar_inv_def)
  have f: "term_feed t (paint_seq (sb_rows b) (barText zw (sb_left b) (sb_right b) (sb_cols b))) = t"
    by (rule feed_paint [OF e])
  show ?thesis
    using assms CursorSaved_spec [OF c]
    by (auto simp: bar_draw_def bar_inv_def Let_def c f term_feeds_def bar_region_def split: if_splits)
qed

lemma bar_request_fields [simp]:
  "sb_active (bar_request b) = sb_active b" "sb_hidden (bar_request b) = sb_hidden b"
  "sb_rows (bar_request b) = sb_rows b" "sb_modes (bar_request b) = sb_modes b"
  "sb_left (bar_request b) = sb_left b" "sb_right (bar_request b) = sb_right b"
  by (simp_all add: bar_request_def)

lemma inv_request [inv_intros]: "bar_inv (b, t) \<Longrightarrow> bar_inv (bar_request b, t)"
  by (auto simp: bar_inv_def bar_region_def)

lemma inv_reinstall:
  assumes "bar_inv (b\<lparr>sb_active := False\<rparr>, t)" "reinstallRegion now b (guestRows b) = (b', w)"
  shows "bar_inv (b', term_feed t w)"
proof -
  from assms(2) obtain m where m: "b' = b\<lparr>sb_modes := m\<rparr>"
    "altScreen m = altScreen (sb_modes b)" "mf_partial m = mf_partial (sb_modes b)"
    unfolding reinstallRegion_def by (blast dest: withCursorKept_spec)
  have "term_feed t w = t\<lparr>t_region := Some (''1;'' @ itoa (guestRows b))\<rparr>"
    using feed_reinstall [of t now b "guestRows b"] assms(2) by simp
  then show ?thesis
    using assms(1) m by (auto simp: bar_inv_def bar_region_def guestRows_def)
qed

lemma inv_release:
  assumes "bar_inv (b\<lparr>sb_active := False\<rparr>, t)" "releaseRegion now b = (b', w)"
    and "sb_hidden b \<or> sb_rows b < minBarRows"
  shows "bar_inv (b', term_feed t w)"
proof -
  from assms(2) obtain m where m: "b' = b\<lparr>sb_modes := m\<rparr>"
    "altScreen m = altScreen (sb_modes b)" "mf_partial m = mf_partial (sb_modes b)"
    unfolding releaseRegion_def by (blast dest: withCursorKept_spec)
  then show ?thesis
    using assms feed_release [of t now b] by (auto simp: bar_inv_def)
qed

lemma inv_resize [inv_intros]:
  assumes "bar_inv (b, t)" "bar_Resize now b cols rows = (b', out, g)"
  shows "bar_inv (b', term_feeds (term_resize t) out)"
proof -
  let ?b = "b\<lparr>sb_cols := cols, sb_rows := rows, sb_lastBar := ''''\<rparr>"
  have i: "bar_inv (?b\<lparr>sb_active := False\<rparr>, term_resize t)"
    using assms(1) by (auto simp: bar_inv_def term_resize_def)
  obtain b1 w1 where rel: "releaseRegion now ?b = (b1, w1)" by (cases "releaseRegion now ?b")
  obtain b2 w2 where rei: "reinstallRegion now ?b (guestRows ?b) = (b2, w2)"
    by (cases "reinstallRegion now ?b (guestRows ?b)")
  consider "\<not> sb_active b" | "sb_active b" "rows < minBarRows"
    | "sb_active b" "\<not> rows < minBarRows" "sb_hidden b"
    | "sb_active b" "\<not> rows < minBarRows" "\<not> sb_hidden b" by blast
  then show ?thesis
  proof cases
    case 2
    then show ?thesis using assms(2) rel inv_release [OF i rel] inv_request
      by (auto simp: bar_Resize_def Let_def term_feeds_def)
  next
    case 4
    then show ?thesis using assms(2) rei inv_reinstall [OF i rei] inv_request
      by (auto simp: bar_Resize_def Let_def term_feeds_def)
  qed (use assms(2) i in \<open>auto simp: bar_Resize_def Let_def term_feeds_def bar_inv_def term_resize_def\<close>)
qed

lemma term_feeds_append: "term_feeds t (xs @ ys) = term_feeds (term_feeds t xs) ys"
  by (simp add: term_feeds_def)

lemma bar_Observe_changed:
  assumes "Observe now (sb_modes b) p = (m1, True)" "take_region_gone m1 = (m2, g)"
    and "b0 = b\<lparr>sb_lastBar := '''', sb_modes := m2, sb_hidden := altScreen m2\<rparr>"
    and "bo = (if altScreen m2 \<and> sb_active b then (fst (releaseRegion now b0), [snd (releaseRegion now b0)])
      else if sb_active b \<and> g then
        (fst (reinstallRegion now b0 (guestRows b0)), [snd (reinstallRegion now b0 (guestRows b0))])
      else (b0, []))"
  shows "bar_Observe zw now b p =
    (let (b', out) = bar_draw zw now (bar_request (fst bo)) in (b', snd bo @ out))"
  unfolding bar_Observe_def Let_def assms(1,3,4)
  using assms(2) by (simp add: AltScreen_def case_prod_beta)

lemma inv_observe:
  assumes "bar_inv (b, t)" "pending_tail p = []" "bar_Observe zw now b p = (b', out)"
  shows "bar_inv (b', term_feeds (term_feed t p) out)"
proof -
  let ?m0 = "sb_modes b" and ?t = "term_feed t p"
  have p0: "mf_partial ?m0 = []" using assms(1) by (simp add: bar_inv_def)
  then have m0: "?m0\<lparr>mf_partial := []\<rparr> = ?m0" by simp
  obtain m1 r where 1: "apply_seqs now ?m0 (escape_seqs p) = (m1, r)"
    by (cases "apply_seqs now ?m0 (escape_seqs p)")
  have pm1: "mf_partial m1 = []" using apply_seqs_partial [of now ?m0 "escape_seqs p"] 1 p0 by simp
  then have obs: "Observe now ?m0 p = (m1, r)"
    using assms(2) p0 1 by (simp add: Observe_seqs m0 Let_def keep_tail_def)
  have tr: "t_alt ?t = altScreen m1" "t_region ?t = t_region t \<or> r \<and> latched m1"
    "altScreen ?m0 \<longrightarrow> altScreen m1 \<or> latched m1"
    using term_tracks_seqs [OF _ 1, of t] assms(1) by (auto simp: bar_inv_def term_feed_def)
  show ?thesis
  proof (cases r)
    case False
    then have "altScreen m1 = altScreen ?m0"
      using apply_seqs_quiet [of now ?m0 "escape_seqs p"] 1 by (simp add: Let_def)
    then show ?thesis
      using False assms obs tr pm1
      by (auto simp: bar_Observe_def bar_inv_def term_feeds_def bar_region_def)
  next
    case True
    obtain m2 g where g: "take_region_gone m1 = (m2, g)" by (cases "take_region_gone m1")
    note gs = take_region_gone_spec [OF g]
    let ?b = "b\<lparr>sb_lastBar := '''', sb_modes := m2, sb_hidden := altScreen m2\<rparr>"
    have i: "bar_inv (?b\<lparr>sb_active := False\<rparr>, ?t)"
      using assms(1) tr gs pm1 by (auto simp: bar_inv_def)
    obtain b1 w1 where rel: "releaseRegion now ?b = (b1, w1)" by (cases "releaseRegion now ?b")
    obtain b2 w2 where rei: "reinstallRegion now ?b (guestRows ?b) = (b2, w2)"
      by (cases "reinstallRegion now ?b (guestRows ?b)")
    define bo where "bo = (if altScreen m2 \<and> sb_active b
      then (fst (releaseRegion now ?b), [snd (releaseRegion now ?b)])
      else if sb_active b \<and> g then
        (fst (reinstallRegion now ?b (guestRows ?b)), [snd (reinstallRegion now ?b (guestRows ?b))])
      else (?b, []))"
    obtain b3 o3 where b3: "bo = (b3, o3)" by (cases bo)
    have "bar_inv (b3, term_feeds ?t o3)"
    proof -
      consider "altScreen m2" "sb_active b" | "\<not> altScreen m2" "sb_active b" "g"
        | "\<not> sb_active b" | "\<not> altScreen m2" "sb_active b" "\<not> g" by blast
      then show ?thesis
      proof cases
        case 1
        then show ?thesis using inv_release [OF i rel] b3 rel rei by (auto simp: bo_def term_feeds_def)
      next
        case 2
        then show ?thesis using inv_reinstall [OF i rei] b3 rel rei by (auto simp: bo_def term_feeds_def)
      next
        case 3
        then show ?thesis using i b3 by (auto simp: bo_def term_feeds_def bar_inv_def)
      next
        case 4
        have "t_region ?t = t_region t" using tr(2) gs 4 by auto
        moreover have "\<not> altScreen ?m0" using tr(3) gs 4 by auto
        ultimately show ?thesis using 4 i b3 assms(1)
          by (auto simp: bo_def term_feeds_def bar_inv_def bar_region_def)
      qed
    qed
    moreover obtain b4 o4 where d: "bar_draw zw now (bar_request b3) = (b4, o4)"
      by (cases "bar_draw zw now (bar_request b3)")
    ultimately have "bar_inv (b4, term_feeds ?t (o3 @ o4))"
      by (simp add: term_feeds_append inv_draw [OF inv_request d])
    moreover have "bar_Observe zw now b p = (b4, o3 @ o4)"
      using bar_Observe_changed [OF _ g refl bo_def] obs True b3 d by simp
    ultimately show ?thesis using assms(3) by simp
  qed
qed

lemma inv_start:
  assumes "ESC \<notin> set l" "ESC \<notin> set r" "bar_Start (SetText (NewStatusBar cols rows) l r) = (b, out)"
  shows "bar_inv (b, term_feeds \<lparr>t_alt = False, t_region = reg\<rparr> out)"
proof -
  let ?t = "\<lparr>t_alt = False, t_region = reg\<rparr>"
  have "term_feed ?t (ESC # ''[2J'' @ set_region n @ ESC # ''[1;1H'') =
     ?t\<lparr>t_region := Some (''1;'' @ itoa n)\<rparr>" for n
    using csi_one(1) [of "''2''" "CHR ''J''" "set_region n @ ESC # ''[1;1H''"]
      region_seq(1) [of n "ESC # ''[1;1H''"] csi_one(1) [of "''1;1''" "CHR ''H''" "[]"]
      inert_csi [of "CHR ''J''" ?t "''2''"]
      inert_csi [of "CHR ''H''" "?t\<lparr>t_region := Some (''1;'' @ itoa n)\<rparr>" "''1;1''"]
    by (simp add: term_feed_def region_effect csi_inner_def)
  then show ?thesis using assms
    by (auto simp: bar_Start_def SetText_def NewStatusBar_def bar_request_def bar_inv_def Let_def
        new_mode_filter_def guestRows_def bar_region_def term_feeds_def split: if_splits)
qed

inductive_cases bar_stepE: "bar_step zw (b, t) s'"

lemma inv_step:
  assumes "bar_step zw s s'" "bar_inv s"
  shows "bar_inv s'"
  using assms
proof (induction rule: bar_step.induct)
  case (step_text l r b t)
  then show ?case by (auto simp: SetText_def bar_inv_def bar_request_def bar_region_def)
next
  case (step_guest n p now b b' out t)
  then show ?case
    using inv_observe [of b t "take n p" zw now]
    by (auto simp: barWriter_Write_def term_feeds_def split: if_splits prod.splits)
next
  case (step_loop now c l b l' b' out t)
  then show ?case
    using inv_draw [of b t zw now]
    by (cases c)
       (auto simp: bar_loop_step_def term_feeds_def bar_inv_def bar_region_def
         split: if_splits prod.splits)
qed (rule inv_resize)

lemma inv_reachable: "bar_reachable zw s \<Longrightarrow> bar_inv s"
  by (induction rule: bar_reachable.induct) (auto intro: inv_start inv_step)


definition demo_start :: "status_bar \<times> bytes list" where
  "demo_start = bar_Start (SetText (NewStatusBar 20 10) ''web'' ''x'')"


section \<open>Where the bar and the guest interfere\<close>

text \<open>
  The write lock makes single writes atomic, not sequences: what a repaint writes does not
  depend on whether the guest's last read ended inside a sequence.
\<close>

lemma repaint_ignores_open_sequence:
  "snd (bar_draw zw now (b\<lparr>sb_modes := (sb_modes b)\<lparr>mf_partial := x\<rparr>\<rparr>)) = snd (bar_draw zw now b)"
  by (simp add: bar_draw_def CursorSaved_def OriginMode_def Let_def)

text \<open>
  While a full-screen application owns the screen, every observed change makes the bar release
  the scroll region again, so a region the application sets for itself does not survive.
\<close>

lemma application_region_released:
  "let b = fst demo_start;
       (b, out) = barWriter_Write (\<lambda>_. False) 0 b (ESC # ''[?1049h'') 8;
       (b, out') = barWriter_Write (\<lambda>_. False) 0 b (ESC # ''[5;9r'') 6
   in out' = [ESC # ''[5;9r'', ESC # ''7'' @ ESC # ''[r'' @ ESC # ''8'']"
  by code_simp

text \<open>
  A reset and a guest region in one chunk leave the second latch set behind the short circuit,
  so the next redraw, whatever caused it, reinstalls the region again.
\<close>

lemma stale_latch_reinstalls:
  "mf_reset m \<Longrightarrow> regionLost m \<Longrightarrow>
   (let (m1, gone1) = take_region_gone m; (m2, gone2) = take_region_gone m1 in gone1 \<and> gone2)"
  by (simp add: take_region_gone_def TakeReset_def TakeRegionLost_def)

end
