(* ===== verification/Models.thy ===== *)
theory Models
  imports GoText
begin

text \<open>
  \<open>internal/models\<close>: the data the program stores and passes around, field by field,
  and the comparison of names. Row ids and times are unbounded integers; a rule's kind is a
  datatype, the other enumerations are the strings Go uses. \<open>U\<close> is the Unicode half of
  \<open>strings.ToLower\<close>.
\<close>

type_synonym guest_type = gostring

definition GuestTypeCT :: guest_type where "GuestTypeCT = ''ct''"
definition GuestTypeVM :: guest_type where "GuestTypeVM = ''vm''"

definition StatusRunning :: gostring where "StatusRunning = ''running''"
definition StatusStopped :: gostring where "StatusStopped = ''stopped''"

record instance_row =
  in_id :: int
  in_name :: gostring
  in_api_url :: gostring
  in_token_id :: gostring
  in_token_secret :: gostring
  in_transport :: gostring
  in_node :: gostring
  in_insecure_tls :: bool
  in_insecure_ssh :: bool
  in_ssh_host :: gostring
  in_ssh_port :: int
  in_ssh_user :: gostring
  in_fps :: "gostring list"

record guest_row =
  g_id :: int
  g_type :: guest_type
  g_name :: gostring
  g_status :: gostring
  g_vmid :: int
  g_instance :: int

record client_row =
  c_id :: int
  c_name :: gostring
  c_keys :: "gostring list"
  c_groups :: "int list"

record group_row =
  gr_id :: int
  gr_name :: gostring
  gr_clients :: "int list"

datatype rule_type = RuleClient | RuleGroup

text \<open>The two rule tables differ in the name of the target column only.\<close>

record rule_row =
  r_id :: int
  r_type :: rule_type
  r_subject :: int
  r_target :: int

record default_policy =
  dp_clients :: "int list"
  dp_groups :: "int list"
  dp_node_access :: bool

definition no_policy :: default_policy where
  "no_policy = \<lparr>dp_clients = [], dp_groups = [], dp_node_access = False\<rparr>"

record identity =
  id_login :: gostring
  id_name :: gostring
  id_admin :: bool
  id_client :: int

text \<open>The values of an event's parameters: \<open>map[string]any\<close> of strings, ids and id lists.\<close>

datatype param_value = PStr gostring | PInt int | PInts "int list"

record activity_event =
  ev_id :: int
  ev_event :: gostring
  ev_actor :: gostring
  ev_at :: time
  ev_params :: "(gostring \<times> param_value) list"

definition FoldName :: "(bytes \<Rightarrow> bytes) \<Rightarrow> gostring \<Rightarrow> gostring" where
  "FoldName U name = to_lower U name"

definition NamesEqual :: "(bytes \<Rightarrow> bytes) \<Rightarrow> gostring \<Rightarrow> gostring \<Rightarrow> bool" where
  "NamesEqual U a b = (FoldName U a = FoldName U b)"

section \<open>Rule kinds are ordered and printable\<close>

fun rule_type_name :: "rule_type \<Rightarrow> gostring" where
  "rule_type_name RuleClient = ''client''"
| "rule_type_name RuleGroup = ''group''"

instantiation rule_type :: linorder
begin

definition less_eq_rule_type :: "rule_type \<Rightarrow> rule_type \<Rightarrow> bool" where
  "less_eq_rule_type a b = (rule_type_name a \<le> rule_type_name b)"

definition less_rule_type :: "rule_type \<Rightarrow> rule_type \<Rightarrow> bool" where
  "less_rule_type a b = (rule_type_name a < rule_type_name b)"

instance
proof
  fix x y z :: rule_type
  show "(x < y) = (x \<le> y \<and> \<not> y \<le> x)"
    by (auto simp: less_eq_rule_type_def less_rule_type_def)
  show "x \<le> x" by (simp add: less_eq_rule_type_def)
  show "x \<le> y \<Longrightarrow> y \<le> z \<Longrightarrow> x \<le> z" by (auto simp: less_eq_rule_type_def)
  show "x \<le> y \<Longrightarrow> y \<le> x \<Longrightarrow> x = y"
    by (cases x; cases y) (auto simp: less_eq_rule_type_def)
  show "x \<le> y \<or> y \<le> x" by (auto simp: less_eq_rule_type_def)
qed

end

section \<open>Folding ASCII names\<close>

lemma lower_letters:
  "list_all (\<lambda>d. code d < 0x80 \<and> ascii_lower d = d) ''abcdefghijklmnopqrstuvwxyz''"
  by (simp add: ascii_lower_def)

lemma ascii_lower_ascii:
  assumes "code c < 0x80"
  shows "code (ascii_lower c) < 0x80 \<and> ascii_lower (ascii_lower c) = ascii_lower c"
proof (cases "65 \<le> code c \<and> code c \<le> 90")
  case True
  have "length ''abcdefghijklmnopqrstuvwxyz'' = 26" by simp
  moreover have "code c - 65 < 26" using True by linarith
  ultimately have "code c - 65 < length ''abcdefghijklmnopqrstuvwxyz''" by (simp only:)
  moreover have "ascii_lower c = ''abcdefghijklmnopqrstuvwxyz'' ! (code c - 65)"
    using True by (simp add: ascii_lower_def)
  ultimately show ?thesis using lower_letters by (simp only: list_all_length)
qed (use assms in \<open>auto simp: ascii_lower_def\<close>)

lemma FoldName_ascii_idem: "is_ascii s \<Longrightarrow> FoldName U (FoldName U s) = FoldName U s"
  using ascii_lower_ascii by (auto simp: FoldName_def to_lower_def is_ascii_def list_all_iff)

lemma NamesEqual_equiv: "equivp (NamesEqual U)"
  by (rule equivpI) (auto simp: NamesEqual_def intro!: reflpI sympI transpI)

end
