(* ===== verification/Repository.thy ===== *)
theory Repository
  imports Models
begin

text \<open>
  \<open>internal/db/sql_repository.go\<close>: the tables as a record of row lists, one function
  per repository operation. A row list is in insertion order; every table has its own
  AUTOINCREMENT counter, so an id is never given out twice. Values the code stores as JSON text
  and reads back are kept decoded. The database itself is assumed to answer: only the errors
  the code distinguishes (a unique violation, no row) are values. \<open>url_unique\<close> says
  whether the backend's schema has a UNIQUE constraint on \<open>api_url\<close>: Postgres' has,
  SQLite's has not since its seventh migration.
\<close>

section \<open>The database\<close>

record token_row =
  tk_hash :: gostring
  tk_identity :: identity
  tk_expires :: time

record db =
  d_instances :: "instance_row list"
  d_guests :: "guest_row list"
  d_clients :: "client_row list"
  d_groups :: "group_row list"
  d_rules :: "rule_row list"
  d_inst_rules :: "rule_row list"
  d_policy :: "default_policy option"
  d_settings :: "(gostring \<times> gostring) list"
  d_admin_keys :: "gostring list"
  d_tokens :: "token_row list"
  d_sessions :: "token_row list"
  d_activity :: "activity_event list"
  d_seq_instance :: int
  d_seq_guest :: int
  d_seq_client :: int
  d_seq_group :: int
  d_seq_rule :: int
  d_seq_inst_rule :: int
  d_seq_activity :: int

definition empty_db :: db where
  "empty_db = \<lparr>d_instances = [], d_guests = [], d_clients = [], d_groups = [], d_rules = [],
     d_inst_rules = [], d_policy = None, d_settings = [], d_admin_keys = [], d_tokens = [],
     d_sessions = [], d_activity = [], d_seq_instance = 1, d_seq_guest = 1, d_seq_client = 1,
     d_seq_group = 1, d_seq_rule = 1, d_seq_inst_rule = 1, d_seq_activity = 1\<rparr>"

datatype db_error =
    DupInstanceURL gostring
  | DupInstanceName gostring
  | UniqueViolation
  | ErrNoRows
  | ErrNoSuchToken

text \<open>\<open>UPDATE ... WHERE id = ?\<close> on a row list.\<close>

definition update_where :: "('r \<Rightarrow> bool) \<Rightarrow> ('r \<Rightarrow> 'r) \<Rightarrow> 'r list \<Rightarrow> 'r list" where
  "update_where P f rs = map (\<lambda>r. if P r then f r else r) rs"

section \<open>Fingerprint lists in one column\<close>

definition encodeFingerprints :: "gostring list \<Rightarrow> gostring" where
  "encodeFingerprints fps =
     go_join [CHR 0x0A] (filter (\<lambda>fp. fp \<noteq> '''') (map trim_space fps))"

definition decodeFingerprints :: "gostring \<Rightarrow> gostring list" where
  "decodeFingerprints s =
     (let s = trim_space s in
      if s = '''' then []
      else filter (\<lambda>line. line \<noteq> '''') (map trim_space (go_split CHR 0x0A s)))"

section \<open>Instances\<close>

definition trim_right_slash :: "gostring \<Rightarrow> gostring" where
  "trim_right_slash s = rev (dropWhile (\<lambda>c. c = CHR ''/'') (rev s))"

definition normalise_instance :: "(bytes \<Rightarrow> bytes) \<Rightarrow> instance_row \<Rightarrow> instance_row" where
  "normalise_instance U inst =
     inst\<lparr>in_api_url := trim_right_slash (in_api_url inst), in_name := FoldName U (in_name inst)\<rparr>"

text \<open>What a read of the row gives back: the fingerprints go through the column.\<close>

definition stored_instance :: "instance_row \<Rightarrow> instance_row" where
  "stored_instance inst = inst\<lparr>in_fps := decodeFingerprints (encodeFingerprints (in_fps inst))\<rparr>"

definition AddProxmoxInstance ::
  "(bytes \<Rightarrow> bytes) \<Rightarrow> bool \<Rightarrow> instance_row \<Rightarrow> db \<Rightarrow> db_error + instance_row \<times> db" where
  "AddProxmoxInstance U url_unique inst d =
     (let inst = normalise_instance U inst in
      if in_name inst \<in> set (map in_name (d_instances d)) then Inl (DupInstanceName (in_name inst))
      else if url_unique \<and> in_api_url inst \<in> set (map in_api_url (d_instances d))
        then Inl (DupInstanceURL (in_api_url inst))
      else let inst = inst\<lparr>in_id := d_seq_instance d\<rparr>
        in Inr (inst, d\<lparr>d_instances := d_instances d @ [stored_instance inst],
                       d_seq_instance := d_seq_instance d + 1\<rparr>))"

definition ListProxmoxInstances :: "db \<Rightarrow> instance_row list" where
  "ListProxmoxInstances d = sort_key in_id (d_instances d)"

definition UpdateProxmoxInstance ::
  "(bytes \<Rightarrow> bytes) \<Rightarrow> bool \<Rightarrow> instance_row \<Rightarrow> db \<Rightarrow> db_error + db" where
  "UpdateProxmoxInstance U url_unique inst d =
     (let inst = normalise_instance U inst;
          others = filter (\<lambda>r. in_id r \<noteq> in_id inst) (d_instances d);
          hit = (\<exists>r\<in>set (d_instances d). in_id r = in_id inst)
      in if hit \<and> in_name inst \<in> set (map in_name others) then Inl (DupInstanceName (in_name inst))
         else if hit \<and> url_unique \<and> in_api_url inst \<in> set (map in_api_url others)
           then Inl (DupInstanceURL (in_api_url inst))
         else Inr (d\<lparr>d_instances :=
                update_where (\<lambda>r. in_id r = in_id inst) (\<lambda>r. stored_instance inst) (d_instances d)\<rparr>))"

definition RemoveProxmoxInstance :: "int \<Rightarrow> db \<Rightarrow> db" where
  "RemoveProxmoxInstance iid d =
     (let guestIDs = map g_id (filter (\<lambda>g. g_instance g = iid) (d_guests d));
          d = fold (\<lambda>gid d. d\<lparr>d_rules := filter (\<lambda>r. r_target r \<noteq> gid) (d_rules d)\<rparr>) guestIDs d;
          d = d\<lparr>d_guests := filter (\<lambda>g. g_instance g \<noteq> iid) (d_guests d)\<rparr>;
          d = d\<lparr>d_inst_rules := filter (\<lambda>r. r_target r \<noteq> iid) (d_inst_rules d)\<rparr>
      in d\<lparr>d_instances := filter (\<lambda>i. in_id i \<noteq> iid) (d_instances d)\<rparr>)"

section \<open>Guests\<close>

definition UpsertGuest :: "guest_row \<Rightarrow> db \<Rightarrow> guest_row \<times> db" where
  "UpsertGuest guest d =
     (case find (\<lambda>g. g_vmid g = g_vmid guest \<and> g_instance g = g_instance guest) (d_guests d) of
        None \<Rightarrow>
          (let guest = guest\<lparr>g_id := d_seq_guest d\<rparr>
           in (guest, d\<lparr>d_guests := d_guests d @ [guest], d_seq_guest := d_seq_guest d + 1\<rparr>))
      | Some g \<Rightarrow>
          (let guest = guest\<lparr>g_id := g_id g\<rparr>
           in (guest, d\<lparr>d_guests := update_where (\<lambda>r. g_id r = g_id guest)
                 (\<lambda>r. r\<lparr>g_type := g_type guest, g_name := g_name guest, g_status := g_status guest\<rparr>)
                 (d_guests d)\<rparr>)))"

definition ListGuests :: "db \<Rightarrow> guest_row list" where
  "ListGuests d = d_guests d"

definition GetGuestByID :: "int \<Rightarrow> db \<Rightarrow> db_error + guest_row" where
  "GetGuestByID gid d =
     (case find (\<lambda>g. g_id g = gid) (d_guests d) of None \<Rightarrow> Inl ErrNoRows | Some g \<Rightarrow> Inr g)"

definition RemoveGuestsNotIn :: "int \<Rightarrow> int list \<Rightarrow> db \<Rightarrow> nat \<times> db" where
  "RemoveGuestsNotIn instanceID keep d =
     (let mine = filter (\<lambda>g. g_instance g = instanceID) (d_guests d);
          stale = map g_id (filter (\<lambda>g. g_vmid g \<notin> set keep) mine)
      in if stale = [] then (0, d)
         else (length stale,
           fold (\<lambda>gid d. d\<lparr>d_rules := filter (\<lambda>r. r_target r \<noteq> gid) (d_rules d),
                           d_guests := filter (\<lambda>g. g_id g \<noteq> gid) (d_guests d)\<rparr>) stale d))"

section \<open>Clients and groups\<close>

definition AddClient :: "(bytes \<Rightarrow> bytes) \<Rightarrow> client_row \<Rightarrow> db \<Rightarrow> db_error + client_row \<times> db" where
  "AddClient U cl d =
     (let cl = cl\<lparr>c_name := FoldName U (c_name cl)\<rparr> in
      if c_name cl \<in> set (map c_name (d_clients d)) then Inl UniqueViolation
      else let cl = cl\<lparr>c_id := d_seq_client d\<rparr>
        in Inr (cl, d\<lparr>d_clients := d_clients d @ [cl], d_seq_client := d_seq_client d + 1\<rparr>))"

definition ListClients :: "db \<Rightarrow> client_row list" where
  "ListClients d = d_clients d"

definition UpdateClient :: "(bytes \<Rightarrow> bytes) \<Rightarrow> client_row \<Rightarrow> db \<Rightarrow> db_error + db" where
  "UpdateClient U cl d =
     (let cl = cl\<lparr>c_name := FoldName U (c_name cl)\<rparr>;
          others = filter (\<lambda>r. c_id r \<noteq> c_id cl) (d_clients d);
          hit = (\<exists>r\<in>set (d_clients d). c_id r = c_id cl)
      in if hit \<and> c_name cl \<in> set (map c_name others) then Inl UniqueViolation
         else Inr (d\<lparr>d_clients := update_where (\<lambda>r. c_id r = c_id cl) (\<lambda>r. cl) (d_clients d)\<rparr>))"

definition RemoveClient :: "int \<Rightarrow> db \<Rightarrow> db" where
  "RemoveClient cid d = d\<lparr>d_clients := filter (\<lambda>c. c_id c \<noteq> cid) (d_clients d)\<rparr>"

definition GetClientByName :: "(bytes \<Rightarrow> bytes) \<Rightarrow> gostring \<Rightarrow> db \<Rightarrow> db_error + client_row" where
  "GetClientByName U name d =
     (case find (\<lambda>c. c_name c = FoldName U name) (d_clients d) of
        None \<Rightarrow> Inl ErrNoRows | Some c \<Rightarrow> Inr c)"

definition AddGroup :: "(bytes \<Rightarrow> bytes) \<Rightarrow> group_row \<Rightarrow> db \<Rightarrow> db_error + group_row \<times> db" where
  "AddGroup U gr d =
     (let gr = gr\<lparr>gr_name := FoldName U (gr_name gr)\<rparr> in
      if gr_name gr \<in> set (map gr_name (d_groups d)) then Inl UniqueViolation
      else let gr = gr\<lparr>gr_id := d_seq_group d\<rparr>
        in Inr (gr, d\<lparr>d_groups := d_groups d @ [gr], d_seq_group := d_seq_group d + 1\<rparr>))"

definition ListGroups :: "db \<Rightarrow> group_row list" where
  "ListGroups d = d_groups d"

definition UpdateGroup :: "(bytes \<Rightarrow> bytes) \<Rightarrow> group_row \<Rightarrow> db \<Rightarrow> db_error + db" where
  "UpdateGroup U gr d =
     (let gr = gr\<lparr>gr_name := FoldName U (gr_name gr)\<rparr>;
          others = filter (\<lambda>r. gr_id r \<noteq> gr_id gr) (d_groups d);
          hit = (\<exists>r\<in>set (d_groups d). gr_id r = gr_id gr)
      in if hit \<and> gr_name gr \<in> set (map gr_name others) then Inl UniqueViolation
         else Inr (d\<lparr>d_groups := update_where (\<lambda>r. gr_id r = gr_id gr) (\<lambda>r. gr) (d_groups d)\<rparr>))"

definition RemoveGroup :: "int \<Rightarrow> db \<Rightarrow> db" where
  "RemoveGroup gid d = d\<lparr>d_groups := filter (\<lambda>g. gr_id g \<noteq> gid) (d_groups d)\<rparr>"

section \<open>Access rules\<close>

text \<open>\<open>INSERT ... ON CONFLICT DO NOTHING\<close> for each target, in one transaction.\<close>

fun insert_rules :: "rule_type \<Rightarrow> int \<Rightarrow> int list \<Rightarrow> rule_row list \<times> int \<Rightarrow> rule_row list \<times> int" where
  "insert_rules ty subj [] s = s"
| "insert_rules ty subj (t # ts) (rules, next) =
     (if \<exists>r\<in>set rules. r_type r = ty \<and> r_subject r = subj \<and> r_target r = t
      then insert_rules ty subj ts (rules, next)
      else insert_rules ty subj ts
             (rules @ [\<lparr>r_id = next, r_type = ty, r_subject = subj, r_target = t\<rparr>], next + 1))"

definition grantAccess :: "rule_type \<Rightarrow> int \<Rightarrow> int list \<Rightarrow> db \<Rightarrow> db" where
  "grantAccess ty subj guestIDs d =
     (let (rules, next) = insert_rules ty subj guestIDs (d_rules d, d_seq_rule d)
      in d\<lparr>d_rules := rules, d_seq_rule := next\<rparr>)"

definition GrantClientAccess :: "int \<Rightarrow> int list \<Rightarrow> db \<Rightarrow> db" where
  "GrantClientAccess = grantAccess RuleClient"

definition GrantGroupAccess :: "int \<Rightarrow> int list \<Rightarrow> db \<Rightarrow> db" where
  "GrantGroupAccess = grantAccess RuleGroup"

definition delete_rule :: "rule_type \<Rightarrow> int \<Rightarrow> int \<Rightarrow> rule_row list \<Rightarrow> rule_row list" where
  "delete_rule ty subj target rules =
     filter (\<lambda>r. \<not> (r_type r = ty \<and> r_subject r = subj \<and> r_target r = target)) rules"

definition RevokeClientAccess :: "int \<Rightarrow> int \<Rightarrow> db \<Rightarrow> db" where
  "RevokeClientAccess cid gid d = d\<lparr>d_rules := delete_rule RuleClient cid gid (d_rules d)\<rparr>"

definition RevokeGroupAccess :: "int \<Rightarrow> int \<Rightarrow> db \<Rightarrow> db" where
  "RevokeGroupAccess grid gid d = d\<lparr>d_rules := delete_rule RuleGroup grid gid (d_rules d)\<rparr>"

definition grantInstanceAccess :: "rule_type \<Rightarrow> int \<Rightarrow> int list \<Rightarrow> db \<Rightarrow> db" where
  "grantInstanceAccess ty subj instanceIDs d =
     (let (rules, next) = insert_rules ty subj instanceIDs (d_inst_rules d, d_seq_inst_rule d)
      in d\<lparr>d_inst_rules := rules, d_seq_inst_rule := next\<rparr>)"

definition GrantClientInstanceAccess :: "int \<Rightarrow> int list \<Rightarrow> db \<Rightarrow> db" where
  "GrantClientInstanceAccess = grantInstanceAccess RuleClient"

definition GrantGroupInstanceAccess :: "int \<Rightarrow> int list \<Rightarrow> db \<Rightarrow> db" where
  "GrantGroupInstanceAccess = grantInstanceAccess RuleGroup"

definition revokeInstanceAccess :: "rule_type \<Rightarrow> int \<Rightarrow> int \<Rightarrow> db \<Rightarrow> db" where
  "revokeInstanceAccess ty subj iid d = d\<lparr>d_inst_rules := delete_rule ty subj iid (d_inst_rules d)\<rparr>"

definition RevokeClientInstanceAccess :: "int \<Rightarrow> int \<Rightarrow> db \<Rightarrow> db" where
  "RevokeClientInstanceAccess = revokeInstanceAccess RuleClient"

definition RevokeGroupInstanceAccess :: "int \<Rightarrow> int \<Rightarrow> db \<Rightarrow> db" where
  "RevokeGroupInstanceAccess = revokeInstanceAccess RuleGroup"

section \<open>Default policy, settings, administrator keys\<close>

definition SetDefaultPolicy :: "default_policy \<Rightarrow> db \<Rightarrow> db" where
  "SetDefaultPolicy p d = d\<lparr>d_policy := Some p\<rparr>"

definition GetDefaultPolicy :: "db \<Rightarrow> default_policy" where
  "GetDefaultPolicy d = (case d_policy d of None \<Rightarrow> no_policy | Some p \<Rightarrow> p)"

definition SetSetting :: "gostring \<Rightarrow> gostring \<Rightarrow> db \<Rightarrow> db" where
  "SetSetting key val d =
     (if key \<in> set (map fst (d_settings d))
      then d\<lparr>d_settings := map (\<lambda>(k, v). (k, if k = key then val else v)) (d_settings d)\<rparr>
      else d\<lparr>d_settings := d_settings d @ [(key, val)]\<rparr>)"

definition GetSetting :: "gostring \<Rightarrow> db \<Rightarrow> gostring" where
  "GetSetting key d = (case map_of (d_settings d) key of None \<Rightarrow> '''' | Some v \<Rightarrow> v)"

definition AddAdminKey :: "gostring \<Rightarrow> db \<Rightarrow> db" where
  "AddAdminKey k d =
     (if k \<in> set (d_admin_keys d) then d else d\<lparr>d_admin_keys := d_admin_keys d @ [k]\<rparr>)"

definition ListAdminKeys :: "db \<Rightarrow> gostring list" where
  "ListAdminKeys d = d_admin_keys d"

definition RemoveAdminKey :: "gostring \<Rightarrow> db \<Rightarrow> db" where
  "RemoveAdminKey k d = d\<lparr>d_admin_keys := filter (\<lambda>x. x \<noteq> k) (d_admin_keys d)\<rparr>"

section \<open>Tokens and sessions\<close>

text \<open>
  The two token tables share their statements. A second row with the same hash violates the
  primary key.
\<close>

definition insertToken ::
  "token_row list \<Rightarrow> gostring \<Rightarrow> identity \<Rightarrow> time \<Rightarrow> time \<Rightarrow> db_error + token_row list" where
  "insertToken table h ident now expiresAt =
     (let table = filter (\<lambda>t. \<not> tk_expires t \<le> now) table in
      if h \<in> set (map tk_hash table) then Inl UniqueViolation
      else Inr (table @ [\<lparr>tk_hash = h, tk_identity = ident, tk_expires = expiresAt\<rparr>]))"

definition MintSessionToken ::
  "gostring \<Rightarrow> identity \<Rightarrow> time \<Rightarrow> time \<Rightarrow> db \<Rightarrow> db_error + db" where
  "MintSessionToken h ident now expiresAt d =
     map_sum id (\<lambda>t. d\<lparr>d_tokens := t\<rparr>) (insertToken (d_tokens d) h ident now expiresAt)"

definition token_live :: "gostring \<Rightarrow> time \<Rightarrow> token_row \<Rightarrow> bool" where
  "token_live h now t = (tk_hash t = h \<and> tk_expires t > now)"

definition RedeemSessionToken :: "gostring \<Rightarrow> time \<Rightarrow> db \<Rightarrow> (db_error + identity) \<times> db" where
  "RedeemSessionToken h now d =
     (case find (token_live h now) (d_tokens d) of
        None \<Rightarrow> (Inl ErrNoSuchToken, d)
      | Some t \<Rightarrow> (Inr (tk_identity t),
          d\<lparr>d_tokens := filter (\<lambda>t. \<not> token_live h now t) (d_tokens d)\<rparr>))"

definition CreateAPISession ::
  "gostring \<Rightarrow> identity \<Rightarrow> time \<Rightarrow> time \<Rightarrow> db \<Rightarrow> db_error + db" where
  "CreateAPISession h ident now expiresAt d =
     map_sum id (\<lambda>t. d\<lparr>d_sessions := t\<rparr>) (insertToken (d_sessions d) h ident now expiresAt)"

definition LookupAPISession :: "gostring \<Rightarrow> time \<Rightarrow> db \<Rightarrow> db_error + identity" where
  "LookupAPISession h now d =
     (case find (token_live h now) (d_sessions d) of
        None \<Rightarrow> Inl ErrNoSuchToken
      | Some t \<Rightarrow> Inr (tk_identity t))"

definition RevokeAPISession :: "gostring \<Rightarrow> db \<Rightarrow> db" where
  "RevokeAPISession h d = d\<lparr>d_sessions := filter (\<lambda>t. tk_hash t \<noteq> h) (d_sessions d)\<rparr>"

section \<open>Activity log\<close>

definition AddActivityEvent :: "activity_event \<Rightarrow> db \<Rightarrow> activity_event \<times> db" where
  "AddActivityEvent ev d =
     (let ev = ev\<lparr>ev_id := d_seq_activity d\<rparr>
      in (ev, d\<lparr>d_activity := d_activity d @ [ev], d_seq_activity := d_seq_activity d + 1\<rparr>))"

text \<open>\<open>match\<close> is the row predicate of the WHERE clause the filter compiles to.\<close>

definition ListActivity ::
  "(activity_event \<Rightarrow> bool) \<Rightarrow> int \<Rightarrow> int \<Rightarrow> db \<Rightarrow> activity_event list" where
  "ListActivity match limit offset d =
     (let limit = (if limit \<le> 0 then 100 else limit);
          offset = (if offset < 0 then 0 else offset)
      in take (nat limit) (drop (nat offset)
           (sort_key (\<lambda>e. (- ev_at e, - ev_id e)) (filter match (d_activity d)))))"

definition CountActivity :: "(activity_event \<Rightarrow> bool) \<Rightarrow> db \<Rightarrow> nat" where
  "CountActivity match d = length (filter match (d_activity d))"

definition DeleteActivityOlderThan :: "time \<Rightarrow> db \<Rightarrow> nat \<times> db" where
  "DeleteActivityOlderThan cutoff d =
     (length (filter (\<lambda>e. ev_at e < cutoff) (d_activity d)),
      d\<lparr>d_activity := filter (\<lambda>e. \<not> ev_at e < cutoff) (d_activity d)\<rparr>)"

section \<open>Tables\<close>

text \<open>
  What a table promises: ids are distinct and below the counter, and the values of its UNIQUE
  columns (the name, or the pair or triple that identifies a row) are distinct.
\<close>

definition table_ok :: "('r \<Rightarrow> int) \<Rightarrow> ('r \<Rightarrow> 'k) \<Rightarrow> int \<Rightarrow> 'r list \<Rightarrow> bool" where
  "table_ok idf keyf next rows =
     (distinct (map idf rows) \<and> distinct (map keyf rows) \<and> (\<forall>r\<in>set rows. idf r < next))"

named_theorems table_intros \<open>how row operations keep \<open>table_ok\<close>\<close>

lemma table_ok_Nil [simp]: "table_ok idf keyf n []"
  by (simp add: table_ok_def)

lemma table_ok_append [table_intros]:
  "table_ok idf keyf n rows \<Longrightarrow> idf r = n \<Longrightarrow> keyf r \<notin> set (map keyf rows) \<Longrightarrow>
   table_ok idf keyf (n + 1) (rows @ [r])"
  by (fastforce simp: table_ok_def)

lemma table_ok_filter [table_intros]:
  "table_ok idf keyf n rows \<Longrightarrow> table_ok idf keyf n (filter P rows)"
  by (auto simp: table_ok_def distinct_map_filter)

lemma table_ok_update [table_intros]:
  assumes "table_ok idf keyf n rows" "\<And>r. idf r = i \<Longrightarrow> idf (f r) = i"
    and "\<And>r. r \<in> set rows \<Longrightarrow> idf r = i \<Longrightarrow> keyf (f r) \<notin> keyf ` {r \<in> set rows. idf r \<noteq> i}"
  shows "table_ok idf keyf n (update_where (\<lambda>r. idf r = i) f rows)"
proof -
  have ids: "map idf (update_where (\<lambda>r. idf r = i) f rows) = map idf rows"
    using assms(2) by (simp add: update_where_def)
  have "distinct (map keyf (update_where (\<lambda>r. idf r = i) f rows))"
    using assms(1,3)
  proof (induction rows)
    case (Cons r rows)
    have tail: "table_ok idf keyf n rows" using Cons.prems(1) by (simp add: table_ok_def)
    have one: "idf q \<noteq> idf r" "keyf q \<noteq> keyf r" if "q \<in> set rows" for q
      using Cons.prems(1) that by (auto simp: table_ok_def) (metis image_eqI)+
    have IH: "distinct (map keyf (update_where (\<lambda>r. idf r = i) f rows))"
      using Cons.IH [OF tail] Cons.prems(2) by (auto simp: image_iff)
    have "keyf (if idf r = i then f r else r) \<noteq> keyf (if idf q = i then f q else q)"
      if q: "q \<in> set rows" for q
      using one [OF q] Cons.prems(2) [of r] Cons.prems(2) [of q] q by (auto simp: image_iff) metis
    then show ?case using IH by (auto simp: update_where_def image_iff)
  qed (simp add: update_where_def)
  moreover have "\<forall>r\<in>set (update_where (\<lambda>r. idf r = i) f rows). idf r < n"
    using assms(1,2) by (auto simp: table_ok_def update_where_def)
  ultimately show ?thesis using assms(1) ids by (simp add: table_ok_def)
qed

lemma insert_rules_ok:
  "table_ok r_id (\<lambda>r. (r_type r, r_subject r, r_target r)) next rules \<Longrightarrow>
   insert_rules ty subj ts (rules, next) = (rules', next') \<Longrightarrow>
   table_ok r_id (\<lambda>r. (r_type r, r_subject r, r_target r)) next' rules'"
proof (induction ty subj ts "(rules, next)" arbitrary: rules "next" rule: insert_rules.induct)
  case (2 ty subj t ts rules "next")
  show ?case
  proof (cases "\<exists>r\<in>set rules. r_type r = ty \<and> r_subject r = subj \<and> r_target r = t")
    case False
    have "table_ok r_id (\<lambda>r. (r_type r, r_subject r, r_target r)) (next + 1)
        (rules @ [\<lparr>r_id = next, r_type = ty, r_subject = subj, r_target = t\<rparr>])"
      by (rule table_ok_append [OF 2(3)]) (use False in auto)
    then show ?thesis using 2(2) [OF False] 2(4) False by simp
  qed (use 2 in auto)
qed simp

lemma insert_rules_set:
  "\<exists>r\<in>set (fst (insert_rules ty subj ts (rules, next))). r_type r = a \<and> r_subject r = b \<and> r_target r = c
   \<Longrightarrow> (\<exists>r\<in>set rules. r_type r = a \<and> r_subject r = b \<and> r_target r = c) \<or> (a = ty \<and> b = subj \<and> c \<in> set ts)"
  by (induction ty subj ts "(rules, next)" arbitrary: rules "next" rule: insert_rules.induct)
     (fastforce split: if_splits)+

lemma insert_rules_keeps: "r \<in> set rules \<Longrightarrow> r \<in> set (fst (insert_rules ty subj ts (rules, next)))"
  by (induction ty subj ts "(rules, next)" arbitrary: rules "next" rule: insert_rules.induct) auto

lemma insert_rules_adds:
  "t \<in> set ts \<Longrightarrow>
   \<exists>r\<in>set (fst (insert_rules ty subj ts (rules, next))). r_type r = ty \<and> r_subject r = subj \<and> r_target r = t"
proof (induction ty subj ts "(rules, next)" arbitrary: rules "next" rule: insert_rules.induct)
  case (2 ty subj t' ts rules "next")
  let ?new = "\<lparr>r_id = next, r_type = ty, r_subject = subj, r_target = t'\<rparr>"
  have "?new \<in> set (fst (insert_rules ty subj ts (rules @ [?new], next + 1)))"
    by (rule insert_rules_keeps) simp
  moreover have "\<exists>r\<in>set (fst (insert_rules ty subj ts (rules, next))). r_type r = ty \<and> r_subject r = subj \<and> r_target r = t'"
    if "\<exists>r\<in>set rules. r_type r = ty \<and> r_subject r = subj \<and> r_target r = t'"
    using that insert_rules_keeps by blast
  ultimately show ?case
    using 2 by (cases "t = t'") (auto, (metis rule_row.select_convs)+)
qed simp

definition has_rule :: "rule_type \<Rightarrow> int \<Rightarrow> int \<Rightarrow> rule_row list \<Rightarrow> bool" where
  "has_rule ty subj t rules = (\<exists>r\<in>set rules. r_type r = ty \<and> r_subject r = subj \<and> r_target r = t)"

lemma has_rule_insert:
  "has_rule a b c (fst (insert_rules ty subj ts (rules, next))) \<longleftrightarrow>
     has_rule a b c rules \<or> (a = ty \<and> b = subj \<and> c \<in> set ts)"
  (is "?l = ?r")
proof
  assume ?l
  then show ?r using insert_rules_set [of ty subj ts rules "next" a b c] by (simp add: has_rule_def)
next
  assume ?r
  then show ?l
    using insert_rules_adds [of c ts ty subj rules "next"] insert_rules_keeps [of _ rules ty subj ts "next"]
    by (auto simp: has_rule_def)
qed

lemma has_rule_delete:
  "has_rule a b c (delete_rule ty subj t rules) \<longleftrightarrow> has_rule a b c rules \<and> \<not> (a = ty \<and> b = subj \<and> c = t)"
  by (auto simp: has_rule_def delete_rule_def)

end
