(* ===== verification/RepoInvariant.thy ===== *)
theory RepoInvariant
  imports Repository
begin

text \<open>
  The repository as a state machine: \<open>db_step\<close> has one rule per operation that changes
  the database, \<open>db_reachable\<close> what an empty database can become. The invariant says
  that every UNIQUE constraint the schema declares is respected and that ids are never reused,
  and one preservation lemma per operation proves it. Then the deleting operations: what they
  remove, and that nothing else is touched.
\<close>

section \<open>Reachable databases\<close>

inductive db_step :: "(bytes \<Rightarrow> bytes) \<Rightarrow> bool \<Rightarrow> db \<Rightarrow> db \<Rightarrow> bool" for U uq where
  add_instance: "AddProxmoxInstance U uq i d = Inr (i', d') \<Longrightarrow> db_step U uq d d'"
| update_instance: "UpdateProxmoxInstance U uq i d = Inr d' \<Longrightarrow> db_step U uq d d'"
| remove_instance: "db_step U uq d (RemoveProxmoxInstance iid d)"
| upsert_guest: "UpsertGuest g d = (g', d') \<Longrightarrow> db_step U uq d d'"
| remove_guests: "RemoveGuestsNotIn iid keep d = (n, d') \<Longrightarrow> db_step U uq d d'"
| add_client: "AddClient U c d = Inr (c', d') \<Longrightarrow> db_step U uq d d'"
| update_client: "UpdateClient U c d = Inr d' \<Longrightarrow> db_step U uq d d'"
| remove_client: "db_step U uq d (RemoveClient cid d)"
| add_group: "AddGroup U gr d = Inr (gr', d') \<Longrightarrow> db_step U uq d d'"
| update_group: "UpdateGroup U gr d = Inr d' \<Longrightarrow> db_step U uq d d'"
| remove_group: "db_step U uq d (RemoveGroup gid d)"
| grant: "db_step U uq d (grantAccess ty subj ts d)"
| revoke_client: "db_step U uq d (RevokeClientAccess cid gid d)"
| revoke_group: "db_step U uq d (RevokeGroupAccess grid gid d)"
| grant_instance: "db_step U uq d (grantInstanceAccess ty subj ts d)"
| revoke_instance: "db_step U uq d (revokeInstanceAccess ty subj iid d)"
| set_policy: "db_step U uq d (SetDefaultPolicy p d)"
| set_setting: "db_step U uq d (SetSetting k v d)"
| add_admin_key: "db_step U uq d (AddAdminKey k d)"
| remove_admin_key: "db_step U uq d (RemoveAdminKey k d)"
| mint: "MintSessionToken h ident now ex d = Inr d' \<Longrightarrow> db_step U uq d d'"
| redeem: "RedeemSessionToken h now d = (r, d') \<Longrightarrow> db_step U uq d d'"
| create_session: "CreateAPISession h ident now ex d = Inr d' \<Longrightarrow> db_step U uq d d'"
| revoke_session: "db_step U uq d (RevokeAPISession h d)"
| add_activity: "AddActivityEvent ev d = (ev', d') \<Longrightarrow> db_step U uq d d'"
| prune_activity: "DeleteActivityOlderThan cutoff d = (n, d') \<Longrightarrow> db_step U uq d d'"

inductive db_reachable :: "(bytes \<Rightarrow> bytes) \<Rightarrow> bool \<Rightarrow> db \<Rightarrow> bool" for U uq where
  reach_empty: "db_reachable U uq empty_db"
| reach_db_step: "db_reachable U uq d \<Longrightarrow> db_step U uq d d' \<Longrightarrow> db_reachable U uq d'"

definition rule_key :: "rule_row \<Rightarrow> rule_type \<times> int \<times> int" where
  "rule_key r = (r_type r, r_subject r, r_target r)"

definition guest_key :: "guest_row \<Rightarrow> int \<times> int" where
  "guest_key g = (g_vmid g, g_instance g)"

definition db_inv :: "db \<Rightarrow> bool" where
  "db_inv d =
     (table_ok in_id in_name (d_seq_instance d) (d_instances d) \<and>
      table_ok g_id guest_key (d_seq_guest d) (d_guests d) \<and>
      table_ok c_id c_name (d_seq_client d) (d_clients d) \<and>
      table_ok gr_id gr_name (d_seq_group d) (d_groups d) \<and>
      table_ok r_id rule_key (d_seq_rule d) (d_rules d) \<and>
      table_ok r_id rule_key (d_seq_inst_rule d) (d_inst_rules d) \<and>
      distinct (map fst (d_settings d)) \<and> distinct (d_admin_keys d) \<and>
      distinct (map tk_hash (d_tokens d)) \<and> distinct (map tk_hash (d_sessions d)) \<and>
      table_ok ev_id ev_id (d_seq_activity d) (d_activity d))"

lemma db_inv_empty: "db_inv empty_db"
  by (simp add: db_inv_def empty_db_def)

lemma rule_key_fun: "rule_key = (\<lambda>r. (r_type r, r_subject r, r_target r))"
  by (rule ext) (simp add: rule_key_def)

section \<open>What folding the deletes amounts to\<close>

lemma fold_delete_rules:
  "fold (\<lambda>gid d. d\<lparr>d_rules := filter (\<lambda>r. r_target r \<noteq> gid) (d_rules d)\<rparr>) gids d =
   d\<lparr>d_rules := filter (\<lambda>r. r_target r \<notin> set gids) (d_rules d)\<rparr>"
  by (induction gids arbitrary: d) (auto intro!: filter_cong)

lemma fold_delete_guests:
  "fold (\<lambda>gid d. d\<lparr>d_rules := filter (\<lambda>r. r_target r \<noteq> gid) (d_rules d),
                  d_guests := filter (\<lambda>g. g_id g \<noteq> gid) (d_guests d)\<rparr>) gids d =
   d\<lparr>d_rules := filter (\<lambda>r. r_target r \<notin> set gids) (d_rules d),
     d_guests := filter (\<lambda>g. g_id g \<notin> set gids) (d_guests d)\<rparr>"
  by (induction gids arbitrary: d) (auto intro!: filter_cong)

definition guests_of :: "int \<Rightarrow> db \<Rightarrow> guest_row list" where
  "guests_of iid d = filter (\<lambda>g. g_instance g = iid) (d_guests d)"

lemma RemoveProxmoxInstance_eq:
  "RemoveProxmoxInstance iid d =
     d\<lparr>d_rules := filter (\<lambda>r. r_target r \<notin> g_id ` set (guests_of iid d)) (d_rules d),
       d_guests := filter (\<lambda>g. g_instance g \<noteq> iid) (d_guests d),
       d_inst_rules := filter (\<lambda>r. r_target r \<noteq> iid) (d_inst_rules d),
       d_instances := filter (\<lambda>i. in_id i \<noteq> iid) (d_instances d)\<rparr>"
  by (simp add: RemoveProxmoxInstance_def Let_def fold_delete_rules guests_of_def)

definition stale_guests :: "int \<Rightarrow> int list \<Rightarrow> db \<Rightarrow> guest_row list" where
  "stale_guests iid keep d = filter (\<lambda>g. g_vmid g \<notin> set keep) (guests_of iid d)"

lemma RemoveGuestsNotIn_eq:
  "RemoveGuestsNotIn iid keep d =
     (length (stale_guests iid keep d),
      d\<lparr>d_rules := filter (\<lambda>r. r_target r \<notin> g_id ` set (stale_guests iid keep d)) (d_rules d),
        d_guests := filter (\<lambda>g. g_id g \<notin> g_id ` set (stale_guests iid keep d)) (d_guests d)\<rparr>)"
proof (cases "stale_guests iid keep d = []")
  case True
  then show ?thesis by (simp add: RemoveGuestsNotIn_def Let_def stale_guests_def guests_of_def)
next
  case False
  then show ?thesis
    using fold_delete_guests [of "map g_id (stale_guests iid keep d)" d]
    by (simp add: RemoveGuestsNotIn_def Let_def stale_guests_def guests_of_def)
qed

section \<open>Preservation\<close>

lemma inv_instance [inv_intros]:
  "db_inv d \<Longrightarrow> AddProxmoxInstance U uq i d = Inr (i', d') \<Longrightarrow> db_inv d'"
  "db_inv d \<Longrightarrow> UpdateProxmoxInstance U uq i d = Inr d' \<Longrightarrow> db_inv d'"
  "db_inv d \<Longrightarrow> db_inv (RemoveProxmoxInstance iid d)"
  by (auto simp: db_inv_def AddProxmoxInstance_def UpdateProxmoxInstance_def Let_def
      stored_instance_def normalise_instance_def RemoveProxmoxInstance_eq
      split: if_splits intro!: table_ok_append table_ok_filter table_ok_update)

lemma inv_client [inv_intros]:
  "db_inv d \<Longrightarrow> AddClient U c d = Inr (c', d') \<Longrightarrow> db_inv d'"
  "db_inv d \<Longrightarrow> UpdateClient U c d = Inr d' \<Longrightarrow> db_inv d'"
  "db_inv d \<Longrightarrow> db_inv (RemoveClient cid d)"
  by (auto simp: db_inv_def AddClient_def UpdateClient_def RemoveClient_def Let_def
      split: if_splits intro!: table_ok_append table_ok_filter table_ok_update)

lemma inv_group [inv_intros]:
  "db_inv d \<Longrightarrow> AddGroup U g d = Inr (g', d') \<Longrightarrow> db_inv d'"
  "db_inv d \<Longrightarrow> UpdateGroup U g d = Inr d' \<Longrightarrow> db_inv d'"
  "db_inv d \<Longrightarrow> db_inv (RemoveGroup gid d)"
  by (auto simp: db_inv_def AddGroup_def UpdateGroup_def RemoveGroup_def Let_def
      split: if_splits intro!: table_ok_append table_ok_filter table_ok_update)

lemma inv_upsert [inv_intros]:
  assumes "db_inv d" "UpsertGuest g d = (g', d')"
  shows "db_inv d'"
proof (cases "find (\<lambda>x. g_vmid x = g_vmid g \<and> g_instance x = g_instance g) (d_guests d)")
  case None
  then have "guest_key g \<notin> guest_key ` set (d_guests d)"
    by (auto simp: find_None_iff guest_key_def)
  then show ?thesis
    using assms None
    by (auto simp: UpsertGuest_def Let_def db_inv_def guest_key_def intro!: table_ok_append)
next
  case (Some x)
  let ?f = "\<lambda>r. r\<lparr>g_type := g_type g, g_name := g_name g, g_status := g_status g\<rparr>"
  have t: "table_ok g_id guest_key (d_seq_guest d) (d_guests d)" using assms(1) by (simp add: db_inv_def)
  have "table_ok g_id guest_key (d_seq_guest d) (update_where (\<lambda>r. g_id r = g_id x) ?f (d_guests d))"
  proof (rule table_ok_update [OF t])
    fix r assume r: "r \<in> set (d_guests d)" "g_id r = g_id x"
    show "guest_key (?f r) \<notin> guest_key ` {r \<in> set (d_guests d). g_id r \<noteq> g_id x}"
    proof
      assume "guest_key (?f r) \<in> guest_key ` {r \<in> set (d_guests d). g_id r \<noteq> g_id x}"
      then obtain q where q: "q \<in> set (d_guests d)" "g_id q \<noteq> g_id x" "guest_key q = guest_key r"
        by (auto simp: guest_key_def)
      then have "q = r"
        using t r(1) by (auto simp: table_ok_def distinct_map dest: inj_onD)
      with q r show False by simp
    qed
  qed simp
  then show ?thesis using assms Some by (auto simp: UpsertGuest_def Let_def db_inv_def)
qed

lemma inv_remove_guests [inv_intros]:
  "db_inv d \<Longrightarrow> RemoveGuestsNotIn iid keep d = (n, d') \<Longrightarrow> db_inv d'"
  by (auto simp: RemoveGuestsNotIn_eq db_inv_def intro: table_ok_filter)

lemma inv_rules [inv_intros]:
  "db_inv d \<Longrightarrow> db_inv (grantAccess ty subj ts d)"
  "db_inv d \<Longrightarrow> db_inv (grantInstanceAccess ty subj ts d)"
  "db_inv d \<Longrightarrow> db_inv (RevokeClientAccess cid gid d)"
  "db_inv d \<Longrightarrow> db_inv (RevokeGroupAccess grid gid d)"
  "db_inv d \<Longrightarrow> db_inv (revokeInstanceAccess ty subj iid d)"
  by (auto simp: grantAccess_def grantInstanceAccess_def RevokeClientAccess_def RevokeGroupAccess_def
      revokeInstanceAccess_def delete_rule_def db_inv_def rule_key_fun
      intro: table_ok_filter insert_rules_ok split: prod.splits)

lemma insertToken_ok:
  "distinct (map tk_hash t) \<Longrightarrow> insertToken t h ident now ex = Inr t' \<Longrightarrow> distinct (map tk_hash t')"
  by (auto simp: insertToken_def Let_def distinct_map_filter split: if_splits)

lemma inv_tokens [inv_intros]:
  "db_inv d \<Longrightarrow> MintSessionToken h ident now ex d = Inr d' \<Longrightarrow> db_inv d'"
  "db_inv d \<Longrightarrow> CreateAPISession h ident now ex d = Inr d' \<Longrightarrow> db_inv d'"
  "db_inv d \<Longrightarrow> RedeemSessionToken h now d = (r, d') \<Longrightarrow> db_inv d'"
  "db_inv d \<Longrightarrow> db_inv (RevokeAPISession h d)"
  by (auto simp: MintSessionToken_def CreateAPISession_def RedeemSessionToken_def RevokeAPISession_def
      db_inv_def distinct_map_filter map_sum_Inr split: option.splits intro: insertToken_ok)

lemma inv_misc [inv_intros]:
  "db_inv d \<Longrightarrow> db_inv (SetDefaultPolicy p d)"
  "db_inv d \<Longrightarrow> db_inv (SetSetting k v d)"
  "db_inv d \<Longrightarrow> db_inv (AddAdminKey key d)"
  "db_inv d \<Longrightarrow> db_inv (RemoveAdminKey key d)"
  "db_inv d \<Longrightarrow> AddActivityEvent ev d = (ev', d') \<Longrightarrow> db_inv d'"
  "db_inv d \<Longrightarrow> DeleteActivityOlderThan cutoff d = (n, d') \<Longrightarrow> db_inv d'"
proof -
  have keys: "map (fst \<circ> (\<lambda>(k, v). (k, if k = key then val else v))) xs = map fst xs"
    for key :: gostring and val and xs :: "(gostring \<times> gostring) list"
    by (simp add: case_prod_beta)
  show "db_inv d \<Longrightarrow> db_inv (SetDefaultPolicy p d)" by (simp add: SetDefaultPolicy_def db_inv_def)
  show "db_inv d \<Longrightarrow> db_inv (SetSetting k v d)" by (simp add: SetSetting_def db_inv_def keys)
  show "db_inv d \<Longrightarrow> db_inv (AddAdminKey key d)" by (simp add: AddAdminKey_def db_inv_def)
  show "db_inv d \<Longrightarrow> db_inv (RemoveAdminKey key d)" by (simp add: RemoveAdminKey_def db_inv_def)
  show "db_inv d \<Longrightarrow> AddActivityEvent ev d = (ev', d') \<Longrightarrow> db_inv d'"
    by (auto simp: AddActivityEvent_def Let_def db_inv_def intro!: table_ok_append)
       (auto simp: table_ok_def)
  show "db_inv d \<Longrightarrow> DeleteActivityOlderThan cutoff d = (n, d') \<Longrightarrow> db_inv d'"
    by (auto simp: DeleteActivityOlderThan_def db_inv_def intro: table_ok_filter)
qed

lemma db_inv_step: "db_step U uq d d' \<Longrightarrow> db_inv d \<Longrightarrow> db_inv d'"
  by (induction rule: db_step.induct) (auto intro: inv_intros)

lemma db_inv_reachable: "db_reachable U uq d \<Longrightarrow> db_inv d"
  by (induction rule: db_reachable.induct) (auto intro: db_inv_empty db_inv_step)

section \<open>Properties\<close>


definition demo_guest :: guest_row where
  "demo_guest = \<lparr>g_id = 0, g_type = GuestTypeCT, g_name = ''web'', g_status = StatusRunning,
     g_vmid = 100, g_instance = 1\<rparr>"


text \<open>removing an instance removes the instance, its guests, every rule on one of those
  guests and every rule on the instance itself, and no other row of any table.\<close>

theorem remove_instance_complete:
  "let d' = RemoveProxmoxInstance iid d; gone = g_id ` set (guests_of iid d) in
     set (d_instances d') = {i \<in> set (d_instances d). in_id i \<noteq> iid} \<and>
     set (d_guests d') = {g \<in> set (d_guests d). g_instance g \<noteq> iid} \<and>
     set (d_rules d') = {r \<in> set (d_rules d). r_target r \<notin> gone} \<and>
     set (d_inst_rules d') = {r \<in> set (d_inst_rules d). r_target r \<noteq> iid} \<and>
     d_clients d' = d_clients d \<and> d_groups d' = d_groups d \<and> d_policy d' = d_policy d \<and>
     d_sessions d' = d_sessions d \<and> d_tokens d' = d_tokens d \<and> d_seq_guest d' = d_seq_guest d"
  by (auto simp: RemoveProxmoxInstance_eq Let_def)

text \<open>
  Removing a client or a group leaves the rules and the default policy that name it.
\<close>

lemma remove_client_keeps_rules:
  "d_rules (RemoveClient cid d) = d_rules d \<and> d_inst_rules (RemoveClient cid d) = d_inst_rules d \<and>
   d_policy (RemoveClient cid d) = d_policy d \<and> d_sessions (RemoveClient cid d) = d_sessions d"
  by (simp add: RemoveClient_def)

end
