(* ===== verification/Discovery.thy ===== *)
theory Discovery
  imports RepoInvariant
begin

text \<open>
  \<open>internal/proxmox/reconcile.go\<close> and the single pass of \<open>discovery.go\<close>: what a
  discovery pass writes and prunes. \<open>StoreGuests\<close> takes the two repository operations
  it calls as arguments, because it has branches for their failure; the locale
  \<open>guest_store\<close> states what it relies on them for, and is interpreted on the model's
  repository. \<open>cancelled i\<close> is what \<open>ctx.Err\<close> answers before the \<open>i\<close>-th guest.
\<close>

datatype 'e store_error =
    StoreCancelled
  | UpsertFailed gostring int 'e
  | PruneFailed gostring 'e

record 'e store_acc =
  sa_live :: "int list"
  sa_stored :: nat
  sa_err :: "'e store_error option"

text \<open>The loop; \<open>None\<close> is the early return on a cancelled context.\<close>

fun store_loop ::
  "(guest_row \<Rightarrow> 's \<Rightarrow> 'e + 's) \<Rightarrow> (nat \<Rightarrow> bool) \<Rightarrow> int \<Rightarrow> nat \<Rightarrow> guest_row list \<Rightarrow>
   'e store_acc \<Rightarrow> 's \<Rightarrow> bool \<times> 'e store_acc \<times> 's"
where
  "store_loop upsert cancelled iid i [] a s = (True, a, s)"
| "store_loop upsert cancelled iid i (g # gs) a s =
     (if cancelled i then (False, a, s)
      else if g_status g \<noteq> StatusRunning then store_loop upsert cancelled iid (Suc i) gs a s
      else case upsert (g\<lparr>g_instance := iid\<rparr>) s of
          Inl e \<Rightarrow>
            store_loop upsert cancelled iid (Suc i) gs
              (a\<lparr>sa_err := (case sa_err a of None \<Rightarrow> Some (UpsertFailed (g_name g) (g_vmid g) e)
                                         | Some x \<Rightarrow> Some x),
                 sa_live := sa_live a @ [g_vmid g]\<rparr>) s
        | Inr s' \<Rightarrow>
            store_loop upsert cancelled iid (Suc i) gs
              (a\<lparr>sa_live := sa_live a @ [g_vmid g], sa_stored := sa_stored a + 1\<rparr>) s')"

definition StoreGuests ::
  "(guest_row \<Rightarrow> 's \<Rightarrow> 'e + 's) \<Rightarrow> (int \<Rightarrow> int list \<Rightarrow> 's \<Rightarrow> 'e + nat \<times> 's) \<Rightarrow> (nat \<Rightarrow> bool) \<Rightarrow>
   instance_row \<Rightarrow> guest_row list \<Rightarrow> 's \<Rightarrow> (nat \<times> nat \<times> 'e store_error option) \<times> 's"
where
  "StoreGuests upsert prune cancelled inst guests s =
     (let (finished, a, s) = store_loop upsert cancelled (in_id inst) 0 guests
            \<lparr>sa_live = [], sa_stored = 0, sa_err = None\<rparr> s
      in if \<not> finished then ((sa_stored a, 0, Some StoreCancelled), s)
         else case prune (in_id inst) (sa_live a) s of
             Inl e \<Rightarrow> ((sa_stored a, 0, Some (PruneFailed (in_name inst) e)), s)
           | Inr (n, s) \<Rightarrow> ((sa_stored a, n, sa_err a), s))"

text \<open>
  \<open>discoverInstance\<close>: \<open>answer\<close> is what the Proxmox API returned for the instance.
\<close>

definition discoverInstance ::
  "(guest_row \<Rightarrow> 's \<Rightarrow> 'e + 's) \<Rightarrow> (int \<Rightarrow> int list \<Rightarrow> 's \<Rightarrow> 'e + nat \<times> 's) \<Rightarrow>
   (instance_row \<Rightarrow> gostring + guest_row list) \<Rightarrow> instance_row \<Rightarrow> 's \<Rightarrow> bool \<times> 's"
where
  "discoverInstance upsert prune answer inst s =
     (case answer inst of
        Inl e \<Rightarrow> (False, s)
      | Inr guests \<Rightarrow>
          (let ((stored, removed, err), s) = StoreGuests upsert prune (\<lambda>_. False) inst guests s
           in (err = None, s)))"

text \<open>
  \<open>RunOnce\<close>: the instances' passes in the order in which they finish; the result says
  whether every one of them succeeded.
\<close>

fun RunOnce ::
  "(guest_row \<Rightarrow> 's \<Rightarrow> 'e + 's) \<Rightarrow> (int \<Rightarrow> int list \<Rightarrow> 's \<Rightarrow> 'e + nat \<times> 's) \<Rightarrow>
   (instance_row \<Rightarrow> gostring + guest_row list) \<Rightarrow> instance_row list \<Rightarrow> 's \<Rightarrow> bool \<times> 's"
where
  "RunOnce upsert prune answer [] s = (True, s)"
| "RunOnce upsert prune answer (i # is) s =
     (let (ok, s) = discoverInstance upsert prune answer i s;
          (oks, s) = RunOnce upsert prune answer is s
      in (ok \<and> oks, s))"

section \<open>The store's contract\<close>

locale guest_store =
  fixes upsert :: "guest_row \<Rightarrow> 's \<Rightarrow> 'e + 's"
    and prune :: "int \<Rightarrow> int list \<Rightarrow> 's \<Rightarrow> 'e + nat \<times> 's"
    and good :: "'s \<Rightarrow> bool"
    and keys :: "'s \<Rightarrow> (int \<times> int) set"
  assumes upsert_keys: "good s \<Longrightarrow> upsert g s = Inr s' \<Longrightarrow>
      good s' \<and> keys s' = insert (g_vmid g, g_instance g) (keys s)"
    and prune_keys: "good s \<Longrightarrow> prune iid keep s = Inr (n, s') \<Longrightarrow>
      good s' \<and> keys s' = {(v, i) \<in> keys s. i \<noteq> iid \<or> v \<in> set keep}"
begin

lemma store_loop_good:
  "good s \<Longrightarrow> store_loop upsert cancelled iid i gs a s = (fin, a', s') \<Longrightarrow>
   good s' \<and> keys s \<subseteq> keys s' \<and> (\<forall>v j. j \<noteq> iid \<longrightarrow> (v, j) \<in> keys s' \<longrightarrow> (v, j) \<in> keys s)"
proof (induction gs arbitrary: i a s)
  case (Cons g gs)
  note IH = Cons.IH [OF _ , where i = "Suc i"]
  show ?case
  proof (cases "upsert (g\<lparr>g_instance := iid\<rparr>) s")
    case (Inl e)
    then show ?thesis using Cons.prems IH [OF Cons.prems(1)] by (auto split: if_splits)
  next
    case (Inr s1)
    have k: "good s1" "keys s1 = insert (g_vmid g, iid) (keys s)"
      using upsert_keys [OF Cons.prems(1) Inr] by simp_all
    show ?thesis
      using Cons.prems(2) Inr k IH [OF Cons.prems(1), of a] IH [OF k(1)] Cons.prems(1)
      by (auto split: if_splits)
  qed
qed auto

lemma store_loop_live:
  "good s \<Longrightarrow> store_loop upsert cancelled iid i gs a s = (True, a', s') \<Longrightarrow>
   set (sa_live a') = set (sa_live a) \<union> g_vmid ` {g \<in> set gs. g_status g = StatusRunning} \<and>
   (sa_err a' = None \<longrightarrow> sa_err a = None \<and>
      (\<forall>g\<in>set gs. g_status g = StatusRunning \<longrightarrow> (g_vmid g, iid) \<in> keys s'))"
proof (induction gs arbitrary: i a s)
  case (Cons g gs)
  note IH = Cons.IH [OF _ , where i = "Suc i"]
  have nc: "\<not> cancelled i" using Cons.prems(2) by (auto split: if_splits)
  show ?case
  proof (cases "g_status g = StatusRunning")
    case False
    then show ?thesis using Cons.prems(2) nc IH [OF Cons.prems(1), of a] by auto
  next
    case True
    show ?thesis
    proof (cases "upsert (g\<lparr>g_instance := iid\<rparr>) s")
      case (Inl e)
      let ?a = "a\<lparr>sa_err := (case sa_err a of None \<Rightarrow> Some (UpsertFailed (g_name g) (g_vmid g) e) | Some x \<Rightarrow> Some x),
        sa_live := sa_live a @ [g_vmid g]\<rparr>"
      have "store_loop upsert cancelled iid (Suc i) gs ?a s = (True, a', s')"
        using Cons.prems(2) nc True Inl by simp
      from IH [OF Cons.prems(1) this] True show ?thesis by (auto split: option.splits)
    next
      case (Inr s1)
      have k: "good s1" "keys s1 = insert (g_vmid g, iid) (keys s)"
        using upsert_keys [OF Cons.prems(1) Inr] by simp_all
      let ?a = "a\<lparr>sa_live := sa_live a @ [g_vmid g], sa_stored := sa_stored a + 1\<rparr>"
      have l: "store_loop upsert cancelled iid (Suc i) gs ?a s1 = (True, a', s')"
        using Cons.prems(2) nc True Inr by simp
      from IH [OF k(1) l] store_loop_good [OF k(1) l] True k(2) show ?thesis by auto
    qed
  qed
qed auto

lemma store_keys:
  assumes "good s" "StoreGuests upsert prune cancelled inst gs s = ((stored, removed, None), s')"
  shows "good s' \<and> keys s' =
    {(v, j) \<in> keys s. j \<noteq> in_id inst} \<union>
    (\<lambda>g. (g_vmid g, in_id inst)) ` {g \<in> set gs. g_status g = StatusRunning}"
proof -
  obtain fin a s1 where l: "store_loop upsert cancelled (in_id inst) 0 gs
      \<lparr>sa_live = [], sa_stored = 0, sa_err = None\<rparr> s = (fin, a, s1)"
    by (metis prod_cases3)
  have fin: "fin" using assms(2) l by (auto simp: StoreGuests_def split: if_splits)
  obtain n where p: "prune (in_id inst) (sa_live a) s1 = Inr (n, s')" and e: "sa_err a = None"
    using assms(2) l fin by (auto simp: StoreGuests_def split: sum.splits)
  note good1 = store_loop_good [OF assms(1) l]
  note live = store_loop_live [OF assms(1) l [unfolded eqTrueI [OF fin]]]
  have "keys s' = {(v, i) \<in> keys s1. i \<noteq> in_id inst \<or> v \<in> set (sa_live a)}" "good s'"
    using prune_keys [OF _ p] good1 by simp_all
  then show ?thesis using good1 live e by fastforce
qed

end

section \<open>The repository keeps it\<close>

definition repo_upsert :: "guest_row \<Rightarrow> db \<Rightarrow> db_error + db" where
  "repo_upsert g d = Inr (snd (UpsertGuest g d))"

definition repo_prune :: "int \<Rightarrow> int list \<Rightarrow> db \<Rightarrow> db_error + nat \<times> db" where
  "repo_prune iid keep d = Inr (RemoveGuestsNotIn iid keep d)"

definition guest_keys :: "db \<Rightarrow> (int \<times> int) set" where
  "guest_keys d = guest_key ` set (d_guests d)"

interpretation gs: guest_store repo_upsert repo_prune db_inv guest_keys
proof
  fix s s' g
  assume i: "db_inv s" and u: "repo_upsert g s = Inr s'"
  obtain g1 where u1: "UpsertGuest g s = (g1, s')"
    using u by (metis prod.collapse repo_upsert_def sum.inject(2))
  have "map guest_key (update_where (\<lambda>r. g_id r = x) (\<lambda>r. r\<lparr>g_type := a, g_name := b, g_status := c\<rparr>) gs)
      = map guest_key gs" for x a b c gs
    by (simp add: update_where_def guest_key_def)
  then have k: "guest_key ` set (update_where (\<lambda>r. g_id r = x) (\<lambda>r. r\<lparr>g_type := a, g_name := b, g_status := c\<rparr>) gs)
      = guest_key ` set gs" for x a b c gs
    by (metis set_map)
  have "guest_keys s' = insert (g_vmid g, g_instance g) (guest_keys s)"
  proof (cases "find (\<lambda>x. g_vmid x = g_vmid g \<and> g_instance x = g_instance g) (d_guests s)")
    case None
    then show ?thesis using u1 by (auto simp: UpsertGuest_def Let_def guest_keys_def guest_key_def)
  next
    case (Some x)
    then have "(g_vmid g, g_instance g) = guest_key x" "x \<in> set (d_guests s)"
      using find_in [OF Some] by (simp_all add: guest_key_def)
    then have "(g_vmid g, g_instance g) \<in> guest_keys s" by (simp add: guest_keys_def)
    moreover have "s' = s\<lparr>d_guests := update_where (\<lambda>r. g_id r = g_id x)
        (\<lambda>r. r\<lparr>g_type := g_type g, g_name := g_name g, g_status := g_status g\<rparr>) (d_guests s)\<rparr>"
      using u1 Some by (auto simp: UpsertGuest_def Let_def)
    then have "guest_keys s' = guest_keys s" by (simp only: guest_keys_def db.select_convs db.update_convs) (simp add: k)
    ultimately show ?thesis by (simp add: insert_absorb)
  qed
  with inv_upsert [OF i u1] show "db_inv s' \<and> guest_keys s' = insert (g_vmid g, g_instance g) (guest_keys s)"
    by simp
next
  fix s s' n iid keep
  assume i: "db_inv s" and p: "repo_prune iid keep s = Inr (n, s')"
  have p1: "RemoveGuestsNotIn iid keep s = (n, s')" using p by (simp add: repo_prune_def)
  have ids: "distinct (map g_id (d_guests s))" using i by (simp add: db_inv_def table_ok_def)
  have "set (d_guests s') = {g \<in> set (d_guests s). g_instance g \<noteq> iid \<or> g_vmid g \<in> set keep}"
    using p1 ids
    by (auto simp: RemoveGuestsNotIn_eq stale_guests_def guests_of_def distinct_map dest: inj_onD)
  then have "guest_keys s' = {(v, i) \<in> guest_keys s. i \<noteq> iid \<or> v \<in> set keep}"
    by (auto simp: guest_keys_def guest_key_def)
  with inv_remove_guests [OF i p1]
  show "db_inv s' \<and> guest_keys s' = {(v, i) \<in> guest_keys s. i \<noteq> iid \<or> v \<in> set keep}" by simp
qed

section \<open>Properties\<close>

text \<open>C34: after a discovery pass that reports no error, the guests stored for the instance are
  exactly the running ones of the pass, and no guest of another instance was added or lost.\<close>

theorem store_guests_exact:
  assumes "db_inv d"
    and "StoreGuests repo_upsert repo_prune cancelled inst gs d = ((stored, removed, None), d')"
  shows "guest_keys d' =
    {(v, i) \<in> guest_keys d. i \<noteq> in_id inst} \<union>
    (\<lambda>g. (g_vmid g, in_id inst)) ` {g \<in> set gs. g_status g = StatusRunning}"
  using gs.store_keys [OF assms] by simp

definition demo_instance :: instance_row where
  "demo_instance = \<lparr>in_id = 1, in_name = ''rome'', in_api_url = ''https://rome'', in_token_id = '''',
     in_token_secret = '''', in_transport = ''ssh'', in_node = ''rome'', in_insecure_tls = False,
     in_insecure_ssh = False, in_ssh_host = ''rome'', in_ssh_port = 22, in_ssh_user = ''root'', in_fps = []\<rparr>"

lemma store_guests_exact_witness:
  "guest_keys (snd (StoreGuests repo_upsert repo_prune (\<lambda>_. False) demo_instance
      [demo_guest, demo_guest\<lparr>g_vmid := 101, g_status := StatusStopped\<rparr>] empty_db)) = {(100, 1)}"
proof -
  let ?gs = "[demo_guest, demo_guest\<lparr>g_vmid := 101, g_status := StatusStopped\<rparr>]"
  obtain st rm er d' where r: "StoreGuests repo_upsert repo_prune (\<lambda>_. False) demo_instance ?gs empty_db
      = ((st, rm, er), d')"
    by (metis prod_cases3 surj_pair)
  have "er = None"
    using r by (auto simp: StoreGuests_def demo_guest_def StatusStopped_def StatusRunning_def
        repo_upsert_def repo_prune_def Let_def split: prod.splits)
  then have "guest_keys d' = {(v, i) \<in> guest_keys empty_db. i \<noteq> in_id demo_instance} \<union>
      (\<lambda>g. (g_vmid g, in_id demo_instance)) ` {g \<in> set ?gs. g_status g = StatusRunning}"
    using store_guests_exact [OF db_inv_empty] r by simp
  moreover have "{g \<in> set ?gs. g_status g = StatusRunning} = {demo_guest}"
    by (auto simp: demo_guest_def StatusStopped_def StatusRunning_def)
  moreover have "guest_keys empty_db = {}" "in_id demo_instance = 1" "g_vmid demo_guest = 100"
    by (simp_all add: guest_keys_def empty_db_def demo_instance_def demo_guest_def)
  ultimately show ?thesis using r by simp
qed

text \<open>pruning deletes, with a stale guest, every rule on it, and keeps every other rule and
  every guest that was reported or belongs to another instance.\<close>

theorem prune_removes_rules:
  assumes "db_inv d"
  shows "let d' = snd (RemoveGuestsNotIn iid keep d);
             stale = {g \<in> set (d_guests d). g_instance g = iid \<and> g_vmid g \<notin> set keep} in
    fst (RemoveGuestsNotIn iid keep d) = card stale \<and>
    set (d_guests d') = set (d_guests d) - stale \<and>
    set (d_rules d') = {r \<in> set (d_rules d). r_target r \<notin> g_id ` stale} \<and>
    d_inst_rules d' = d_inst_rules d"
proof -
  have ids: "distinct (map g_id (d_guests d))" using assms by (simp add: db_inv_def table_ok_def)
  have s: "set (stale_guests iid keep d) = {g \<in> set (d_guests d). g_instance g = iid \<and> g_vmid g \<notin> set keep}"
    by (auto simp: stale_guests_def guests_of_def)
  have "distinct (stale_guests iid keep d)"
    using ids by (auto simp: stale_guests_def guests_of_def distinct_map)
  then have "length (stale_guests iid keep d) = card (set (stale_guests iid keep d))"
    by (simp add: distinct_card)
  then show ?thesis
    using ids by (auto simp: RemoveGuestsNotIn_eq Let_def s distinct_map dest: inj_onD)
qed

lemma prune_removes_rules_witness:
  "set (d_guests (snd (RemoveGuestsNotIn 1 [] (snd (UpsertGuest demo_guest empty_db))))) = {}"
proof -
  have u: "UpsertGuest demo_guest empty_db = (fst (UpsertGuest demo_guest empty_db), snd (UpsertGuest demo_guest empty_db))"
    by simp
  have g: "set (d_guests (snd (UpsertGuest demo_guest empty_db))) = {demo_guest\<lparr>g_id := 1\<rparr>}"
    by (simp add: UpsertGuest_def empty_db_def Let_def)
  show ?thesis
    using prune_removes_rules [OF inv_upsert [OF db_inv_empty u], of 1 "[]"] g
    by (auto simp: Let_def demo_guest_def)
qed

end
