(* ===== verification/AccessControl.thy ===== *)
theory AccessControl
  imports RepoInvariant
begin

text \<open>
  The access decision of \<open>internal/db/sql_repository.go\<close>: \<open>clientGroupIDs\<close>,
  \<open>HasAccess\<close> and \<open>HasInstanceAccess\<close>, with the early returns of the code, against
  a declarative account of who may reach what. Go iterates over the map of group ids in no
  fixed order: \<open>ord\<close> is the order it happens to take, a permutation.
\<close>

definition clientGroupIDs :: "(int list \<Rightarrow> int list) \<Rightarrow> int \<Rightarrow> db \<Rightarrow> int list" where
  "clientGroupIDs ord clientID d =
     (let client_side = (case find (\<lambda>c. c_id c = clientID) (d_clients d) of
                           None \<Rightarrow> [] | Some c \<Rightarrow> c_groups c);
          group_side = map gr_id (filter (\<lambda>g. clientID \<in> set (gr_clients g)) (d_groups d))
      in ord (remdups (client_side @ group_side)))"

text \<open>The two loops over the default policy.\<close>

definition policy_authorizes :: "default_policy \<Rightarrow> int \<Rightarrow> int list \<Rightarrow> bool" where
  "policy_authorizes p clientID groupIDs =
     (if list_ex (\<lambda>cid. cid = clientID) (dp_clients p) then True
      else list_ex (\<lambda>authGID. list_ex (\<lambda>memberGID. authGID = memberGID) groupIDs) (dp_groups p))"

definition HasAccess :: "(int list \<Rightarrow> int list) \<Rightarrow> int \<Rightarrow> int \<Rightarrow> db \<Rightarrow> bool" where
  "HasAccess ord clientID guestID d =
     (if has_rule RuleClient clientID guestID (d_rules d) then True
      else let groupIDs = clientGroupIDs ord clientID d in
        if list_ex (\<lambda>gid. has_rule RuleGroup gid guestID (d_rules d)) groupIDs then True
        else policy_authorizes (GetDefaultPolicy d) clientID groupIDs)"

definition HasInstanceAccess :: "(int list \<Rightarrow> int list) \<Rightarrow> int \<Rightarrow> int \<Rightarrow> db \<Rightarrow> bool" where
  "HasInstanceAccess ord clientID instanceID d =
     (if has_rule RuleClient clientID instanceID (d_inst_rules d) then True
      else let groupIDs = clientGroupIDs ord clientID d in
        if list_ex (\<lambda>gid. has_rule RuleGroup gid instanceID (d_inst_rules d)) groupIDs then True
        else let policy = GetDefaultPolicy d in
          if \<not> dp_node_access policy then False
          else policy_authorizes policy clientID groupIDs)"

section \<open>Who may reach what\<close>

text \<open>A membership entered on either side counts.\<close>

definition member_of :: "db \<Rightarrow> int \<Rightarrow> int \<Rightarrow> bool" where
  "member_of d clientID gid \<longleftrightarrow>
     (\<exists>c\<in>set (d_clients d). c_id c = clientID \<and> gid \<in> set (c_groups c)) \<or>
     (\<exists>g\<in>set (d_groups d). gr_id g = gid \<and> clientID \<in> set (gr_clients g))"

definition policy_reaches :: "db \<Rightarrow> int \<Rightarrow> bool" where
  "policy_reaches d clientID \<longleftrightarrow>
     clientID \<in> set (dp_clients (GetDefaultPolicy d)) \<or>
     (\<exists>gid\<in>set (dp_groups (GetDefaultPolicy d)). member_of d clientID gid)"

definition may_reach_guest :: "db \<Rightarrow> int \<Rightarrow> int \<Rightarrow> bool" where
  "may_reach_guest d clientID guestID \<longleftrightarrow>
     has_rule RuleClient clientID guestID (d_rules d) \<or>
     (\<exists>gid. member_of d clientID gid \<and> has_rule RuleGroup gid guestID (d_rules d)) \<or>
     policy_reaches d clientID"

definition may_reach_node :: "db \<Rightarrow> int \<Rightarrow> int \<Rightarrow> bool" where
  "may_reach_node d clientID instanceID \<longleftrightarrow>
     has_rule RuleClient clientID instanceID (d_inst_rules d) \<or>
     (\<exists>gid. member_of d clientID gid \<and> has_rule RuleGroup gid instanceID (d_inst_rules d)) \<or>
     (dp_node_access (GetDefaultPolicy d) \<and> policy_reaches d clientID)"

definition iteration_order :: "(int list \<Rightarrow> int list) \<Rightarrow> bool" where
  "iteration_order ord \<longleftrightarrow> (\<forall>xs. set (ord xs) = set xs)"

lemma find_client:
  "table_ok c_id c_name n cs \<Longrightarrow>
   (case find (\<lambda>c. c_id c = i) cs of None \<Rightarrow> [] | Some c \<Rightarrow> c_groups c) = gs \<Longrightarrow>
   gid \<in> set gs \<longleftrightarrow> (\<exists>c\<in>set cs. c_id c = i \<and> gid \<in> set (c_groups c))"
proof (induction cs arbitrary: gs)
  case (Cons c cs)
  have "table_ok c_id c_name n cs" and "\<forall>x\<in>set cs. c_id x \<noteq> c_id c"
    using Cons.prems(1) by (auto simp: table_ok_def) (metis image_eqI)
  with Cons show ?case by (auto split: if_splits)
qed auto

lemma groups_member:
  assumes "db_inv d" "iteration_order ord"
  shows "gid \<in> set (clientGroupIDs ord cid d) \<longleftrightarrow> member_of d cid gid"
proof -
  have t: "table_ok c_id c_name (d_seq_client d) (d_clients d)" using assms(1) by (simp add: db_inv_def)
  show ?thesis
    using assms(2) find_client [OF t refl, of gid cid]
    by (auto simp: clientGroupIDs_def Let_def iteration_order_def member_of_def)
qed

lemma policy_authorizes_iff:
  "policy_authorizes p cid gs \<longleftrightarrow> cid \<in> set (dp_clients p) \<or> (\<exists>g\<in>set (dp_groups p). g \<in> set gs)"
  by (auto simp: policy_authorizes_def list_ex_iff)

lemma HasAccess_exact:
  assumes "db_inv d" "iteration_order ord"
  shows "HasAccess ord cid gid d \<longleftrightarrow> may_reach_guest d cid gid"
  using groups_member [OF assms]
  by (auto simp: HasAccess_def may_reach_guest_def policy_reaches_def list_ex_iff Let_def
      policy_authorizes_iff)

lemma HasInstanceAccess_exact:
  assumes "db_inv d" "iteration_order ord"
  shows "HasInstanceAccess ord cid iid d \<longleftrightarrow> may_reach_node d cid iid"
  using groups_member [OF assms]
  by (auto simp: HasInstanceAccess_def may_reach_node_def policy_reaches_def list_ex_iff Let_def
      policy_authorizes_iff)

section \<open>Properties\<close>

text \<open>C3: in every reachable database and whatever order the group ids are visited in, a client
  may reach a guest exactly when a rule names the client, or a group it is a member of from
  either side, or the default policy authorizes the client or such a group.\<close>

theorem guest_access_exact:
  assumes "db_reachable U uq d" "iteration_order ord"
  shows "HasAccess ord cid gid d \<longleftrightarrow>
    has_rule RuleClient cid gid (d_rules d) \<or>
    (\<exists>g. member_of d cid g \<and> has_rule RuleGroup g gid (d_rules d)) \<or>
    cid \<in> set (dp_clients (GetDefaultPolicy d)) \<or>
    (\<exists>g\<in>set (dp_groups (GetDefaultPolicy d)). member_of d cid g)"
  using HasAccess_exact [OF db_inv_reachable [OF assms(1)] assms(2)]
  by (simp add: may_reach_guest_def policy_reaches_def)

definition demo_group :: group_row where
  "demo_group = \<lparr>gr_id = 0, gr_name = ''ops'', gr_clients = [7]\<rparr>"

definition demo_db :: db where
  "demo_db = (case AddGroup id demo_group empty_db of
     Inl e \<Rightarrow> empty_db | Inr (g, d) \<Rightarrow> GrantGroupAccess 1 [42] d)"

lemma demo_db_reachable: "db_reachable id True demo_db"
proof -
  obtain g d where a: "AddGroup id demo_group empty_db = Inr (g, d)"
    by (simp add: AddGroup_def empty_db_def Let_def)
  have "db_reachable id True d" by (rule reach_db_step [OF reach_empty add_group [OF a]])
  then have "db_reachable id True (GrantGroupAccess 1 [42] d)"
    unfolding GrantGroupAccess_def by (rule reach_db_step) (rule grant)
  then show ?thesis by (simp add: demo_db_def a)
qed

lemma demo_db_member: "member_of demo_db 7 1"
  by (simp add: member_of_def demo_db_def AddGroup_def empty_db_def Let_def GrantGroupAccess_def
      grantAccess_def demo_group_def)

lemma guest_access_exact_witness:
  "HasAccess rev 7 42 demo_db \<and> \<not> HasAccess rev 7 43 demo_db"
proof -
  have o: "iteration_order rev" by (simp add: iteration_order_def)
  have r: "has_rule t s g (d_rules demo_db) \<longleftrightarrow> t = RuleGroup \<and> s = 1 \<and> g = 42" for t s g
    by (auto simp: has_rule_def demo_db_def AddGroup_def empty_db_def Let_def GrantGroupAccess_def
        grantAccess_def)
  have p: "GetDefaultPolicy demo_db = no_policy"
    by (simp add: demo_db_def AddGroup_def empty_db_def Let_def GrantGroupAccess_def grantAccess_def
        GetDefaultPolicy_def)
  show ?thesis
    using guest_access_exact [OF demo_db_reachable o, of 7 42] guest_access_exact [OF demo_db_reachable o, of 7 43]
      demo_db_member by (auto simp: r p no_policy_def)
qed



text \<open>
  Removing a client does not end its access: the rules that name its id stay, and so does a
  membership entered on the group side.
\<close>

lemma removed_client_keeps_access:
  "has_rule RuleClient cid gid (d_rules d) \<Longrightarrow> HasAccess ord cid gid (RemoveClient cid d)"
  by (simp add: HasAccess_def RemoveClient_def)

lemma grant_effect:
  assumes "db_inv d" "iteration_order ord"
  shows "HasAccess ord cid gid (grantAccess ty subj ts d) \<longleftrightarrow>
    HasAccess ord cid gid d \<or>
    (gid \<in> set ts \<and> (ty = RuleClient \<and> subj = cid \<or> ty = RuleGroup \<and> member_of d cid subj))"
proof -
  have d: "d_rules (grantAccess ty subj ts d) = fst (insert_rules ty subj ts (d_rules d, d_seq_rule d))"
    "member_of (grantAccess ty subj ts d) = member_of d"
    "GetDefaultPolicy (grantAccess ty subj ts d) = GetDefaultPolicy d"
    by (auto simp: grantAccess_def member_of_def GetDefaultPolicy_def fun_eq_iff split: prod.splits)
  show ?thesis
    unfolding HasAccess_exact [OF inv_rules(1) [OF assms(1)] assms(2)] HasAccess_exact [OF assms]
    by (auto simp: may_reach_guest_def policy_reaches_def d has_rule_insert)
qed

end
