(* ===== verification/SessionApi.thy ===== *)
theory SessionApi
  imports AccessControl
begin

text \<open>
  The session half of the HTTP API: \<open>internal/api/session.go\<close> (bearer tokens, the exchange
  of a minted token for a session credential, who is calling) and
  \<open>internal/api/sessiondata.go\<close> (what a session may list and connect to). A response is a
  value of \<open>reply\<close>; an error the handler returns is the generated server's 500.
  \<open>H\<close> is SHA-256 in hexadecimal, \<open>E\<close> and \<open>U\<close> the Unicode halves of
  \<open>strings.EqualFold\<close> and \<open>strings.ToLower\<close>; the clock, the fresh credential and the
  deployment's key file are arguments.
\<close>

datatype 'a reply =
    OK200 'a
  | Created201 'a
  | NoContent204
  | Unauthorized401 gostring
  | Forbidden403 gostring
  | NotFound404 gostring
  | Conflict409 gostring
  | BadRequest400 gostring
  | Error500 gostring
  | BadGateway502 gostring

datatype auth_error = NoCredential | NoSuchToken

definition reasonMissingToken :: gostring where "reasonMissingToken = ''missing token''"
definition reasonInvalidToken :: gostring where "reasonInvalidToken = ''invalid token''"
definition restAPIIdentityName :: gostring where "restAPIIdentityName = ''rest-api-token''"

text \<open>\<open>12 * time.Hour\<close>, in the seconds the database stores.\<close>

definition SessionCredentialTTL :: time where "SessionCredentialTTL = 12 * 3600"

section \<open>Who is calling\<close>

definition bearer_prefix :: gostring where "bearer_prefix = ''Bearer ''"

definition withBearerToken :: "(bytes \<Rightarrow> bytes \<Rightarrow> bool) \<Rightarrow> gostring \<Rightarrow> gostring option" where
  "withBearerToken E header =
     (if length header \<le> length bearer_prefix \<or>
         \<not> equal_fold E (take (length bearer_prefix) header) bearer_prefix then None
      else let token = trim_space (drop (length bearer_prefix) header) in
        if token = '''' then None else Some token)"

definition WithRESTAPIToken :: "(gostring \<Rightarrow> gostring) \<Rightarrow> gostring \<Rightarrow> gostring" where
  "WithRESTAPIToken H token = (if token = '''' then '''' else H token)"

text \<open>\<open>rest\<close> is the handler's stored hash of the static token, empty when there is none.\<close>

definition callerIdentity ::
  "(gostring \<Rightarrow> gostring) \<Rightarrow> gostring \<Rightarrow> time \<Rightarrow> gostring option \<Rightarrow> db \<Rightarrow> auth_error + identity" where
  "callerIdentity H rest now tok d =
     (case tok of
        None \<Rightarrow> Inl NoCredential
      | Some token \<Rightarrow>
          if rest \<noteq> '''' \<and> H token = rest
          then Inr \<lparr>id_login = '''', id_name = restAPIIdentityName, id_admin = True, id_client = 0\<rparr>
          else map_sum (\<lambda>_. NoSuchToken) id (LookupAPISession (H token) now d))"

fun authFailureReason :: "auth_error \<Rightarrow> gostring" where
  "authFailureReason NoCredential = reasonMissingToken"
| "authFailureReason NoSuchToken = reasonInvalidToken"

record identity_response =
  ir_login :: gostring
  ir_name :: gostring
  ir_admin :: bool
  ir_client :: "int option"

definition identityResponse :: "identity \<Rightarrow> identity_response" where
  "identityResponse i =
     \<lparr>ir_login = id_login i, ir_name = id_name i, ir_admin = id_admin i,
      ir_client = (if id_client i \<noteq> 0 then Some (id_client i) else None)\<rparr>"

record session_credential =
  sc_token :: gostring
  sc_expires :: time
  sc_identity :: identity_response

definition ExchangeSessionToken ::
  "(gostring \<Rightarrow> gostring) \<Rightarrow> time \<Rightarrow> gostring \<Rightarrow> gostring option \<Rightarrow> db \<Rightarrow> session_credential reply \<times> db"
where
  "ExchangeSessionToken H now fresh tok d =
     (case tok of
        None \<Rightarrow> (Unauthorized401 reasonMissingToken, d)
      | Some minted \<Rightarrow>
          (case RedeemSessionToken (H minted) now d of
             (Inl _, d) \<Rightarrow> (Unauthorized401 reasonInvalidToken, d)
           | (Inr ident, d) \<Rightarrow>
               let expiresAt = now + SessionCredentialTTL in
               (case CreateAPISession (H fresh) ident now expiresAt d of
                  Inl _ \<Rightarrow> (Error500 ''inserting into api_sessions'', d)
                | Inr d \<Rightarrow>
                    (OK200 \<lparr>sc_token = fresh, sc_expires = expiresAt,
                            sc_identity = identityResponse ident\<rparr>, d))))"

definition RevokeSessionCredential ::
  "(gostring \<Rightarrow> gostring) \<Rightarrow> gostring option \<Rightarrow> db \<Rightarrow> unit reply \<times> db" where
  "RevokeSessionCredential H tok d =
     (case tok of
        None \<Rightarrow> (Unauthorized401 reasonMissingToken, d)
      | Some token \<Rightarrow> (NoContent204, RevokeAPISession (H token) d))"

text \<open>The frame every authenticated handler shares.\<close>

definition authenticated ::
  "(gostring \<Rightarrow> gostring) \<Rightarrow> gostring \<Rightarrow> time \<Rightarrow> gostring option \<Rightarrow> db \<Rightarrow> (identity \<Rightarrow> 'a reply) \<Rightarrow> 'a reply" where
  "authenticated H rest now tok d k =
     (case callerIdentity H rest now tok d of
        Inl e \<Rightarrow> Unauthorized401 (authFailureReason e)
      | Inr ident \<Rightarrow> k ident)"

definition GetSessionIdentity ::
  "(gostring \<Rightarrow> gostring) \<Rightarrow> gostring \<Rightarrow> time \<Rightarrow> gostring option \<Rightarrow> db \<Rightarrow> identity_response reply" where
  "GetSessionIdentity H rest now tok d =
     authenticated H rest now tok d (\<lambda>ident. OK200 (identityResponse ident))"

section \<open>What a session may list and connect to\<close>

definition mayReach :: "(int list \<Rightarrow> int list) \<Rightarrow> identity \<Rightarrow> int \<Rightarrow> db \<Rightarrow> bool" where
  "mayReach ord ident guestID d =
     (if id_admin ident then True else HasAccess ord (id_client ident) guestID d)"

definition mayReachInstance :: "(int list \<Rightarrow> int list) \<Rightarrow> identity \<Rightarrow> int \<Rightarrow> db \<Rightarrow> bool" where
  "mayReachInstance ord ident iid d =
     (if id_admin ident then True else HasInstanceAccess ord (id_client ident) iid d)"

definition accessible :: "identity \<Rightarrow> 'r list \<Rightarrow> ('r \<Rightarrow> int) \<Rightarrow> (int \<Rightarrow> int \<Rightarrow> bool) \<Rightarrow> 'r list" where
  "accessible ident rows idf may =
     (if id_admin ident then rows else filter (\<lambda>row. may (id_client ident) (idf row)) rows)"

definition accessibleGuests :: "(int list \<Rightarrow> int list) \<Rightarrow> identity \<Rightarrow> db \<Rightarrow> guest_row list" where
  "accessibleGuests ord ident d =
     accessible ident (ListGuests d) g_id (\<lambda>cid gid. HasAccess ord cid gid d)"

definition accessibleInstances :: "(int list \<Rightarrow> int list) \<Rightarrow> identity \<Rightarrow> db \<Rightarrow> instance_row list" where
  "accessibleInstances ord ident d =
     (let granted = accessible ident (ListProxmoxInstances d) in_id
                      (\<lambda>cid iid. HasInstanceAccess ord cid iid d)
      in filter (\<lambda>inst. in_ssh_host inst \<noteq> '''') granted)"

definition instanceNames :: "db \<Rightarrow> int \<Rightarrow> gostring" where
  "instanceNames d iid =
     (case map_of (rev (map (\<lambda>i. (in_id i, in_name i)) (ListProxmoxInstances d))) iid of
        None \<Rightarrow> '''' | Some n \<Rightarrow> n)"

definition findGuest :: "int \<Rightarrow> db \<Rightarrow> guest_row option" where
  "findGuest gid d = (case GetGuestByID gid d of Inl _ \<Rightarrow> None | Inr g \<Rightarrow> Some g)"

definition findInstance :: "int \<Rightarrow> db \<Rightarrow> instance_row option" where
  "findInstance iid d = find (\<lambda>i. in_id i = iid) (ListProxmoxInstances d)"

record guest_response =
  gw_id :: int
  gw_name :: gostring
  gw_type :: gostring
  gw_status :: gostring
  gw_vmid :: int
  gw_instance :: int
  gw_instance_name :: gostring

definition guestResponse :: "guest_row \<Rightarrow> gostring \<Rightarrow> guest_response" where
  "guestResponse g instanceName =
     \<lparr>gw_id = g_id g, gw_name = g_name g, gw_type = g_type g, gw_status = g_status g,
      gw_vmid = g_vmid g, gw_instance = g_instance g, gw_instance_name = instanceName\<rparr>"

record instance_response =
  iw_id :: int
  iw_name :: gostring
  iw_node :: gostring

definition instanceResponse :: "instance_row \<Rightarrow> instance_response" where
  "instanceResponse i = \<lparr>iw_id = in_id i, iw_name = in_name i, iw_node = in_node i\<rparr>"

record instance_credentials =
  ic_id :: int
  ic_name :: gostring
  ic_api_url :: gostring
  ic_transport :: gostring
  ic_node :: gostring
  ic_token_id :: "gostring option"
  ic_token_secret :: "gostring option"
  ic_ssh_host :: "gostring option"
  ic_ssh_user :: "gostring option"
  ic_ssh_port :: "int option"
  ic_fps :: "gostring list option"
  ic_insecure_tls :: "bool option"
  ic_insecure_ssh :: "bool option"
  ic_ssh_key :: "gostring option"

definition setIfNotEmpty :: "gostring \<Rightarrow> gostring option" where
  "setIfNotEmpty v = (if v = '''' then None else Some v)"

definition instanceCredentials ::
  "gostring + gostring \<Rightarrow> instance_row \<Rightarrow> gostring + instance_credentials" where
  "instanceCredentials keyfile i =
     (case keyfile of
        Inl e \<Rightarrow> Inl e
      | Inr key \<Rightarrow> Inr
          \<lparr>ic_id = in_id i, ic_name = in_name i, ic_api_url = in_api_url i,
           ic_transport = in_transport i, ic_node = in_node i,
           ic_token_id = setIfNotEmpty (in_token_id i),
           ic_token_secret = setIfNotEmpty (in_token_secret i),
           ic_ssh_host = setIfNotEmpty (in_ssh_host i), ic_ssh_user = setIfNotEmpty (in_ssh_user i),
           ic_ssh_port = (if in_ssh_port i \<noteq> 0 then Some (in_ssh_port i) else None),
           ic_fps = (if length (in_fps i) > 0 then Some (in_fps i) else None),
           ic_insecure_tls = Some (in_insecure_tls i), ic_insecure_ssh = Some (in_insecure_ssh i),
           ic_ssh_key = setIfNotEmpty key\<rparr>)"

definition forbidden :: "'a reply" where "forbidden = Forbidden403 ''no such guest''"
definition forbiddenNode :: "'a reply" where "forbiddenNode = Forbidden403 ''no such instance''"

definition ListSessionGuests ::
  "(gostring \<Rightarrow> gostring) \<Rightarrow> gostring \<Rightarrow> (int list \<Rightarrow> int list) \<Rightarrow> time \<Rightarrow> gostring option \<Rightarrow> db \<Rightarrow>
   guest_response list reply" where
  "ListSessionGuests H rest ord now tok d =
     authenticated H rest now tok d (\<lambda>ident.
       OK200 (map (\<lambda>g. guestResponse g (instanceNames d (g_instance g))) (accessibleGuests ord ident d)))"

definition ConnectSessionGuest ::
  "(gostring \<Rightarrow> gostring) \<Rightarrow> gostring \<Rightarrow> (int list \<Rightarrow> int list) \<Rightarrow> gostring + gostring \<Rightarrow> time \<Rightarrow>
   gostring option \<Rightarrow> int \<Rightarrow> db \<Rightarrow> (guest_response \<times> instance_credentials) reply" where
  "ConnectSessionGuest H rest ord keyfile now tok guestID d =
     authenticated H rest now tok d (\<lambda>ident.
       case findGuest guestID d of
         None \<Rightarrow> forbidden
       | Some guest \<Rightarrow>
           if \<not> mayReach ord ident (g_id guest) d then forbidden
           else case findInstance (g_instance guest) d of
               None \<Rightarrow> Error500 ''guest references missing instance''
             | Some inst \<Rightarrow>
                 (case instanceCredentials keyfile inst of
                    Inl e \<Rightarrow> Error500 e
                  | Inr creds \<Rightarrow> OK200 (guestResponse guest (in_name inst), creds)))"

definition ListSessionInstances ::
  "(gostring \<Rightarrow> gostring) \<Rightarrow> gostring \<Rightarrow> (int list \<Rightarrow> int list) \<Rightarrow> time \<Rightarrow> gostring option \<Rightarrow> db \<Rightarrow>
   instance_response list reply" where
  "ListSessionInstances H rest ord now tok d =
     authenticated H rest now tok d (\<lambda>ident.
       OK200 (map instanceResponse (accessibleInstances ord ident d)))"

definition ConnectSessionNode ::
  "(gostring \<Rightarrow> gostring) \<Rightarrow> gostring \<Rightarrow> (int list \<Rightarrow> int list) \<Rightarrow> gostring + gostring \<Rightarrow> time \<Rightarrow>
   gostring option \<Rightarrow> int \<Rightarrow> db \<Rightarrow> instance_credentials reply" where
  "ConnectSessionNode H rest ord keyfile now tok iid d =
     authenticated H rest now tok d (\<lambda>ident.
       case findInstance iid d of
         None \<Rightarrow> forbiddenNode
       | Some inst \<Rightarrow>
           if \<not> mayReachInstance ord ident (in_id inst) d then forbiddenNode
           else if in_ssh_host inst = '''' then Error500 ''instance has no ssh-host''
           else case instanceCredentials keyfile inst of
               Inl e \<Rightarrow> Error500 e
             | Inr creds \<Rightarrow> OK200 creds)"

definition AdminUser :: gostring where "AdminUser = ''admin''"

definition IsLoginNameReserved ::
  "(bytes \<Rightarrow> bytes) \<Rightarrow> (gostring \<Rightarrow> gostring) \<Rightarrow> gostring \<Rightarrow> time \<Rightarrow> gostring option \<Rightarrow> gostring \<Rightarrow> db \<Rightarrow> bool reply" where
  "IsLoginNameReserved U H rest now tok name d =
     authenticated H rest now tok d (\<lambda>_. OK200 (NamesEqual U name AdminUser))"

definition GetPublicEndpoint ::
  "(gostring \<Rightarrow> gostring) \<Rightarrow> gostring \<Rightarrow> time \<Rightarrow> gostring option \<Rightarrow> db \<Rightarrow> gostring reply" where
  "GetPublicEndpoint H rest now tok d =
     authenticated H rest now tok d (\<lambda>_. OK200 (GetSetting ''public_endpoint'' d))"

end
