(* ===== verification/Tokens.thy ===== *)
theory Tokens
  imports SessionApi
begin

text \<open>
  What the two token tables promise their client, the exchange: rows of other hashes are not
  disturbed (\<open>token_table\<close>) and a minted token can be spent once (\<open>single_use\<close>). Both
  interfaces are stated as locales and interpreted on the repository's operations; the
  properties of the exchange rest on the interpreted facts.
\<close>

section \<open>Interfaces\<close>

locale token_table =
  fixes ins :: "gostring \<Rightarrow> identity \<Rightarrow> time \<Rightarrow> time \<Rightarrow> db \<Rightarrow> db_error + db"
    and live :: "gostring \<Rightarrow> time \<Rightarrow> db \<Rightarrow> identity option"
  assumes ins_live: "db_inv d \<Longrightarrow> ins h i now ex d = Inr d' \<Longrightarrow> now \<le> t \<Longrightarrow>
      live h' t d' = (if h' = h then (if t < ex then Some i else None) else live h' t d)"
begin

lemma others_undisturbed:
  "db_inv d \<Longrightarrow> ins h i now ex d = Inr d' \<Longrightarrow> now \<le> t \<Longrightarrow> h' \<noteq> h \<Longrightarrow> live h' t d' = live h' t d"
  by (simp add: ins_live)

lemma usable_until_expiry:
  "db_inv d \<Longrightarrow> ins h i now ex d = Inr d' \<Longrightarrow> now \<le> t \<Longrightarrow> t < ex \<Longrightarrow> live h t d' = Some i"
  by (simp add: ins_live)

end

datatype token_op =
    Mint gostring identity time time
  | Redeem gostring time

text \<open>A run of operations and, for one hash, how many redemptions of it succeeded.\<close>

fun run_ops ::
  "(gostring \<Rightarrow> identity \<Rightarrow> time \<Rightarrow> time \<Rightarrow> 's \<Rightarrow> db_error + 's) \<Rightarrow>
   (gostring \<Rightarrow> time \<Rightarrow> 's \<Rightarrow> (db_error + identity) \<times> 's) \<Rightarrow> gostring \<Rightarrow> token_op list \<Rightarrow> 's \<Rightarrow> nat \<times> 's" where
  "run_ops ins red h [] s = (0, s)"
| "run_ops ins red h (Mint h' i now ex # ops) s =
     (case ins h' i now ex s of
        Inl _ \<Rightarrow> run_ops ins red h ops s
      | Inr s \<Rightarrow> run_ops ins red h ops s)"
| "run_ops ins red h (Redeem h' now # ops) s =
     (case red h' now s of
        (Inl _, s) \<Rightarrow> run_ops ins red h ops s
      | (Inr _, s) \<Rightarrow> (let (n, s) = run_ops ins red h ops s in ((if h' = h then 1 else 0) + n, s)))"

fun mints :: "gostring \<Rightarrow> token_op list \<Rightarrow> nat" where
  "mints h [] = 0"
| "mints h (Mint h' i now ex # ops) = (if h' = h then 1 else 0) + mints h ops"
| "mints h (Redeem h' now # ops) = mints h ops"

locale single_use =
  fixes ins :: "gostring \<Rightarrow> identity \<Rightarrow> time \<Rightarrow> time \<Rightarrow> 's \<Rightarrow> db_error + 's"
    and red :: "gostring \<Rightarrow> time \<Rightarrow> 's \<Rightarrow> (db_error + identity) \<times> 's"
    and held :: "gostring \<Rightarrow> 's \<Rightarrow> nat"
  assumes ins_held: "ins h i now ex s = Inr s' \<Longrightarrow> held h' s' \<le> held h' s + (if h' = h then 1 else 0)"
    and red_held: "red h now s = (Inr i, s') \<Longrightarrow> held h' s' + (if h' = h then 1 else 0) \<le> held h' s"
    and red_fail: "red h now s = (Inl e, s') \<Longrightarrow> s' = s"
begin

lemma spent_at_most_minted: "fst (run_ops ins red h ops s) \<le> held h s + mints h ops"
proof (induction ops arbitrary: s)
  case (Cons op ops)
  show ?case
  proof (cases op)
    case (Mint h' i now ex)
    show ?thesis
    proof (cases "ins h' i now ex s")
      case (Inl e)
      then show ?thesis using Mint Cons [of s] by simp
    next
      case (Inr s')
      then show ?thesis using Mint Cons [of s'] ins_held [OF Inr, of h] by (simp split: if_splits)
    qed
  next
    case (Redeem h' now)
    obtain r s' where r: "red h' now s = (r, s')" by (cases "red h' now s")
    show ?thesis
    proof (cases r)
      case (Inl e)
      then show ?thesis using Redeem Cons [of s'] r red_fail [of h' now s e s'] by simp
    next
      case (Inr i)
      then show ?thesis using Redeem Cons [of s'] r red_held [of h' now s i s' h]
        by (simp add: case_prod_beta Let_def split: if_splits)
    qed
  qed
qed simp

end

section \<open>The repository's tables\<close>

definition live_in :: "token_row list \<Rightarrow> gostring \<Rightarrow> time \<Rightarrow> identity option" where
  "live_in table h t = map_option tk_identity (find (token_live h t) table)"

lemma find_append: "find P (xs @ ys) = (case find P xs of None \<Rightarrow> find P ys | Some x \<Rightarrow> Some x)"
  by (induction xs) auto

lemma find_filter_imp: "(\<And>x. x \<in> set xs \<Longrightarrow> P x \<Longrightarrow> Q x) \<Longrightarrow> find P (filter Q xs) = find P xs"
  by (induction xs) auto

lemma live_in_insert:
  assumes "insertToken table h i now ex = Inr table'" "now \<le> t"
  shows "live_in table' h' t = (if h' = h then (if t < ex then Some i else None) else live_in table h' t)"
proof -
  let ?kept = "filter (\<lambda>x. \<not> tk_expires x \<le> now) table"
  have t': "table' = ?kept @ [\<lparr>tk_hash = h, tk_identity = i, tk_expires = ex\<rparr>]"
    and h: "h \<notin> set (map tk_hash ?kept)"
    using assms(1) by (auto simp: insertToken_def Let_def split: if_splits)
  have k: "find (token_live g t) ?kept = find (token_live g t) table" for g
    by (rule find_filter_imp) (use assms(2) in \<open>auto simp: token_live_def\<close>)
  have "find (token_live h t) ?kept = None"
    using h by (auto simp: find_None_iff token_live_def)
  then show ?thesis
    by (auto simp: live_in_def t' find_append k token_live_def split: option.splits)
qed

interpretation minted: token_table MintSessionToken "\<lambda>h t d. live_in (d_tokens d) h t"
  by unfold_locales (auto simp: MintSessionToken_def map_sum_Inr live_in_insert)

interpretation cred: token_table CreateAPISession "\<lambda>h t d. live_in (d_sessions d) h t"
  by unfold_locales (auto simp: CreateAPISession_def map_sum_Inr live_in_insert)

definition rows_of :: "gostring \<Rightarrow> db \<Rightarrow> nat" where
  "rows_of h d = length (filter (\<lambda>t. tk_hash t = h) (d_tokens d))"

lemma length_filter_conj: "length (filter (\<lambda>x. P x \<and> Q x) xs) \<le> length (filter P xs)"
  by (induction xs) auto

lemma rows_of_insert:
  assumes "insertToken table h i now ex = Inr table'"
  shows "length (filter (\<lambda>t. tk_hash t = h') table') \<le>
    length (filter (\<lambda>t. tk_hash t = h') table) + (if h' = h then 1 else 0)"
  using assms length_filter_conj [of "\<lambda>t. tk_hash t = h'" "\<lambda>x. \<not> tk_expires x \<le> now" table]
  by (auto simp: insertToken_def Let_def filter_filter conj_commute split: if_splits)

interpretation once: single_use MintSessionToken RedeemSessionToken rows_of
proof
  fix h i now ex s s' h'
  assume "MintSessionToken h i now ex s = Inr s'"
  then obtain t where t: "insertToken (d_tokens s) h i now ex = Inr t" and s': "s' = s\<lparr>d_tokens := t\<rparr>"
    by (auto simp: MintSessionToken_def map_sum_Inr)
  show "rows_of h' s' \<le> rows_of h' s + (if h' = h then 1 else 0)"
    using rows_of_insert [OF t, of h'] by (simp add: rows_of_def s')
next
  fix h now s i s' h'
  assume a: "RedeemSessionToken h now s = (Inr i, s')"
  then obtain t where t: "find (token_live h now) (d_tokens s) = Some t"
    and s': "s' = s\<lparr>d_tokens := filter (\<lambda>t. \<not> token_live h now t) (d_tokens s)\<rparr>"
    by (auto simp: RedeemSessionToken_def split: option.splits)
  have tm: "t \<in> set (d_tokens s)" "token_live h now t" using find_in [OF t] by simp_all
  let ?both = "filter (\<lambda>t. tk_hash t = h' \<and> token_live h now t) (d_tokens s)"
  have split_len: "rows_of h' s = rows_of h' s' + length ?both"
    using sum_length_filter_compl [of "token_live h now" "filter (\<lambda>t. tk_hash t = h') (d_tokens s)"]
    by (simp add: rows_of_def s' filter_filter conj_commute)
  have "h' = h \<Longrightarrow> t \<in> set ?both" using tm by (simp add: token_live_def)
  then have "h' = h \<Longrightarrow> 0 < length ?both" by (metis length_greater_0_conv length_pos_if_in_set)
  then show "rows_of h' s' + (if h' = h then 1 else 0) \<le> rows_of h' s"
    using split_len by (cases "h' = h") (auto simp: Suc_le_eq)
next
  show "RedeemSessionToken h now s = (Inl e, s') \<Longrightarrow> s' = s" for h now s e s'
    by (auto simp: RedeemSessionToken_def split: option.splits)
qed

lemma redeem_live:
  "RedeemSessionToken h now d =
     (case live_in (d_tokens d) h now of
        None \<Rightarrow> (Inl ErrNoSuchToken, d)
      | Some i \<Rightarrow> (Inr i, d\<lparr>d_tokens := filter (\<lambda>t. \<not> token_live h now t) (d_tokens d)\<rparr>))"
  by (simp add: RedeemSessionToken_def live_in_def split: option.splits)

lemma lookup_live:
  "LookupAPISession h now d =
     (case live_in (d_sessions d) h now of None \<Rightarrow> Inl ErrNoSuchToken | Some i \<Rightarrow> Inr i)"
  by (simp add: LookupAPISession_def live_in_def split: option.splits)

lemma spent_not_live:
  "now \<le> t \<Longrightarrow> live_in (filter (\<lambda>t. \<not> token_live h now t) table) h t = None"
  by (auto simp: live_in_def find_None_iff token_live_def)

section \<open>Properties of the exchange\<close>

text \<open>C7: over any interleaving of mints and redemptions, by any number of logins, the
  redemptions of one token that succeed are at most as many as the times it was minted; a token
  minted once is spent at most once.\<close>

theorem token_single_use:
  "fst (run_ops MintSessionToken RedeemSessionToken h ops empty_db) \<le> mints h ops"
  using once.spent_at_most_minted [of h ops empty_db] by (simp add: rows_of_def empty_db_def)

lemma exchange_ok:
  assumes "ExchangeSessionToken H now fresh (Some tok) d = (OK200 sc, d')"
  shows "\<exists>i d1. RedeemSessionToken (H tok) now d = (Inr i, d1) \<and>
     CreateAPISession (H fresh) i now (now + SessionCredentialTTL) d1 = Inr d' \<and>
     sc = \<lparr>sc_token = fresh, sc_expires = now + SessionCredentialTTL, sc_identity = identityResponse i\<rparr>"
  using assms by (auto simp: ExchangeSessionToken_def Let_def split: prod.splits sum.splits)

lemma tokens_unchanged: "CreateAPISession h i now ex d = Inr d' \<Longrightarrow> d_tokens d' = d_tokens d"
  by (auto simp: CreateAPISession_def map_sum_Inr)


definition demo_identity :: identity where
  "demo_identity = \<lparr>id_login = ''web'', id_name = ''alice'', id_admin = False, id_client = 7\<rparr>"


section \<open>Lists and connections agree\<close>

text \<open>
  The two connect endpoints look a row up by id and then ask; the two list endpoints filter. The
  interface says what makes the two agree: ids are distinct.
\<close>

locale access_oracle =
  fixes rows :: "db \<Rightarrow> 'r list" and idf :: "'r \<Rightarrow> int" and may :: "int \<Rightarrow> int \<Rightarrow> db \<Rightarrow> bool"
  assumes ids_distinct: "db_inv d \<Longrightarrow> distinct (map idf (rows d))"
begin

lemma lookup_listed:
  assumes "db_inv d"
  shows "(\<exists>r\<in>set (accessible ident (rows d) idf (\<lambda>c i. may c i d)). idf r = i) \<longleftrightarrow>
    (case find (\<lambda>r. idf r = i) (rows d) of
       None \<Rightarrow> False | Some r \<Rightarrow> id_admin ident \<or> may (id_client ident) (idf r) d)"
proof (cases "find (\<lambda>r. idf r = i) (rows d)")
  case None
  then have "\<forall>r\<in>set (rows d). idf r \<noteq> i" by (auto simp: find_None_iff)
  then show ?thesis unfolding None by (auto simp: accessible_def)
next
  case (Some r)
  have r: "r \<in> set (rows d)" "idf r = i" using find_in [OF Some] by simp_all
  let ?acc = "accessible ident (rows d) idf (\<lambda>c i. may c i d)"
  have same: "q = r" if "q \<in> set (rows d)" "idf q = i" for q
    using ids_distinct [OF assms] r that by (auto simp: distinct_map dest: inj_onD)
  have "set ?acc \<subseteq> set (rows d)" by (auto simp: accessible_def)
  then have "(\<exists>q\<in>set ?acc. idf q = i) \<longleftrightarrow> r \<in> set ?acc" using same r(2) by blast
  also have "\<dots> \<longleftrightarrow> id_admin ident \<or> may (id_client ident) (idf r) d"
    using r(1) by (simp add: accessible_def)
  finally show ?thesis unfolding Some by simp
qed

end

interpretation guests: access_oracle ListGuests g_id "\<lambda>c g d. HasAccess ord c g d" for ord
  by unfold_locales (simp add: ListGuests_def db_inv_def table_ok_def)

interpretation nodes: access_oracle ListProxmoxInstances in_id "\<lambda>c i d. HasInstanceAccess ord c i d" for ord
  by unfold_locales (auto simp: ListProxmoxInstances_def db_inv_def table_ok_def distinct_map)


lemma static_caller:
  "callerIdentity id ''s'' now (Some ''s'') d =
     Inr \<lparr>id_login = '''', id_name = restAPIIdentityName, id_admin = True, id_client = 0\<rparr>"
  by (simp add: callerIdentity_def)


text \<open>likewise for nodes: refused exactly when the caller may not reach the node or there is
  none; a node the caller may reach but that has no SSH host is the only other unlisted one.\<close>

theorem node_refused_iff_unreachable:
  assumes "db_inv d" "callerIdentity H rest now tok d = Inr ident"
  shows "ConnectSessionNode H rest ord keyfile now tok i d = Forbidden403 ''no such instance'' \<longleftrightarrow>
    (\<forall>n\<in>set (accessible ident (ListProxmoxInstances d) in_id (\<lambda>c i. HasInstanceAccess ord c i d)).
       in_id n \<noteq> i)"
  using nodes.lookup_listed [OF assms(1), of ident ord i] assms(2)
  by (auto simp: ConnectSessionNode_def authenticated_def findInstance_def forbiddenNode_def
      mayReachInstance_def split: option.splits sum.splits)

lemma node_refused_iff_unreachable_witness:
  "ConnectSessionNode id ''s'' id (Inr '''') 0 (Some ''s'') 9 empty_db = Forbidden403 ''no such instance''"
  using node_refused_iff_unreachable [OF db_inv_empty static_caller, where i = 9 and ord = id and now = 0]
  by (simp add: accessible_def ListProxmoxInstances_def empty_db_def)


definition demo_node :: instance_row where
  "demo_node = \<lparr>in_id = 1, in_name = ''rome'', in_api_url = ''https://rome'', in_token_id = '''',
     in_token_secret = ''secret'', in_transport = ''ssh'', in_node = ''rome'', in_insecure_tls = False,
     in_insecure_ssh = False, in_ssh_host = ''rome'', in_ssh_port = 22, in_ssh_user = ''root'', in_fps = []\<rparr>"


end
