(* ===== verification/HostKey.thy ===== *)
theory HostKey
  imports Repository
begin

text \<open>
  \<open>internal/sshhostkey\<close>: when a node's SSH host key is accepted, and the canonical form of
  pinned fingerprints; and the round trip of a pin list through the single database column
  \<open>internal/db\<close> keeps it in. The presented key is its type and its marshalled bytes;
  \<open>F\<close> is \<open>ssh.FingerprintSHA256\<close> (golang.org/x/crypto), \<open>D\<close> SHA-256 in
  hexadecimal, \<open>E\<close> the Unicode half of \<open>strings.EqualFold\<close>. The DNS answer and the
  environment variable are arguments.
\<close>

section \<open>Verification\<close>

record host_key =
  hk_type :: gostring
  hk_bytes :: bytes

record sshfp_record =
  rr_algorithm :: nat
  rr_type :: nat
  rr_fingerprint :: gostring

datatype host_key_error =
    ErrMismatch gostring gostring "gostring list"
  | ErrNoFingerprint gostring gostring
  | ErrUnsupportedKey gostring
  | ErrSSHFPMismatch gostring
  | ErrNoSHA256Record gostring gostring
  | ErrNoSSHFP

definition sshfpAlgorithm :: "gostring \<Rightarrow> nat" where
  "sshfpAlgorithm keyType =
     (if keyType = ''ssh-rsa'' then 1
      else if keyType = ''ssh-dss'' then 2
      else if keyType \<in> set [''ecdsa-sha2-nistp256'', ''ecdsa-sha2-nistp384'', ''ecdsa-sha2-nistp521''] then 3
      else if keyType = ''ssh-ed25519'' then 4
      else 0)"

definition sshfpTypeSHA256 :: nat where "sshfpTypeSHA256 = 2"

definition requireDNSSEC :: "gostring \<Rightarrow> bool" where
  "requireDNSSEC env =
     (if env \<in> set [''0'', ''false'', ''FALSE'', ''no'', ''NO''] then False else True)"

text \<open>The loop over the records: \<open>Some sawAlgo\<close> when it runs to its end, \<open>None\<close> on a match.\<close>

fun sshfp_loop ::
  "(bytes \<Rightarrow> bytes \<Rightarrow> bool) \<Rightarrow> nat \<Rightarrow> gostring \<Rightarrow> bool \<Rightarrow> sshfp_record list \<Rightarrow> bool option" where
  "sshfp_loop E wantAlgo digest sawAlgo [] = Some sawAlgo"
| "sshfp_loop E wantAlgo digest sawAlgo (rr # rrs) =
     (if rr_algorithm rr \<noteq> wantAlgo then sshfp_loop E wantAlgo digest sawAlgo rrs
      else if rr_type rr \<noteq> sshfpTypeSHA256 then sshfp_loop E wantAlgo digest sawAlgo rrs
      else if equal_fold E (rr_fingerprint rr) digest then None
      else sshfp_loop E wantAlgo digest True rrs)"

definition verifyAgainstSSHFP ::
  "(bytes \<Rightarrow> bytes \<Rightarrow> bool) \<Rightarrow> (bytes \<Rightarrow> gostring) \<Rightarrow> gostring \<Rightarrow>
   gostring + sshfp_record list \<times> bool \<Rightarrow> gostring \<Rightarrow> host_key \<Rightarrow> host_key_error option"
where
  "verifyAgainstSSHFP E D env answer host key =
     (case answer of
        Inl _ \<Rightarrow> Some ErrNoSSHFP
      | Inr (records, authenticated) \<Rightarrow>
          if length records = 0 then Some ErrNoSSHFP
          else if requireDNSSEC env \<and> \<not> authenticated then Some ErrNoSSHFP
          else let wantAlgo = sshfpAlgorithm (hk_type key) in
            if wantAlgo = 0 then Some (ErrUnsupportedKey (hk_type key))
            else case sshfp_loop E wantAlgo (D (hk_bytes key)) False records of
                None \<Rightarrow> None
              | Some sawAlgo \<Rightarrow>
                  if sawAlgo then Some (ErrSSHFPMismatch host)
                  else Some (ErrNoSHA256Record (hk_type key) host))"

definition callbackWithResolver ::
  "(bytes \<Rightarrow> bytes \<Rightarrow> bool) \<Rightarrow> (bytes \<Rightarrow> gostring) \<Rightarrow> (host_key \<Rightarrow> gostring) \<Rightarrow> gostring \<Rightarrow>
   gostring + sshfp_record list \<times> bool \<Rightarrow> gostring \<Rightarrow> gostring list \<Rightarrow> bool \<Rightarrow> host_key \<Rightarrow>
   host_key_error option"
where
  "callbackWithResolver E D F env answer sshHost pinned insecure key =
     (if insecure then None
      else let got = F key in
        if length pinned > 0 then
          (if list_ex (\<lambda>fp. got = fp) pinned then None
           else Some (ErrMismatch sshHost got pinned))
        else case verifyAgainstSSHFP E D env answer sshHost key of
            None \<Rightarrow> None
          | Some err \<Rightarrow>
              if err = ErrNoSSHFP then Some (ErrNoFingerprint sshHost got) else Some err)"

section \<open>Canonical fingerprints\<close>

definition NormalizeFingerprint :: "gostring \<Rightarrow> gostring option" where
  "NormalizeFingerprint fp =
     (let prefix = ''SHA256:'' in
      if length fp \<le> length prefix \<or> take (length prefix) fp \<noteq> prefix then None
      else Some fp)"

fun NormalizeFingerprints :: "gostring list \<Rightarrow> gostring list option" where
  "NormalizeFingerprints [] = Some []"
| "NormalizeFingerprints (fp # fps) =
     (let fp = trim_space fp in
      if fp = '''' then NormalizeFingerprints fps
      else case NormalizeFingerprint fp of
          None \<Rightarrow> None
        | Some norm \<Rightarrow> map_option (\<lambda>out. norm # out) (NormalizeFingerprints fps))"

section \<open>Trimming\<close>

definition starts_in :: "bytes list \<Rightarrow> bytes \<Rightarrow> bool" where
  "starts_in encs s = (\<exists>e\<in>set encs. has_prefix e s)"

lemma strip_left_stops: "[] \<notin> set encs \<Longrightarrow> \<not> starts_in encs (strip_left encs s)"
proof (induction encs s rule: strip_left.induct)
  case (1 encs)
  then show ?case by (auto simp: starts_in_def has_prefix_def)
next
  case (2 encs c s)
  then show ?case
    by (auto simp: starts_in_def find_None_iff split: option.splits)
qed

lemma strip_left_id: "\<not> starts_in encs s \<Longrightarrow> strip_left encs s = s"
  by (cases s) (auto simp: starts_in_def find_Some_iff split: option.splits)

lemma strip_left_suffix: "[] \<notin> set encs \<Longrightarrow> \<exists>u. s = u @ strip_left encs s"
proof (induction encs s rule: strip_left.induct)
  case (2 encs c s)
  show ?case
  proof (cases "find (\<lambda>e. has_prefix e (c # s)) encs")
    case (Some e)
    then obtain u where "drop (length e - 1) s = u @ strip_left encs (drop (length e - 1) s)"
      using 2 by auto
    then have "c # s = (c # take (length e - 1) s @ u) @ strip_left encs (drop (length e - 1) s)"
      by (metis append.assoc append_Cons append_take_drop_id)
    then have "\<exists>u. c # s = u @ strip_left encs (drop (length e - 1) s)" by blast
    then show ?thesis using Some by simp
  qed simp
qed simp

lemma starts_in_mono: "starts_in encs p \<Longrightarrow> starts_in encs (p @ q)"
  unfolding starts_in_def has_prefix_iff by (metis append.assoc)

definition no_space_ends :: "bytes \<Rightarrow> bool" where
  "no_space_ends s = (\<not> starts_in space_encs s \<and> \<not> starts_in (map rev space_encs) (rev s))"

lemma space_encs_nonempty: "[] \<notin> set space_encs" "[] \<notin> set (map rev space_encs)"
  by (simp_all add: space_encs_def)

lemma trim_space_id: "no_space_ends s \<Longrightarrow> trim_space s = s"
  by (simp add: trim_space_def no_space_ends_def strip_left_id)

lemma trim_space_ends: "no_space_ends (trim_space s)"
proof -
  let ?t = "strip_left space_encs s"
  let ?r = "strip_left (map rev space_encs) (rev ?t)"
  have t: "\<not> starts_in space_encs ?t" by (rule strip_left_stops [OF space_encs_nonempty(1)])
  obtain u where "rev ?t = u @ ?r" using strip_left_suffix [OF space_encs_nonempty(2)] by blast
  then have "?t = rev ?r @ rev u" by (metis rev_append rev_rev_ident)
  then have "\<not> starts_in space_encs (rev ?r)" using t starts_in_mono by metis
  moreover have "\<not> starts_in (map rev space_encs) ?r"
    by (rule strip_left_stops [OF space_encs_nonempty(2)])
  ultimately show ?thesis by (simp add: no_space_ends_def trim_space_def)
qed

lemma trim_space_idem: "trim_space (trim_space s) = trim_space s"
  by (rule trim_space_id [OF trim_space_ends])

lemma trim_space_subset: "set (trim_space s) \<subseteq> set s"
proof -
  obtain u where u: "s = u @ strip_left space_encs s"
    using strip_left_suffix [OF space_encs_nonempty(1)] by blast
  obtain v where v: "rev (strip_left space_encs s) = v @ strip_left (map rev space_encs) (rev (strip_left space_encs s))"
    using strip_left_suffix [OF space_encs_nonempty(2)] by blast
  have "set (trim_space s) \<subseteq> set (strip_left space_encs s)"
    unfolding trim_space_def set_rev using v by (metis Un_upper2 set_append set_rev)
  also have "\<dots> \<subseteq> set s" using u by (metis Un_upper2 set_append)
  finally show ?thesis .
qed

section \<open>The pin list survives its column\<close>

abbreviation NL :: char where "NL \<equiv> CHR 0x0A"

lemma no_NL_inside:
  "\<forall>e\<in>set space_encs. NL \<notin> set (tl e)" "\<forall>e\<in>set (map rev space_encs). NL \<notin> set (tl e)"
  by (simp_all add: space_encs_def)

lemma not_starts_line:
  assumes "\<not> starts_in encs p" "p \<noteq> []" "\<forall>e\<in>set encs. NL \<notin> set (tl e)"
  shows "\<not> starts_in encs (p @ NL # q)"
proof
  assume "starts_in encs (p @ NL # q)"
  then obtain e t where e: "e \<in> set encs" "p @ NL # q = e @ t"
    by (auto simp: starts_in_def has_prefix_iff)
  then consider us where "p = e @ us" | us where "e = p @ us" "us @ t = NL # q"
    by (auto simp: append_eq_append_conv2)
  then show False
  proof cases
    case 1
    then show False using assms(1) e by (auto simp: starts_in_def has_prefix_iff)
  next
    case 2
    show False
    proof (cases us)
      case Nil
      then show False using 2 assms(1) e by (auto simp: starts_in_def has_prefix_iff)
    next
      case (Cons c cs)
      then have "NL \<in> set (tl e)" using 2 assms(2) by (cases p) auto
      then show False using assms(3) e by auto
    qed
  qed
qed

lemma go_join_Cons: "go_join sep (p # ps) = p @ (if ps = [] then [] else sep @ go_join sep ps)"
  by (cases ps) auto

lemma go_join_snoc: "go_join sep (ps @ [p]) = (if ps = [] then [] else go_join sep ps @ sep) @ p"
  by (induction ps) (auto simp: go_join_Cons)

lemma join_no_space_ends:
  assumes "ps \<noteq> []" "\<forall>p\<in>set ps. no_space_ends p \<and> p \<noteq> []"
  shows "no_space_ends (go_join [NL] ps)"
proof -
  obtain p qs where 1: "ps = p # qs" using assms(1) by (cases ps) auto
  obtain rs r where 2: "ps = rs @ [r]" using assms(1) by (cases ps rule: rev_cases) auto
  have "\<not> starts_in space_encs (go_join [NL] ps)"
    using not_starts_line [OF _ _ no_NL_inside(1), of p "go_join [NL] qs"] assms(2) 1
    by (auto simp: go_join_Cons no_space_ends_def)
  moreover have "\<not> starts_in (map rev space_encs) (rev (go_join [NL] ps))"
    using not_starts_line [OF _ _ no_NL_inside(2), of "rev r" "rev (go_join [NL] rs)"] assms(2) 2
    by (auto simp: go_join_snoc no_space_ends_def)
  ultimately show ?thesis by (simp add: no_space_ends_def)
qed

lemma decode_encode:
  assumes "\<forall>fp\<in>set fps. NL \<notin> set (trim_space fp)"
  shows "decodeFingerprints (encodeFingerprints fps) = filter (\<lambda>fp. fp \<noteq> []) (map trim_space fps)"
proof -
  let ?ps = "filter (\<lambda>fp. fp \<noteq> []) (map trim_space fps)"
  have nice: "\<forall>p\<in>set ?ps. no_space_ends p \<and> p \<noteq> []" by (auto simp: trim_space_ends)
  show ?thesis
  proof (cases "?ps = []")
    case True
    have "trim_space [] = []" by (simp add: trim_space_def)
    with True show ?thesis unfolding decodeFingerprints_def encodeFingerprints_def by simp
  next
    case False
    have t: "trim_space (go_join [NL] ?ps) = go_join [NL] ?ps"
      by (rule trim_space_id [OF join_no_space_ends [OF False nice]])
    have s: "go_split NL (go_join [NL] ?ps) = ?ps"
      by (rule go_split_join [OF False]) (use assms in auto)
    have "go_join [NL] ?ps \<noteq> []" using s by (metis False append.right_neutral go_split.simps(1) nice list.set_intros(1))
    moreover have "map trim_space ?ps = ?ps"
      by (rule map_idI) (use nice trim_space_id in blast)
    ultimately show ?thesis
      unfolding decodeFingerprints_def encodeFingerprints_def by (simp only: Let_def t s if_False) simp
  qed
qed

section \<open>Properties\<close>

lemma sshfp_loop_None:
  "sshfp_loop E a dg saw rrs = None \<longleftrightarrow>
     (\<exists>rr\<in>set rrs. rr_algorithm rr = a \<and> rr_type rr = 2 \<and> equal_fold E (rr_fingerprint rr) dg)"
  by (induction E a dg saw rrs rule: sshfp_loop.induct) (auto simp: sshfpTypeSHA256_def)

lemma verify_accepts:
  "verifyAgainstSSHFP E D env answer host key = None \<longleftrightarrow>
     (case answer of
        Inl _ \<Rightarrow> False
      | Inr (records, authenticated) \<Rightarrow>
          (authenticated \<or> env \<in> {''0'', ''false'', ''FALSE'', ''no'', ''NO''}) \<and>
          sshfpAlgorithm (hk_type key) \<noteq> 0 \<and>
          (\<exists>rr\<in>set records. rr_algorithm rr = sshfpAlgorithm (hk_type key) \<and> rr_type rr = 2 \<and>
             equal_fold E (rr_fingerprint rr) (D (hk_bytes key))))"
proof (cases answer)
  case (Inr ra)
  obtain rs au where ra: "ra = (rs, au)" by (cases ra)
  have "verifyAgainstSSHFP E D env answer host key = None \<longleftrightarrow>
    rs \<noteq> [] \<and> (au \<or> \<not> requireDNSSEC env) \<and> sshfpAlgorithm (hk_type key) \<noteq> 0 \<and>
    sshfp_loop E (sshfpAlgorithm (hk_type key)) (D (hk_bytes key)) False rs = None"
    by (auto simp: verifyAgainstSSHFP_def Inr ra Let_def split: option.splits)
  then show ?thesis by (auto simp: Inr ra sshfp_loop_None requireDNSSEC_def)
qed (simp add: verifyAgainstSSHFP_def)

text \<open>C24: a host key is accepted exactly when the instance is marked insecure; or pins are
  configured and the key's fingerprint is one of them; or none is configured, the DNS answer has
  SSHFP records, is authenticated or the requirement is switched off, the key's type has an
  SSHFP number, and a SHA-256 record of that number matches. In particular DNS is never asked
  to overrule a pin, and an unauthenticated answer is never trusted by default.\<close>

theorem host_key_accepted_iff:
  "callbackWithResolver E D F env answer sshHost pinned insecure key = None \<longleftrightarrow>
     insecure \<or>
     (pinned \<noteq> [] \<and> F key \<in> set pinned) \<or>
     (pinned = [] \<and>
       (case answer of
          Inl _ \<Rightarrow> False
        | Inr (records, authenticated) \<Rightarrow>
            (authenticated \<or> env \<in> {''0'', ''false'', ''FALSE'', ''no'', ''NO''}) \<and>
            sshfpAlgorithm (hk_type key) \<noteq> 0 \<and>
            (\<exists>rr\<in>set records. rr_algorithm rr = sshfpAlgorithm (hk_type key) \<and> rr_type rr = 2 \<and>
               equal_fold E (rr_fingerprint rr) (D (hk_bytes key)))))"
proof -
  have v: "(case verifyAgainstSSHFP E D env answer sshHost key of None \<Rightarrow> None
      | Some err \<Rightarrow> if err = ErrNoSSHFP then Some (ErrNoFingerprint sshHost (F key)) else Some err) = None
    \<longleftrightarrow> verifyAgainstSSHFP E D env answer sshHost key = None"
    by (auto split: option.splits)
  show ?thesis
  proof (cases "insecure \<or> pinned \<noteq> []")
    case True
    then show ?thesis by (auto simp: callbackWithResolver_def Let_def list_ex_iff)
  next
    case False
    then have "callbackWithResolver E D F env answer sshHost pinned insecure key = None \<longleftrightarrow>
        verifyAgainstSSHFP E D env answer sshHost key = None"
      by (simp add: callbackWithResolver_def Let_def v)
    then show ?thesis using False by (auto simp: verify_accepts split: sum.splits)
  qed
qed

lemma NormalizeFingerprints_trimmed:
  "NormalizeFingerprints fps = Some out \<Longrightarrow>
   out = filter (\<lambda>fp. fp \<noteq> []) (map trim_space fps) \<and>
   (\<forall>fp\<in>set out. take 7 fp = ''SHA256:'' \<and> 7 < length fp)"
proof (induction fps arbitrary: out)
  case (Cons fp fps)
  then show ?case
    by (auto simp: Let_def NormalizeFingerprint_def eval_nat_numeral split: if_splits option.splits)
qed simp

text \<open>the pins an administrator enters, once normalised, are read back from the database
  column as the same list in the same order, provided none contains a line break, which the
  normalisation does not check.\<close>

theorem pins_survive_storage:
  assumes "NormalizeFingerprints fps = Some pins" "\<forall>fp\<in>set pins. NL \<notin> set fp"
  shows "decodeFingerprints (encodeFingerprints pins) = pins"
proof -
  note p = NormalizeFingerprints_trimmed [OF assms(1)]
  have id: "trim_space fp = fp" if "fp \<in> set pins" for fp
    using that p trim_space_idem by auto
  then have m: "map trim_space pins = pins" by (simp add: map_idI)
  have "decodeFingerprints (encodeFingerprints pins) = filter (\<lambda>fp. fp \<noteq> []) (map trim_space pins)"
    by (rule decode_encode) (use id assms(2) in auto)
  also have "\<dots> = pins" using p unfolding m by (auto simp: filter_id_conv)
  finally show ?thesis .
qed

lemma normalize_demo:
  "NormalizeFingerprints ['' SHA256:abc'', '''', ''SHA256:def''] = Some [''SHA256:abc'', ''SHA256:def'']"
  by (simp add: NormalizeFingerprint_def Let_def trim_space_def space_encs_def has_prefix_def)

lemma pins_survive_storage_witness:
  "decodeFingerprints (encodeFingerprints [''SHA256:abc'', ''SHA256:def'']) = [''SHA256:abc'', ''SHA256:def'']"
  using pins_survive_storage [OF normalize_demo] by simp

text \<open>A pin with a line break in it passes the normalisation and comes back as two.\<close>

lemma pin_with_line_break:
  "NormalizeFingerprints [''SHA256:abc'' @ [NL] @ ''SHA256:def''] = Some [''SHA256:abc'' @ [NL] @ ''SHA256:def'']
   \<and> decodeFingerprints (encodeFingerprints [''SHA256:abc'' @ [NL] @ ''SHA256:def'']) = [''SHA256:abc'', ''SHA256:def'']"
  by (simp add: NormalizeFingerprint_def Let_def trim_space_def space_encs_def has_prefix_def
      encodeFingerprints_def decodeFingerprints_def)

end
