(* ===== verification/Resolve.thy ===== *)
theory Resolve
  imports Models
begin

text \<open>
  \<open>internal/cli/resolve.go\<close>: how the target a user types (a VMID, a type with a VMID, a
  name, each optionally followed by an instance) becomes one guest, or an error that lists
  targets the user can type back. \<open>U\<close> is the Unicode half of \<open>strings.ToLower\<close>; the
  two id-keyed maps the code builds are the lookups \<open>inst_by_id\<close> and \<open>inst_name_by_id\<close>
  (a later entry overwrites an earlier one).
\<close>

datatype resolve_error =
    InstanceNotFound gostring
  | ErrGuestNotFound gostring
  | Ambiguous gostring "gostring list"
  | GuestInstanceMissing gostring

definition ParseGuestTarget ::
  "gostring \<Rightarrow> (gostring \<Rightarrow> bool) option \<Rightarrow> gostring \<times> gostring" where
  "ParseGuestTarget s knownInstance =
     (case knownInstance of
        None \<Rightarrow> ('''', s)
      | Some known \<Rightarrow>
          (case last_index CHR ''@'' s of
             None \<Rightarrow> ('''', s)
           | Some idx \<Rightarrow>
               if idx = 0 \<or> idx = length s - 1 then ('''', s)
               else let suffix = drop (idx + 1) s in
                 if \<not> known suffix then ('''', s) else (suffix, take idx s)))"

definition InstanceLookup :: "(bytes \<Rightarrow> bytes) \<Rightarrow> instance_row list \<Rightarrow> gostring \<Rightarrow> bool" where
  "InstanceLookup U instances name = list_ex (\<lambda>inst. NamesEqual U (in_name inst) name) instances"

definition inst_by_id :: "instance_row list \<Rightarrow> int \<Rightarrow> instance_row option" where
  "inst_by_id instances iid = find (\<lambda>i. in_id i = iid) (rev instances)"

definition inst_name_by_id :: "instance_row list \<Rightarrow> int \<Rightarrow> gostring" where
  "inst_name_by_id instances iid =
     (case inst_by_id instances iid of None \<Rightarrow> '''' | Some i \<Rightarrow> in_name i)"

definition qualified_id :: "guest_row \<Rightarrow> (int \<Rightarrow> gostring) \<Rightarrow> gostring" where
  "qualified_id g instNames =
     (let gid = g_type g @ itoa (g_vmid g); inst = instNames (g_instance g) in
      if inst \<noteq> '''' then gid @ ''@'' @ inst else gid)"

definition ambiguousError :: "gostring \<Rightarrow> guest_row list \<Rightarrow> (int \<Rightarrow> gostring) \<Rightarrow> resolve_error" where
  "ambiguousError identifier matches instNames =
     Ambiguous identifier (map (\<lambda>g. qualified_id g instNames) matches)"

text \<open>
  One tier of the resolution: \<open>Some\<close> when it decides, \<open>None\<close> when it falls through.
\<close>

definition decide_matches ::
  "gostring \<Rightarrow> guest_row list \<Rightarrow> (int \<Rightarrow> gostring) \<Rightarrow> (resolve_error + guest_row) option" where
  "decide_matches identifier matches instNames =
     (if length matches = 1 then Some (Inr (hd matches))
      else if length matches > 1 then Some (Inl (ambiguousError identifier matches instNames))
      else None)"

fun resolve_prefixes ::
  "gostring \<Rightarrow> guest_row list \<Rightarrow> (int \<Rightarrow> gostring) \<Rightarrow> guest_type list \<Rightarrow> (resolve_error + guest_row) option"
where
  "resolve_prefixes lower guests instNames [] = None"
| "resolve_prefixes lower guests instNames (p # ps) =
     (if \<not> has_prefix p lower then resolve_prefixes lower guests instNames ps
      else case atoi (drop (length p) lower) of
          None \<Rightarrow> resolve_prefixes lower guests instNames ps
        | Some vmid \<Rightarrow>
            (case decide_matches (p @ itoa vmid)
                    (filter (\<lambda>g. g_type g = p \<and> g_vmid g = vmid) guests) instNames of
               Some r \<Rightarrow> Some r
             | None \<Rightarrow> resolve_prefixes lower guests instNames ps))"

definition resolveGuest ::
  "(bytes \<Rightarrow> bytes) \<Rightarrow> gostring \<Rightarrow> guest_row list \<Rightarrow> (int \<Rightarrow> gostring) \<Rightarrow> resolve_error + guest_row" where
  "resolveGuest U identifier guests instNames =
     (let lower = to_lower U identifier;
          tier1 = (case atoi identifier of
                     None \<Rightarrow> None
                   | Some vmid \<Rightarrow>
                       decide_matches identifier (filter (\<lambda>g. g_vmid g = vmid) guests) instNames)
      in case tier1 of
           Some r \<Rightarrow> r
         | None \<Rightarrow>
             (case resolve_prefixes lower guests instNames [GuestTypeCT, GuestTypeVM] of
                Some r \<Rightarrow> r
              | None \<Rightarrow>
                  (case decide_matches identifier
                          (filter (\<lambda>g. NamesEqual U (g_name g) identifier) guests) instNames of
                     Some r \<Rightarrow> r
                   | None \<Rightarrow> Inl (ErrGuestNotFound identifier))))"

definition ResolveGuestAndInstance ::
  "(bytes \<Rightarrow> bytes) \<Rightarrow> gostring \<Rightarrow> gostring \<Rightarrow> guest_row list \<Rightarrow> instance_row list \<Rightarrow>
   resolve_error + guest_row \<times> instance_row" where
  "ResolveGuestAndInstance U identifier instName guests instances =
     (let found = find (\<lambda>i. NamesEqual U (in_name i) instName) (rev instances);
          instFilterID = (if instName \<noteq> '''' then (case found of None \<Rightarrow> -1 | Some i \<Rightarrow> in_id i) else -1)
      in if instName \<noteq> '''' \<and> found = None then Inl (InstanceNotFound instName)
         else let pool = (if instFilterID \<ge> 0 then filter (\<lambda>g. g_instance g = instFilterID) guests
                          else guests)
           in case resolveGuest U identifier pool (inst_name_by_id instances) of
                Inl e \<Rightarrow> Inl e
              | Inr guest \<Rightarrow>
                  (case inst_by_id instances (g_instance guest) of
                     None \<Rightarrow> Inl (GuestInstanceMissing (g_name guest))
                   | Some inst \<Rightarrow> Inr (guest, inst)))"

section \<open>What the tiers return\<close>

definition matches_identifier :: "(bytes \<Rightarrow> bytes) \<Rightarrow> gostring \<Rightarrow> guest_row \<Rightarrow> bool" where
  "matches_identifier U s g \<longleftrightarrow>
     atoi s = Some (g_vmid g) \<or>
     (g_type g \<in> {GuestTypeCT, GuestTypeVM} \<and> has_prefix (g_type g) (to_lower U s) \<and>
      atoi (drop (length (g_type g)) (to_lower U s)) = Some (g_vmid g)) \<or>
     NamesEqual U (g_name g) s"

lemma decide_Inr:
  "decide_matches s ms names = Some (Inr g) \<longleftrightarrow> ms = [g]"
  by (auto simp: decide_matches_def ambiguousError_def length_Suc_conv split: if_splits)

lemma decide_None: "decide_matches s ms names = None \<longleftrightarrow> ms = []"
  by (cases ms) (auto simp: decide_matches_def)

lemma resolve_prefixes_Inr:
  "resolve_prefixes lower guests names ps = Some (Inr g) \<Longrightarrow>
   \<exists>p\<in>set ps. has_prefix p lower \<and> g_type g = p \<and> atoi (drop (length p) lower) = Some (g_vmid g) \<and>
     g \<in> set guests \<and> (\<forall>h\<in>set guests. g_type h = p \<and> g_vmid h = g_vmid g \<longrightarrow> h = g)"
  by (induction lower guests names ps rule: resolve_prefixes.induct)
     (auto simp: decide_Inr split: if_splits option.splits dest!: filter_single)

lemma resolveGuest_Inr:
  assumes "resolveGuest U s guests names = Inr g"
  shows "g \<in> set guests \<and> matches_identifier U s g"
proof -
  consider vmid where "atoi s = Some vmid" "filter (\<lambda>g. g_vmid g = vmid) guests = [g]"
    | "resolve_prefixes (to_lower U s) guests names [GuestTypeCT, GuestTypeVM] = Some (Inr g)"
    | "filter (\<lambda>g. NamesEqual U (g_name g) s) guests = [g]"
    using assms by (auto simp: resolveGuest_def Let_def decide_Inr split: option.splits)
  then show ?thesis
  proof cases
    case 1
    then show ?thesis using filter_single [OF 1(2)] by (auto simp: matches_identifier_def)
  next
    case 2
    from resolve_prefixes_Inr [OF this] show ?thesis by (auto simp: matches_identifier_def)
  next
    case 3
    then show ?thesis using filter_single [OF 3] by (auto simp: matches_identifier_def)
  qed
qed

section \<open>Hints can be typed back\<close>

lemma itoa_lower: "map ascii_lower (itoa i) = itoa i"
proof (rule map_idI)
  fix c assume "c \<in> set (itoa i)"
  then have "is_digit c \<or> c = CHR ''-''" using itoa_chars [of i] by (auto simp: list_all_iff)
  then show "ascii_lower c = c" by (auto simp: ascii_lower_def is_digit_def)
qed

lemma itoa_no_at: "CHR ''@'' \<notin> set (itoa i)"
  using itoa_chars [of i] by (auto simp: list_all_iff is_digit_def)

lemma to_lower_id:
  assumes "p \<in> {GuestTypeCT, GuestTypeVM}"
  shows "to_lower U (p @ itoa i) = p @ itoa i"
  using assms itoa_ascii [of i] itoa_lower [of i]
  by (auto simp: to_lower_def is_ascii_def ascii_lower_def GuestTypeCT_def GuestTypeVM_def)

lemma atoi_type_id: "p \<in> {GuestTypeCT, GuestTypeVM} \<Longrightarrow> atoi (p @ itoa i) = None"
  by (auto simp: GuestTypeCT_def GuestTypeVM_def atoi_def atoi_digits_def is_digit_def)

lemma resolve_own_id:
  assumes "g \<in> set guests" and "g_type g \<in> {GuestTypeCT, GuestTypeVM}"
    and "- (2 ^ 63) \<le> g_vmid g" and "g_vmid g < 2 ^ 63"
    and "distinct (map (\<lambda>h. (g_type h, g_vmid h)) guests)"
  shows "resolveGuest U (g_type g @ itoa (g_vmid g)) guests names = Inr g"
proof -
  let ?s = "g_type g @ itoa (g_vmid g)"
  have "resolve_prefixes ?s guests names [GuestTypeCT, GuestTypeVM] = Some (Inr g)"
    using assms(2) filter_unique [OF assms(5,1)] atoi_itoa [OF assms(3,4)]
    by (auto simp: has_prefix_iff decide_matches_def GuestTypeCT_def GuestTypeVM_def)
  then show ?thesis
    using atoi_type_id [OF assms(2)] to_lower_id [OF assms(2)] by (simp add: resolveGuest_def)
qed

lemma inst_by_id_own:
  "distinct (map in_id instances) \<Longrightarrow> i \<in> set instances \<Longrightarrow> inst_by_id instances (in_id i) = Some i"
  unfolding inst_by_id_def by (rule find_unique) (auto dest: distinct_map_eq)

text \<open>C36: A hint can be typed back. The target the program prints for a guest, its type and
  VMID followed by an at sign and the instance name, is split into that instance and that
  identifier and resolves to the same guest and instance, however many other guests share the
  VMID. What is needed is what the database promises (ids, folded instance names and the
  VMIDs of an instance are unique) and that the instance name is not empty and holds no at sign.\<close>

theorem hints_resolve_back:
  assumes "g \<in> set guests" and "i \<in> set instances" and "in_id i = g_instance g" and "0 \<le> in_id i"
    and "distinct (map in_id instances)" and "distinct (map (\<lambda>i. FoldName U (in_name i)) instances)"
    and "distinct (map (\<lambda>h. (g_instance h, g_type h, g_vmid h)) guests)"
    and "in_name i \<noteq> ''''" and "CHR ''@'' \<notin> set (in_name i)"
    and "g_type g \<in> {GuestTypeCT, GuestTypeVM}"
    and "- (2 ^ 63) \<le> g_vmid g" and "g_vmid g < 2 ^ 63"
  shows "(case ParseGuestTarget (qualified_id g (inst_name_by_id instances)) (Some (InstanceLookup U instances)) of
            (inst, ident) \<Rightarrow> ResolveGuestAndInstance U ident inst guests instances) = Inr (g, i)"
proof -
  let ?id = "g_type g @ itoa (g_vmid g)" and ?pool = "filter (\<lambda>h. g_instance h = in_id i) guests"
  have own: "inst_by_id instances (g_instance g) = Some i"
    using inst_by_id_own [OF assms(5,2)] assms(3) by simp
  then have hint: "qualified_id g (inst_name_by_id instances) = ?id @ CHR ''@'' # in_name i"
    using assms(8) by (simp add: qualified_id_def inst_name_by_id_def)
  have "InstanceLookup U instances (in_name i)"
    using assms(2) by (auto simp: InstanceLookup_def NamesEqual_def list_ex_iff)
  then have split: "ParseGuestTarget (?id @ CHR ''@'' # in_name i) (Some (InstanceLookup U instances)) = (in_name i, ?id)"
    using assms(8-10)
    by (auto simp: ParseGuestTarget_def last_index_append_sep GuestTypeCT_def GuestTypeVM_def)
  have named: "find (\<lambda>j. NamesEqual U (in_name j) (in_name i)) (rev instances) = Some i"
    using assms(2) distinct_map_eq [OF assms(6)]
    by (intro find_unique) (auto simp: NamesEqual_def)
  have "distinct (map (\<lambda>h. (g_type h, g_vmid h)) ?pool)"
    using assms(7) by (auto simp: distinct_map inj_on_def distinct_filter)
  then have "resolveGuest U ?id ?pool (inst_name_by_id instances) = Inr g"
    using resolve_own_id [of g ?pool] assms(1,3,10-12) by simp
  then show ?thesis
    using named assms(4,8) own by (simp add: hint split [simplified] ResolveGuestAndInstance_def Let_def)
qed

text \<open>A resolved guest is one of the guests given, matches the identifier by VMID, by type and
  VMID or by folded name, and lies on the instance returned with it; with an instance name, on
  an instance of that folded name (ids not negative).\<close>

theorem resolved_guest_matches:
  assumes "ResolveGuestAndInstance U ident name guests instances = Inr (g, i)"
    and "\<forall>j\<in>set instances. 0 \<le> in_id j"
    and "distinct (map in_id instances)"
  shows "g \<in> set guests \<and> i \<in> set instances \<and> in_id i = g_instance g \<and> matches_identifier U ident g \<and>
         (name \<noteq> '''' \<longrightarrow> NamesEqual U (in_name i) name)"
proof -
  let ?found = "find (\<lambda>i. NamesEqual U (in_name i) name) (rev instances)"
  have "inst_by_id instances (g_instance g) = Some i"
    using assms(1) by (auto simp: ResolveGuestAndInstance_def Let_def split: if_splits sum.splits option.splits)
  then have i: "i \<in> set instances \<and> in_id i = g_instance g"
    using find_in [of _ "rev instances"] by (auto simp: inst_by_id_def)
  show ?thesis
  proof (cases "name = ''''")
    case True
    then have "resolveGuest U ident guests (inst_name_by_id instances) = Inr g"
      using assms(1) by (auto simp: ResolveGuestAndInstance_def Let_def split: sum.splits option.splits)
    then show ?thesis using resolveGuest_Inr i True by blast
  next
    case False
    then obtain j where j: "?found = Some j" "j \<in> set instances" "NamesEqual U (in_name j) name"
      using assms(1) find_in [of _ "rev instances"]
      by (cases ?found) (auto simp: ResolveGuestAndInstance_def Let_def)
    then have "resolveGuest U ident (filter (\<lambda>g. g_instance g = in_id j) guests) (inst_name_by_id instances) = Inr g"
      using assms(1,2) False by (auto simp: ResolveGuestAndInstance_def Let_def split: sum.splits option.splits)
    from resolveGuest_Inr [OF this] have "g \<in> set guests" "g_instance g = in_id j" "matches_identifier U ident g"
      by auto
    then show ?thesis using i j distinct_map_eq [OF assms(3), of i j] by auto
  qed
qed

definition two_sites :: "instance_row list" where
  "two_sites =
     [\<lparr>in_id = 1, in_name = ''rome'', in_api_url = ''a'', in_token_id = '''', in_token_secret = '''',
       in_transport = '''', in_node = '''', in_insecure_tls = False, in_insecure_ssh = False,
       in_ssh_host = '''', in_ssh_port = 22, in_ssh_user = '''', in_fps = []\<rparr>,
      \<lparr>in_id = 2, in_name = ''oslo'', in_api_url = ''b'', in_token_id = '''', in_token_secret = '''',
       in_transport = '''', in_node = '''', in_insecure_tls = False, in_insecure_ssh = False,
       in_ssh_host = '''', in_ssh_port = 22, in_ssh_user = '''', in_fps = []\<rparr>]"

definition same_vmid :: "guest_row list" where
  "same_vmid =
     [\<lparr>g_id = 10, g_type = ''ct'', g_name = ''web'', g_status = ''running'', g_vmid = 100, g_instance = 1\<rparr>,
      \<lparr>g_id = 11, g_type = ''ct'', g_name = ''db'', g_status = ''running'', g_vmid = 100, g_instance = 2\<rparr>]"

lemmas site_defs = two_sites_def same_vmid_def GuestTypeCT_def GuestTypeVM_def FoldName_def
  NamesEqual_def to_lower_def is_ascii_def ascii_lower_def

theorem hints_resolve_back_witness:
  "(case ParseGuestTarget (qualified_id (same_vmid ! 1) (inst_name_by_id two_sites)) (Some (InstanceLookup id two_sites)) of
      (inst, ident) \<Rightarrow> ResolveGuestAndInstance id ident inst same_vmid two_sites) = Inr (same_vmid ! 1, two_sites ! 1)"
  by (rule hints_resolve_back) (simp_all add: site_defs)

theorem resolved_guest_matches_witness:
  "matches_identifier id ''Web'' (same_vmid ! 0) \<and> NamesEqual id (in_name (two_sites ! 0)) ''Rome''"
proof -
  have "ResolveGuestAndInstance id ''Web'' ''Rome'' same_vmid two_sites = Inr (same_vmid ! 0, two_sites ! 0)"
    by (simp add: site_defs ResolveGuestAndInstance_def resolveGuest_def decide_matches_def inst_by_id_def
        has_prefix_def atoi_def atoi_digits_def is_digit_def)
  from resolved_guest_matches [OF this] show ?thesis by (simp add: two_sites_def)
qed

lemma shared_vmid_ambiguous:
  "ResolveGuestAndInstance id ''100'' '''' same_vmid two_sites =
   Inl (Ambiguous ''100'' [''ct100@rome'', ''ct100@oslo''])"
proof -
  have "atoi ''100'' = Some 100"
    by (simp add: atoi_def atoi_digits_def is_digit_def digits_value_def)
  moreover have "itoa 100 = ''100''"
    by (simp add: itoa_def digit_char_def nat_digits.simps)
  ultimately show ?thesis
    by (simp add: site_defs ResolveGuestAndInstance_def resolveGuest_def decide_matches_def inst_by_id_def
        ambiguousError_def qualified_id_def inst_name_by_id_def)
qed

end
