(* ===== verification/FilterLang.thy ===== *)
theory FilterLang
  imports GoText
begin

text \<open>
  \<open>internal/filter/filter.go\<close>: the list-filter language. A parsed JSON value is a
  \<open>json\<close>: an object is the association list of its keys in the order in which Go ranges over
  the decoded map, a number whose double is a 64-bit integer is \<open>JInt\<close>, and any other
  number is \<open>JFloat\<close> with the text Go's \<open>%v\<close> prints for it. Wrapped errors keep
  their cause only. The walk is generic in the query type, as in the code; what it computes is
  stated once, in a locale over the combiner and mapper, and instantiated for both back ends.
\<close>

section \<open>Tokens\<close>

datatype json =
    JNull
  | JBool bool
  | JInt int
  | JFloat gostring
  | JStr gostring
  | JArr "json list"
  | JObj "(gostring \<times> json) list"

text \<open>\<open>json.Unmarshal\<close> into a map and into a slice: \<open>null\<close> leaves them nil.\<close>

fun unmarshal_map :: "json \<Rightarrow> (gostring \<times> json) list option" where
  "unmarshal_map JNull = Some []"
| "unmarshal_map (JObj m) = Some m"
| "unmarshal_map _ = None"

fun unmarshal_slice :: "json \<Rightarrow> json list option" where
  "unmarshal_slice JNull = Some []"
| "unmarshal_slice (JArr xs) = Some xs"
| "unmarshal_slice _ = None"

definition OpEq :: gostring where "OpEq = ''$eq''"
definition OpIeq :: gostring where "OpIeq = ''$ieq''"
definition OpContains :: gostring where "OpContains = ''$contains''"
definition OpIContains :: gostring where "OpIContains = ''$icontains''"
definition OpStartsWith :: gostring where "OpStartsWith = ''$startswith''"
definition OpEndsWith :: gostring where "OpEndsWith = ''$endswith''"
definition OpAnd :: gostring where "OpAnd = ''$and''"
definition OpOr :: gostring where "OpOr = ''$or''"
definition OpNor :: gostring where "OpNor = ''$nor''"
definition OpNot :: gostring where "OpNot = ''$not''"

lemmas op_defs = OpEq_def OpIeq_def OpContains_def OpIContains_def OpStartsWith_def OpEndsWith_def
  OpAnd_def OpOr_def OpNor_def OpNot_def

datatype token =
    TokenField gostring
  | TokenOperator gostring
  | TokenValue json
  | TokenArray gostring "token list list"
  | TokenObject gostring "token list"

datatype filter_error =
    NotAnObject
  | FieldNotObject gostring
  | NotAnArray gostring
  | ElementNotObject gostring nat
  | NotNeedsObject
  | ExpectedField
  | ExpectedOperator
  | ExpectedValue gostring
  | NoOperators gostring
  | EmptySubExpression gostring
  | RequiresScalar gostring
  | RequiresArray
  | RequiresObject
  | UnsupportedField gostring
  | OpNotAllowed gostring gostring
  | BadValue gostring gostring
  | UnsupportedOp gostring

definition is_array_op :: "gostring \<Rightarrow> bool" where
  "is_array_op op \<longleftrightarrow> op = OpOr \<or> op = OpAnd \<or> op = OpNor"

text \<open>The size of an operator object as the termination measure counts it.\<close>

fun ops_size :: "(gostring \<times> json) list \<Rightarrow> nat" where
  "ops_size [] = 0"
| "ops_size ((k, v) # ops) = Suc (size v) + ops_size ops"

lemma ops_size_le: "ops_size ops \<le> size_list (size_prod (\<lambda>_. 0) size) ops"
  by (induction ops) auto

lemma unmarshal_map_size: "unmarshal_map v = Some ops \<Longrightarrow> ops_size ops \<le> size v"
  using ops_size_le [of ops] by (cases v) auto

lemma unmarshal_slice_size: "unmarshal_slice v = Some items \<Longrightarrow> size_list size items \<le> size v"
  by (cases v) auto

text \<open>
  \<open>tokenize_ops\<close> is the loop over an operator object that every caller runs,
  \<open>tokenize_items\<close> the loop over a logical array.
\<close>

function (sequential) tokenizeValue :: "(bytes \<Rightarrow> bytes) \<Rightarrow> gostring \<Rightarrow> json \<Rightarrow> filter_error + token"
  and tokenize_items :: "(bytes \<Rightarrow> bytes) \<Rightarrow> gostring \<Rightarrow> nat \<Rightarrow> json list \<Rightarrow> filter_error + token list list"
  and tokenize_ops :: "(bytes \<Rightarrow> bytes) \<Rightarrow> (gostring \<times> json) list \<Rightarrow> filter_error + token list"
where
  "tokenizeValue U op v =
     (if is_array_op (to_lower U op) then
        (case unmarshal_slice v of
           None \<Rightarrow> Inl (NotAnArray op)
         | Some items \<Rightarrow> map_sum id (TokenArray op) (tokenize_items U op 0 items))
      else if to_lower U op = OpNot then
        (case unmarshal_map v of
           None \<Rightarrow> Inl NotNeedsObject
         | Some ops \<Rightarrow> map_sum id (TokenObject OpNot) (tokenize_ops U ops))
      else Inr (TokenValue v))"
| "tokenize_items U op i [] = Inr []"
| "tokenize_items U op i (item # items) =
     (case unmarshal_map item of
        None \<Rightarrow> Inl (ElementNotObject op i)
      | Some ops \<Rightarrow>
          (case tokenize_ops U ops of
             Inl e \<Rightarrow> Inl e
           | Inr sub \<Rightarrow>
               (case tokenize_items U op (Suc i) items of
                  Inl e \<Rightarrow> Inl e
                | Inr subs \<Rightarrow> Inr (sub # subs))))"
| "tokenize_ops U [] = Inr []"
| "tokenize_ops U ((op, v) # ops) =
     (case tokenizeValue U op v of
        Inl e \<Rightarrow> Inl e
      | Inr t \<Rightarrow>
          (case tokenize_ops U ops of
             Inl e \<Rightarrow> Inl e
           | Inr ts \<Rightarrow> Inr (TokenOperator op # t # ts)))"
  by pat_completeness auto

termination
proof (relation "measure (\<lambda>x. case x of
      Inl (U, op, v) \<Rightarrow> 2 * size v + 1
    | Inr (Inl (U, op, i, items)) \<Rightarrow> 2 * size_list size items
    | Inr (Inr (U, ops)) \<Rightarrow> 2 * ops_size ops)")
qed (auto dest!: unmarshal_map_size unmarshal_slice_size)

declare tokenizeValue.simps [simp del]

fun tokenize_fields :: "(bytes \<Rightarrow> bytes) \<Rightarrow> (gostring \<times> json) list \<Rightarrow> filter_error + token list" where
  "tokenize_fields U [] = Inr []"
| "tokenize_fields U ((field, expr) # fs) =
     (case unmarshal_map expr of
        None \<Rightarrow> Inl (FieldNotObject field)
      | Some ops \<Rightarrow>
          (case tokenize_ops U ops of
             Inl e \<Rightarrow> Inl e
           | Inr ts \<Rightarrow>
               (case tokenize_fields U fs of
                  Inl e \<Rightarrow> Inl e
                | Inr rest \<Rightarrow> Inr (TokenField field # ts @ rest))))"

text \<open>\<open>None\<close> is text that is not JSON.\<close>

definition Tokenize :: "(bytes \<Rightarrow> bytes) \<Rightarrow> json option \<Rightarrow> filter_error + token list" where
  "Tokenize U raw =
     (case raw of
        None \<Rightarrow> Inl NotAnObject
      | Some v \<Rightarrow>
          (case unmarshal_map v of None \<Rightarrow> Inl NotAnObject | Some root \<Rightarrow> tokenize_fields U root))"

section \<open>The walk\<close>

type_synonym 'q mapper = "gostring \<Rightarrow> gostring \<Rightarrow> json \<Rightarrow> filter_error + 'q"

record 'q combiner =
  cAnd :: "'q list \<Rightarrow> 'q"
  cOr :: "'q list \<Rightarrow> 'q"
  cNor :: "'q list \<Rightarrow> 'q"
  cNot :: "'q \<Rightarrow> 'q"

definition join_sub :: "'q combiner \<Rightarrow> gostring \<Rightarrow> 'q list \<Rightarrow> filter_error + 'q" where
  "join_sub c field qs =
     (if length qs = 0 then Inl (EmptySubExpression field)
      else if length qs = 1 then Inr (hd qs) else Inr (cAnd c qs))"

text \<open>
  \<open>walk_sub\<close> collects the loop of \<open>walkSubList\<close>; \<open>join_sub\<close> is its tail.
\<close>

function (sequential) walkQuery ::
  "(bytes \<Rightarrow> bytes) \<Rightarrow> 'q mapper \<Rightarrow> 'q combiner \<Rightarrow> gostring \<Rightarrow> gostring \<Rightarrow> token \<Rightarrow> filter_error + 'q"
  and walk_lists ::
  "(bytes \<Rightarrow> bytes) \<Rightarrow> 'q mapper \<Rightarrow> 'q combiner \<Rightarrow> gostring \<Rightarrow> token list list \<Rightarrow> filter_error + 'q list"
  and walk_sub ::
  "(bytes \<Rightarrow> bytes) \<Rightarrow> 'q mapper \<Rightarrow> 'q combiner \<Rightarrow> gostring \<Rightarrow> token list \<Rightarrow> filter_error + 'q list"
where
  "walkQuery U m c field key val =
     (let op = to_lower U key in
      if is_array_op op then
        (case val of
           TokenArray _ subs \<Rightarrow>
             map_sum id (if op = OpOr then cOr c else if op = OpAnd then cAnd c else cNor c)
               (walk_lists U m c field subs)
         | _ \<Rightarrow> Inl RequiresArray)
      else if op = OpNot then
        (case val of
           TokenObject _ sub \<Rightarrow>
             (case walk_sub U m c field sub of
                Inl e \<Rightarrow> Inl e
              | Inr qs \<Rightarrow> map_sum id (cNot c) (join_sub c field qs))
         | _ \<Rightarrow> Inl RequiresObject)
      else (case val of TokenValue v \<Rightarrow> m field key v | _ \<Rightarrow> Inl (RequiresScalar key)))"
| "walk_lists U m c field [] = Inr []"
| "walk_lists U m c field (sub # subs) =
     (case walk_sub U m c field sub of
        Inl e \<Rightarrow> Inl e
      | Inr qs \<Rightarrow>
          (case join_sub c field qs of
             Inl e \<Rightarrow> Inl e
           | Inr q \<Rightarrow>
               (case walk_lists U m c field subs of
                  Inl e \<Rightarrow> Inl e
                | Inr rest \<Rightarrow> Inr (q # rest))))"
| "walk_sub U m c field [] = Inr []"
| "walk_sub U m c field [TokenOperator key] = Inl (ExpectedValue key)"
| "walk_sub U m c field (TokenOperator key # val # rest) =
     (case walkQuery U m c field key val of
        Inl e \<Rightarrow> Inl e
      | Inr q \<Rightarrow>
          (case walk_sub U m c field rest of
             Inl e \<Rightarrow> Inl e
           | Inr qs \<Rightarrow> Inr (q # qs)))"
| "walk_sub U m c field (_ # rest) = Inl ExpectedOperator"
  by pat_completeness auto
termination
  by (relation "measure (\<lambda>x. case x of
      Inl (U, m, c, field, key, val) \<Rightarrow> size val
    | Inr (Inl (U, m, c, field, subs)) \<Rightarrow> size_list (size_list size) subs
    | Inr (Inr (U, m, c, field, sub)) \<Rightarrow> size_list size sub)") auto

declare walkQuery.simps [simp del]

fun walk_pairs ::
  "(bytes \<Rightarrow> bytes) \<Rightarrow> 'q mapper \<Rightarrow> 'q combiner \<Rightarrow> gostring \<Rightarrow> token list \<Rightarrow> filter_error + 'q list \<times> token list"
where
  "walk_pairs U m c field [TokenOperator key] = Inl (ExpectedValue key)"
| "walk_pairs U m c field (TokenOperator key # val # rest) =
     (case walkQuery U m c field key val of
        Inl e \<Rightarrow> Inl e
      | Inr q \<Rightarrow>
          (case walk_pairs U m c field rest of
             Inl e \<Rightarrow> Inl e
           | Inr (qs, cur) \<Rightarrow> Inr (q # qs, cur)))"
| "walk_pairs U m c field cur = Inr ([], cur)"

lemma walk_pairs_length: "walk_pairs U m c field ts = Inr (qs, cur) \<Longrightarrow> length cur \<le> length ts"
  by (induction U m c field ts arbitrary: qs cur rule: walk_pairs.induct)
     (auto split: sum.splits prod.splits, fastforce)

function (sequential) Walk ::
  "(bytes \<Rightarrow> bytes) \<Rightarrow> 'q mapper \<Rightarrow> 'q combiner \<Rightarrow> token list \<Rightarrow> filter_error + 'q list"
where
  "Walk U m c [] = Inr []"
| "Walk U m c (TokenField field # cur) =
     (case walk_pairs U m c field cur of
        Inl e \<Rightarrow> Inl e
      | Inr (qs, cur) \<Rightarrow>
          if length qs = 0 then Inl (NoOperators field)
          else (case Walk U m c cur of
                  Inl e \<Rightarrow> Inl e
                | Inr rest \<Rightarrow> Inr ((if length qs = 1 then hd qs else cAnd c qs) # rest)))"
| "Walk U m c (_ # cur) = Inl ExpectedField"
  by pat_completeness auto
termination
  by (relation "measure (\<lambda>(U, m, c, ts). length ts)") (auto dest: walk_pairs_length)

section \<open>What a filter means\<close>

text \<open>
  The reference semantics reads the JSON value directly, in any algebra of truth values with
  the four connectives; \<open>leaf\<close> gives the value of one comparison. \<open>kleene\<close> is the
  three-valued algebra in which \<open>None\<close> is SQL's NULL.
\<close>

definition and3 :: "bool option list \<Rightarrow> bool option" where
  "and3 vs = (if Some False \<in> set vs then Some False else if None \<in> set vs then None else Some True)"

definition or3 :: "bool option list \<Rightarrow> bool option" where
  "or3 vs = (if Some True \<in> set vs then Some True else if None \<in> set vs then None else Some False)"

definition not3 :: "bool option \<Rightarrow> bool option" where
  "not3 v = map_option Not v"

definition kleene :: "bool option combiner" where
  "kleene = \<lparr>cAnd = and3, cOr = or3, cNor = \<lambda>vs. not3 (or3 vs), cNot = not3\<rparr>"

definition all_of :: "'v combiner \<Rightarrow> 'v list \<Rightarrow> 'v" where
  "all_of alg vs = (if length vs = 1 then hd vs else cAnd alg vs)"

text \<open>Shapes the tokenizer rejects have no meaning; the value given for them is not used.\<close>

function (sequential) sat_op ::
  "(bytes \<Rightarrow> bytes) \<Rightarrow> 'v combiner \<Rightarrow> (gostring \<Rightarrow> json \<Rightarrow> 'v) \<Rightarrow> gostring \<Rightarrow> json \<Rightarrow> 'v"
  and sat_items :: "(bytes \<Rightarrow> bytes) \<Rightarrow> 'v combiner \<Rightarrow> (gostring \<Rightarrow> json \<Rightarrow> 'v) \<Rightarrow> json list \<Rightarrow> 'v list"
  and sat_ops :: "(bytes \<Rightarrow> bytes) \<Rightarrow> 'v combiner \<Rightarrow> (gostring \<Rightarrow> json \<Rightarrow> 'v) \<Rightarrow> (gostring \<times> json) list \<Rightarrow> 'v list"
where
  "sat_op U alg leaf op v =
     (if is_array_op (to_lower U op) then
        (case unmarshal_slice v of
           None \<Rightarrow> leaf op v
         | Some items \<Rightarrow>
             let vs = sat_items U alg leaf items in
             if to_lower U op = OpOr then cOr alg vs
             else if to_lower U op = OpAnd then cAnd alg vs else cNor alg vs)
      else if to_lower U op = OpNot then
        (case unmarshal_map v of
           None \<Rightarrow> leaf op v
         | Some ops \<Rightarrow> cNot alg (all_of alg (sat_ops U alg leaf ops)))
      else leaf op v)"
| "sat_items U alg leaf [] = []"
| "sat_items U alg leaf (item # items) =
     (case unmarshal_map item of
        None \<Rightarrow> leaf '''' item
      | Some ops \<Rightarrow> all_of alg (sat_ops U alg leaf ops)) # sat_items U alg leaf items"
| "sat_ops U alg leaf [] = []"
| "sat_ops U alg leaf ((op, v) # ops) = sat_op U alg leaf op v # sat_ops U alg leaf ops"
  by pat_completeness auto
termination
  by (relation "measure (\<lambda>x. case x of
      Inl (U, alg, leaf, op, v) \<Rightarrow> 2 * size v + 1
    | Inr (Inl (U, alg, leaf, items)) \<Rightarrow> 2 * size_list size items
    | Inr (Inr (U, alg, leaf, ops)) \<Rightarrow> 2 * ops_size ops)")
     (auto dest!: unmarshal_map_size unmarshal_slice_size)

declare sat_op.simps [simp del]

fun sat_fields ::
  "(bytes \<Rightarrow> bytes) \<Rightarrow> 'v combiner \<Rightarrow> (gostring \<Rightarrow> gostring \<Rightarrow> json \<Rightarrow> 'v) \<Rightarrow> (gostring \<times> json) list \<Rightarrow> 'v list"
where
  "sat_fields U alg leaf [] = []"
| "sat_fields U alg leaf ((field, expr) # fs) =
     (case unmarshal_map expr of
        None \<Rightarrow> leaf field '''' expr
      | Some ops \<Rightarrow> all_of alg (sat_ops U alg (leaf field) ops)) # sat_fields U alg leaf fs"

text \<open>
  No logical array is empty: nothing in the value is \<open>null\<close> or an empty array. And a value
  whose scalars are ASCII.
\<close>

fun no_empty :: "json \<Rightarrow> bool" where
  "no_empty JNull = False"
| "no_empty (JArr xs) = (xs \<noteq> [] \<and> (\<forall>x\<in>set xs. no_empty x))"
| "no_empty (JObj m) = (\<forall>x\<in>set m. no_empty (snd x))"
| "no_empty _ = True"

fun ascii_json :: "json \<Rightarrow> bool" where
  "ascii_json (JStr s) = is_ascii s"
| "ascii_json (JFloat s) = is_ascii s"
| "ascii_json (JArr xs) = (\<forall>x\<in>set xs. ascii_json x)"
| "ascii_json (JObj m) = (\<forall>x\<in>set m. ascii_json (snd x))"
| "ascii_json _ = True"

lemma no_empty_parts:
  "no_empty v \<Longrightarrow> unmarshal_slice v = Some items \<Longrightarrow> (\<forall>x\<in>set items. no_empty x) \<and> items \<noteq> []"
  "no_empty v \<Longrightarrow> unmarshal_map v = Some ops \<Longrightarrow> \<forall>x\<in>set ops. no_empty (snd x)"
  by (cases v; auto)+

lemma ascii_json_parts:
  "ascii_json v \<Longrightarrow> unmarshal_slice v = Some items \<Longrightarrow> \<forall>x\<in>set items. ascii_json x"
  "ascii_json v \<Longrightarrow> unmarshal_map v = Some ops \<Longrightarrow> \<forall>x\<in>set ops. ascii_json (snd x)"
  by (cases v; auto)+

lemma and3_single [simp]: "and3 [v] = v"
  by (cases v) (auto simp: and3_def)

lemma all_of_kleene: "all_of kleene vs = and3 vs"
  by (cases vs) (auto simp: all_of_def kleene_def)

lemma and3_Some_True: "and3 vs = Some True \<longleftrightarrow> (\<forall>v\<in>set vs. v = Some True)"
  by (auto simp: and3_def) (metis (full_types) not_None_eq)

locale query_meaning =
  fixes m :: "'q mapper"
    and c :: "'q combiner"
    and alg :: "'v combiner"
    and means :: "'q \<Rightarrow> 'v \<Rightarrow> bool"
    and leaf :: "gostring \<Rightarrow> gostring \<Rightarrow> json \<Rightarrow> 'v"
    and good :: "json \<Rightarrow> bool"
    and allow_empty :: bool
  assumes good_slice: "good v \<Longrightarrow> unmarshal_slice v = Some items \<Longrightarrow>
      (\<forall>x\<in>set items. good x) \<and> (allow_empty \<or> items \<noteq> [])"
    and good_map: "good v \<Longrightarrow> unmarshal_map v = Some ops \<Longrightarrow> \<forall>x\<in>set ops. good (snd x)"
    and means_leaf: "good v \<Longrightarrow> m field op v = Inr q \<Longrightarrow> means q (leaf field op v)"
    and means_And: "list_all2 means qs vs \<Longrightarrow> allow_empty \<or> qs \<noteq> [] \<Longrightarrow> means (cAnd c qs) (cAnd alg vs)"
    and means_Or: "list_all2 means qs vs \<Longrightarrow> allow_empty \<or> qs \<noteq> [] \<Longrightarrow> means (cOr c qs) (cOr alg vs)"
    and means_Nor: "list_all2 means qs vs \<Longrightarrow> allow_empty \<or> qs \<noteq> [] \<Longrightarrow> means (cNor c qs) (cNor alg vs)"
    and means_Not: "means q b \<Longrightarrow> means (cNot c q) (cNot alg b)"
begin

lemma join_means:
  assumes "list_all2 means qs vs" "join_sub c field qs = Inr q"
  shows "means q (all_of alg vs)"
  using assms means_And [OF assms(1)]
  by (cases qs) (auto simp: join_sub_def all_of_def list_all2_Cons1 dest: list_all2_lengthD split: if_splits)

lemma walk_means:
  "tokenizeValue U op v = Inr t \<Longrightarrow> walkQuery U m c field op t = Inr q \<Longrightarrow> good v \<Longrightarrow>
   means q (sat_op U alg (leaf field) op v)"
  "tokenize_items U op i items = Inr subs \<Longrightarrow> walk_lists U m c field subs = Inr qs \<Longrightarrow>
   \<forall>v\<in>set items. good v \<Longrightarrow> list_all2 means qs (sat_items U alg (leaf field) items)"
  "tokenize_ops U ops = Inr ts \<Longrightarrow> walk_sub U m c field ts = Inr qs \<Longrightarrow>
   \<forall>x\<in>set ops. good (snd x) \<Longrightarrow> list_all2 means qs (sat_ops U alg (leaf field) ops)"
proof (induction U op v and U op i items and U ops arbitrary: t q and subs qs and ts qs
    rule: tokenizeValue_tokenize_items_tokenize_ops.induct)
  case (1 U op v)
  show ?case
  proof (cases "is_array_op (to_lower U op)")
    case True
    then obtain items subs qs where i: "unmarshal_slice v = Some items" "tokenize_items U op 0 items = Inr subs"
        "t = TokenArray op subs" "walk_lists U m c field subs = Inr qs"
        "q = (if to_lower U op = OpOr then cOr c else if to_lower U op = OpAnd then cAnd c else cNor c) qs"
      using 1(3,4)
      by (auto simp: tokenizeValue.simps walkQuery.simps map_sum_Inr Let_def split: option.splits)
    have e: "\<forall>v\<in>set items. good v" "allow_empty \<or> items \<noteq> []"
      using good_slice [OF 1(5) i(1)] by auto
    then have l: "list_all2 means qs (sat_items U alg (leaf field) items)"
      using 1(1) [OF True i(1,2,4)] by simp
    have "length (sat_items U alg (leaf field) items) = length items" by (induction items) auto
    then have "allow_empty \<or> qs \<noteq> []" using e list_all2_lengthD [OF l] by auto
    then show ?thesis
      using True i means_And [OF l] means_Or [OF l] means_Nor [OF l]
      by (simp add: sat_op.simps Let_def)
  next
    case False
    show ?thesis
    proof (cases "to_lower U op = OpNot")
      case True
      then obtain ops ts qs q' where o: "unmarshal_map v = Some ops" "tokenize_ops U ops = Inr ts"
          "t = TokenObject OpNot ts" "walk_sub U m c field ts = Inr qs" "join_sub c field qs = Inr q'" "q = cNot c q'"
        using False 1(3,4)
        by (auto simp: tokenizeValue.simps walkQuery.simps map_sum_Inr Let_def split: option.splits sum.splits)
      have "\<forall>x\<in>set ops. good (snd x)" using good_map [OF 1(5) o(1)] .
      then show ?thesis
        using 1(2) [OF False True o(1,2,4)] join_means [OF _ o(5)] False True o means_Not
        by (simp add: sat_op.simps)
    next
      case no: False
      then show ?thesis
        using 1(3-5) False means_leaf
        by (auto simp: tokenizeValue.simps walkQuery.simps sat_op.simps Let_def)
    qed
  qed
next
  case (3 U op i item items)
  then obtain ops sub rest q qs1 qs2 where "unmarshal_map item = Some ops" "tokenize_ops U ops = Inr sub"
      "tokenize_items U op (Suc i) items = Inr rest" "subs = sub # rest" "walk_sub U m c field sub = Inr qs1"
      "join_sub c field qs1 = Inr q" "walk_lists U m c field rest = Inr qs2" "qs = q # qs2"
    by (auto split: option.splits sum.splits)
  moreover have "\<forall>x\<in>set ops. good (snd x)"
    using 3(5) good_map [OF _ calculation(1)] by simp
  ultimately show ?case
    using 3 join_means [of qs1 _ field q] by auto
next
  case (5 U op v ops)
  then show ?case by (auto split: option.splits sum.splits)
qed auto

end

text \<open>An error-free walk splits the token list where the next field begins.\<close>

definition at_field :: "token list \<Rightarrow> bool" where
  "at_field ts = (case ts of TokenField _ # _ \<Rightarrow> True | [] \<Rightarrow> True | _ \<Rightarrow> False)"

lemma walk_pairs_tokens:
  "tokenize_ops U ops = Inr ts \<Longrightarrow> at_field rest \<Longrightarrow>
   walk_pairs U m c field (ts @ rest) = map_sum id (\<lambda>qs. (qs, rest)) (walk_sub U m c field ts)"
proof (induction ops arbitrary: ts)
  case Nil
  then show ?case by (cases rest; cases "hd rest") (auto simp: at_field_def)
next
  case (Cons x ops)
  obtain op v where "x = (op, v)" by (cases x)
  then show ?case using Cons by (auto split: sum.splits)
qed

lemma tokenize_fields_at_field: "tokenize_fields U fs = Inr ts \<Longrightarrow> at_field ts"
  by (cases fs) (auto simp: at_field_def split: option.splits sum.splits)

context query_meaning
begin

lemma fields_mean:
  "tokenize_fields U fs = Inr ts \<Longrightarrow> Walk U m c ts = Inr qs \<Longrightarrow>
   \<forall>x\<in>set fs. good (snd x) \<Longrightarrow> list_all2 means qs (sat_fields U alg leaf fs)"
proof (induction U fs arbitrary: ts qs rule: tokenize_fields.induct)
  case (2 U field expr fs)
  then obtain ops os rest qs1 qs2 where o: "unmarshal_map expr = Some ops" "tokenize_ops U ops = Inr os"
      "tokenize_fields U fs = Inr rest" "ts = TokenField field # os @ rest"
      "walk_sub U m c field os = Inr qs1" "qs1 \<noteq> []" "Walk U m c rest = Inr qs2"
      "qs = (if length qs1 = 1 then hd qs1 else cAnd c qs1) # qs2"
    by (auto simp: walk_pairs_tokens tokenize_fields_at_field map_sum_Inr
        split: option.splits sum.splits prod.splits if_splits)
  have "\<forall>x\<in>set ops. good (snd x)" using 2(4) good_map [OF _ o(1)] by simp
  then have l: "list_all2 means qs1 (sat_ops U alg (leaf field) ops)"
    using walk_means(3) o(2,5) by blast
  have "join_sub c field qs1 = Inr (if length qs1 = 1 then hd qs1 else cAnd c qs1)"
    using o(6) by (simp add: join_sub_def)
  from join_means [OF l this] show ?case
    using 2(1) [OF o(1-3,7)] 2(4) o(1,8) by auto
qed simp

end

text \<open>Truth at every point of a set of contexts at once.\<close>

definition pointwise :: "'v combiner \<Rightarrow> ('k \<Rightarrow> 'v) combiner" where
  "pointwise alg =
     \<lparr>cAnd = \<lambda>vs k. cAnd alg (map (\<lambda>v. v k) vs), cOr = \<lambda>vs k. cOr alg (map (\<lambda>v. v k) vs),
      cNor = \<lambda>vs k. cNor alg (map (\<lambda>v. v k) vs), cNot = \<lambda>v k. cNot alg (v k)\<rparr>"

lemma pointwise_simps [simp]:
  "cAnd (pointwise alg) vs k = cAnd alg (map (\<lambda>v. v k) vs)"
  "cOr (pointwise alg) vs k = cOr alg (map (\<lambda>v. v k) vs)"
  "cNor (pointwise alg) vs k = cNor alg (map (\<lambda>v. v k) vs)"
  "cNot (pointwise alg) v k = cNot alg (v k)"
  by (simp_all add: pointwise_def)

lemma kleene_simps [simp]:
  "cAnd kleene = and3" "cOr kleene = or3" "cNor kleene vs = not3 (or3 vs)" "cNot kleene = not3"
  by (simp_all add: kleene_def)

lemma all_of_pointwise: "all_of (pointwise alg) vs k = all_of alg (map (\<lambda>v. v k) vs)"
  by (cases vs) (auto simp: all_of_def)

lemma sat_pointwise:
  fixes alg :: "'v combiner" and leaf :: "gostring \<Rightarrow> json \<Rightarrow> 'k \<Rightarrow> 'v"
  shows "sat_op U (pointwise alg) leaf op v k = sat_op U alg (\<lambda>op v. leaf op v k) op v"
  "map (\<lambda>v. v k) (sat_items U (pointwise alg) leaf items) = sat_items U alg (\<lambda>op v. leaf op v k) items"
  "map (\<lambda>v. v k) (sat_ops U (pointwise alg) leaf ops) = sat_ops U alg (\<lambda>op v. leaf op v k) ops"
proof (induction U "pointwise alg :: ('k \<Rightarrow> 'v) combiner" leaf op v and U "pointwise alg :: ('k \<Rightarrow> 'v) combiner" leaf items and U "pointwise alg :: ('k \<Rightarrow> 'v) combiner" leaf ops
    rule: sat_op_sat_items_sat_ops.induct)
  case (1 U leaf op v)
  then show ?case
    by (auto simp: sat_op.simps [of U "pointwise alg"] sat_op.simps [of U alg] all_of_pointwise Let_def
        split: option.split)
qed (auto simp: all_of_pointwise split: option.split)

lemma sat_fields_pointwise:
  "map (\<lambda>v. v k) (sat_fields U (pointwise alg) leaf fs) = sat_fields U alg (\<lambda>f op v. leaf f op v k) fs"
  by (induction fs) (auto simp: all_of_pointwise sat_pointwise split: option.split)

end
