(* ===== verification/FilterBackends.thy ===== *)
theory FilterBackends
  imports FilterLang
begin

text \<open>
  \<open>internal/filter/match.go\<close> and \<open>sql.go\<close>: the two evaluations of a list filter, in memory
  and as a WHERE clause. \<open>U\<close> and \<open>E\<close> are the Unicode halves of \<open>strings.ToLower\<close> and
  \<open>strings.EqualFold\<close>. A filter argument is \<open>None\<close> when it is nil or empty, and otherwise
  the parsed JSON value, if it is JSON at all. A field map is an association list.
\<close>

section \<open>Fields and scalars\<close>

record field_spec =
  fs_column :: gostring
  fs_ops :: "gostring list"

type_synonym field_spec_map = "(gostring \<times> field_spec) list"

definition OnlyEq :: "gostring \<Rightarrow> field_spec" where
  "OnlyEq column = \<lparr>fs_column = column, fs_ops = [OpEq]\<rparr>"

definition scalarString :: "json \<Rightarrow> gostring option" where
  "scalarString v =
     (case v of
        JStr s \<Rightarrow> Some s
      | JInt i \<Rightarrow> Some (itoa i)
      | JFloat t \<Rightarrow> Some t
      | JBool b \<Rightarrow> Some (if b then ''true'' else ''false'')
      | _ \<Rightarrow> None)"

text \<open>The lookup and the operator check both mappers begin with.\<close>

definition check_field ::
  "(bytes \<Rightarrow> bytes) \<Rightarrow> field_spec_map \<Rightarrow> gostring \<Rightarrow> gostring \<Rightarrow> filter_error + field_spec" where
  "check_field U fm field op =
     (case map_of fm (to_lower U field) of
        None \<Rightarrow> Inl (UnsupportedField field)
      | Some spec \<Rightarrow>
          if length (fs_ops spec) > 0 \<and> to_lower U op \<notin> set (fs_ops spec) then Inl (OpNotAllowed op field)
          else Inr spec)"

section \<open>In memory\<close>

definition evalOp ::
  "(bytes \<Rightarrow> bytes) \<Rightarrow> (bytes \<Rightarrow> bytes \<Rightarrow> bool) \<Rightarrow> gostring \<Rightarrow> gostring \<Rightarrow> gostring \<Rightarrow> bool" where
  "evalOp U E op got want =
     (let op = to_lower U op in
      if op = OpEq then got = want
      else if op = OpIeq then equal_fold E got want
      else if op = OpContains then go_contains want got
      else if op = OpIContains then go_contains (to_lower U want) (to_lower U got)
      else if op = OpStartsWith then has_prefix (to_lower U want) (to_lower U got)
      else if op = OpEndsWith then has_suffix (to_lower U want) (to_lower U got)
      else False)"

definition andAll :: "bool list \<Rightarrow> bool" where
  "andAll conds = list_all id conds"

definition boolCombiner :: "bool combiner" where
  "boolCombiner = \<lparr>cAnd = list_all id, cOr = list_ex id, cNor = \<lambda>qs. \<not> list_ex id qs, cNot = Not\<rparr>"

definition matchMapper ::
  "(bytes \<Rightarrow> bytes) \<Rightarrow> (bytes \<Rightarrow> bytes \<Rightarrow> bool) \<Rightarrow> (gostring \<times> json) list \<Rightarrow> field_spec_map \<Rightarrow> bool mapper" where
  "matchMapper U E flds fm field op v =
     (case check_field U fm field op of
        Inl e \<Rightarrow> Inl e
      | Inr spec \<Rightarrow>
          let key = (if fs_column spec = '''' then field else fs_column spec) in
          (case Option.bind (map_of flds key) scalarString of
             None \<Rightarrow> Inr False
           | Some got \<Rightarrow>
               (case scalarString v of
                  None \<Rightarrow> Inl (BadValue op field)
                | Some want \<Rightarrow> Inr (evalOp U E op got want))))"

fun match_loop ::
  "(bytes \<Rightarrow> bytes) \<Rightarrow> (bytes \<Rightarrow> bytes \<Rightarrow> bool) \<Rightarrow> ('r \<Rightarrow> (gostring \<times> json) list) \<Rightarrow> field_spec_map \<Rightarrow>
   token list \<Rightarrow> 'r list \<Rightarrow> filter_error + 'r list" where
  "match_loop U E to_map fm toks [] = Inr []"
| "match_loop U E to_map fm toks (row # rows) =
     (case Walk U (matchMapper U E (to_map row) fm) boolCombiner toks of
        Inl e \<Rightarrow> Inl e
      | Inr conds \<Rightarrow>
          (case match_loop U E to_map fm toks rows of
             Inl e \<Rightarrow> Inl e
           | Inr out \<Rightarrow> Inr (if andAll conds then row # out else out)))"

definition Match ::
  "(bytes \<Rightarrow> bytes) \<Rightarrow> (bytes \<Rightarrow> bytes \<Rightarrow> bool) \<Rightarrow> ('r \<Rightarrow> (gostring \<times> json) list) \<Rightarrow>
   json option option \<Rightarrow> 'r list \<Rightarrow> field_spec_map \<Rightarrow> filter_error + 'r list" where
  "Match U E to_map rawFilter rows allowed =
     (case rawFilter of
        None \<Rightarrow> Inr rows
      | Some raw \<Rightarrow>
          (case Tokenize U raw of
             Inl e \<Rightarrow> Inl e
           | Inr toks \<Rightarrow> if toks = [] then Inr rows else match_loop U E to_map allowed toks rows))"

section \<open>As SQL\<close>

record condition =
  SQL :: gostring
  Args :: "gostring list"

definition joinGroup :: "condition list \<Rightarrow> gostring \<Rightarrow> condition" where
  "joinGroup qs sep =
     \<lparr>SQL = ''('' @ go_join sep (map SQL qs) @ '')'', Args = concat (map Args qs)\<rparr>"

definition sqlCombiner :: "condition combiner" where
  "sqlCombiner =
     \<lparr>cAnd = \<lambda>qs. joinGroup qs '' AND '',
      cOr = \<lambda>qs. joinGroup qs '' OR '',
      cNor = \<lambda>qs. (let g = joinGroup qs '' OR '' in \<lparr>SQL = ''NOT '' @ SQL g, Args = Args g\<rparr>),
      cNot = \<lambda>q. \<lparr>SQL = ''NOT ('' @ SQL q @ '')'', Args = Args q\<rparr>\<rparr>"

definition likeEscape :: "gostring \<Rightarrow> gostring" where
  "likeEscape s =
     concat (map (\<lambda>ch. if ch = CHR 0x5C \<or> ch = CHR ''%'' \<or> ch = CHR ''_'' then [CHR 0x5C, ch] else [ch]) s)"

definition operatorToCondition ::
  "(bytes \<Rightarrow> bytes) \<Rightarrow> gostring \<Rightarrow> gostring \<Rightarrow> json \<Rightarrow> filter_error + condition" where
  "operatorToCondition U col op v =
     (case scalarString v of
        None \<Rightarrow> Inl (BadValue op col)
      | Some s \<Rightarrow>
          let lop = to_lower U op; ilike = ''LOWER('' @ col @ '') LIKE LOWER(?)'' in
          if lop = OpEq then Inr \<lparr>SQL = col @ '' = ?'', Args = [s]\<rparr>
          else if lop = OpIeq then Inr \<lparr>SQL = ''LOWER('' @ col @ '') = LOWER(?)'', Args = [s]\<rparr>
          else if lop = OpContains then Inr \<lparr>SQL = col @ '' LIKE ?'', Args = [''%'' @ likeEscape s @ ''%'']\<rparr>
          else if lop = OpIContains then Inr \<lparr>SQL = ilike, Args = [''%'' @ likeEscape s @ ''%'']\<rparr>
          else if lop = OpStartsWith then Inr \<lparr>SQL = ilike, Args = [likeEscape s @ ''%'']\<rparr>
          else if lop = OpEndsWith then Inr \<lparr>SQL = ilike, Args = [''%'' @ likeEscape s]\<rparr>
          else Inl (UnsupportedOp op))"

definition sqlFieldMapper :: "(bytes \<Rightarrow> bytes) \<Rightarrow> field_spec_map \<Rightarrow> condition mapper" where
  "sqlFieldMapper U fm field op v =
     (case check_field U fm field op of
        Inl e \<Rightarrow> Inl e
      | Inr spec \<Rightarrow> operatorToCondition U (fs_column spec) op v)"

definition BuildWhere ::
  "(bytes \<Rightarrow> bytes) \<Rightarrow> json option option \<Rightarrow> field_spec_map \<Rightarrow> filter_error + gostring \<times> gostring list" where
  "BuildWhere U rawFilter fm =
     (case rawFilter of
        None \<Rightarrow> Inr ('''', [])
      | Some raw \<Rightarrow>
          (case Tokenize U raw of
             Inl e \<Rightarrow> Inl e
           | Inr toks \<Rightarrow>
               if toks = [] then Inr ('''', [])
               else (case Walk U (sqlFieldMapper U fm) sqlCombiner toks of
                       Inl e \<Rightarrow> Inl e
                     | Inr conds \<Rightarrow>
                         if length conds = 0 then Inr ('''', [])
                         else let combined = cAnd sqlCombiner conds in Inr (SQL combined, Args combined))))"

section \<open>The meaning of the SQL\<close>

text \<open>
  The part of the database's expression language the code emits: a comparison of a column with
  one placeholder, AND, OR and NOT with SQL's three truth values; \<open>SNeg\<close> is a NOT that adds no
  parentheses of its own. \<open>render\<close> is the text,
  \<open>params\<close> the values of the placeholders from left to right. \<open>L\<close> is the database's
  LOWER and \<open>like\<close> its LIKE, a pattern first.
\<close>

datatype sql_cmp = CmpEq | CmpIEq | CmpLike | CmpILike

datatype sql_expr =
    SCmp gostring sql_cmp gostring
  | SAnd "sql_expr list"
  | SOr "sql_expr list"
  | SNor "sql_expr list"
  | SNot sql_expr
  | SNeg sql_expr

fun render :: "sql_expr \<Rightarrow> gostring" where
  "render (SCmp col CmpEq s) = col @ '' = ?''"
| "render (SCmp col CmpIEq s) = ''LOWER('' @ col @ '') = LOWER(?)''"
| "render (SCmp col CmpLike s) = col @ '' LIKE ?''"
| "render (SCmp col CmpILike s) = ''LOWER('' @ col @ '') LIKE LOWER(?)''"
| "render (SAnd es) = ''('' @ go_join '' AND '' (map render es) @ '')''"
| "render (SOr es) = ''('' @ go_join '' OR '' (map render es) @ '')''"
| "render (SNor es) = ''NOT ('' @ go_join '' OR '' (map render es) @ '')''"
| "render (SNot e) = ''NOT ('' @ render e @ '')''"
| "render (SNeg e) = ''NOT '' @ render e"

fun params :: "sql_expr \<Rightarrow> gostring list" where
  "params (SCmp col c s) = [s]"
| "params (SAnd es) = concat (map params es)"
| "params (SOr es) = concat (map params es)"
| "params (SNor es) = concat (map params es)"
| "params (SNot e) = params e"
| "params (SNeg e) = params e"

fun sql_compare ::
  "(gostring \<Rightarrow> gostring) \<Rightarrow> (gostring \<Rightarrow> gostring \<Rightarrow> bool) \<Rightarrow> sql_cmp \<Rightarrow> gostring \<Rightarrow> gostring \<Rightarrow> bool" where
  "sql_compare L like CmpEq got s = (got = s)"
| "sql_compare L like CmpIEq got s = (L got = L s)"
| "sql_compare L like CmpLike got s = like s got"
| "sql_compare L like CmpILike got s = like (L s) (L got)"

fun sql_eval ::
  "(gostring \<Rightarrow> gostring) \<Rightarrow> (gostring \<Rightarrow> gostring \<Rightarrow> bool) \<Rightarrow> (gostring \<Rightarrow> gostring option) \<Rightarrow> sql_expr \<Rightarrow> bool option"
where
  "sql_eval L like row (SCmp col c s) = map_option (\<lambda>got. sql_compare L like c got s) (row col)"
| "sql_eval L like row (SAnd es) = and3 (map (sql_eval L like row) es)"
| "sql_eval L like row (SOr es) = or3 (map (sql_eval L like row) es)"
| "sql_eval L like row (SNor es) = not3 (or3 (map (sql_eval L like row) es))"
| "sql_eval L like row (SNot e) = not3 (sql_eval L like row e)"
| "sql_eval L like row (SNeg e) = not3 (sql_eval L like row e)"

text \<open>
  LIKE on characters: a percent sign matches any text, an underscore any character, and the
  escape character, where there is one, makes the next character stand for itself. Postgres
  escapes with a backslash when the query has no ESCAPE clause, SQLite then has no escape.
\<close>

fun like_esc :: "char option \<Rightarrow> gostring \<Rightarrow> gostring \<Rightarrow> bool" where
  "like_esc esc [] s = (s = [])"
| "like_esc esc (p # ps) s =
     (if Some p = esc then
        (case ps of
           [] \<Rightarrow> False
         | q # qs \<Rightarrow> (case s of [] \<Rightarrow> False | x # xs \<Rightarrow> x = q \<and> like_esc esc qs xs))
      else if p = CHR ''%'' then
        like_esc esc ps s \<or> (case s of [] \<Rightarrow> False | x # xs \<Rightarrow> like_esc esc (p # ps) xs)
      else (case s of
              [] \<Rightarrow> False
            | x # xs \<Rightarrow> (p = CHR ''_'' \<or> x = p) \<and> like_esc esc ps xs))"

declare like_esc.simps(2) [simp del]

lemma like_literal:
  "like_esc (Some CHR 0x5C) (likeEscape w @ ps) s \<longleftrightarrow> (\<exists>t. s = w @ t \<and> like_esc (Some CHR 0x5C) ps t)"
proof (induction w arbitrary: s)
  case Nil
  then show ?case by (simp add: likeEscape_def)
next
  case (Cons ch w)
  have step: "like_esc (Some CHR 0x5C) (likeEscape (ch # w) @ ps) s \<longleftrightarrow>
      (case s of [] \<Rightarrow> False | x # xs \<Rightarrow> x = ch \<and> like_esc (Some CHR 0x5C) (likeEscape w @ ps) xs)"
    by (auto simp: likeEscape_def like_esc.simps(2) split: list.split)
  show ?case
    unfolding step by (cases s) (auto simp: Cons)
qed

lemma like_percent: "like_esc (Some CHR 0x5C) (CHR ''%'' # ps) s \<longleftrightarrow> (\<exists>u t. s = u @ t \<and> like_esc (Some CHR 0x5C) ps t)"
proof (induction s)
  case Nil
  then show ?case by (simp add: like_esc.simps(2))
next
  case (Cons x xs)
  have "like_esc (Some CHR 0x5C) (CHR ''%'' # ps) (x # xs) \<longleftrightarrow>
      like_esc (Some CHR 0x5C) ps (x # xs) \<or> like_esc (Some CHR 0x5C) (CHR ''%'' # ps) xs"
    by (simp add: like_esc.simps(2))
  then show ?case unfolding Cons by (simp add: Cons_eq_append_conv ex_disj_distrib conj_disj_distribR) metis
qed

lemma like_contains:
  "like_esc (Some CHR 0x5C) (''%'' @ likeEscape w @ ''%'') s \<longleftrightarrow> go_contains w s"
  using like_literal [of w "''%''"] by (simp add: like_percent go_contains_iff) metis

lemma like_startswith: "like_esc (Some CHR 0x5C) (likeEscape w @ ''%'') s \<longleftrightarrow> has_prefix w s"
  using like_literal [of w "''%''"] by (simp add: like_percent has_prefix_iff)

lemma like_endswith: "like_esc (Some CHR 0x5C) (''%'' @ likeEscape w) s \<longleftrightarrow> has_suffix w s"
  using like_literal [of w "[]"]
  by (auto simp: like_percent has_suffix_def has_prefix_iff) (metis rev_append rev_rev_ident)

section \<open>Both back ends mean the same\<close>

fun sql_cols :: "sql_expr \<Rightarrow> gostring set" where
  "sql_cols (SCmp col c s) = {col}"
| "sql_cols (SAnd es) = (\<Union>e\<in>set es. sql_cols e)"
| "sql_cols (SOr es) = (\<Union>e\<in>set es. sql_cols e)"
| "sql_cols (SNor es) = (\<Union>e\<in>set es. sql_cols e)"
| "sql_cols (SNot e) = sql_cols e"
| "sql_cols (SNeg e) = sql_cols e"

text \<open>An expression without an empty group, whose text is therefore an expression of SQL.\<close>

fun sql_wf :: "sql_expr \<Rightarrow> bool" where
  "sql_wf (SCmp col c s) = True"
| "sql_wf (SAnd es) = (es \<noteq> [] \<and> (\<forall>e\<in>set es. sql_wf e))"
| "sql_wf (SOr es) = (es \<noteq> [] \<and> (\<forall>e\<in>set es. sql_wf e))"
| "sql_wf (SNor es) = (es \<noteq> [] \<and> (\<forall>e\<in>set es. sql_wf e))"
| "sql_wf (SNot e) = sql_wf e"
| "sql_wf (SNeg e) = sql_wf e"

definition cond_of :: "sql_expr \<Rightarrow> condition" where
  "cond_of e = \<lparr>SQL = render e, Args = params e\<rparr>"

definition columns :: "field_spec_map \<Rightarrow> gostring set" where
  "columns fm = fs_column ` snd ` set fm"

type_synonym sql_ctx =
  "(gostring \<Rightarrow> gostring) \<times> (gostring \<Rightarrow> gostring \<Rightarrow> bool) \<times> (gostring \<Rightarrow> gostring option)"

definition eval_in :: "sql_expr \<Rightarrow> sql_ctx \<Rightarrow> bool option" where
  "eval_in e = (\<lambda>(L, like, row). sql_eval L like row e)"

definition sql_means :: "gostring set \<Rightarrow> condition \<Rightarrow> (sql_ctx \<Rightarrow> bool option) \<Rightarrow> bool" where
  "sql_means C q b \<longleftrightarrow> (\<exists>e. q = cond_of e \<and> sql_wf e \<and> sql_cols e \<subseteq> C \<and> eval_in e = b)"

lemma sql_means_list:
  "list_all2 (sql_means C) qs vs \<Longrightarrow>
   \<exists>es. qs = map cond_of es \<and> vs = map eval_in es \<and> (\<forall>e\<in>set es. sql_wf e \<and> sql_cols e \<subseteq> C)"
proof (induction rule: list_all2_induct)
  case (Cons q qs v vs)
  then obtain e es where "q = cond_of e" "sql_wf e" "sql_cols e \<subseteq> C" "eval_in e = v" "qs = map cond_of es"
      "vs = map eval_in es" "\<forall>e\<in>set es. sql_wf e \<and> sql_cols e \<subseteq> C"
    by (auto simp: sql_means_def)
  then show ?case by (intro exI [of _ "e # es"]) auto
qed simp

lemma join_conds: "joinGroup (map cond_of es) '' AND '' = cond_of (SAnd es)"
    "joinGroup (map cond_of es) '' OR '' = cond_of (SOr es)"
  by (simp_all add: joinGroup_def cond_of_def comp_def)

lemma combine_conds:
  "cAnd sqlCombiner (map cond_of es) = cond_of (SAnd es)"
  "cOr sqlCombiner (map cond_of es) = cond_of (SOr es)"
  "cNor sqlCombiner (map cond_of es) = cond_of (SNor es)"
  "cNot sqlCombiner (cond_of e) = cond_of (SNot e)"
  by (simp_all add: sqlCombiner_def join_conds) (simp_all add: cond_of_def)

definition condition_expr :: "(bytes \<Rightarrow> bytes) \<Rightarrow> gostring \<Rightarrow> gostring \<Rightarrow> gostring \<Rightarrow> sql_expr option" where
  "condition_expr U col op s =
     map_of
       [(OpEq, SCmp col CmpEq s), (OpIeq, SCmp col CmpIEq s),
        (OpContains, SCmp col CmpLike (''%'' @ likeEscape s @ ''%'')),
        (OpIContains, SCmp col CmpILike (''%'' @ likeEscape s @ ''%'')),
        (OpStartsWith, SCmp col CmpILike (likeEscape s @ ''%'')),
        (OpEndsWith, SCmp col CmpILike (''%'' @ likeEscape s))] (to_lower U op)"

lemma operatorToCondition_expr:
  assumes "operatorToCondition U col op v = Inr q"
  obtains s e where "scalarString v = Some s" "condition_expr U col op s = Some e" "q = cond_of e"
    "sql_wf e" "sql_cols e = {col}"
  using assms
  by (auto simp: operatorToCondition_def condition_expr_def cond_of_def Let_def op_defs
      split: option.splits if_splits)

lemma check_field_column: "check_field U fm field op = Inr spec \<Longrightarrow> fs_column spec \<in> columns fm"
  by (force simp: check_field_def columns_def split: option.splits if_splits dest!: map_of_SomeD)

text \<open>The value of one comparison, in every database at once.\<close>

definition sql_leaf ::
  "(bytes \<Rightarrow> bytes) \<Rightarrow> field_spec_map \<Rightarrow> gostring \<Rightarrow> gostring \<Rightarrow> json \<Rightarrow> sql_ctx \<Rightarrow> bool option" where
  "sql_leaf U fm field op v k =
     (case check_field U fm field op of
        Inl e \<Rightarrow> None
      | Inr spec \<Rightarrow>
          (case Option.bind (scalarString v) (condition_expr U (fs_column spec) op) of
             None \<Rightarrow> None | Some e \<Rightarrow> eval_in e k))"

lemma sql_leaf_means:
  assumes "sqlFieldMapper U fm field op v = Inr q"
  shows "sql_means (columns fm) q (sql_leaf U fm field op v)"
proof -
  obtain spec where c: "check_field U fm field op = Inr spec" "operatorToCondition U (fs_column spec) op v = Inr q"
    using assms by (auto simp: sqlFieldMapper_def split: sum.splits)
  obtain s e where "scalarString v = Some s" "condition_expr U (fs_column spec) op s = Some e" "q = cond_of e"
      "sql_wf e" "sql_cols e = {fs_column spec}"
    using operatorToCondition_expr [OF c(2)] .
  then show ?thesis
    using c(1) check_field_column [OF c(1)] by (auto simp: sql_means_def sql_leaf_def fun_eq_iff)
qed

lemma eval_connectives:
  "eval_in (SAnd es) = cAnd (pointwise kleene) (map eval_in es)"
  "eval_in (SOr es) = cOr (pointwise kleene) (map eval_in es)"
  "eval_in (SNor es) = cNor (pointwise kleene) (map eval_in es)"
  "eval_in (SNot e) = cNot (pointwise kleene) (eval_in e)"
  by (auto simp: eval_in_def pointwise_def kleene_def fun_eq_iff comp_def)

lemma sql_connectives:
  assumes "list_all2 (sql_means C) qs vs" "qs \<noteq> []"
  shows "sql_means C (cAnd sqlCombiner qs) (cAnd (pointwise kleene) vs)"
    "sql_means C (cOr sqlCombiner qs) (cOr (pointwise kleene) vs)"
    "sql_means C (cNor sqlCombiner qs) (cNor (pointwise kleene) vs)"
proof -
  obtain es where es: "qs = map cond_of es" "vs = map eval_in es"
      "\<forall>e\<in>set es. sql_wf e \<and> sql_cols e \<subseteq> C"
    using sql_means_list [OF assms(1)] by blast
  show "sql_means C (cAnd sqlCombiner qs) (cAnd (pointwise kleene) vs)"
    unfolding sql_means_def using es assms(2) combine_conds(1) eval_connectives(1)
    by (intro exI [of _ "SAnd es"]) auto
  show "sql_means C (cOr sqlCombiner qs) (cOr (pointwise kleene) vs)"
    unfolding sql_means_def using es assms(2) combine_conds(2) eval_connectives(2)
    by (intro exI [of _ "SOr es"]) auto
  show "sql_means C (cNor sqlCombiner qs) (cNor (pointwise kleene) vs)"
    unfolding sql_means_def using es assms(2) combine_conds(3) eval_connectives(3)
    by (intro exI [of _ "SNor es"]) auto
qed

lemma sql_not: "sql_means C q b \<Longrightarrow> sql_means C (cNot sqlCombiner q) (cNot (pointwise kleene) b)"
  unfolding sql_means_def using combine_conds(4) eval_connectives(4)
  by (metis sql_cols.simps(5) sql_wf.simps(5))

interpretation sql: query_meaning "sqlFieldMapper U fm" sqlCombiner "pointwise kleene"
    "sql_means (columns fm)" "sql_leaf U fm" no_empty False
  by unfold_locales (use no_empty_parts sql_leaf_means sql_connectives sql_not in auto)

definition mem_leaf ::
  "(bytes \<Rightarrow> bytes) \<Rightarrow> (bytes \<Rightarrow> bytes \<Rightarrow> bool) \<Rightarrow> (gostring \<times> json) list \<Rightarrow> field_spec_map \<Rightarrow>
   gostring \<Rightarrow> gostring \<Rightarrow> json \<Rightarrow> bool option" where
  "mem_leaf U E flds fm field op v = Some (matchMapper U E flds fm field op v = Inr True)"

definition bool_means :: "bool \<Rightarrow> bool option \<Rightarrow> bool" where
  "bool_means q b \<longleftrightarrow> b = Some q"

lemma bool_means_list: "list_all2 bool_means qs vs \<longleftrightarrow> vs = map Some qs"
  by (induction qs arbitrary: vs) (auto simp: list_all2_Cons1 bool_means_def)

lemma bool_connectives:
  assumes "list_all2 bool_means qs vs"
  shows "bool_means (cAnd boolCombiner qs) (and3 vs)" "bool_means (cOr boolCombiner qs) (or3 vs)"
    "bool_means (cNor boolCombiner qs) (not3 (or3 vs))"
  using assms
  by (auto simp: bool_means_list boolCombiner_def bool_means_def kleene_def and3_def or3_def not3_def
      list_all_iff list_ex_iff)

lemma bool_not: "bool_means q b \<Longrightarrow> bool_means (cNot boolCombiner q) (not3 b)"
  by (simp add: bool_means_def boolCombiner_def kleene_def not3_def)

lemma mem_leaf_means:
  "matchMapper U E flds fm field op v = Inr q \<Longrightarrow> bool_means q (mem_leaf U E flds fm field op v)"
  by (simp add: bool_means_def mem_leaf_def)

interpretation mem: query_meaning "matchMapper U E flds fm" boolCombiner kleene bool_means
    "mem_leaf U E flds fm" "\<lambda>_. True" True
  by unfold_locales (auto intro: bool_connectives bool_not mem_leaf_means)

text \<open>The in-memory filter keeps exactly the rows for which the filter is true: when it
  returns without an error, each kept row satisfies every operator of every field of the filter
  read as a boolean formula (missing or structured fields make a comparison false), and the
  order of the rows is kept.\<close>

theorem match_keeps_satisfying:
  assumes "Match U E to_map (Some (Some v)) rows fm = Inr out" and "unmarshal_map v = Some fs"
  shows "out = filter (\<lambda>row. \<forall>b\<in>set (sat_fields U kleene (mem_leaf U E (to_map row) fm) fs). b = Some True) rows"
proof -
  obtain toks where t: "tokenize_fields U fs = Inr toks"
    using assms by (auto simp: Match_def Tokenize_def split: sum.splits)
  have conds: "andAll qs \<longleftrightarrow> (\<forall>b\<in>set (sat_fields U kleene (mem_leaf U E (to_map row) fm) fs). b = Some True)"
    if "Walk U (matchMapper U E (to_map row) fm) boolCombiner toks = Inr qs" for row qs
    using mem.fields_mean [OF t that] by (auto simp: bool_means_list andAll_def list_all_iff)
  have loop: "match_loop U E to_map fm toks rows = Inr out \<Longrightarrow> out =
      filter (\<lambda>row. \<forall>b\<in>set (sat_fields U kleene (mem_leaf U E (to_map row) fm) fs). b = Some True) rows" for out
    by (induction rows arbitrary: out) (auto simp: conds split: sum.splits)
  have "toks = [] \<Longrightarrow> fs = []" using t by (cases fs) (auto split: option.splits sum.splits)
  then show ?thesis
    using assms t loop by (auto simp: Match_def Tokenize_def split: if_splits)
qed

lemma where_nonempty: "tokenize_fields U fs = Inr toks \<Longrightarrow> fs \<noteq> [] \<Longrightarrow> toks \<noteq> [] \<and> Walk U m c toks \<noteq> Inr []"
  by (cases fs) (auto split: option.splits sum.splits if_splits)

text \<open>The WHERE clause holds no client value. Whatever filter is accepted, the clause is
  the text of an expression over the allowed columns in which every value of the filter is a
  placeholder, the arguments are the values of the placeholders from left to right, and the
  expression has the truth of the filter on every row, NULLs included.\<close>

theorem where_clause_meaning:
  assumes "BuildWhere U (Some (Some v)) fm = Inr (w, args)" and "unmarshal_map v = Some fs"
    and "fs \<noteq> []" and "no_empty v"
  shows "\<exists>e. w = render e \<and> args = params e \<and> sql_wf e \<and> sql_cols e \<subseteq> columns fm \<and>
    (\<forall>L like row. sql_eval L like row e =
       and3 (sat_fields U kleene (\<lambda>f op v. sql_leaf U fm f op v (L, like, row)) fs))"
proof -
  obtain toks qs where t: "tokenize_fields U fs = Inr toks" "toks \<noteq> []"
      "Walk U (sqlFieldMapper U fm) sqlCombiner toks = Inr qs" "qs \<noteq> []"
      "w = SQL (cAnd sqlCombiner qs)" "args = Args (cAnd sqlCombiner qs)"
    using assms by (auto simp: BuildWhere_def Tokenize_def Let_def split: sum.splits if_splits
        dest!: where_nonempty)
  have "\<forall>x\<in>set fs. no_empty (snd x)"
    using assms(2,4) no_empty_parts(2) by blast
  from sql.fields_mean [OF t(1,3) this]
  have l: "list_all2 (sql_means (columns fm)) qs (sat_fields U (pointwise kleene) (sql_leaf U fm) fs)" .
  obtain e where e: "cAnd sqlCombiner qs = cond_of e" "sql_wf e" "sql_cols e \<subseteq> columns fm"
      "eval_in e = cAnd (pointwise kleene) (sat_fields U (pointwise kleene) (sql_leaf U fm) fs)"
    using sql_connectives(1) [OF l t(4)] unfolding sql_means_def by blast
  have "sql_eval L like row e =
      and3 (sat_fields U kleene (\<lambda>f op v. sql_leaf U fm f op v (L, like, row)) fs)" for L like row
    using fun_cong [OF e(4), of "(L, like, row)"]
    by (simp add: eval_in_def sat_fields_pointwise)
  then show ?thesis
    using e t(5,6) by (intro exI [of _ e]) (simp add: cond_of_def)
qed

text \<open>The value of one comparison as both back ends are to compute it on a row of ASCII text.\<close>

definition agreed_leaf ::
  "(bytes \<Rightarrow> bytes) \<Rightarrow> (bytes \<Rightarrow> bytes \<Rightarrow> bool) \<Rightarrow> field_spec_map \<Rightarrow> (gostring \<Rightarrow> gostring) \<Rightarrow>
   gostring \<Rightarrow> gostring \<Rightarrow> json \<Rightarrow> bool option" where
  "agreed_leaf U E fm cells field op v =
     (case check_field U fm field op of
        Inl e \<Rightarrow> None
      | Inr spec \<Rightarrow> map_option (evalOp U E op (cells (fs_column spec))) (scalarString v))"

lemma scalar_ascii: "ascii_json v \<Longrightarrow> scalarString v = Some s \<Longrightarrow> is_ascii s"
  by (cases v) (auto simp: scalarString_def itoa_ascii, auto simp: is_ascii_def)

lemma escape_ascii: "is_ascii s \<Longrightarrow> is_ascii (likeEscape s)"
  by (auto simp: is_ascii_def likeEscape_def list_all_iff)

definition like_special :: "char \<Rightarrow> bool" where
  "like_special ch \<longleftrightarrow> ch = CHR 0x5C \<or> ch = CHR ''%'' \<or> ch = CHR ''_''"

lemma lower_special: "like_special (ascii_lower ch) \<longleftrightarrow> like_special ch"
  and lower_special_id: "like_special ch \<Longrightarrow> ascii_lower ch = ch"
proof -
  let ?abc = "''abcdefghijklmnopqrstuvwxyz''"
  show *: "ascii_lower ch = ch" if "like_special ch"
    using that by (auto simp: like_special_def ascii_lower_def)
  show "like_special (ascii_lower ch) \<longleftrightarrow> like_special ch"
  proof (cases "65 \<le> code ch \<and> code ch \<le> 90")
    case True
    have l: "length ?abc = 26" by simp
    have "code ch - 65 < length ?abc" unfolding l using True by linarith
    then have "?abc ! (code ch - 65) \<in> set ?abc" by (rule nth_mem)
    then have "\<not> like_special (?abc ! (code ch - 65))"
      by (auto simp: like_special_def)
    moreover have "\<not> like_special ch" using True by (auto simp: like_special_def)
    ultimately show ?thesis using True by (simp add: ascii_lower_def)
  next
    case False
    then have "ascii_lower ch = ch" unfolding ascii_lower_def by (simp only: if_False)
    then show ?thesis by simp
  qed
qed

lemma likeEscape_special:
  "likeEscape (ch # s) = (if like_special ch then [CHR 0x5C, ch] else [ch]) @ likeEscape s"
  by (simp add: likeEscape_def like_special_def)

lemma escape_lower: "map ascii_lower (likeEscape s) = likeEscape (map ascii_lower s)"
proof (induction s)
  case (Cons ch s)
  have "ascii_lower CHR 0x5C = CHR 0x5C" by (simp add: ascii_lower_def)
  then show ?case using Cons
    by (simp add: likeEscape_special lower_special lower_special_id)
qed (simp add: likeEscape_def)

text \<open>The two mappers on a row whose columns hold ASCII text.\<close>

definition row_agrees ::
  "(gostring \<times> json) list \<Rightarrow> (gostring \<Rightarrow> gostring) \<Rightarrow> field_spec_map \<Rightarrow> bool" where
  "row_agrees flds cells fm \<longleftrightarrow>
     (\<forall>c\<in>columns fm. c \<noteq> '''' \<and> is_ascii (cells c) \<and> Option.bind (map_of flds c) scalarString = Some (cells c))"

lemma mem_agrees:
  assumes "row_agrees flds cells fm" and "matchMapper U E flds fm field op v = Inr q"
  shows "agreed_leaf U E fm cells field op v = Some q"
proof -
  obtain spec where s: "check_field U fm field op = Inr spec"
    using assms(2) by (auto simp: matchMapper_def split: sum.splits)
  have "fs_column spec \<noteq> ''''" "Option.bind (map_of flds (fs_column spec)) scalarString = Some (cells (fs_column spec))"
    using assms(1) check_field_column [OF s] by (auto simp: row_agrees_def)
  then show ?thesis
    using assms(2) s by (auto simp: matchMapper_def agreed_leaf_def Let_def split: option.splits)
qed

lemma sql_compare_agrees:
  assumes "is_ascii got" "is_ascii s" and L: "\<forall>s. is_ascii s \<longrightarrow> L s = map ascii_lower s"
    and "condition_expr U col op s = Some e" and that: "cells col = got"
  shows "sql_eval L (like_esc (Some CHR 0x5C)) (\<lambda>c. Some (cells c)) e = Some (evalOp U E op (cells col) s)"
proof -
  have low: "L (likeEscape s) = likeEscape (map ascii_lower s)"
      "L (''%'' @ likeEscape s @ ''%'') = ''%'' @ likeEscape (map ascii_lower s) @ ''%''"
      "L (likeEscape s @ ''%'') = likeEscape (map ascii_lower s) @ ''%''"
      "L (''%'' @ likeEscape s) = ''%'' @ likeEscape (map ascii_lower s)"
    using L escape_ascii [OF assms(2)] escape_lower [of s]
    by (auto simp: is_ascii_def ascii_lower_def)
  show ?thesis
    using assms that low L
    by (auto simp: condition_expr_def evalOp_def Let_def equal_fold_def to_lower_def [of _ s]
        to_lower_def [of _ got] like_contains [simplified] like_startswith [simplified] like_endswith [simplified]
        op_defs split: if_splits)
qed

definition both_good :: "json \<Rightarrow> bool" where
  "both_good v \<longleftrightarrow> no_empty v \<and> ascii_json v"

lemma both_parts:
  "both_good v \<Longrightarrow> unmarshal_slice v = Some items \<Longrightarrow> \<forall>x\<in>set items. both_good x"
  "both_good v \<Longrightarrow> unmarshal_slice v = Some items \<Longrightarrow> items \<noteq> []"
  "both_good v \<Longrightarrow> unmarshal_map v = Some ops \<Longrightarrow> \<forall>x\<in>set ops. both_good (snd x)"
  unfolding both_good_def using no_empty_parts ascii_json_parts by blast+

lemma mem_meaning:
  assumes "row_agrees flds cells fm"
  shows "query_meaning (matchMapper U E flds fm) boolCombiner kleene bool_means (agreed_leaf U E fm cells) both_good False"
proof -
  have "bool_means q (agreed_leaf U E fm cells field op v)" if "matchMapper U E flds fm field op v = Inr q"
    for field op v q
    using mem_agrees [OF assms that] by (simp add: bool_means_def)
  then show ?thesis
    by unfold_locales (simp_all add: both_parts bool_connectives bool_not)
qed

text \<open>The database's value of a comparison, replaced by the agreed one in the database \<open>k\<close>.\<close>

lemma sql_meaning:
  assumes "row_agrees flds cells fm" and "\<forall>s. is_ascii s \<longrightarrow> L s = map ascii_lower s"
    and k: "k = (L, like_esc (Some CHR 0x5C), \<lambda>c. Some (cells c))"
  shows "query_meaning (sqlFieldMapper U fm) sqlCombiner (pointwise kleene) (sql_means (columns fm))
    (\<lambda>f op v. (sql_leaf U fm f op v)(k := agreed_leaf U E fm cells f op v)) both_good False"
proof -
  have leaf: "sql_leaf U fm field op v k = agreed_leaf U E fm cells field op v"
    if q: "sqlFieldMapper U fm field op v = Inr q" and v: "ascii_json v" for field op v q
  proof -
    obtain spec where c: "check_field U fm field op = Inr spec" "operatorToCondition U (fs_column spec) op v = Inr q"
      using q by (auto simp: sqlFieldMapper_def split: sum.splits)
    obtain s e where s: "scalarString v = Some s" "condition_expr U (fs_column spec) op s = Some e"
      using operatorToCondition_expr [OF c(2)] by metis
    have "is_ascii (cells (fs_column spec))"
      using assms(1) check_field_column [OF c(1)] by (auto simp: row_agrees_def)
    from sql_compare_agrees [where cells = cells, OF this scalar_ascii [OF v s(1)] assms(2) s(2) refl]
    show ?thesis using s c(1) by (simp add: sql_leaf_def agreed_leaf_def eval_in_def k)
  qed
  have "sql_means (columns fm) q ((sql_leaf U fm field op v)(k := agreed_leaf U E fm cells field op v))"
    if "sqlFieldMapper U fm field op v = Inr q" "both_good v" for field op v q
    using sql_leaf_means [OF that(1)] leaf [OF that(1)] that(2) by (metis both_good_def fun_upd_triv)
  then show ?thesis
    by unfold_locales (simp_all add: both_parts sql_connectives sql_not)
qed

text \<open>C38: The two back ends agree. On a row whose filterable columns are ASCII text and none of
  them NULL, the WHERE clause is true of the row in a database that escapes LIKE patterns with a
  backslash (Postgres) exactly when the in-memory filter keeps the row, for every filter both
  accept that has no empty logical array.\<close>

theorem backends_agree:
  assumes "BuildWhere U (Some (Some v)) fm = Inr (w, args)"
    and "Match U E to_map (Some (Some v)) [row] fm = Inr out"
    and "no_empty v" and "ascii_json v" and "v \<noteq> JObj []"
    and "row_agrees (to_map row) cells fm"
    and "\<forall>s. is_ascii s \<longrightarrow> L s = map ascii_lower s"
  shows "\<exists>e. w = render e \<and> args = params e \<and> sql_wf e \<and> sql_cols e \<subseteq> columns fm \<and>
    (sql_eval L (like_esc (Some CHR 0x5C)) (\<lambda>c. Some (cells c)) e = Some True \<longleftrightarrow> out = [row])"
proof -
  let ?k = "(L, like_esc (Some CHR 0x5C), \<lambda>c. Some (cells c))"
  obtain fs where fs: "unmarshal_map v = Some fs" "fs \<noteq> []"
    using assms(1,3,5) by (cases v) (auto simp: BuildWhere_def Tokenize_def)
  have good: "\<forall>x\<in>set fs. both_good (snd x)"
    using fs assms(3,4) no_empty_parts(2) ascii_json_parts(2) by (force simp: both_good_def)
  obtain toks qs where t: "tokenize_fields U fs = Inr toks" "toks \<noteq> []"
      "Walk U (sqlFieldMapper U fm) sqlCombiner toks = Inr qs" "qs \<noteq> []"
      "w = SQL (cAnd sqlCombiner qs)" "args = Args (cAnd sqlCombiner qs)"
    using assms(1) fs by (auto simp: BuildWhere_def Tokenize_def Let_def split: sum.splits if_splits
        dest!: where_nonempty)
  obtain bs where b: "Walk U (matchMapper U E (to_map row) fm) boolCombiner toks = Inr bs"
      "out = (if andAll bs then [row] else [])"
    using assms(2) fs t by (auto simp: Match_def Tokenize_def split: sum.splits)
  let ?leaf = "\<lambda>f op v. (sql_leaf U fm f op v)(?k := agreed_leaf U E fm cells f op v)"
  have l: "list_all2 (sql_means (columns fm)) qs (sat_fields U (pointwise kleene) ?leaf fs)"
    using query_meaning.fields_mean [OF sql_meaning [OF assms(6,7) refl] t(1,3) good] .
  have m: "list_all2 bool_means bs (sat_fields U kleene (agreed_leaf U E fm cells) fs)"
    using query_meaning.fields_mean [OF mem_meaning [OF assms(6)] t(1) b(1) good] .
  obtain e where e: "cAnd sqlCombiner qs = cond_of e" "sql_wf e" "sql_cols e \<subseteq> columns fm"
      "eval_in e = cAnd (pointwise kleene) (sat_fields U (pointwise kleene) ?leaf fs)"
    using sql_connectives(1) [OF l t(4)] unfolding sql_means_def by blast
  have "sql_eval L (like_esc (Some CHR 0x5C)) (\<lambda>c. Some (cells c)) e =
      and3 (sat_fields U kleene (agreed_leaf U E fm cells) fs)"
    using fun_cong [OF e(4), of ?k] by (simp add: eval_in_def sat_fields_pointwise)
  also have "\<dots> = Some True \<longleftrightarrow> andAll bs"
    using m by (auto simp: bool_means_list and3_Some_True andAll_def list_all_iff)
  finally show ?thesis
    using e t(5,6) b(2) by (intro exI [of _ e]) (simp add: cond_of_def)
qed

section \<open>Concrete filters\<close>

definition demo_fields :: field_spec_map where
  "demo_fields = [(''id'', \<lparr>fs_column = ''id'', fs_ops = []\<rparr>), (''name'', \<lparr>fs_column = ''name'', fs_ops = []\<rparr>)]"

definition demo_filter :: json where
  "demo_filter = JObj [(''name'', JObj [(''$or'', JArr [JObj [(''$eq'', JStr ''web'')], JObj [(''$contains'', JStr ''b%'')]])])]"

definition demo_row :: "(gostring \<times> json) list" where
  "demo_row = [(''id'', JInt 7), (''name'', JStr ''web'')]"

lemmas filter_run = Match_def BuildWhere_def Tokenize_def tokenizeValue.simps walkQuery.simps is_array_op_def
  to_lower_def is_ascii_def ascii_lower_def op_defs join_sub_def matchMapper_def sqlFieldMapper_def
  check_field_def scalarString_def evalOp_def boolCombiner_def sqlCombiner_def joinGroup_def
  operatorToCondition_def likeEscape_def andAll_def demo_fields_def demo_filter_def demo_row_def
  go_join.simps Let_def

lemma demo_match: "Match U E id (Some (Some demo_filter)) [demo_row] demo_fields = Inr [demo_row]"
  by (simp add: filter_run has_prefix_def)

lemma demo_where:
  "BuildWhere U (Some (Some demo_filter)) demo_fields = Inr (''((name = ? OR name LIKE ?))'', [''web'', ''%b'' @ CHR 0x5C # ''%%''])"
  by (simp add: filter_run)

definition demo_ops :: "(gostring \<times> json) list" where
  "demo_ops = [(''name'', JObj [(''$or'', JArr [JObj [(''$eq'', JStr ''web'')], JObj [(''$contains'', JStr ''b%'')]])])]"

lemma demo_parts: "unmarshal_map demo_filter = Some demo_ops" "no_empty demo_filter" "ascii_json demo_filter"
    "demo_filter \<noteq> JObj []" "demo_ops \<noteq> []"
  by (simp_all add: demo_filter_def demo_ops_def is_ascii_def)

theorem match_keeps_satisfying_witness:
  "and3 (sat_fields id kleene (mem_leaf id (=) demo_row demo_fields) demo_ops) = Some True"
proof -
  have "[demo_row] = filter (\<lambda>row. \<forall>b\<in>set (sat_fields id kleene (mem_leaf id (=) (id row) demo_fields) demo_ops). b = Some True) [demo_row]"
    by (rule match_keeps_satisfying [OF demo_match demo_parts(1)])
  then show ?thesis by (auto simp: and3_Some_True filter_eq_Cons_iff split: if_splits)
qed

theorem where_clause_meaning_witness:
  "\<exists>e. ''((name = ? OR name LIKE ?))'' = render e \<and> [''web'', ''%b'' @ CHR 0x5C # ''%%''] = params e \<and>
     sql_wf e \<and> sql_cols e \<subseteq> {''id'', ''name''}"
proof -
  have c: "columns demo_fields = {''id'', ''name''}" by (auto simp: columns_def demo_fields_def)
  show ?thesis
    using where_clause_meaning [OF demo_where demo_parts(1,5,2), of id] unfolding c by blast
qed

definition demo_cells :: "gostring \<Rightarrow> gostring" where
  "demo_cells c = (if c = ''id'' then ''7'' else ''web'')"

theorem backends_agree_witness:
  "\<exists>e. ''((name = ? OR name LIKE ?))'' = render e \<and>
     sql_eval (map ascii_lower) (like_esc (Some CHR 0x5C)) (\<lambda>c. Some (demo_cells c)) e = Some True"
proof -
  have "row_agrees (id demo_row) demo_cells demo_fields"
    by (simp add: row_agrees_def columns_def demo_fields_def demo_row_def demo_cells_def scalarString_def
        itoa_def nat_digits.simps digit_char_def is_ascii_def)
  from backends_agree [OF demo_where demo_match demo_parts(2-4) this, of "map ascii_lower"]
  show ?thesis by auto
qed

section \<open>Where the back ends differ\<close>

text \<open>An empty logical array becomes an empty group, which no database parses.\<close>

lemma empty_array_breaks_sql:
  "BuildWhere U (Some (Some (JObj [(''id'', JObj [(''$or'', JArr [])])]))) demo_fields = Inr (''(())'', [])"
  by (simp add: filter_run)

text \<open>An unknown operator is refused by the WHERE clause and false in memory.\<close>

lemma unknown_operator:
  "BuildWhere U (Some (Some (JObj [(''name'', JObj [(''$regex'', JStr ''w'')])]))) demo_fields =
     Inl (UnsupportedOp ''$regex'')"
  "Match U E id (Some (Some (JObj [(''name'', JObj [(''$regex'', JStr ''w'')])]))) [demo_row] demo_fields = Inr []"
  by (simp_all add: filter_run)

text \<open>Without rows the in-memory filter is not checked at all.\<close>

lemma unchecked_on_no_rows:
  "Match U E id (Some (Some (JObj [(''secret'', JObj [(''$eq'', JStr ''w'')])]))) [] demo_fields = Inr []"
  by (simp add: filter_run)

text \<open>The escaped pattern of a percent sign does not match it in a database without an escape.\<close>

lemma escape_needs_clause:
  "like_esc (Some CHR 0x5C) (likeEscape ''50%'' @ ''%'') ''50% off''"
  "\<not> like_esc None (likeEscape ''50%'' @ ''%'') ''50% off''"
  by (simp_all add: likeEscape_def like_esc.simps(2))

end
