(* ===== verification/AccessQuery.thy ===== *)
theory AccessQuery
  imports FilterBackends Repository
begin

text \<open>
  The filtered queries of \<open>internal/db/sql_repository.go\<close> and \<open>dialect.go\<close>: the virtual
  \<open>subject\<close> field of the access-rule lists, the assembly of the statement, and the
  renumbering of placeholders for Postgres. The remaining filter is marshalled back to JSON in
  the code; here it stays the parsed object without the subject.
\<close>

definition colID :: gostring where "colID = ''id''"
definition colType :: gostring where "colType = ''type''"
definition colSubjectID :: gostring where "colSubjectID = ''subject_id''"
definition colGuestID :: gostring where "colGuestID = ''guest_id''"
definition colSubject :: gostring where "colSubject = ''subject''"
definition instanceRuleCol :: gostring where "instanceRuleCol = ''instance_id''"

definition plain_column :: "gostring \<Rightarrow> gostring \<times> field_spec" where
  "plain_column c = (c, \<lparr>fs_column = c, fs_ops = []\<rparr>)"

definition accessRuleFields :: field_spec_map where
  "accessRuleFields = map plain_column [colID, colType, colSubjectID, colGuestID]"

definition instanceAccessRuleFields :: field_spec_map where
  "instanceAccessRuleFields = map plain_column [colID, colType, colSubjectID, instanceRuleCol]"

definition activityFilterFields :: "bool \<Rightarrow> field_spec_map" where
  "activityFilterFields postgres =
     (let ext = (\<lambda>f. if postgres then ''(params->>'' @ [CHR 0x27] @ f @ [CHR 0x27] @ '')''
                     else ''json_extract(params, '' @ [CHR 0x27] @ ''$.'' @ f @ [CHR 0x27] @ '')'')
      in [plain_column ''actor'', plain_column ''event_id'',
          (''host'', \<lparr>fs_column = ext ''host'', fs_ops = []\<rparr>),
          (''guest'', \<lparr>fs_column = ext ''guest'', fs_ops = []\<rparr>)])"

datatype query_error =
    InvalidFilter filter_error
  | SubjectNotObject
  | SubjectOneOperator
  | SubjectUnsupported gostring
  | SubjectNotString
  | SubjectMalformed gostring
  | SubjectNeedsArray gostring

text \<open>
  \<open>splitSubjectFilter\<close>: the rest (\<open>None\<close> when nothing is left) and the subject's expression.
\<close>

definition splitSubjectFilter :: "json option option \<Rightarrow> json option option \<times> json option" where
  "splitSubjectFilter rawFilter =
     (case rawFilter of
        Some (Some v) \<Rightarrow>
          (case unmarshal_map v of
             None \<Rightarrow> (rawFilter, None)
           | Some obj \<Rightarrow>
               (case map_of obj colSubject of
                  None \<Rightarrow> (rawFilter, None)
                | Some expr \<Rightarrow>
                    let obj = filter (\<lambda>(k, _). k \<noteq> colSubject) obj in
                    if length obj = 0 then (None, Some expr) else (Some (Some (JObj obj)), Some expr)))
      | _ \<Rightarrow> (rawFilter, None))"

text \<open>Splits at the first colon.\<close>

definition subjectEqTerm :: "json \<Rightarrow> query_error + condition" where
  "subjectEqTerm v =
     (case v of
        JStr s \<Rightarrow>
          (let (ty, rest, found) = go_cut CHR '':'' s in
           if \<not> found \<or> ty = '''' \<or> rest = '''' then Inl (SubjectMalformed s)
           else Inr \<lparr>SQL = ''('' @ colType @ '' = ? AND '' @ colSubjectID @ '' = ?)'', Args = [ty, rest]\<rparr>)
      | JNull \<Rightarrow> Inl (SubjectMalformed '''')
      | _ \<Rightarrow> Inl SubjectNotString)"

function (sequential) buildSubjectWhere :: "(bytes \<Rightarrow> bytes) \<Rightarrow> json \<Rightarrow> query_error + condition"
  and subject_parts :: "(bytes \<Rightarrow> bytes) \<Rightarrow> json list \<Rightarrow> query_error + condition list"
where
  "buildSubjectWhere U expr =
     (case unmarshal_map expr of
        Some [(key, v)] \<Rightarrow>
          let op = to_lower U key in
          if op = OpEq then subjectEqTerm v
          else if is_array_op op then
            (case unmarshal_slice v of
               None \<Rightarrow> Inl (SubjectNeedsArray op)
             | Some [] \<Rightarrow> Inl (SubjectNeedsArray op)
             | Some arr \<Rightarrow>
                 (case subject_parts U arr of
                    Inl e \<Rightarrow> Inl e
                  | Inr parts \<Rightarrow>
                      let sep = (if op = OpOr \<or> op = OpNor then '' OR '' else '' AND '');
                          joined = ''('' @ go_join sep (map SQL parts) @ '')''
                      in Inr \<lparr>SQL = (if op = OpNor then ''NOT '' @ joined else joined),
                              Args = concat (map Args parts)\<rparr>))
          else if op = OpNot then
            map_sum id (\<lambda>inner. \<lparr>SQL = ''NOT '' @ SQL inner, Args = Args inner\<rparr>) (buildSubjectWhere U v)
          else Inl (SubjectUnsupported key)
      | Some _ \<Rightarrow> Inl SubjectOneOperator
      | None \<Rightarrow> Inl SubjectNotObject)"
| "subject_parts U [] = Inr []"
| "subject_parts U (el # els) =
     (case buildSubjectWhere U el of
        Inl e \<Rightarrow> Inl e
      | Inr part \<Rightarrow>
          (case subject_parts U els of Inl e \<Rightarrow> Inl e | Inr parts \<Rightarrow> Inr (part # parts)))"
  by pat_completeness auto
termination
  by (relation "measure (\<lambda>x. case x of Inl (U, v) \<Rightarrow> 2 * size v + 1 | Inr (U, els) \<Rightarrow> 2 * size_list size els)")
     (auto dest!: unmarshal_map_size unmarshal_slice_size)

declare buildSubjectWhere.simps [simp del]

definition assembleFilterQuery :: "gostring \<Rightarrow> gostring \<Rightarrow> gostring \<Rightarrow> gostring" where
  "assembleFilterQuery baseQuery orderBy whereSQL =
     baseQuery @ (if whereSQL \<noteq> '''' then '' WHERE '' @ whereSQL else '''') @
     (if orderBy \<noteq> '''' then '' '' @ orderBy else '''')"

definition access_where ::
  "(bytes \<Rightarrow> bytes) \<Rightarrow> json option option \<Rightarrow> field_spec_map \<Rightarrow> query_error + gostring \<times> gostring list" where
  "access_where U rawFilter flds =
     (let (rest, subjectExpr) = splitSubjectFilter rawFilter in
      case BuildWhere U rest flds of
        Inl e \<Rightarrow> Inl (InvalidFilter e)
      | Inr (whereSQL, args) \<Rightarrow>
          (case subjectExpr of
             None \<Rightarrow> Inr (whereSQL, args)
           | Some expr \<Rightarrow>
               (case buildSubjectWhere U expr of
                  Inl e \<Rightarrow> Inl e
                | Inr subj \<Rightarrow>
                    Inr (if whereSQL = '''' then SQL subj else ''('' @ whereSQL @ '' AND '' @ SQL subj @ '')'',
                         args @ Args subj))))"

definition appendAccessFilter ::
  "(bytes \<Rightarrow> bytes) \<Rightarrow> gostring \<Rightarrow> gostring \<Rightarrow> json option option \<Rightarrow> field_spec_map \<Rightarrow>
   query_error + gostring \<times> gostring list" where
  "appendAccessFilter U baseQuery orderBy rawFilter flds =
     map_sum id (\<lambda>(w, args). (assembleFilterQuery baseQuery orderBy w, args)) (access_where U rawFilter flds)"

fun rebind_loop :: "nat \<Rightarrow> gostring \<Rightarrow> gostring" where
  "rebind_loop n [] = []"
| "rebind_loop n (ch # q) =
     (if ch \<noteq> CHR ''?'' then ch # rebind_loop n q
      else CHR ''$'' # itoa (int (Suc n)) @ rebind_loop (Suc n) q)"

definition rebind :: "bool \<Rightarrow> gostring \<Rightarrow> gostring" where
  "rebind numberedPlaceholders query = (if \<not> numberedPlaceholders then query else rebind_loop 0 query)"

section \<open>What a subject filter means\<close>

definition subject_leaf :: "(gostring \<Rightarrow> gostring option) \<Rightarrow> gostring \<Rightarrow> json \<Rightarrow> bool option" where
  "subject_leaf row op v =
     (case v of
        JStr s \<Rightarrow>
          (let (ty, rest, found) = go_cut CHR '':'' s in
           and3 [map_option (\<lambda>got. got = ty) (row colType), map_option (\<lambda>got. got = rest) (row colSubjectID)])
      | _ \<Rightarrow> None)"

definition subject_cols :: "gostring set" where
  "subject_cols = {colType, colSubjectID}"

lemma subjectEqTerm_means:
  assumes "subjectEqTerm v = Inr q"
  shows "\<exists>e. q = cond_of e \<and> sql_wf e \<and> sql_cols e \<subseteq> subject_cols \<and>
           (\<forall>L like row. sql_eval L like row e = subject_leaf row op v)"
proof -
  obtain s ty rest where s: "v = JStr s" "go_cut CHR '':'' s = (ty, rest, True)"
      "q = \<lparr>SQL = ''('' @ colType @ '' = ? AND '' @ colSubjectID @ '' = ?)'', Args = [ty, rest]\<rparr>"
    using assms by (auto simp: subjectEqTerm_def split: json.splits prod.splits if_splits)
  let ?e = "SAnd [SCmp colType CmpEq ty, SCmp colSubjectID CmpEq rest]"
  have "q = cond_of ?e" using s(3) by (simp add: cond_of_def)
  moreover have "sql_eval L like row ?e = subject_leaf row op v" for L like row
    by (simp add: s subject_leaf_def comp_def)
  moreover have "sql_wf ?e \<and> sql_cols ?e \<subseteq> subject_cols" by (simp add: subject_cols_def)
  ultimately show ?thesis by metis
qed

lemma sat_single: "unmarshal_map expr = Some [(key, v)] \<Longrightarrow>
    sat_items U kleene leaf (expr # els) = sat_op U kleene leaf key v # sat_items U kleene leaf els"
  by (simp add: all_of_kleene)

lemma subject_means:
  "buildSubjectWhere U expr = Inr q \<Longrightarrow>
   \<exists>key v e. unmarshal_map expr = Some [(key, v)] \<and> q = cond_of e \<and> sql_wf e \<and> sql_cols e \<subseteq> subject_cols \<and>
     (\<forall>L like row. sql_eval L like row e = sat_op U kleene (subject_leaf row) key v)"
  "subject_parts U els = Inr qs \<Longrightarrow>
   \<exists>es. qs = map cond_of es \<and> (\<forall>e\<in>set es. sql_wf e \<and> sql_cols e \<subseteq> subject_cols) \<and>
     (\<forall>L like row. map (sql_eval L like row) es = sat_items U kleene (subject_leaf row) els)"
proof (induction U expr and U els arbitrary: q and qs rule: buildSubjectWhere_subject_parts.induct)
  case (1 U expr)
  obtain key v where kv: "unmarshal_map expr = Some [(key, v)]"
    using 1(3) by (auto simp: buildSubjectWhere.simps [of U expr] split: option.splits list.splits)
  let ?op = "to_lower U key"
  have sat: "\<exists>e. q = cond_of e \<and> sql_wf e \<and> sql_cols e \<subseteq> subject_cols \<and>
     (\<forall>L like row. sql_eval L like row e = sat_op U kleene (subject_leaf row) key v)"
  proof -
    consider (eq) "?op = OpEq" | (arr) "?op \<noteq> OpEq" "is_array_op ?op" | (n) "?op = OpNot" "\<not> is_array_op ?op"
      using 1(3) kv by (auto simp: buildSubjectWhere.simps [of U expr] Let_def split: if_splits)
    then show ?thesis
    proof cases
      case eq
      then have "subjectEqTerm v = Inr q" using 1(3) kv by (simp add: buildSubjectWhere.simps [of U expr])
      moreover have "sat_op U kleene leaf key v = leaf key v" for leaf :: "gostring \<Rightarrow> json \<Rightarrow> bool option"
        using eq by (simp add: sat_op.simps is_array_op_def op_defs)
      ultimately show ?thesis using subjectEqTerm_means by simp
    next
      case arr
      obtain els parts where p: "unmarshal_slice v = Some els" "els \<noteq> []" "subject_parts U els = Inr parts"
          "q = (if ?op = OpOr then joinGroup parts '' OR '' else if ?op = OpAnd then joinGroup parts '' AND ''
                else \<lparr>SQL = ''NOT '' @ SQL (joinGroup parts '' OR ''), Args = Args (joinGroup parts '' OR '')\<rparr>)"
        using 1(3) kv arr
        by (auto simp: buildSubjectWhere.simps [of U expr] Let_def joinGroup_def is_array_op_def op_defs
            split: option.splits list.splits sum.splits)
      obtain a as where els: "els = a # as" using p(2) by (cases els) auto
      obtain es where es: "parts = map cond_of es" "\<forall>e\<in>set es. sql_wf e \<and> sql_cols e \<subseteq> subject_cols"
          "\<And>L like row. map (sql_eval L like row) es = sat_items U kleene (subject_leaf row) els"
        using 1(1) [OF kv refl refl refl refl arr(1,2), of els a as parts] p(1,3) els by blast
      have "es \<noteq> []" using es(3) els by fastforce
      let ?e = "if ?op = OpOr then SOr es else if ?op = OpAnd then SAnd es else SNeg (SOr es)"
      have "q = cond_of ?e"
        using p(4) unfolding es(1) join_conds by (simp add: cond_of_def)
      moreover have "sql_eval L like row ?e = sat_op U kleene (subject_leaf row) key v" for L like row
        using arr(2) p(1) by (simp add: sat_op.simps Let_def es(3))
      moreover have "sql_wf ?e \<and> sql_cols ?e \<subseteq> subject_cols"
        using es(2) \<open>es \<noteq> []\<close> by auto
      ultimately show ?thesis by metis
    next
      case n
      then have "?op \<noteq> OpEq" by (simp add: op_defs)
      obtain q' where q: "buildSubjectWhere U v = Inr q'" "q = \<lparr>SQL = ''NOT '' @ SQL q', Args = Args q'\<rparr>"
        using 1(3) kv n \<open>?op \<noteq> OpEq\<close> by (auto simp: buildSubjectWhere.simps [of U expr] Let_def map_sum_Inr)
      obtain key' v' e where e: "unmarshal_map v = Some [(key', v')]" "q' = cond_of e" "sql_wf e"
          "sql_cols e \<subseteq> subject_cols" "\<And>L like row. sql_eval L like row e = sat_op U kleene (subject_leaf row) key' v'"
        using 1(2) [OF kv refl refl refl refl \<open>?op \<noteq> OpEq\<close> n(2,1) q(1)] by blast
      have "q = cond_of (SNeg e)" using q(2) e(2) by (simp add: cond_of_def)
      moreover have "sql_eval L like row (SNeg e) = sat_op U kleene (subject_leaf row) key v" for L like row
        using n e(1,5) by (simp add: sat_op.simps [of U kleene _ key] all_of_kleene)
      moreover have "sql_wf (SNeg e) \<and> sql_cols (SNeg e) \<subseteq> subject_cols" using e by simp
      ultimately show ?thesis by metis
    qed
  qed
  then show ?case using kv by blast
next
  case (3 U el els)
  obtain part parts where p: "buildSubjectWhere U el = Inr part" "subject_parts U els = Inr parts" "qs = part # parts"
    using 3(3) by (auto split: sum.splits)
  obtain key v e where e: "unmarshal_map el = Some [(key, v)]" "part = cond_of e" "sql_wf e"
      "sql_cols e \<subseteq> subject_cols" "\<And>L like row. sql_eval L like row e = sat_op U kleene (subject_leaf row) key v"
    using 3(1) [OF p(1)] by blast
  obtain es where es: "parts = map cond_of es" "\<forall>e\<in>set es. sql_wf e \<and> sql_cols e \<subseteq> subject_cols"
      "\<And>L like row. map (sql_eval L like row) es = sat_items U kleene (subject_leaf row) els"
    using 3(2) [OF p(1,2)] by blast
  show ?case
    by (intro exI [of _ "e # es"]) (use p(3) e es sat_single [OF e(1)] in auto)
qed simp

section \<open>Placeholders\<close>

abbreviation marks :: "gostring \<Rightarrow> nat" where
  "marks s \<equiv> count_list s CHR ''?''"

lemma marks_join: "CHR ''?'' \<notin> set sep \<Longrightarrow> marks (go_join sep ps) = sum_list (map marks ps)"
  by (induction sep ps rule: go_join.induct) (auto simp: count_list_append count_notin)

definition counted :: "condition \<Rightarrow> unit \<Rightarrow> bool" where
  "counted q u \<longleftrightarrow> marks (SQL q) = length (Args q)"

lemma counted_list: "list_all2 counted qs us \<Longrightarrow>
    sum_list (map marks (map SQL qs)) = length (concat (map Args qs))"
  by (induction rule: list_all2_induct) (auto simp: counted_def)

lemma counted_join:
  "CHR ''?'' \<notin> set sep \<Longrightarrow> list_all2 counted qs us \<Longrightarrow> counted (joinGroup qs sep) u"
  using counted_list by (simp add: counted_def joinGroup_def count_list_append marks_join)

definition no_marks :: "field_spec_map \<Rightarrow> bool" where
  "no_marks fm \<longleftrightarrow> (\<forall>c\<in>columns fm. CHR ''?'' \<notin> set c)"

lemma counted_leaf:
  assumes "no_marks fm" "sqlFieldMapper U fm field op v = Inr q"
  shows "counted q u"
proof -
  obtain spec where c: "check_field U fm field op = Inr spec" "operatorToCondition U (fs_column spec) op v = Inr q"
    using assms(2) by (auto simp: sqlFieldMapper_def split: sum.splits)
  have "marks (fs_column spec) = 0"
    using assms(1) check_field_column [OF c(1)] by (auto simp: no_marks_def)
  then show ?thesis
    using c(2) by (auto simp: counted_def operatorToCondition_def Let_def count_list_append
        split: option.splits if_splits)
qed

definition unit_alg :: "unit combiner" where
  "unit_alg = \<lparr>cAnd = \<lambda>_. (), cOr = \<lambda>_. (), cNor = \<lambda>_. (), cNot = \<lambda>_. ()\<rparr>"

lemma counted_meaning:
  assumes "no_marks fm"
  shows "query_meaning (sqlFieldMapper U fm) sqlCombiner unit_alg counted (\<lambda>_ _ _. ()) (\<lambda>_. True) True"
proof -
  have nor: "counted (cNor sqlCombiner qs) u" if "list_all2 counted qs us" for qs us u
    using counted_join [OF _ that, of "'' OR ''"] by (simp add: sqlCombiner_def Let_def counted_def)
  have conj: "counted (cAnd sqlCombiner qs) u" "counted (cOr sqlCombiner qs) u"
    if "list_all2 counted qs us" for qs us u
    using counted_join [OF _ that] by (simp_all add: sqlCombiner_def)
  have neg: "counted (cNot sqlCombiner q) u" if "counted q u" for q u
    using that by (simp add: sqlCombiner_def counted_def count_list_append)
  show ?thesis
    by unfold_locales (use counted_leaf [OF assms] nor conj neg in auto)
qed

lemma where_counted:
  assumes "no_marks fm" "BuildWhere U raw fm = Inr (w, args)"
  shows "marks w = length args"
proof (cases raw)
  case None
  then show ?thesis using assms(2) by (simp add: BuildWhere_def)
next
  case (Some r)
  then obtain toks where t: "Tokenize U r = Inr toks"
      "toks = [] \<and> w = '''' \<and> args = [] \<or> toks \<noteq> [] \<and>
       (\<exists>qs. Walk U (sqlFieldMapper U fm) sqlCombiner toks = Inr qs \<and>
         (qs = [] \<and> w = '''' \<and> args = [] \<or> w = SQL (cAnd sqlCombiner qs) \<and> args = Args (cAnd sqlCombiner qs)))"
    using assms(2) by (auto simp: BuildWhere_def Let_def split: sum.splits if_splits)
  obtain fs where fs: "tokenize_fields U fs = Inr toks"
    using t(1) by (auto simp: Tokenize_def split: option.splits)
  have "counted (cAnd sqlCombiner qs) ()" if "Walk U (sqlFieldMapper U fm) sqlCombiner toks = Inr qs" for qs
  proof -
    have "list_all2 counted qs (sat_fields U unit_alg (\<lambda>_ _ _. ()) fs)"
      using query_meaning.fields_mean [OF counted_meaning [OF assms(1)] fs that] by simp
    then show ?thesis using counted_join by (simp add: sqlCombiner_def)
  qed
  then show ?thesis using t(2) by (auto simp: counted_def)
qed

lemma render_marks:
  "\<forall>c\<in>sql_cols e. CHR ''?'' \<notin> set c \<Longrightarrow> marks (render e) = length (params e)"
proof (induction e rule: render.induct)
  case (5 es)
  then have "sum_list (map (marks \<circ> render) es) = sum_list (map (length \<circ> params) es)"
    by (intro arg_cong [where f = sum_list] map_cong) auto
  then show ?case by (simp add: count_list_append marks_join length_concat)
next
  case (6 es)
  then have "sum_list (map (marks \<circ> render) es) = sum_list (map (length \<circ> params) es)"
    by (intro arg_cong [where f = sum_list] map_cong) auto
  then show ?case by (simp add: count_list_append marks_join length_concat)
next
  case (7 es)
  then have "sum_list (map (marks \<circ> render) es) = sum_list (map (length \<circ> params) es)"
    by (intro arg_cong [where f = sum_list] map_cong) auto
  then show ?case by (simp add: count_list_append marks_join length_concat)
qed (auto simp: count_list_append)

text \<open>The query with the \<open>n\<close>-th placeholder of each gap written out.\<close>

fun number_from :: "nat \<Rightarrow> gostring list \<Rightarrow> gostring" where
  "number_from n [] = []"
| "number_from n [p] = p"
| "number_from n (p # ps) = p @ CHR ''$'' # itoa (int (Suc n)) @ number_from (Suc n) ps"

lemma number_from_Cons:
  "number_from n ((ch # p) # ps) = ch # number_from n (p # ps)"
  by (cases ps) auto

lemma rebind_numbers: "rebind_loop n q = number_from n (go_split CHR ''?'' q)"
proof (induction q arbitrary: n)
  case (Cons ch q)
  obtain p ps where "go_split CHR ''?'' q = p # ps"
    using go_split_not_Nil by (metis neq_Nil_conv)
  then show ?case using Cons by (auto simp: number_from_Cons)
qed simp

lemma split_marks: "length (go_split CHR ''?'' q) = Suc (marks q)"
proof (induction q)
  case (Cons ch q)
  obtain p ps where "go_split CHR ''?'' q = p # ps"
    using go_split_not_Nil by (metis neq_Nil_conv)
  then show ?case using Cons by auto
qed simp

text \<open>The placeholders of an access-rule query line up with its arguments. Whatever filter is
  accepted, the statement holds one placeholder per argument; for Postgres it is the same text
  with the placeholders replaced, from left to right, by the numbers from 1 to the number of
  arguments.\<close>

theorem placeholders_match_arguments:
  assumes "appendAccessFilter U baseQuery orderBy raw flds = Inr (q, args)"
    and "flds \<in> {accessRuleFields, instanceAccessRuleFields}"
    and "CHR ''?'' \<notin> set baseQuery" and "CHR ''?'' \<notin> set orderBy"
  shows "\<exists>gaps. length gaps = Suc (length args) \<and> (\<forall>g\<in>set gaps. CHR ''?'' \<notin> set g) \<and>
    rebind False q = go_join ''?'' gaps \<and> rebind True q = number_from 0 gaps"
proof -
  have clean: "no_marks flds"
    using assms(2) by (auto simp: no_marks_def columns_def accessRuleFields_def instanceAccessRuleFields_def
        plain_column_def colID_def colType_def colSubjectID_def colGuestID_def instanceRuleCol_def)
  obtain w where w: "access_where U raw flds = Inr (w, args)" "q = assembleFilterQuery baseQuery orderBy w"
    using assms(1) by (auto simp: appendAccessFilter_def map_sum_Inr)
  obtain rest expr w0 args0 where r: "splitSubjectFilter raw = (rest, expr)" "BuildWhere U rest flds = Inr (w0, args0)"
    using w(1) by (cases "splitSubjectFilter raw") (auto simp: access_where_def split: sum.splits)
  have "marks w = length args"
  proof (cases expr)
    case None
    then show ?thesis using w(1) r where_counted [OF clean r(2)] by (simp add: access_where_def)
  next
    case (Some x)
    then obtain subj where s: "buildSubjectWhere U x = Inr subj"
        "w = (if w0 = '''' then SQL subj else ''('' @ w0 @ '' AND '' @ SQL subj @ '')'')" "args = args0 @ Args subj"
      using w(1) r by (auto simp: access_where_def split: sum.splits)
    obtain e where e: "subj = cond_of e" "sql_cols e \<subseteq> subject_cols"
      using subject_means(1) [OF s(1)] by blast
    have "\<forall>c\<in>subject_cols. CHR ''?'' \<notin> set c"
      by (simp add: subject_cols_def colType_def colSubjectID_def)
    then have "marks (SQL subj) = length (Args subj)"
      using e render_marks [of e] by (auto simp: cond_of_def)
    then show ?thesis
      using where_counted [OF clean r(2)] s(2,3) by (auto simp: count_list_append)
  qed
  then have "marks q = length args"
    using assms(3,4) w(2) by (auto simp: assembleFilterQuery_def count_list_append count_notin)
  moreover have "\<forall>g\<in>set (go_split CHR ''?'' q). CHR ''?'' \<notin> set g"
    by (induction q) (auto split: list.splits)
  ultimately show ?thesis
    by (intro exI [of _ "go_split CHR ''?'' q"]) (simp add: rebind_def rebind_numbers split_marks go_join_split)
qed

text \<open>A subject filter compares the pair. An accepted subject expression has one operator, and
  its SQL is true of exactly the rows whose type and subject id together satisfy it, read as a
  boolean formula over terms that hold when both columns agree with the two halves of the
  value: a client's row never matches a group of the same id.\<close>

theorem subject_clause_meaning:
  assumes "buildSubjectWhere U expr = Inr c"
  shows "\<exists>key v e. unmarshal_map expr = Some [(key, v)] \<and> c = cond_of e \<and> sql_wf e \<and>
    sql_cols e \<subseteq> {colType, colSubjectID} \<and>
    (\<forall>L like row. sql_eval L like row e = sat_op U kleene (subject_leaf row) key v)"
  using subject_means(1) [OF assms] by (simp add: subject_cols_def)

definition demo_subject :: json where
  "demo_subject = JObj [(''$nor'', JArr [JObj [(''$eq'', JStr ''group:1'')], JObj [(''$eq'', JStr ''client:2'')]])]"

lemma demo_subject_where:
  "buildSubjectWhere U demo_subject = Inr \<lparr>SQL = ''NOT ((type = ? AND subject_id = ?) OR (type = ? AND subject_id = ?))'',
     Args = [''group'', ''1'', ''client'', ''2'']\<rparr>"
  by (simp add: demo_subject_def buildSubjectWhere.simps subjectEqTerm_def to_lower_def is_ascii_def ascii_lower_def
      op_defs is_array_op_def colType_def colSubjectID_def)

theorem subject_clause_meaning_witness:
  "\<exists>e. ''NOT ((type = ? AND subject_id = ?) OR (type = ? AND subject_id = ?))'' = render e \<and>
     sql_eval id (=) (\<lambda>c. Some (if c = colType then ''client'' else ''1'')) e = Some True"
proof -
  obtain key v e where e: "unmarshal_map demo_subject = Some [(key, v)]"
      "\<lparr>SQL = ''NOT ((type = ? AND subject_id = ?) OR (type = ? AND subject_id = ?))'',
        Args = [''group'', ''1'', ''client'', ''2'']\<rparr> = cond_of e"
      "sql_eval id (=) (\<lambda>c. Some (if c = colType then ''client'' else ''1'')) e =
       sat_op id kleene (subject_leaf (\<lambda>c. Some (if c = colType then ''client'' else ''1''))) key v"
    using subject_clause_meaning [OF demo_subject_where, of id] by blast
  have "sat_op id kleene (subject_leaf (\<lambda>c. Some (if c = colType then ''client'' else ''1''))) key v = Some True"
    using e(1) by (auto simp: demo_subject_def sat_op.simps to_lower_def is_ascii_def ascii_lower_def op_defs
        is_array_op_def subject_leaf_def all_of_kleene and3_def or3_def not3_def colType_def colSubjectID_def)
  then show ?thesis using e(2,3) by (auto simp: cond_of_def intro!: exI [of _ e])
qed

theorem placeholders_match_arguments_witness:
  "\<exists>gaps. length gaps = 3 \<and> rebind True ''SELECT id FROM access_rules WHERE (type = ? AND subject_id = ?)'' = number_from 0 gaps"
proof -
  have "appendAccessFilter id ''SELECT id FROM access_rules'' ''''
      (Some (Some (JObj [(''subject'', JObj [(''$eq'', JStr ''group:1'')])]))) accessRuleFields =
    Inr (''SELECT id FROM access_rules WHERE (type = ? AND subject_id = ?)'', [''group'', ''1''])"
    by (simp add: appendAccessFilter_def access_where_def splitSubjectFilter_def colSubject_def BuildWhere_def
        buildSubjectWhere.simps subjectEqTerm_def to_lower_def is_ascii_def ascii_lower_def op_defs
        colType_def colSubjectID_def assembleFilterQuery_def)
  from placeholders_match_arguments [OF this] obtain gaps where
      "length gaps = Suc (length [''group'', ''1''])"
      "rebind True ''SELECT id FROM access_rules WHERE (type = ? AND subject_id = ?)'' = number_from 0 gaps"
    by auto
  then show ?thesis by (intro exI [of _ gaps]) simp
qed

end
