(* ===== verification/PickerRows.thy ===== *)
theory PickerRows
  imports Models "HOL-Library.Multiset" "HOL-Library.Sublist"
begin

text \<open>
  The rows of the guest picker: \<open>internal/session/guestrow.go\<close>, \<open>sortmode.go\<close> and
  \<open>filter.go\<close>. A row holds a guest or an instance; the code never builds one with neither, for
  which reading the status would fail. \<open>slice_stable\<close> is \<open>sort.SliceStable\<close> for a
  comparison that is a strict weak order.
\<close>

section \<open>Rows\<close>

record guest_info =
  gi_guest :: guest_row
  gi_instance_name :: gostring

record picker_row =
  pr_guest :: "guest_row option"
  pr_inst :: "instance_row option"
  pr_name :: gostring
  pr_inst_name :: gostring
  pr_id :: gostring
  pr_vmid :: int
  pr_fields :: "gostring list"
  pr_score :: int

definition nodeID :: gostring where "nodeID = ''node''"
definition nodeStatus :: gostring where "nodeStatus = ''-''"
definition nodeSortID :: int where "nodeSortID = -1"

definition isNode :: "picker_row \<Rightarrow> bool" where
  "isNode r \<longleftrightarrow> pr_inst r \<noteq> None"

definition row_key :: "picker_row \<Rightarrow> gostring" where
  "row_key r =
     (case pr_inst r of
        Some i \<Rightarrow> ''n:'' @ itoa (in_id i)
      | None \<Rightarrow> (case pr_guest r of Some g \<Rightarrow> ''g:'' @ itoa (g_id g) | None \<Rightarrow> ''''))"

definition row_status :: "picker_row \<Rightarrow> gostring" where
  "row_status r =
     (if isNode r then nodeStatus else (case pr_guest r of Some g \<Rightarrow> g_status g | None \<Rightarrow> ''''))"

definition isRunning :: "picker_row \<Rightarrow> bool" where
  "isRunning r \<longleftrightarrow> isNode r \<or> (case pr_guest r of Some g \<Rightarrow> g_status g = StatusRunning | None \<Rightarrow> False)"

section \<open>Sorting\<close>

datatype sort_mode = SortUnset | SortByName | SortByID | SortByStatus | SortByHost | SortModeCount

definition sortCycle :: "sort_mode list" where
  "sortCycle = [SortByID, SortByName, SortByStatus, SortByHost]"

fun cycle_find :: "int \<Rightarrow> sort_mode \<Rightarrow> sort_mode list \<Rightarrow> int" where
  "cycle_find i m [] = -1"
| "cycle_find i m (x # xs) = (if x = m then i else cycle_find (i + 1) m xs)"

definition cycleIndex :: "sort_mode \<Rightarrow> int" where
  "cycleIndex m = cycle_find 0 m sortCycle"

definition defaultSortLabel :: gostring where "defaultSortLabel = ''name''"

definition sort_label :: "sort_mode \<Rightarrow> gostring" where
  "sort_label m =
     (case m of SortByID \<Rightarrow> ''id'' | SortByStatus \<Rightarrow> ''status'' | SortByHost \<Rightarrow> ''host'' | _ \<Rightarrow> defaultSortLabel)"

definition next_mode :: "sort_mode \<Rightarrow> sort_mode" where
  "next_mode m = sortCycle ! nat ((cycleIndex m + 1) mod int (length sortCycle))"

definition prev_mode :: "sort_mode \<Rightarrow> sort_mode" where
  "prev_mode m =
     (if m = SortUnset then sortCycle ! (length sortCycle - 1)
      else sortCycle ! nat ((cycleIndex m - 1 + int (length sortCycle)) mod int (length sortCycle)))"

definition statusRank :: "picker_row \<Rightarrow> int" where
  "statusRank r = (if isRunning r then 0 else 1)"

definition lessByNameThenID :: "picker_row \<Rightarrow> picker_row \<Rightarrow> bool" where
  "lessByNameThenID a b =
     (if pr_name a \<noteq> pr_name b then pr_name a < pr_name b
      else if pr_vmid a \<noteq> pr_vmid b then pr_vmid a < pr_vmid b
      else if pr_id a \<noteq> pr_id b then pr_id a < pr_id b
      else row_key a < row_key b)"

definition row_less :: "sort_mode \<Rightarrow> picker_row \<Rightarrow> picker_row \<Rightarrow> bool" where
  "row_less mode a b =
     (case mode of
        SortByID \<Rightarrow>
          if pr_vmid a \<noteq> pr_vmid b then pr_vmid a < pr_vmid b
          else if pr_id a \<noteq> pr_id b then pr_id a < pr_id b
          else lessByNameThenID a b
      | SortByStatus \<Rightarrow>
          if statusRank a \<noteq> statusRank b then statusRank a < statusRank b else lessByNameThenID a b
      | SortByHost \<Rightarrow>
          if pr_inst_name a \<noteq> pr_inst_name b then pr_inst_name a < pr_inst_name b
          else lessByNameThenID a b
      | _ \<Rightarrow> lessByNameThenID a b)"

fun insert_stable :: "('r \<Rightarrow> 'r \<Rightarrow> bool) \<Rightarrow> 'r \<Rightarrow> 'r list \<Rightarrow> 'r list" where
  "insert_stable lt x [] = [x]"
| "insert_stable lt x (y # ys) = (if \<not> lt y x then x # y # ys else y # insert_stable lt x ys)"

definition slice_stable :: "('r \<Rightarrow> 'r \<Rightarrow> bool) \<Rightarrow> 'r list \<Rightarrow> 'r list" where
  "slice_stable lt xs = foldr (insert_stable lt) xs []"

definition sortRows :: "picker_row list \<Rightarrow> sort_mode \<Rightarrow> picker_row list" where
  "sortRows rows mode = slice_stable (row_less mode) rows"

definition newPickerRows :: "guest_info list \<Rightarrow> instance_row list \<Rightarrow> picker_row list" where
  "newPickerRows guests nodes =
     sortRows
       (map (\<lambda>info. let g = gi_guest info; rid = g_type g @ itoa (g_vmid g); inst = gi_instance_name info in
              \<lparr>pr_guest = Some g, pr_inst = None, pr_name = g_name g, pr_inst_name = inst, pr_id = rid,
               pr_vmid = g_vmid g, pr_fields = [g_name g, rid, inst], pr_score = 0\<rparr>) guests @
        map (\<lambda>inst. \<lparr>pr_guest = None, pr_inst = Some inst, pr_name = in_name inst,
               pr_inst_name = in_name inst, pr_id = nodeID, pr_vmid = nodeSortID,
               pr_fields = [in_name inst, nodeID, in_name inst], pr_score = 0\<rparr>) nodes)
       SortByName"

definition newGuestRows :: "guest_info list \<Rightarrow> picker_row list" where
  "newGuestRows guests = newPickerRows guests []"

section \<open>Filtering\<close>

definition isWordBoundary :: "char \<Rightarrow> bool" where
  "isWordBoundary c \<longleftrightarrow> c \<in> set '' -_./:'' \<or> c = CHR 0x09 \<or> is_digit c"

fun first_index :: "char \<Rightarrow> bytes \<Rightarrow> nat option" where
  "first_index c [] = None"
| "first_index c (x # xs) = (if x = c then Some 0 else map_option Suc (first_index c xs))"

text \<open>One round per needle byte; \<open>None\<close> is no match.\<close>

fun fuzzy_loop :: "bytes \<Rightarrow> bytes \<Rightarrow> nat \<Rightarrow> bool \<Rightarrow> int \<Rightarrow> int option" where
  "fuzzy_loop h [] hi prevMatched score = Some score"
| "fuzzy_loop h (c # n) hi prevMatched score =
     (case first_index c (drop hi h) of
        None \<Rightarrow> None
      | Some k \<Rightarrow>
          let found = hi + k;
              score = score + 1;
              score = (if prevMatched then score + 8 else score);
              score = (if found = 0 \<or> isWordBoundary (h ! (found - 1)) then score + 6 else score);
              score = (if \<not> prevMatched \<and> found > 0 then score - 1 else score)
          in fuzzy_loop h n (found + 1) True score)"

definition fuzzyScore :: "(bytes \<Rightarrow> bytes) \<Rightarrow> gostring \<Rightarrow> gostring \<Rightarrow> int option" where
  "fuzzyScore U hay needle =
     (if needle = '''' then Some 0
      else let h = to_lower U hay; n = to_lower U needle in
        map_option (\<lambda>score. score - int (length h) div 16) (fuzzy_loop h n 0 False 0))"

definition fieldRankPenalty :: int where "fieldRankPenalty = 4"

fun best_field :: "(bytes \<Rightarrow> bytes) \<Rightarrow> gostring \<Rightarrow> int \<Rightarrow> gostring list \<Rightarrow> int option \<Rightarrow> int option" where
  "best_field U query i [] best = best"
| "best_field U query i (f # fs) best =
     (case fuzzyScore U f query of
        None \<Rightarrow> best_field U query (i + 1) fs best
      | Some score \<Rightarrow>
          let score = score - i * fieldRankPenalty in
          best_field U query (i + 1) fs
            (case best of None \<Rightarrow> Some score | Some b \<Rightarrow> if score > b then Some score else best))"

fun score_rows :: "(bytes \<Rightarrow> bytes) \<Rightarrow> gostring \<Rightarrow> picker_row list \<Rightarrow> picker_row list" where
  "score_rows U query [] = []"
| "score_rows U query (r # rs) =
     (case best_field U query 0 (pr_fields r) None of
        None \<Rightarrow> score_rows U query rs
      | Some best \<Rightarrow> r\<lparr>pr_score := best\<rparr> # score_rows U query rs)"

definition filterRows :: "(bytes \<Rightarrow> bytes) \<Rightarrow> picker_row list \<Rightarrow> gostring \<Rightarrow> picker_row list" where
  "filterRows U rows query =
     (let query = trim_space query in
      if query = '''' then rows
      else slice_stable (\<lambda>a b. pr_score a > pr_score b) (score_rows U query rows))"

section \<open>The order of the rows\<close>

type_synonym row_rank = "int \<times> gostring \<times> gostring \<times> int \<times> gostring \<times> gostring"

definition row_rank :: "sort_mode \<Rightarrow> picker_row \<Rightarrow> row_rank" where
  "row_rank mode r =
     (let (i, s) = (case mode of
          SortByID \<Rightarrow> (pr_vmid r, pr_id r)
        | SortByStatus \<Rightarrow> (statusRank r, [])
        | SortByHost \<Rightarrow> (0, pr_inst_name r)
        | _ \<Rightarrow> (0, []))
      in (i, s, pr_name r, pr_vmid r, pr_id r, row_key r))"

lemma row_less_rank: "row_less mode a b \<longleftrightarrow> row_rank mode a < row_rank mode b"
  by (cases mode) (auto simp: row_less_def row_rank_def lessByNameThenID_def less_prod_def')

lemma insert_stable_key: "insert_stable (\<lambda>a b. f a < f b) x xs = insort_key f x xs" for f :: "'r \<Rightarrow> 'k::linorder"
  by (induction xs) (auto simp: not_less)

lemma slice_stable_key: "slice_stable (\<lambda>a b. f a < f b) xs = sort_key f xs" for f :: "'r \<Rightarrow> 'k::linorder"
  by (simp add: slice_stable_def sort_key_def insert_stable_key [abs_def] cong: foldr_cong)

lemma sortRows_key: "sortRows rows mode = sort_key (row_rank mode) rows"
  using slice_stable_key [of "row_rank mode"] by (simp add: sortRows_def row_less_rank [abs_def])

lemma sortRows_mset [simp]: "mset (sortRows rows mode) = mset rows"
  by (simp add: sortRows_key)

lemma sortRows_set [simp]: "set (sortRows rows mode) = set rows"
  by (simp add: sortRows_key)

lemma sortRows_length [simp]: "length (sortRows rows mode) = length rows"
  by (simp add: sortRows_key)

lemma row_rank_inj: "distinct (map row_key rows) \<Longrightarrow> inj_on (row_rank mode) (set rows)"
  by (auto simp: inj_on_def row_rank_def distinct_map Let_def split: prod.splits)

text \<open>The order of the picker is total. Rows with different keys come out of a sort in an order
  that depends on the rows alone: however discovery listed them, and whatever the list was
  sorted by before, the same rows sorted by the same column give the same list.\<close>

theorem sort_depends_on_rows_only:
  assumes "distinct (map row_key rows)" and "mset rows = mset rows'"
  shows "sortRows rows mode = sortRows rows' mode"
proof -
  have s: "set rows = set rows'" using assms(2) by (metis set_mset_mset)
  have inj: "inj_on (row_rank mode) (set rows)" using row_rank_inj [OF assms(1)] .
  have "distinct rows" using assms(1) by (simp add: distinct_map)
  then have "distinct rows'" using assms(2) by (metis mset_eq_imp_distinct_iff)
  have "map (row_rank mode) (sortRows rows mode) = map (row_rank mode) (sortRows rows' mode)"
    by (rule sorted_distinct_set_unique)
       (use inj s \<open>distinct rows\<close> \<open>distinct rows'\<close> in \<open>simp_all add: sortRows_key distinct_map\<close>)
  then show ?thesis
    by (rule map_inj_on) (use inj s in simp)
qed

text \<open>Shift+Tab undoes Tab on every column of the cycle, Tab from the opening order goes to the id
  column, and four Tabs visit all four columns and return.\<close>

theorem tab_cycle:
  "next_mode SortUnset = SortByID \<and> prev_mode SortUnset = SortByHost \<and>
   map prev_mode (map next_mode sortCycle) = sortCycle \<and> map next_mode (map prev_mode sortCycle) = sortCycle \<and>
   map next_mode sortCycle = rotate1 sortCycle"
  by (simp add: next_mode_def prev_mode_def cycleIndex_def sortCycle_def)

section \<open>Matching\<close>

lemma first_index_None: "first_index c xs = None \<longleftrightarrow> c \<notin> set xs"
  by (induction xs) auto

lemma first_index_Some:
  "first_index c xs = Some k \<Longrightarrow> xs = take k xs @ c # drop (Suc k) xs \<and> c \<notin> set (take k xs)"
  by (induction xs arbitrary: k) (auto split: if_splits)

lemma subseq_first:
  assumes "first_index c xs = Some k"
  shows "subseq (c # n) xs \<longleftrightarrow> subseq n (drop (Suc k) xs)"
proof -
  obtain u v where x: "xs = u @ c # v" "c \<notin> set u" "v = drop (Suc k) xs"
    using first_index_Some [OF assms] by blast
  have "subseq (c # n) (u @ c # v) \<longleftrightarrow> subseq n v" using x(2) by (induction u) auto
  then have "subseq (c # n) xs \<longleftrightarrow> subseq n v" by (simp only: x(1))
  then show ?thesis by (simp only: x(3))
qed

lemma fuzzy_loop_match: "fuzzy_loop h n hi prev score \<noteq> None \<longleftrightarrow> subseq n (drop hi h)"
proof (induction n arbitrary: hi prev score)
  case (Cons c n)
  show ?case
  proof (cases "first_index c (drop hi h)")
    case None
    then have "\<not> subseq (c # n) (drop hi h)"
      using list_emb_set [of "(=)" "c # n" "drop hi h" c] first_index_None [of c "drop hi h"] by auto
    then show ?thesis using None by simp
  next
    case (Some k)
    then show ?thesis
      using Cons subseq_first [OF Some] by (simp add: Let_def add.commute)
  qed
qed simp

lemma fuzzyScore_subseq:
  "fuzzyScore U hay needle \<noteq> None \<longleftrightarrow> needle = '''' \<or> subseq (to_lower U needle) (to_lower U hay)"
  using fuzzy_loop_match [of "to_lower U hay" "to_lower U needle" 0 False 0]
  by (simp add: fuzzyScore_def Let_def)

text \<open>A field matches exactly when the lower-cased query is a subsequence of the lower-cased
  field: the left-to-right walk never misses a match that another choice of positions would
  find.\<close>

theorem fuzzy_matches_subsequence:
  "fuzzyScore U hay needle \<noteq> None \<longleftrightarrow> needle = '''' \<or> subseq (to_lower U needle) (to_lower U hay)"
  by (rule fuzzyScore_subseq)

lemma best_field_match:
  "best_field U query i fs best \<noteq> None \<longleftrightarrow> best \<noteq> None \<or> (\<exists>f\<in>set fs. fuzzyScore U f query \<noteq> None)"
  by (induction U query i fs best rule: best_field.induct) (auto simp: Let_def split: option.splits)

definition row_matches :: "(bytes \<Rightarrow> bytes) \<Rightarrow> gostring \<Rightarrow> picker_row \<Rightarrow> bool" where
  "row_matches U query r \<longleftrightarrow> (\<exists>f\<in>set (pr_fields r). subseq (to_lower U query) (to_lower U f))"

lemma row_key_score [simp]: "row_key (r\<lparr>pr_score := b\<rparr>) = row_key r"
  by (auto simp: row_key_def split: option.split)

lemma isRunning_score [simp]: "isRunning (r\<lparr>pr_score := b\<rparr>) = isRunning r"
  by (auto simp: isRunning_def isNode_def split: option.split)

text \<open>A row without its rank in the current filter.\<close>

definition unscored :: "picker_row \<Rightarrow> picker_row" where
  "unscored r = r\<lparr>pr_score := 0\<rparr>"

lemma score_rows_unscored:
  "query \<noteq> '''' \<Longrightarrow> map unscored (score_rows U query rows) = map unscored (filter (row_matches U query) rows)"
proof (induction rows)
  case (Cons r rows)
  have "best_field U query 0 (pr_fields r) None = None \<longleftrightarrow> \<not> row_matches U query r"
    using best_field_match [of U query 0 "pr_fields r" None] fuzzyScore_subseq [of U _ query] Cons.prems
    by (auto simp: row_matches_def)
  then show ?case using Cons by (auto simp: unscored_def split: option.splits)
qed simp

lemma filterRows_key:
  "trim_space query \<noteq> '''' \<Longrightarrow>
   filterRows U rows query = sort_key (\<lambda>r. - pr_score r) (score_rows U (trim_space query) rows)"
  using slice_stable_key [of "\<lambda>r. - pr_score r"] by (simp add: filterRows_def)

lemma sort_key_stable_eq: "filter (\<lambda>x. f x = b) (sort_key f xs) = filter (\<lambda>x. f x = b) xs"
  by (metis sort_key_stable)

lemma filter_shows:
  assumes "trim_space query \<noteq> ''''"
  shows "mset (map unscored (filterRows U rows query)) =
      mset (map unscored (filter (row_matches U (trim_space query)) rows)) \<and>
    sorted (rev (map pr_score (filterRows U rows query))) \<and>
    filter (\<lambda>r. pr_score r = b) (filterRows U rows query) =
      filter (\<lambda>r. pr_score r = b) (score_rows U (trim_space query) rows)"
proof -
  let ?sc = "score_rows U (trim_space query) rows"
  have k: "filterRows U rows query = sort_key (\<lambda>r. - pr_score r) ?sc"
    by (rule filterRows_key [OF assms])
  have "mset (map unscored (sort_key (\<lambda>r. - pr_score r) ?sc)) = mset (map unscored ?sc)"
    by (simp add: mset_map)
  moreover have "sorted (map (\<lambda>r. - pr_score r) (sort_key (\<lambda>r. - pr_score r) ?sc))"
    by simp
  then have "sorted (rev (map pr_score (sort_key (\<lambda>r. - pr_score r) ?sc)))"
    unfolding sorted_wrt_rev sorted_wrt_map by simp
  moreover have "filter (\<lambda>r. pr_score r = b) (sort_key (\<lambda>r. - pr_score r) ?sc) = filter (\<lambda>r. pr_score r = b) ?sc"
    using sort_key_stable_eq [of "\<lambda>r. - pr_score r" "- b" ?sc] by simp
  ultimately show ?thesis
    unfolding k score_rows_unscored [OF assms] by simp
qed

text \<open>A filtered list shows exactly the rows one of whose fields contains the query as a
  subsequence, each as often as before, the best score first, and rows of one score in the order
  they had.\<close>

theorem filter_shows_matches:
  assumes "trim_space query \<noteq> ''''"
  shows "mset (map unscored (filterRows U rows query)) =
      mset (map unscored (filter (row_matches U (trim_space query)) rows)) \<and>
    sorted (rev (map pr_score (filterRows U rows query))) \<and>
    filter (\<lambda>r. pr_score r = b) (filterRows U rows query) =
      filter (\<lambda>r. pr_score r = b) (score_rows U (trim_space query) rows)"
  using assms by (rule filter_shows)

section \<open>Concrete rows\<close>

definition demo_ct :: "int \<Rightarrow> gostring \<Rightarrow> gostring \<Rightarrow> guest_info" where
  "demo_ct n name status = \<lparr>gi_guest = \<lparr>g_id = n, g_type = ''ct'', g_name = name, g_status = status,
     g_vmid = 100 + n, g_instance = 1\<rparr>, gi_instance_name = ''rome''\<rparr>"

definition demo_picker :: "picker_row list" where
  "demo_picker = map (\<lambda>info. \<lparr>pr_guest = Some (gi_guest info), pr_inst = None, pr_name = g_name (gi_guest info),
     pr_inst_name = gi_instance_name info, pr_id = ''ct'', pr_vmid = g_vmid (gi_guest info),
     pr_fields = [g_name (gi_guest info)], pr_score = 0\<rparr>)
     [demo_ct 2 ''vpn'' ''running'', demo_ct 1 ''web'' ''stopped'']"

lemma demo_keys: "distinct (map row_key demo_picker)"
  by (simp add: demo_picker_def demo_ct_def row_key_def itoa_def nat_digits.simps digit_char_def)

theorem sort_depends_on_rows_only_witness:
  "sortRows demo_picker SortByID = sortRows (rev demo_picker) SortByID"
  by (rule sort_depends_on_rows_only [OF demo_keys]) simp

theorem filter_shows_matches_witness:
  "mset (map unscored (filterRows id demo_picker ''w'')) = {#unscored (demo_picker ! 1)#}"
proof -
  have t: "trim_space ''w'' = ''w''"
    by (simp add: trim_space_def space_encs_def has_prefix_def)
  have l: "to_lower id s = map ascii_lower s" if "is_ascii s" for s
    using that by (simp add: to_lower_def)
  have "filter (row_matches id ''w'') demo_picker = [demo_picker ! 1]"
    by (simp add: demo_picker_def demo_ct_def row_matches_def l is_ascii_def ascii_lower_def)
  then show ?thesis
    using filter_shows_matches [of "''w''" id demo_picker] t by simp
qed

text \<open>A match with a gap scores as much as one without.\<close>

lemma gap_earns_consecutive_bonus:
  "fuzzyScore U ''axxb'' ''ab'' = Some 16" "fuzzyScore U ''abxx'' ''ab'' = Some 16"
  by (simp_all add: fuzzyScore_def to_lower_def is_ascii_def ascii_lower_def isWordBoundary_def is_digit_def Let_def)

end
