(* ===== verification/Keys.thy ===== *)
theory Keys
  imports GoText "HOL-Library.Sublist"
begin

text \<open>
  \<open>internal/session/keys.go\<close>: one keystroke decoded from a raw-mode terminal. The reader is
  the list of bytes it still delivers; at its end a read fails. A key comes with the bytes left
  for the next reader, which after a selection is the guest's console. Then Go's
  \<open>string(rune)\<close> and \<open>utf8.DecodeLastRuneInString\<close>, with which the filter is edited.
\<close>

section \<open>Encoding a rune\<close>

definition valid_rune :: "nat \<Rightarrow> bool" where
  "valid_rune r \<longleftrightarrow> r < 0x110000 \<and> \<not> (0xD800 \<le> r \<and> r \<le> 0xDFFF)"

definition encode_rune :: "nat \<Rightarrow> bytes" where
  "encode_rune r =
     (if r < 0x80 then [char_of r]
      else if r < 0x800 then [char_of (0xC0 + r div 64), char_of (0x80 + r mod 64)]
      else if \<not> valid_rune r then [char_of (0xEF::nat), char_of (0xBF::nat), char_of (0xBD::nat)]
      else if r < 0x10000 then
        [char_of (0xE0 + r div 4096), char_of (0x80 + r div 64 mod 64), char_of (0x80 + r mod 64)]
      else [char_of (0xF0 + r div 262144), char_of (0x80 + r div 4096 mod 64),
            char_of (0x80 + r div 64 mod 64), char_of (0x80 + r mod 64)])"

lemma code_char_of [simp]: "n < 256 \<Longrightarrow> code (char_of n) = n"
  by simp

lemma add_multiple_mod: "b < m \<Longrightarrow> (m * k + b) mod m = b" for b :: nat
  by simp

lemma decode_tail_1:
  assumes "b < 64" "lo \<le> 0x80 + b" "0x80 + b \<le> hi"
  shows "decode_tail acc lo hi (Suc k) (char_of (0x80 + b) # cs) = decode_tail (acc * 64 + b) 0x80 0xBF k cs"
proof -
  have c: "code (char_of (0x80 + b)) = 0x80 + b" using assms by (intro code_char_of) simp
  have "(0x80 + b) mod 64 = b" using add_multiple_mod [OF assms(1), of 2] by simp
  then show ?thesis using assms(2,3) by (simp only: decode_tail.simps c) simp
qed

lemma decode_two:
  assumes "2 \<le> a" "a < 32" "b < 64"
  shows "decode_rune (char_of (0xC0 + a) # char_of (0x80 + b) # rest) = (a * 64 + b, 2)"
proof -
  have l: "utf8_lead (0xC0 + a) = Some (2, 0x80, 0xBF)" using assms by (simp add: utf8_lead_def)
  have c: "code (char_of (0xC0 + a)) = 0xC0 + a" using assms by (intro code_char_of) simp
  have "(192 + a) mod 32 = a" using add_multiple_mod [OF assms(2), of 6] by simp
  then have m: "(0xC0 + a) mod 2 ^ (7 - 2) = a" by simp
  have t: "decode_tail a 0x80 0xBF (Suc 0) (char_of (0x80 + b) # rest) = Some (a * 64 + b)"
    using assms by (simp add: decode_tail_1 del: decode_tail.simps(3))
  show ?thesis using assms(1) unfolding decode_rune.simps c l by (simp only: m option.case prod.case) (simp add: t del: decode_tail.simps)
qed

lemma decode_three:
  assumes "a < 16" "b < 64" "c < 64" "a = 0 \<Longrightarrow> 32 \<le> b" "a = 13 \<Longrightarrow> b < 32"
  shows "decode_rune (char_of (0xE0 + a) # char_of (0x80 + b) # char_of (0x80 + c) # rest) = ((a * 64 + b) * 64 + c, 3)"
proof -
  obtain lo hi where l: "utf8_lead (0xE0 + a) = Some (3, lo, hi)" "lo \<le> 0x80 + b" "0x80 + b \<le> hi"
    using assms by (cases "a = 0"; cases "a = 13") (auto simp: utf8_lead_def)
  have k: "code (char_of (0xE0 + a)) = 0xE0 + a" using assms by (intro code_char_of) simp
  have "(224 + a) mod 16 = a" using add_multiple_mod [OF assms(1), of 14] by simp
  then have m: "(0xE0 + a) mod 2 ^ (7 - 3) = a" by simp
  have t: "decode_tail a lo hi (Suc (Suc 0)) (char_of (0x80 + b) # char_of (0x80 + c) # rest) = Some ((a * 64 + b) * 64 + c)"
    using assms l(2,3) by (simp add: decode_tail_1 del: decode_tail.simps(3))
  show ?thesis unfolding decode_rune.simps k l by (simp only: m option.case prod.case) (simp add: t numeral_2_eq_2 del: decode_tail.simps)
qed

lemma decode_four:
  assumes "a < 5" "b < 64" "c < 64" "d < 64" "a = 0 \<Longrightarrow> 16 \<le> b" "a = 4 \<Longrightarrow> b < 16"
  shows "decode_rune (char_of (0xF0 + a) # char_of (0x80 + b) # char_of (0x80 + c) # char_of (0x80 + d) # rest) =
    (((a * 64 + b) * 64 + c) * 64 + d, 4)"
proof -
  obtain lo hi where l: "utf8_lead (0xF0 + a) = Some (4, lo, hi)" "lo \<le> 0x80 + b" "0x80 + b \<le> hi"
    using assms by (cases "a = 0"; cases "a = 4") (auto simp: utf8_lead_def)
  have k: "code (char_of (0xF0 + a)) = 0xF0 + a" using assms by (intro code_char_of) simp
  have "(240 + a) mod 8 = a" using add_multiple_mod [of a 8 30] assms(1) by simp
  then have m: "(0xF0 + a) mod 2 ^ (7 - 4) = a" by simp
  have t: "decode_tail a lo hi (Suc (Suc (Suc 0)))
      (char_of (0x80 + b) # char_of (0x80 + c) # char_of (0x80 + d) # rest) = Some (((a * 64 + b) * 64 + c) * 64 + d)"
    using assms l(2,3) by (simp add: decode_tail_1 del: decode_tail.simps(3))
  show ?thesis unfolding decode_rune.simps k l by (simp only: m option.case prod.case) (simp add: t numeral_3_eq_3 del: decode_tail.simps)
qed

lemma decode_encode_rune:
  assumes "valid_rune r"
  shows "decode_rune (encode_rune r @ rest) = (r, length (encode_rune r))"
proof -
  consider "r < 0x80" | "0x80 \<le> r" "r < 0x800" | "0x800 \<le> r" "r < 0x10000" | "0x10000 \<le> r" by linarith
  then show ?thesis
  proof cases
    case 1
    then show ?thesis by (simp add: encode_rune_def)
  next
    case 2
    then show ?thesis
      using decode_two [of "r div 64" "r mod 64" rest] by (simp add: encode_rune_def)
  next
    case 3
    have e: "encode_rune r = [char_of (0xE0 + r div 4096), char_of (0x80 + r div 64 mod 64), char_of (0x80 + r mod 64)]"
      using 3 assms by (simp add: encode_rune_def)
    define q where "q = r div 64"
    have p: "r div 4096 = q div 64" by (simp add: q_def div_mult2_eq [symmetric])
    have q: "q * 64 + r mod 64 = r" "q div 64 * 64 + q mod 64 = q" "r mod 64 < 64" "q mod 64 < 64"
      by (simp_all add: q_def)
    have "(r div 4096 * 64 + r div 64 mod 64) * 64 + r mod 64 = r"
      using q by (simp add: p flip: q_def)
    moreover have "32 \<le> r div 64 mod 64" if "r div 4096 = 0"
      using q 3 that unfolding p q_def [symmetric] by linarith
    moreover have "r div 64 mod 64 < 32" if "r div 4096 = 13"
      using q 3 that assms unfolding p q_def [symmetric] valid_rune_def by linarith
    moreover have "r div 4096 < 16" using q 3 unfolding p by linarith
    ultimately show ?thesis
      using decode_three [of "r div 4096" "r div 64 mod 64" "r mod 64" rest] by (simp add: e)
  next
    case 4
    have e: "encode_rune r = [char_of (0xF0 + r div 262144), char_of (0x80 + r div 4096 mod 64),
        char_of (0x80 + r div 64 mod 64), char_of (0x80 + r mod 64)]"
      using 4 assms by (simp add: encode_rune_def)
    define q where "q = r div 64"
    define w where "w = q div 64"
    have p: "r div 4096 = w" "r div 262144 = w div 64"
      by (simp_all add: q_def w_def div_mult2_eq [symmetric])
    have q: "q * 64 + r mod 64 = r" "w * 64 + q mod 64 = q" "w div 64 * 64 + w mod 64 = w"
        "r mod 64 < 64" "q mod 64 < 64" "w mod 64 < 64"
      by (simp_all add: q_def w_def)
    have "((r div 262144 * 64 + r div 4096 mod 64) * 64 + r div 64 mod 64) * 64 + r mod 64 = r"
      using q by (simp add: p flip: q_def)
    moreover have "16 \<le> r div 4096 mod 64" if "r div 262144 = 0"
      using q 4 that unfolding p q_def [symmetric] by linarith
    moreover have "r div 4096 mod 64 < 16" if "r div 262144 = 4"
      using q 4 that assms unfolding p q_def [symmetric] valid_rune_def by linarith
    moreover have "r div 262144 < 5" using q assms unfolding p valid_rune_def by linarith
    ultimately show ?thesis
      using decode_four [of "r div 262144" "r div 4096 mod 64" "r div 64 mod 64" "r mod 64" rest] by (simp add: e)
  qed
qed

lemma encode_rune_not_Nil [simp]: "encode_rune r \<noteq> []"
  by (simp add: encode_rune_def)

lemma segments_encode_rune: "valid_rune r \<Longrightarrow> segments (encode_rune r @ rest) = (r, encode_rune r) # segments rest"
  using segments_step [OF _ decode_encode_rune [of r rest]] by simp

lemma runes_encode: "list_all valid_rune rs \<Longrightarrow> runes (concat (map encode_rune rs) @ s) = rs @ runes s"
proof (induction rs)
  case (Cons r rs)
  then show ?case by (simp add: runes_def segments_encode_rune)
qed simp

lemma runes_ascii_cons: "code c < 0x80 \<Longrightarrow> runes (c # s) = code c # runes s"
  by (simp add: runes_def segments_ascii del: segments.simps)

section \<open>Keystrokes\<close>

datatype key =
    KeyRune nat
  | KeyEnter
  | KeyEsc
  | KeyUp
  | KeyDown
  | KeyLeft
  | KeyRight
  | KeyHome
  | KeyEnd
  | KeyPageUp
  | KeyPageDown
  | KeyBackspace
  | KeyCtrlC
  | KeyCtrlU
  | KeyTab
  | KeyShiftTab
  | KeyUnknown

definition byteCtrlC :: nat where "byteCtrlC = 0x03"
definition byteCtrlU :: nat where "byteCtrlU = 0x15"
definition byteEsc :: nat where "byteEsc = 0x1b"
definition byteCR :: nat where "byteCR = 0x0d"
definition byteLF :: nat where "byteLF = 0x0a"
definition byteBackspace :: nat where "byteBackspace = 0x08"
definition byteDelete :: nat where "byteDelete = 0x7f"
definition byteTab :: nat where "byteTab = 0x09"

lemmas byte_defs = byteCtrlC_def byteCtrlU_def byteEsc_def byteCR_def byteLF_def byteBackspace_def
  byteDelete_def byteTab_def

text \<open>The number of a CSI sequence; Go's int wraps.\<close>

fun read_number :: "nat \<Rightarrow> bytes \<Rightarrow> key \<times> bytes" where
  "read_number num [] = (KeyUnknown, [])"
| "read_number num (nb # bs) =
     (if nb = CHR ''~'' then
        ((if num = 1 \<or> num = 7 then KeyHome
          else if num = 4 \<or> num = 8 then KeyEnd
          else if num = 5 then KeyPageUp
          else if num = 6 then KeyPageDown
          else KeyUnknown), bs)
      else if \<not> is_digit nb then (KeyUnknown, bs)
      else read_number ((num * 10 + (code nb - 48)) mod 2 ^ 64) bs)"

definition csi_key :: "char \<Rightarrow> key option" where
  "csi_key b =
     map_of [(CHR ''A'', KeyUp), (CHR ''B'', KeyDown), (CHR ''C'', KeyRight), (CHR ''D'', KeyLeft),
       (CHR ''H'', KeyHome), (CHR ''F'', KeyEnd), (CHR ''Z'', KeyShiftTab)] b"

fun readEscape :: "bytes \<Rightarrow> key \<times> bytes" where
  "readEscape [] = (KeyEsc, [])"
| "readEscape (b # bs) =
     (if b \<noteq> CHR ''['' \<and> b \<noteq> CHR ''O'' then (KeyEsc, bs)
      else case bs of
          [] \<Rightarrow> (KeyEsc, [])
        | b # bs \<Rightarrow>
            (case csi_key b of
               Some k \<Rightarrow> (k, bs)
             | None \<Rightarrow> if is_digit b then read_number (code b - 48) bs else (KeyUnknown, bs)))"

fun read_rune :: "bytes \<Rightarrow> bytes \<Rightarrow> key \<times> bytes" where
  "read_rune buf [] = (KeyUnknown, [])"
| "read_rune buf (b # bs) =
     (if \<not> length buf < 4 then (KeyUnknown, b # bs)
      else let buf = buf @ [b]; rn = fst (decode_rune buf) in
        if rn \<noteq> rune_error then (KeyRune rn, bs) else read_rune buf bs)"

fun readKey :: "bytes \<Rightarrow> (key \<times> bytes) option" where
  "readKey [] = None"
| "readKey (b # bs) =
     Some
       (if code b = byteCtrlC then (KeyCtrlC, bs)
        else if code b = byteCtrlU then (KeyCtrlU, bs)
        else if code b = byteCR \<or> code b = byteLF then (KeyEnter, bs)
        else if code b = byteBackspace \<or> code b = byteDelete then (KeyBackspace, bs)
        else if code b = byteTab then (KeyTab, bs)
        else if code b = byteEsc then readEscape bs
        else if code b < 0x20 then (KeyUnknown, bs)
        else if code b < 0x80 then (KeyRune (code b), bs)
        else read_rune [b] bs)"

section \<open>What a key takes from the reader\<close>

lemma read_number_suffix: "suffix (snd (read_number num bs)) bs"
  by (induction num bs rule: read_number.induct) (simp_all add: suffix_ConsI)

lemma read_rune_suffix: "suffix (snd (read_rune buf bs)) bs"
  by (induction buf bs rule: read_rune.induct) (simp_all add: suffix_ConsI Let_def)

lemma readEscape_suffix: "suffix (snd (readEscape bs)) bs"
proof (cases bs)
  case (Cons b cs)
  then show ?thesis
    by (cases cs) (simp_all add: suffix_ConsI read_number_suffix split: option.split)
qed simp

lemma readKey_rest:
  assumes "readKey bs = Some (k, rest)"
  shows "strict_suffix rest bs"
proof (cases bs)
  case Nil
  then show ?thesis using assms by simp
next
  case (Cons b cs)
  have "rest = cs \<or> rest = snd (readEscape cs) \<or> rest = snd (read_rune [b] cs)"
    using assms Cons by (auto split: if_splits)
  then have "suffix rest cs" using readEscape_suffix read_rune_suffix by auto
  then show ?thesis using Cons by (simp add: strict_suffix_def suffix_ConsI) (auto dest: suffix_length_le)
qed

text \<open>One keystroke takes a non-empty prefix of the input and leaves the rest untouched for the
  next reader, so after a selection the guest's console receives every byte that follows.\<close>

theorem key_takes_prefix:
  assumes "readKey bs = Some (k, rest)"
  shows "strict_suffix rest bs"
  using assms by (rule readKey_rest)

lemma decode_partial:
  assumes "decode_rune s = (r, length s)" "0 < k" "k < length s"
  shows "decode_rune (take k s) = (rune_error, 1)"
proof -
  obtain b bs where s: "s = b # bs" using assms by (cases s) auto
  obtain sz lo hi where l: "\<not> code b < 0x80" "utf8_lead (code b) = Some (sz, lo, hi)" "sz = Suc (length bs)"
    using assms s by (auto split: if_splits option.splits)
  have "decode_tail (code b mod 2 ^ (7 - sz)) lo hi (sz - 1) (take (k - 1) bs) = None"
  proof (rule ccontr)
    assume "\<not> ?thesis"
    then have "sz - 1 \<le> length (take (k - 1) bs)" using decode_tail_length by blast
    then show False using assms(2,3) s l(3) by simp
  qed
  then show ?thesis using s l assms(2) by (cases k) auto
qed

lemma read_rune_gathers:
  assumes "decode_rune s = (r, length s)" "r \<noteq> rune_error" "length s \<le> 4"
  shows "0 < k \<Longrightarrow> k < length s \<Longrightarrow> read_rune (take k s) (drop k s @ rest) = (KeyRune r, rest)"
proof (induction "length s - k" arbitrary: k)
  case (Suc n)
  have d: "drop k s @ rest = s ! k # (drop (Suc k) s @ rest)" "take k s @ [s ! k] = take (Suc k) s"
    using Suc(4) by (simp_all add: Cons_nth_drop_Suc [symmetric] take_Suc_conv_app_nth)
  show ?case
  proof (cases "Suc k = length s")
    case True
    then show ?thesis using d assms Suc(4) by simp
  next
    case False
    then have k: "Suc k < length s" using Suc(4) by simp
    then have "fst (decode_rune (take (Suc k) s)) = rune_error"
      using decode_partial [OF assms(1), of "Suc k"] by simp
    then show ?thesis using d assms(3) k Suc(1) [of "Suc k"] Suc(2) by simp
  qed
qed simp

text \<open>Every printable character can be typed. The UTF-8 encoding of a rune that is neither a
  control character, Delete nor the replacement character is read back as that rune, whatever
  follows it.\<close>

theorem typed_rune_is_read:
  assumes "valid_rune r" and "0x20 \<le> r" and "r \<noteq> 0x7F" and "r \<noteq> rune_error"
  shows "readKey (encode_rune r @ rest) = Some (KeyRune r, rest)"
proof (cases "r < 0x80")
  case True
  then show ?thesis using assms by (simp add: encode_rune_def byte_defs)
next
  case False
  let ?s = "encode_rune r"
  have d: "decode_rune ?s = (r, length ?s)" using decode_encode_rune [OF assms(1), of "[]"] by simp
  have len: "1 < length ?s" "length ?s \<le> 4" using False by (simp_all add: encode_rune_def)
  obtain b bs where s: "?s = b # bs" using len by (cases ?s) auto
  have "\<not> code b < 0x80" using d s len by (auto split: if_splits)
  then have "readKey (?s @ rest) = Some (read_rune [b] (bs @ rest))"
    by (simp add: s byte_defs)
  also have "read_rune [b] (bs @ rest) = (KeyRune r, rest)"
    using read_rune_gathers [OF d assms(4) len(2), of 1 rest] len(1) s by simp
  finally show ?thesis .
qed

theorem key_takes_prefix_witness: "strict_suffix ''ls'' (CHR 0x0D # ''ls'')"
  by (rule key_takes_prefix [of _ KeyEnter]) (simp add: byte_defs)

theorem typed_rune_is_read_witness:
  "readKey (encode_rune 0xE9 @ ''x'') = Some (KeyRune 0xE9, ''x'')"
  by (rule typed_rune_is_read) (simp_all add: valid_rune_def rune_error_def)

text \<open>An Esc followed by any other byte swallows that byte.\<close>

lemma esc_swallows_next: "readKey (CHR 0x1B # ''q'') = Some (KeyEsc, [])"
  by (simp add: byte_defs)

lemma unknown_csi_is_not_esc: "readKey (CHR 0x1B # ''[P'') = Some (KeyUnknown, [])"
  by (simp add: byte_defs csi_key_def is_digit_def)

end
