(* ===== verification/PickerState.thy ===== *)
theory PickerState
  imports PickerRows Keys
begin

text \<open>
  \<open>internal/session/interactive.go\<close>: the interactive picker as a state that keystrokes and
  resizes change. While the filter is empty \<open>shown\<close> and \<open>all\<close> are one slice in the code, so
  sorting one in place sorts the other; the operations here write that out, and an invariant
  shows that they are equal then. Painting is in \<open>PickerView\<close>.
\<close>

section \<open>The state\<close>

definition reservedRows :: int where "reservedRows = 6"
definition minListRows :: int where "minListRows = 3"

record picker_state =
  ps_all :: "picker_row list"
  ps_shown :: "picker_row list"
  ps_filter :: gostring
  ps_cursor :: int
  ps_offset :: int
  ps_width :: int
  ps_height :: int
  ps_user :: gostring
  ps_notice :: gostring
  ps_sort :: sort_mode

definition init_picker :: "picker_row list \<Rightarrow> gostring \<Rightarrow> int \<Rightarrow> int \<Rightarrow> picker_state" where
  "init_picker rows user width height =
     \<lparr>ps_all = rows, ps_shown = rows, ps_filter = '''', ps_cursor = 0, ps_offset = 0,
      ps_width = (if width \<le> 0 then 80 else width), ps_height = (if height \<le> 0 then 24 else height),
      ps_user = user, ps_notice = '''', ps_sort = SortUnset\<rparr>"

definition listRows :: "picker_state \<Rightarrow> int" where
  "listRows s = (let n = ps_height s - reservedRows in if n < minListRows then minListRows else n)"

definition scrollToCursor :: "picker_state \<Rightarrow> picker_state" where
  "scrollToCursor s =
     (let rows = listRows s;
          offset = (if ps_cursor s < ps_offset s then ps_cursor s else ps_offset s);
          offset = (if ps_cursor s \<ge> offset + rows then ps_cursor s - rows + 1 else offset);
          maxOffset = int (length (ps_shown s)) - rows;
          offset = (if offset > maxOffset then maxOffset else offset);
          offset = (if offset < 0 then 0 else offset)
      in s\<lparr>ps_offset := offset\<rparr>)"

definition move :: "int \<Rightarrow> picker_state \<Rightarrow> picker_state" where
  "move delta s =
     (if length (ps_shown s) = 0 then s\<lparr>ps_cursor := 0, ps_offset := 0\<rparr>
      else let cursor = ps_cursor s + delta;
               cursor = (if cursor < 0 then 0 else cursor);
               cursor = (if cursor > int (length (ps_shown s)) - 1 then int (length (ps_shown s)) - 1 else cursor)
        in scrollToCursor (s\<lparr>ps_cursor := cursor\<rparr>))"

definition setFilter :: "(bytes \<Rightarrow> bytes) \<Rightarrow> gostring \<Rightarrow> picker_state \<Rightarrow> picker_state" where
  "setFilter U f s =
     (let s = s\<lparr>ps_filter := f, ps_shown := filterRows U (ps_all s) f\<rparr>;
          s = (if f = '''' then
                 (let sorted = sortRows (ps_shown s) (ps_sort s) in s\<lparr>ps_shown := sorted, ps_all := sorted\<rparr>)
               else s)
      in s\<lparr>ps_cursor := 0, ps_offset := 0\<rparr>)"

fun key_index :: "nat \<Rightarrow> gostring \<Rightarrow> picker_row list \<Rightarrow> nat option" where
  "key_index i k [] = None"
| "key_index i k (r # rs) = (if row_key r = k then Some i else key_index (Suc i) k rs)"

definition restoreCursor :: "gostring \<Rightarrow> picker_state \<Rightarrow> picker_state" where
  "restoreCursor k s =
     (if k = '''' then s\<lparr>ps_cursor := 0, ps_offset := 0\<rparr>
      else case key_index 0 k (ps_shown s) of
          Some i \<Rightarrow> scrollToCursor (s\<lparr>ps_cursor := int i\<rparr>)
        | None \<Rightarrow> s\<lparr>ps_cursor := 0, ps_offset := 0\<rparr>)"

definition cycleSort :: "bool \<Rightarrow> picker_state \<Rightarrow> picker_state" where
  "cycleSort forward s =
     (let s = s\<lparr>ps_sort := (if forward then next_mode (ps_sort s) else prev_mode (ps_sort s))\<rparr> in
      if ps_filter s \<noteq> '''' then
        s\<lparr>ps_notice := ''sort: '' @ sort_label (ps_sort s) @ '' (applies once the filter is cleared)''\<rparr>
      else
        let selected = (if ps_cursor s < int (length (ps_shown s))
                        then row_key (ps_shown s ! nat (ps_cursor s)) else '''');
            sorted = sortRows (ps_shown s) (ps_sort s)
        in restoreCursor selected (s\<lparr>ps_shown := sorted, ps_all := sorted\<rparr>))"

section \<open>Keystrokes\<close>

text \<open>\<open>utf8.DecodeLastRuneInString\<close>, its size: back to the last byte that can start a rune.\<close>

definition RuneStart :: "char \<Rightarrow> bool" where
  "RuneStart b \<longleftrightarrow> code b div 64 \<noteq> 2"

fun scan_back :: "bytes \<Rightarrow> nat \<Rightarrow> nat \<Rightarrow> nat" where
  "scan_back s lim 0 = 0"
| "scan_back s lim (Suc i) = (if Suc i \<le> lim then i else if RuneStart (s ! i) then i else scan_back s lim i)"

definition last_rune_size :: "bytes \<Rightarrow> nat" where
  "last_rune_size s =
     (if s = [] then 0
      else let end = length s; start = end - 1 in
        if code (s ! start) < 0x80 then 1
        else let start = scan_back s (end - 4) start; size = snd (decode_rune (drop start s)) in
          if start + size \<noteq> end then 1 else size)"

datatype picker_action = ActionNone | ActionQuit | ActionSelect

definition apply_key :: "(bytes \<Rightarrow> bytes) \<Rightarrow> key \<Rightarrow> picker_state \<Rightarrow> picker_action \<times> picker_state" where
  "apply_key U k s =
     (let s = s\<lparr>ps_notice := ''''\<rparr> in
      case k of
        KeyCtrlC \<Rightarrow> (ActionQuit, s)
      | KeyEnter \<Rightarrow>
          (if length (ps_shown s) = 0 then (ActionNone, s\<lparr>ps_notice := ''nothing matches the filter''\<rparr>)
           else let row = ps_shown s ! nat (ps_cursor s) in
             if \<not> isRunning row then
               (ActionNone, s\<lparr>ps_notice := pr_name row @ '' is '' @ row_status row @ '' and has no console''\<rparr>)
             else (ActionSelect, s))
      | KeyEsc \<Rightarrow> if ps_filter s \<noteq> '''' then (ActionNone, setFilter U '''' s) else (ActionQuit, s)
      | KeyUp \<Rightarrow> (ActionNone, move (-1) s)
      | KeyDown \<Rightarrow> (ActionNone, move 1 s)
      | KeyPageUp \<Rightarrow> (ActionNone, move (- listRows s) s)
      | KeyPageDown \<Rightarrow> (ActionNone, move (listRows s) s)
      | KeyHome \<Rightarrow> (ActionNone, move (- int (length (ps_shown s))) s)
      | KeyEnd \<Rightarrow> (ActionNone, move (int (length (ps_shown s))) s)
      | KeyBackspace \<Rightarrow>
          if ps_filter s = '''' then (ActionNone, s)
          else (ActionNone, setFilter U (take (length (ps_filter s) - last_rune_size (ps_filter s)) (ps_filter s)) s)
      | KeyCtrlU \<Rightarrow> (ActionNone, setFilter U '''' s)
      | KeyTab \<Rightarrow> (ActionNone, cycleSort True s)
      | KeyShiftTab \<Rightarrow> (ActionNone, cycleSort False s)
      | KeyLeft \<Rightarrow> (ActionNone, s)
      | KeyRight \<Rightarrow> (ActionNone, s)
      | KeyUnknown \<Rightarrow> (ActionNone, s)
      | KeyRune r \<Rightarrow>
          if r = 113 \<and> ps_filter s = '''' then (ActionQuit, s)
          else (ActionNone, setFilter U (ps_filter s @ encode_rune r) s))"

text \<open>A resize that arrives between two keystrokes.\<close>

definition resize_picker :: "int \<Rightarrow> int \<Rightarrow> picker_state \<Rightarrow> picker_state" where
  "resize_picker width height s = s\<lparr>ps_width := width, ps_height := height\<rparr>"

inductive picker_reachable :: "(bytes \<Rightarrow> bytes) \<Rightarrow> picker_row list \<Rightarrow> picker_state \<Rightarrow> bool"
  for U rows where
  start: "picker_reachable U rows (init_picker rows user width height)"
| keystroke: "picker_reachable U rows s \<Longrightarrow> apply_key U k s = (ActionNone, s') \<Longrightarrow> picker_reachable U rows s'"
| resize: "picker_reachable U rows s \<Longrightarrow> picker_reachable U rows (resize_picker width height s)"

section \<open>The cursor stays on a row\<close>

lemma listRows_pos: "3 \<le> listRows s"
  by (simp add: listRows_def minListRows_def Let_def)

definition cursor_ok :: "picker_state \<Rightarrow> bool" where
  "cursor_ok s \<longleftrightarrow> 0 \<le> ps_offset s \<and> ps_offset s \<le> ps_cursor s \<and>
     (if ps_shown s = [] then ps_cursor s = 0 else ps_cursor s < int (length (ps_shown s)))"

definition cursor_visible :: "picker_state \<Rightarrow> bool" where
  "cursor_visible s \<longleftrightarrow> ps_offset s \<le> ps_cursor s \<and> ps_cursor s < ps_offset s + listRows s"

lemma scroll_fields [simp]:
  "ps_shown (scrollToCursor s) = ps_shown s" "ps_all (scrollToCursor s) = ps_all s"
  "ps_filter (scrollToCursor s) = ps_filter s" "ps_cursor (scrollToCursor s) = ps_cursor s"
  "ps_sort (scrollToCursor s) = ps_sort s" "listRows (scrollToCursor s) = listRows s"
  by (simp_all add: scrollToCursor_def Let_def listRows_def)

lemma scroll_ok:
  assumes "0 \<le> ps_cursor s" "ps_cursor s < int (length (ps_shown s))"
  shows "cursor_ok (scrollToCursor s) \<and> cursor_visible (scrollToCursor s)"
proof -
  have "0 \<le> ps_offset (scrollToCursor s) \<and> ps_offset (scrollToCursor s) \<le> ps_cursor s \<and>
      ps_cursor s < ps_offset (scrollToCursor s) + listRows s"
    using assms listRows_pos [of s] by (auto simp: scrollToCursor_def Let_def)
  then show ?thesis using assms by (auto simp: cursor_ok_def cursor_visible_def)
qed

lemma top_ok: "cursor_ok (s\<lparr>ps_cursor := 0, ps_offset := 0\<rparr>)" "cursor_visible (s\<lparr>ps_cursor := 0, ps_offset := 0\<rparr>)"
  using listRows_pos [of "s\<lparr>ps_cursor := 0, ps_offset := 0\<rparr>"] by (simp_all add: cursor_ok_def cursor_visible_def)

lemma move_ok: "cursor_ok (move delta s) \<and> cursor_visible (move delta s)"
proof (cases "ps_shown s = []")
  case True
  then show ?thesis using top_ok by (simp add: move_def)
next
  case False
  then show ?thesis
    unfolding move_def Let_def using False by (auto intro!: scroll_ok)
qed

lemma key_index_range: "key_index i k rs = Some j \<Longrightarrow> i \<le> j \<and> j < i + length rs \<and> row_key (rs ! (j - i)) = k"
  by (induction rs arbitrary: i) (fastforce split: if_splits simp: nth_Cons')+

lemma restore_ok: "cursor_ok (restoreCursor k s) \<and> cursor_visible (restoreCursor k s)"
  using top_ok key_index_range [of 0 k "ps_shown s"]
  by (auto simp: restoreCursor_def intro!: scroll_ok split: option.split)

lemma setFilter_ok: "cursor_ok (setFilter U f s) \<and> cursor_visible (setFilter U f s)"
  unfolding setFilter_def Let_def using top_ok by simp

lemma restore_fields [simp]:
  "ps_shown (restoreCursor k s) = ps_shown s" "ps_all (restoreCursor k s) = ps_all s"
  "ps_filter (restoreCursor k s) = ps_filter s" "ps_sort (restoreCursor k s) = ps_sort s"
  by (simp_all add: restoreCursor_def split: option.split)

lemma move_fields [simp]:
  "ps_shown (move delta s) = ps_shown s" "ps_all (move delta s) = ps_all s"
  "ps_filter (move delta s) = ps_filter s"
  by (simp_all add: move_def Let_def)

definition picker_inv :: "(bytes \<Rightarrow> bytes) \<Rightarrow> picker_row list \<Rightarrow> picker_state \<Rightarrow> bool" where
  "picker_inv U rows s \<longleftrightarrow>
     mset (ps_all s) = mset rows \<and> ps_shown s = filterRows U (ps_all s) (ps_filter s) \<and> cursor_ok s"

lemma filterRows_blank [simp]: "filterRows U rows '''' = rows"
  by (simp add: filterRows_def trim_space_def)

lemma setFilter_inv: "mset (ps_all s) = mset rows \<Longrightarrow> picker_inv U rows (setFilter U f s)"
  using setFilter_ok [of U f s] by (auto simp: picker_inv_def setFilter_def Let_def)

lemma move_inv: "picker_inv U rows s \<Longrightarrow> picker_inv U rows (move delta s)"
  using move_ok by (simp add: picker_inv_def)

lemma cycleSort_inv:
  assumes "picker_inv U rows s"
  shows "picker_inv U rows (cycleSort fw s)"
proof (cases "ps_filter s = ''''")
  case True
  then show ?thesis using assms restore_ok by (simp add: picker_inv_def cycleSort_def Let_def)
next
  case False
  then show ?thesis using assms by (auto simp: picker_inv_def cycleSort_def Let_def cursor_ok_def split: if_splits)
qed

lemma notice_inv: "picker_inv U rows s \<Longrightarrow> picker_inv U rows (s\<lparr>ps_notice := t\<rparr>)"
  by (auto simp: picker_inv_def cursor_ok_def split: if_splits)

lemma picker_inv_mset: "picker_inv U rows s \<Longrightarrow> mset (ps_all s) = mset rows"
  by (simp add: picker_inv_def)

lemma apply_inv:
  assumes "picker_inv U rows s" "apply_key U k s = (a, s')"
  shows "picker_inv U rows s'"
proof -
  have n: "picker_inv U rows (s\<lparr>ps_notice := t\<rparr>)" for t using notice_inv [OF assms(1)] .
  then show ?thesis
    using assms(2) picker_inv_mset [OF assms(1)]
    by (cases k) (auto simp: apply_key_def Let_def n move_inv cycleSort_inv setFilter_inv split: if_splits)
qed

lemma resize_inv: "picker_inv U rows s \<Longrightarrow> picker_inv U rows (resize_picker width height s)"
  by (auto simp: picker_inv_def resize_picker_def cursor_ok_def split: if_splits)

lemma picker_reachable_inv: "picker_reachable U rows s \<Longrightarrow> picker_inv U rows s"
proof (induction rule: picker_reachable.induct)
  case (start user width height)
  then show ?case by (simp add: picker_inv_def init_picker_def cursor_ok_def)
qed (auto intro: apply_inv resize_inv)

lemma picker_reachable_sound:
  assumes "picker_reachable U rows s"
  shows "mset (ps_all s) = mset rows \<and> ps_shown s = filterRows U (ps_all s) (ps_filter s) \<and>
    0 \<le> ps_offset s \<and> ps_offset s \<le> ps_cursor s \<and>
    (if ps_shown s = [] then ps_cursor s = 0 else ps_cursor s < int (length (ps_shown s)))"
  using picker_reachable_inv [OF assms] by (auto simp: picker_inv_def cursor_ok_def split: if_splits)

text \<open>C39: In every state the picker can reach by keystrokes and resizes, no row was lost or
  duplicated, the list shown is the filtered list, and the cursor is on a row of it (at 0 when
  it is empty) that does not lie above the viewport.\<close>

theorem picker_state_sound:
  assumes "picker_reachable U rows s"
  shows "mset (ps_all s) = mset rows \<and> ps_shown s = filterRows U (ps_all s) (ps_filter s) \<and>
    0 \<le> ps_offset s \<and> ps_offset s \<le> ps_cursor s \<and>
    (if ps_shown s = [] then ps_cursor s = 0 else ps_cursor s < int (length (ps_shown s)))"
  using assms by (rule picker_reachable_sound)

lemma apply_visible:
  assumes "apply_key U k s = (ActionNone, s')" "cursor_visible s"
  shows "cursor_visible s'"
proof -
  have n: "cursor_visible (s\<lparr>ps_notice := t\<rparr>)" "listRows (s\<lparr>ps_notice := t\<rparr>) = listRows s" for t
    using assms(2) by (simp_all add: cursor_visible_def listRows_def)
  have c: "cursor_visible (cycleSort fw (s\<lparr>ps_notice := ''''\<rparr>))" for fw
  proof (cases "ps_filter s = ''''")
    case True
    then show ?thesis by (simp add: cycleSort_def Let_def restore_ok)
  next
    case False
    then show ?thesis using assms(2) by (simp add: cycleSort_def Let_def cursor_visible_def listRows_def)
  qed
  show ?thesis
    using assms(1) by (cases k) (auto simp: apply_key_def Let_def n c move_ok setFilter_ok split: if_splits)
qed

text \<open>The window is not scrolled on a resize: shrinking it can hide the selected row.\<close>

lemma resize_hides_cursor:
  assumes "ps_cursor s = 20" "ps_offset s = 0"
  shows "\<not> cursor_visible (resize_picker 80 10 s)"
  using assms by (simp add: cursor_visible_def resize_picker_def listRows_def reservedRows_def minListRows_def)

section \<open>Selecting\<close>

lemma filterRows_from:
  assumes "r \<in> set (filterRows U rows f)"
  shows "unscored r \<in> unscored ` set rows \<and> (trim_space f \<noteq> '''' \<longrightarrow> row_matches U (trim_space f) r)"
proof (cases "trim_space f = ''''")
  case True
  then show ?thesis using assms by (simp add: filterRows_def)
next
  case False
  have "unscored r \<in> set (map unscored (filterRows U rows f))" using assms by simp
  also have "\<dots> = set (map unscored (filter (row_matches U (trim_space f)) rows))"
    using filter_shows [OF False, of U rows] by (metis set_mset_mset)
  finally obtain q where q: "q \<in> set rows" "row_matches U (trim_space f) q" "unscored r = unscored q" by auto
  have "pr_fields r = pr_fields q" using arg_cong [OF q(3), of pr_fields] by (simp add: unscored_def)
  then show ?thesis using q by (auto simp: row_matches_def)
qed

text \<open>Enter picks a row of the list. When the picker reports a selection, the cursor is inside
  the list, the row under it is one of the rows the session may reach, matches the filter typed,
  and is a node or a running guest: a stopped guest is never connected to.\<close>

theorem selected_row_runs:
  assumes "picker_reachable U rows s" and "apply_key U k s = (ActionSelect, s')"
  shows "0 \<le> ps_cursor s' \<and> ps_cursor s' < int (length (ps_shown s')) \<and>
    (let row = ps_shown s' ! nat (ps_cursor s') in
     isRunning row \<and> unscored row \<in> unscored ` set rows \<and>
     (trim_space (ps_filter s) \<noteq> '''' \<longrightarrow> row_matches U (trim_space (ps_filter s)) row))"
proof -
  have inv: "mset (ps_all s) = mset rows" "ps_shown s = filterRows U (ps_all s) (ps_filter s)"
      "0 \<le> ps_cursor s" "ps_shown s \<noteq> [] \<Longrightarrow> ps_cursor s < int (length (ps_shown s))"
    using picker_reachable_sound [OF assms(1)] by (auto split: if_splits)
  have s': "s' = s\<lparr>ps_notice := ''''\<rparr>" "ps_shown s \<noteq> []" "isRunning (ps_shown s ! nat (ps_cursor s))"
    using assms(2) by (cases k; simp add: apply_key_def Let_def split: if_splits)+
  let ?row = "ps_shown s ! nat (ps_cursor s)"
  have "?row \<in> set (filterRows U (ps_all s) (ps_filter s))"
    using inv(2) inv(3) inv(4) [OF s'(2)] by (metis nat_less_iff nth_mem)
  then have "unscored ?row \<in> unscored ` set (ps_all s)"
      "trim_space (ps_filter s) \<noteq> '''' \<longrightarrow> row_matches U (trim_space (ps_filter s)) ?row"
    using filterRows_from by blast+
  moreover have "set (ps_all s) = set rows" using inv(1) by (metis set_mset_mset)
  ultimately show ?thesis using s' inv(3,4) by (simp add: Let_def)
qed

section \<open>Sorting keeps the selection\<close>

lemma key_index_found: "k \<in> row_key ` set rs \<Longrightarrow> \<exists>j. key_index i k rs = Some j"
  by (induction rs arbitrary: i) auto

text \<open>Tab and Shift+Tab move the cursor with its row: after the reorder it is on the row with the
  same key, and that row is inside the viewport.\<close>

theorem tab_keeps_selection:
  assumes "picker_reachable U rows s" and "ps_filter s = ''''" and "ps_shown s \<noteq> []"
    and "\<forall>r\<in>set rows. row_key r \<noteq> ''''"
  shows "row_key (ps_shown (cycleSort fw s) ! nat (ps_cursor (cycleSort fw s))) = row_key (ps_shown s ! nat (ps_cursor s)) \<and>
    cursor_visible (cycleSort fw s)"
proof -
  have inv: "mset (ps_all s) = mset rows" "ps_shown s = ps_all s" "0 \<le> ps_cursor s"
      "ps_cursor s < int (length (ps_shown s))"
    using picker_reachable_sound [OF assms(1)] assms(2,3) by (auto split: if_splits)
  let ?m = "if fw then next_mode (ps_sort s) else prev_mode (ps_sort s)"
  let ?k = "row_key (ps_shown s ! nat (ps_cursor s))"
  let ?t = "s\<lparr>ps_sort := ?m, ps_shown := sortRows (ps_shown s) ?m, ps_all := sortRows (ps_shown s) ?m\<rparr>"
  have c: "cycleSort fw s = restoreCursor ?k ?t"
    using assms(2) inv(4) by (simp add: cycleSort_def Let_def)
  have row: "ps_shown s ! nat (ps_cursor s) \<in> set (ps_shown s)"
    using inv(3,4) by (metis nat_less_iff nth_mem)
  then have "?k \<noteq> ''''" using assms(4) inv(1,2) by (metis set_mset_mset)
  obtain j where j: "key_index 0 ?k (ps_shown ?t) = Some j"
    using key_index_found [of ?k "ps_shown ?t" 0] row by auto
  have "row_key (ps_shown ?t ! j) = ?k" using key_index_range [OF j] by simp
  then show ?thesis
    using c j \<open>?k \<noteq> ''''\<close> restore_ok [of ?k ?t] by (simp add: restoreCursor_def)
qed

lemma picker_keys_nonempty: "r \<in> set (newPickerRows guests nodes) \<Longrightarrow> row_key r \<noteq> ''''"
  by (auto simp: newPickerRows_def row_key_def Let_def)

lemma mset_map_sort: "mset (map f (sortRows rows mode)) = mset (map f rows)"
  by simp

lemma picker_keys_distinct:
  assumes "distinct (map (g_id \<circ> gi_guest) guests)" "distinct (map in_id nodes)"
  shows "distinct (map row_key (newPickerRows guests nodes))"
proof -
  let ?gs = "map (\<lambda>i. ''g:'' @ itoa (g_id (gi_guest i))) guests" and ?ns = "map (\<lambda>i. ''n:'' @ itoa (in_id i)) nodes"
  have "distinct (?gs @ ?ns)"
    using assms by (auto simp: distinct_map inj_on_def itoa_inj comp_def)
  moreover have "mset (map row_key (newPickerRows guests nodes)) = mset (?gs @ ?ns)"
    by (simp only: newPickerRows_def mset_map_sort) (simp add: row_key_def Let_def comp_def)
  ultimately show ?thesis by (metis mset_eq_imp_distinct_iff)
qed

section \<open>Editing the filter\<close>

lemma continuation: "b < 64 \<Longrightarrow> \<not> RuneStart (char_of (0x80 + b))" "b < 64 \<Longrightarrow> code (char_of (0x80 + b)) = 0x80 + b"
proof -
  assume b: "b < (64::nat)"
  then show c: "code (char_of (0x80 + b)) = 0x80 + b" by (intro code_char_of) simp
  have "(0x80 + b) div 64 = 2" using b by simp
  then show "\<not> RuneStart (char_of (0x80 + b))" by (simp only: RuneStart_def c)
qed

lemma scan_back_to:
  "p < n \<Longrightarrow> lim \<le> p \<Longrightarrow> RuneStart (s ! p) \<Longrightarrow> \<forall>i. p < i \<longrightarrow> i < n \<longrightarrow> \<not> RuneStart (s ! i) \<Longrightarrow>
   scan_back s lim n = p"
proof (induction s lim n rule: scan_back.induct)
  case (2 s lim i)
  show ?case
  proof (cases "i = p")
    case True
    then show ?thesis using 2 by simp
  next
    case False
    then show ?thesis using 2 by simp
  qed
qed simp

lemma encode_shape:
  assumes "valid_rune r" "0x80 \<le> r"
  obtains b cs where "encode_rune r = b # cs" "cs \<noteq> []" "length cs \<le> 3" "RuneStart b"
    "\<forall>c\<in>set cs. \<not> RuneStart c \<and> 0x80 \<le> code c"
proof -
  have cont: "\<not> RuneStart (char_of (0x80 + x mod 64)) \<and> 0x80 \<le> code (char_of (0x80 + x mod 64))" for x :: nat
    using continuation [of "x mod 64"] by simp
  have lead: "RuneStart (char_of (0xC0 + x))" if "x < 64" for x :: nat
  proof -
    have c: "code (char_of (0xC0 + x)) = 0xC0 + x" using that by (intro code_char_of) simp
    have "(0xC0 + x) div 64 = 3" using that by simp
    then show ?thesis by (simp only: RuneStart_def c)
  qed
  consider "r < 0x800" | "0x800 \<le> r" "r < 0x10000" | "0x10000 \<le> r" by linarith
  then show ?thesis
  proof cases
    case 1
    then have "encode_rune r = [char_of (0xC0 + r div 64), char_of (0x80 + r mod 64)]" "r div 64 < 64"
      using assms by (simp_all add: encode_rune_def)
    then show ?thesis using that cont [of r] lead [of "r div 64"] by simp
  next
    case 2
    then have "encode_rune r = [char_of (0xC0 + (0x20 + r div 4096)), char_of (0x80 + r div 64 mod 64), char_of (0x80 + r mod 64)]"
        "0x20 + r div 4096 < 64"
      using assms by (simp_all add: encode_rune_def)
    then show ?thesis using that cont [of r] cont [of "r div 64"] lead [of "0x20 + r div 4096"] by simp
  next
    case 3
    then have "encode_rune r = [char_of (0xC0 + (0x30 + r div 262144)), char_of (0x80 + r div 4096 mod 64),
          char_of (0x80 + r div 64 mod 64), char_of (0x80 + r mod 64)]" "0x30 + r div 262144 < 64"
      using assms by (simp_all add: encode_rune_def valid_rune_def)
    then show ?thesis
      using that cont [of r] cont [of "r div 64"] cont [of "r div 4096"] lead [of "0x30 + r div 262144"] by simp
  qed
qed

lemma last_rune_typed:
  assumes "valid_rune r"
  shows "last_rune_size (f @ encode_rune r) = length (encode_rune r)"
proof (cases "r < 0x80")
  case True
  then show ?thesis by (simp add: encode_rune_def last_rune_size_def nth_append)
next
  case False
  obtain b cs where e: "encode_rune r = b # cs" "cs \<noteq> []" "length cs \<le> 3" "RuneStart b"
      "\<forall>c\<in>set cs. \<not> RuneStart c \<and> 0x80 \<le> code c"
    using encode_shape [OF assms] False by auto
  let ?s = "f @ b # cs"
  have conts: "\<not> RuneStart (?s ! i) \<and> 0x80 \<le> code (?s ! i)" if "length f < i" "i < length ?s" for i
  proof -
    have "?s ! i = cs ! (i - Suc (length f))" using that by (simp add: nth_append nth_Cons')
    moreover have "cs ! (i - Suc (length f)) \<in> set cs" using that by (intro nth_mem) auto
    ultimately show ?thesis using e(5) by simp
  qed
  have "scan_back ?s (length ?s - 4) (length ?s - 1) = length f"
    by (rule scan_back_to) (use e conts in \<open>auto simp: nth_append\<close>)
  moreover have "0x80 \<le> code (?s ! (length ?s - 1))" using conts [of "length ?s - 1"] e(2) by simp
  moreover have "decode_rune (b # cs) = (r, Suc (length cs))"
    using decode_encode_rune [OF assms, of "[]"] e(1) by simp
  ultimately show ?thesis
    unfolding last_rune_size_def by (simp add: e(1) Let_def)
qed

text \<open>Backspace removes what was typed. After any valid rune is typed into the filter, Backspace
  leaves the filter as it was, byte for byte.\<close>

theorem backspace_undoes_typing:
  assumes "valid_rune r" and "\<not> (r = 113 \<and> ps_filter s = '''')"
  shows "ps_filter (snd (apply_key U KeyBackspace (snd (apply_key U (KeyRune r) s)))) = ps_filter s"
proof -
  have "encode_rune r \<noteq> []" by (simp add: encode_rune_def)
  then show ?thesis
    using assms last_rune_typed [OF assms(1), of "ps_filter s"]
    by (simp add: apply_key_def Let_def setFilter_def)
qed

section \<open>Concrete runs\<close>

definition picker_start :: picker_state where
  "picker_start = init_picker demo_picker ''ann'' 80 24"

lemma picker_start_reachable: "picker_reachable U demo_picker picker_start"
  unfolding picker_start_def by (rule picker_reachable.start)

lemmas demo_picker_defs = picker_start_def init_picker_def demo_picker_def demo_ct_def

theorem picker_state_sound_witness:
  "mset (ps_all picker_start) = mset demo_picker \<and> 0 \<le> ps_cursor picker_start"
  using picker_state_sound [OF picker_start_reachable [of id]] by (simp split: if_splits)

theorem selected_row_runs_witness:
  "isRunning (ps_shown picker_start ! 0)"
proof -
  have "isRunning (demo_picker ! 0)" "demo_picker \<noteq> []"
    by (simp_all add: demo_picker_def demo_ct_def isRunning_def isNode_def StatusRunning_def)
  then have "apply_key id KeyEnter picker_start = (ActionSelect, picker_start\<lparr>ps_notice := ''''\<rparr>)"
    by (simp add: apply_key_def picker_start_def init_picker_def)
  from selected_row_runs [OF picker_start_reachable this] show ?thesis
    by (simp add: Let_def picker_start_def init_picker_def)
qed

theorem tab_keeps_selection_witness:
  "row_key (ps_shown (cycleSort True picker_start) ! nat (ps_cursor (cycleSort True picker_start))) = ''g:2''"
proof -
  have "row_key (ps_shown picker_start ! nat (ps_cursor picker_start)) = ''g:2''"
    by (simp add: demo_picker_defs row_key_def itoa_def nat_digits.simps digit_char_def)
  moreover have "\<forall>r\<in>set demo_picker. row_key r \<noteq> ''''"
    by (simp add: demo_picker_defs row_key_def)
  ultimately show ?thesis
    using tab_keeps_selection [OF picker_start_reachable [of id], of True] by (simp add: demo_picker_defs)
qed

theorem backspace_undoes_typing_witness:
  "ps_filter (snd (apply_key id KeyBackspace (snd (apply_key id (KeyRune 0x20AC) picker_start)))) = ''''"
  using backspace_undoes_typing [of "0x20AC" picker_start id]
  by (simp add: valid_rune_def picker_start_def init_picker_def)

end
