(* ===== verification/GoJson.thy ===== *)
theory GoJson
  imports Keys
begin

text \<open>
  The JSON the program exchanges: values, \<open>json.Marshal\<close> (HTML escaping, U+2028 and U+2029
  escaped, bytes that are not UTF-8 replaced by U+FFFD) and \<open>json.Unmarshal\<close> with its field
  lookup by exact name, then by folded name. Numbers that are not integers are kept as text;
  the decoder's nesting limit is not modelled.
\<close>

section \<open>Values\<close>

datatype jval =
    VNull
  | VBool bool
  | VInt int
  | VFloat gostring
  | VStr gostring
  | VArr "jval list"
  | VObj "(gostring \<times> jval) list"

section \<open>Encoding\<close>

definition hex_char :: "nat \<Rightarrow> char" where
  "hex_char n = ''0123456789abcdef'' ! n"

definition json_u :: "nat \<Rightarrow> gostring" where
  "json_u n = [CHR 0x5C, CHR ''u'', hex_char (n div 4096), hex_char (n div 256 mod 16),
               hex_char (n div 16 mod 16), hex_char (n mod 16)]"

fun json_esc :: "nat \<times> bytes \<Rightarrow> gostring" where
  "json_esc (r, bs) =
     (if r < 0x80 then
        if r = 0x22 \<or> r = 0x5C then [CHR 0x5C, char_of r]
        else if r = 0x08 then [CHR 0x5C, CHR ''b'']
        else if r = 0x0C then [CHR 0x5C, CHR ''f'']
        else if r = 0x0A then [CHR 0x5C, CHR ''n'']
        else if r = 0x0D then [CHR 0x5C, CHR ''r'']
        else if r = 0x09 then [CHR 0x5C, CHR ''t'']
        else if r < 0x20 \<or> r = 0x3C \<or> r = 0x3E \<or> r = 0x26 then json_u r
        else bs
      else if r = rune_error \<and> length bs = 1 then json_u rune_error
      else if r = 0x2028 \<or> r = 0x2029 then json_u r
      else bs)"

definition json_string :: "bytes \<Rightarrow> gostring" where
  "json_string s = CHR 0x22 # concat (map json_esc (segments s)) @ [CHR 0x22]"

fun json_marshal :: "jval \<Rightarrow> gostring" where
  "json_marshal VNull = ''null''"
| "json_marshal (VBool b) = (if b then ''true'' else ''false'')"
| "json_marshal (VInt i) = itoa i"
| "json_marshal (VFloat s) = s"
| "json_marshal (VStr s) = json_string s"
| "json_marshal (VArr vs) = CHR ''['' # go_join [CHR '',''] (map json_marshal vs) @ [CHR '']'']"
| "json_marshal (VObj m) = CHR ''{'' #
     go_join [CHR '',''] (map (\<lambda>(k, v). json_string k @ CHR '':'' # json_marshal v) m) @ [CHR ''}'']"

section \<open>Decoding\<close>

definition hex_value :: "char \<Rightarrow> nat option" where
  "hex_value c =
     (if is_digit c then Some (code c - 48)
      else if 97 \<le> code c \<and> code c \<le> 102 then Some (code c - 87)
      else if 65 \<le> code c \<and> code c \<le> 70 then Some (code c - 55)
      else None)"

fun hex4 :: "bytes \<Rightarrow> (nat \<times> bytes) option" where
  "hex4 (a # b # c # d # rest) =
     (case (hex_value a, hex_value b, hex_value c, hex_value d) of
        (Some w, Some x, Some y, Some z) \<Rightarrow> Some (w * 4096 + x * 256 + y * 16 + z, rest)
      | _ \<Rightarrow> None)"
| "hex4 _ = None"

text \<open>\<open>utf16.DecodeRune\<close> of a surrogate with the escape that may follow it.\<close>

definition low_surrogate :: "nat \<Rightarrow> bytes \<Rightarrow> nat \<times> bytes" where
  "low_surrogate hi cs =
     (if take 2 cs = [CHR 0x5C, CHR ''u''] then
        (case hex4 (drop 2 cs) of
           Some (lo, rest) \<Rightarrow>
             if hi < 0xDC00 \<and> 0xDC00 \<le> lo \<and> lo < 0xE000
             then ((hi - 0xD800) * 1024 + (lo - 0xDC00) + 0x10000, rest)
             else (rune_error, cs)
         | None \<Rightarrow> (rune_error, cs))
      else (rune_error, cs))"

fun unescape :: "bytes \<Rightarrow> (bytes \<times> bytes) option" where
  "unescape [] = None"
| "unescape (e # cs) =
     (if e = CHR 0x22 \<or> e = CHR 0x5C \<or> e = CHR ''/'' then Some ([e], cs)
      else if e = CHR ''b'' then Some ([CHR 0x08], cs)
      else if e = CHR ''f'' then Some ([CHR 0x0C], cs)
      else if e = CHR ''n'' then Some ([CHR 0x0A], cs)
      else if e = CHR ''r'' then Some ([CHR 0x0D], cs)
      else if e = CHR ''t'' then Some ([CHR 0x09], cs)
      else if e = CHR ''u'' then
        (case hex4 cs of
           None \<Rightarrow> None
         | Some (r, rest) \<Rightarrow>
             if 0xD800 \<le> r \<and> r < 0xE000
             then (let (x, rest') = low_surrogate r rest in Some (encode_rune x, rest'))
             else Some (encode_rune r, rest))
      else None)"

lemma hex4_length: "hex4 cs = Some (r, rest) \<Longrightarrow> length rest < length cs"
  by (induction cs rule: hex4.induct) (auto split: option.splits)

lemma low_surrogate_length: "length (snd (low_surrogate r cs)) \<le> length cs"
  by (auto simp: low_surrogate_def split: option.splits dest!: hex4_length)

lemma unescape_length: "unescape cs = Some (b, rest) \<Longrightarrow> length rest < length cs"
proof (induction cs)
  case (Cons e cs)
  have "length (snd (low_surrogate r rest')) < Suc (length cs)" if "hex4 cs = Some (r, rest')" for r rest'
    using low_surrogate_length [of r rest'] hex4_length [OF that] by simp
  then show ?case using Cons.prems hex4_length [of cs]
    by (fastforce split: if_splits option.splits prod.splits)
qed simp

function unquote :: "bytes \<Rightarrow> (bytes \<times> bytes) option" where
  "unquote [] = None"
| "unquote (c # cs) =
     (if c = CHR 0x22 then Some ([], cs)
      else if c = CHR 0x5C then
        (case unescape cs of
           None \<Rightarrow> None
         | Some (b, rest) \<Rightarrow> map_option (\<lambda>(s, t). (b @ s, t)) (unquote rest))
      else if code c < 0x20 then None
      else (case decode_rune (c # cs) of
              (r, n) \<Rightarrow> map_option (\<lambda>(s, t). (encode_rune r @ s, t)) (unquote (drop n (c # cs)))))"
  by pat_completeness auto
termination
proof (relation "measure length", goal_cases)
  case (2 c cs x b rest)
  then show ?case using unescape_length [of cs b rest] by simp
next
  case (3 c cs r n)
  then have "1 \<le> n" using decode_rune_size [of "c # cs"] by (metis list.distinct(1) snd_conv)
  then show ?case by simp
qed simp

definition is_ws :: "char \<Rightarrow> bool" where
  "is_ws c = (c = CHR 0x20 \<or> c = CHR 0x09 \<or> c = CHR 0x0A \<or> c = CHR 0x0D)"

definition skip_ws :: "bytes \<Rightarrow> bytes" where
  "skip_ws s = dropWhile is_ws s"

text \<open>The fraction and the exponent of a number, as text.\<close>

definition scan_frac :: "bytes \<Rightarrow> (gostring \<times> bytes) option" where
  "scan_frac s =
     (case s of
        [] \<Rightarrow> Some ([], s)
      | c # t \<Rightarrow>
          if c = CHR ''.'' then
            (if takeWhile is_digit t = [] then None
             else Some (c # takeWhile is_digit t, dropWhile is_digit t))
          else Some ([], s))"

definition scan_exp :: "bytes \<Rightarrow> (gostring \<times> bytes) option" where
  "scan_exp s =
     (case s of
        [] \<Rightarrow> Some ([], s)
      | c # t \<Rightarrow>
          if c = CHR ''e'' \<or> c = CHR ''E'' then
            (let sg = (case t of [] \<Rightarrow> [] | d # _ \<Rightarrow> if d = CHR ''+'' \<or> d = CHR ''-'' then [d] else []);
                 u = drop (length sg) t
             in if takeWhile is_digit u = [] then None
                else Some (c # sg @ takeWhile is_digit u, dropWhile is_digit u))
          else Some ([], s))"

definition parse_number :: "bytes \<Rightarrow> (jval \<times> bytes) option" where
  "parse_number s =
     (let sg = (if take 1 s = ''-'' then ''-'' else []);
          t = drop (length sg) s;
          ds = takeWhile is_digit t
      in if ds = [] \<or> (hd ds = CHR ''0'' \<and> length ds > 1) then None
         else (case scan_frac (dropWhile is_digit t) of
                 None \<Rightarrow> None
               | Some (fr, u) \<Rightarrow>
                   (case scan_exp u of
                      None \<Rightarrow> None
                    | Some (ex, rest) \<Rightarrow>
                        Some (if fr = [] \<and> ex = []
                              then VInt (if sg = [] then int (digits_value ds) else - int (digits_value ds))
                              else VFloat (sg @ ds @ fr @ ex), rest))))"

text \<open>
  The parser, with fuel: every call consumes a byte, so the length of the text is enough.
\<close>

fun parse_value :: "nat \<Rightarrow> bytes \<Rightarrow> (jval \<times> bytes) option"
  and parse_elems :: "nat \<Rightarrow> bytes \<Rightarrow> (jval list \<times> bytes) option"
  and parse_members :: "nat \<Rightarrow> bytes \<Rightarrow> ((gostring \<times> jval) list \<times> bytes) option" where
  "parse_value 0 s = None"
| "parse_value (Suc k) s =
     (case skip_ws s of
        [] \<Rightarrow> None
      | c # t \<Rightarrow>
          if c = CHR 0x22 then map_option (\<lambda>(v, r). (VStr v, r)) (unquote t)
          else if c = CHR ''['' then
            (case skip_ws t of
               [] \<Rightarrow> None
             | d # u \<Rightarrow> if d = CHR '']'' then Some (VArr [], u)
                        else map_option (\<lambda>(vs, r). (VArr vs, r)) (parse_elems k (d # u)))
          else if c = CHR ''{'' then
            (case skip_ws t of
               [] \<Rightarrow> None
             | d # u \<Rightarrow> if d = CHR ''}'' then Some (VObj [], u)
                        else map_option (\<lambda>(m, r). (VObj m, r)) (parse_members k (d # u)))
          else if has_prefix ''null'' (c # t) then Some (VNull, drop 3 t)
          else if has_prefix ''true'' (c # t) then Some (VBool True, drop 3 t)
          else if has_prefix ''false'' (c # t) then Some (VBool False, drop 4 t)
          else parse_number (c # t))"
| "parse_elems 0 s = None"
| "parse_elems (Suc k) s =
     (case parse_value k s of
        None \<Rightarrow> None
      | Some (v, r) \<Rightarrow>
          (case skip_ws r of
             [] \<Rightarrow> None
           | c # t \<Rightarrow>
               if c = CHR '','' then map_option (\<lambda>(vs, u). (v # vs, u)) (parse_elems k t)
               else if c = CHR '']'' then Some ([v], t)
               else None))"
| "parse_members 0 s = None"
| "parse_members (Suc k) s =
     (case skip_ws s of
        [] \<Rightarrow> None
      | q # t \<Rightarrow>
          if q \<noteq> CHR 0x22 then None
          else (case unquote t of
                  None \<Rightarrow> None
                | Some (key, r) \<Rightarrow>
                    (case skip_ws r of
                       [] \<Rightarrow> None
                     | c # t' \<Rightarrow>
                         if c \<noteq> CHR '':'' then None
                         else (case parse_value k t' of
                                 None \<Rightarrow> None
                               | Some (v, r') \<Rightarrow>
                                   (case skip_ws r' of
                                      [] \<Rightarrow> None
                                    | e # u \<Rightarrow>
                                        if e = CHR '','' then map_option (\<lambda>(m, w). ((key, v) # m, w)) (parse_members k u)
                                        else if e = CHR ''}'' then Some ([(key, v)], u)
                                        else None)))))"

definition parse_json :: "bytes \<Rightarrow> jval option" where
  "parse_json s =
     (case parse_value (Suc (length s)) s of
        Some (v, r) \<Rightarrow> if skip_ws r = [] then Some v else None
      | None \<Rightarrow> None)"

section \<open>Strings survive\<close>

text \<open>What is left of a byte string after a round trip: the encoding of its runes.\<close>

definition utf8_clean :: "bytes \<Rightarrow> bytes" where
  "utf8_clean s = concat (map encode_rune (runes s))"

lemma hex_value_chars: "list_all (\<lambda>d. hex_value (hex_char d) = Some d) [0..<16]"
  by code_simp

lemma hex_value_char: "d < 16 \<Longrightarrow> hex_value (hex_char d) = Some d"
  using hex_value_chars by (simp add: list_all_iff)

lemma hex4_json_u:
  assumes "r < 0x10000"
  shows "hex4 (drop 2 (json_u r) @ rest) = Some (r, rest)"
proof -
  define x where "x = r div 16"
  define y where "y = x div 16"
  have e: "r div 256 = y" "r div 4096 = y div 16" "r div 16 = x"
    by (simp_all add: x_def y_def div_mult2_eq [symmetric])
  have q: "x * 16 + r mod 16 = r" "y * 16 + x mod 16 = x" "y div 16 * 16 + y mod 16 = y"
    by (simp_all add: x_def y_def)
  have "y div 16 < 16" using q assms by linarith
  moreover have "y div 16 * 4096 + y mod 16 * 256 + x mod 16 * 16 + r mod 16 = r" using q by linarith
  ultimately show ?thesis by (simp add: json_u_def hex_value_char e)
qed

lemma decode_tail_ge: "decode_tail acc lo hi k bs = Some r \<Longrightarrow> acc * 64 ^ k \<le> r"
  by (induction acc lo hi k bs rule: decode_tail.induct) (auto split: if_splits simp: algebra_simps)

lemma decode_tail_second:
  assumes "decode_tail 0 lo hi (Suc k) bs = Some r" "0x80 \<le> lo" "hi \<le> 0xBF"
  shows "(lo - 0x80) * 64 ^ k \<le> r"
proof -
  obtain c cs where bs: "bs = c # cs" using assms(1) by (cases bs) auto
  have c: "lo \<le> code c" "code c \<le> hi" "decode_tail (code c mod 64) 0x80 0xBF k cs = Some r"
    using assms(1) bs by (auto split: if_splits)
  define d where "d = code c - 0x80"
  have d: "code c = 64 * 2 + d" "d < 64" "lo - 0x80 \<le> d" using c assms(2,3) unfolding d_def by linarith+
  have "decode_tail d 0x80 0xBF k cs = Some r" using c(3) unfolding d(1) add_multiple_mod [OF d(2)] .
  then have "d * 64 ^ k \<le> r" by (rule decode_tail_ge)
  moreover have "(lo - 0x80) * 64 ^ k \<le> d * 64 ^ k" using d(3) by (rule mult_le_mono1)
  ultimately show ?thesis by (rule le_trans [rotated])
qed

lemma utf8_lead_acc:
  assumes "utf8_lead x = Some (sz, lo, hi)"
  shows "sz \<in> {2, 3, 4} \<and> 0x80 \<le> lo \<and> hi \<le> 0xBF \<and>
    (2 \<le> x mod 2 ^ (7 - sz) \<or> sz \<noteq> 2 \<and> (1 \<le> x mod 2 ^ (7 - sz) \<or> 0x90 \<le> lo))"
proof -
  have "2 \<le> x mod 32" if "0xC2 \<le> x" "x \<le> 0xDF"
    using that add_multiple_mod [of "x - 0xC0" 32 6] by simp
  moreover have "1 \<le> x mod 16" if "0xE1 \<le> x" "x \<le> 0xEF"
    using that add_multiple_mod [of "x - 0xE0" 16 14] by simp
  moreover have "1 \<le> x mod 8" if "0xF1 \<le> x" "x \<le> 0xF4"
    using that add_multiple_mod [of "x - 0xF0" 8 30] by simp
  ultimately show ?thesis using assms by (auto simp: utf8_lead_def split: if_splits)
qed

lemma decode_rune_ascii:
  assumes "decode_rune (b # bs) = (r, n)" "r < 0x80"
  shows "code b = r \<and> n = 1"
proof (rule ccontr)
  assume *: "\<not> ?thesis"
  then have "0x80 \<le> code b" using assms(1) by (auto split: if_splits)
  then obtain sz lo hi where l: "utf8_lead (code b) = Some (sz, lo, hi)"
      "decode_tail (code b mod 2 ^ (7 - sz)) lo hi (sz - 1) bs = Some r"
    using assms by (auto split: option.splits simp: rune_error_def)
  define acc where "acc = code b mod 2 ^ (7 - sz)"
  have a: "sz \<in> {2, 3, 4}" "0x80 \<le> lo" "hi \<le> 0xBF"
      "2 \<le> acc \<or> sz \<noteq> 2 \<and> (1 \<le> acc \<or> 0x90 \<le> lo)"
    using utf8_lead_acc [OF l(1)] by (simp_all add: acc_def)
  note t = l(2) [folded acc_def]
  have "128 \<le> r"
  proof (cases "acc = 0")
    case True
    then have z: "sz \<in> {3, 4}" "0x90 \<le> lo" using a by auto
    then obtain k where k: "sz - 1 = Suc k" "1 \<le> k" by fastforce
    have "(lo - 0x80) * 64 ^ k \<le> r" using decode_tail_second t True a k by simp
    moreover have "(64::nat) ^ 1 \<le> 64 ^ k" using k by (intro power_increasing) auto
    then have "16 * 64 \<le> (lo - 0x80) * 64 ^ k" using z by (intro mult_le_mono) auto
    ultimately show ?thesis by linarith
  next
    case False
    have "acc * 64 ^ (sz - 1) \<le> r" using decode_tail_ge [OF t] .
    moreover have "2 * 64 \<le> acc * 64 ^ (sz - 1)"
    proof (cases "sz = 2")
      case True
      then show ?thesis using a by simp
    next
      case sz: False
      have "1 * (64::nat) ^ 2 \<le> acc * 64 ^ (sz - 1)" using sz False a by (intro mult_le_mono power_increasing) auto
      then show ?thesis by simp
    qed
    ultimately show ?thesis by linarith
  qed
  then show False using assms(2) by simp
qed

lemma decode_rune_extend:
  assumes "decode_rune xs = (r, length xs)" "xs \<noteq> []" "\<not> (r = rune_error \<and> length xs = 1)"
  shows "decode_rune (xs @ ys) = (r, length xs)"
proof -
  obtain b bs where xs: "xs = b # bs" using assms by (cases xs) auto
  show ?thesis
    using assms xs by (auto simp: decode_tail_append split: if_splits option.splits prod.splits dest: utf8_lead_range)
qed

lemma encode_rune_ascii: "r < 0x80 \<Longrightarrow> encode_rune r = [char_of r]"
  by (simp add: encode_rune_def)

lemma unquote_json_u:
  assumes "r < 0x10000" "\<not> (0xD800 \<le> r \<and> r < 0xE000)"
  shows "unquote (json_u r @ rest) = map_option (\<lambda>(s, t). (encode_rune r @ s, t)) (unquote rest)"
proof -
  have "unescape (CHR ''u'' # drop 2 (json_u r) @ rest) = Some (encode_rune r, rest)"
    using assms by (auto simp: hex4_json_u)
  then have "unquote (CHR 0x5C # CHR ''u'' # drop 2 (json_u r) @ rest) =
      map_option (\<lambda>(s, t). (encode_rune r @ s, t)) (unquote rest)"
    by (simp del: unescape.simps)
  moreover have "json_u r @ rest = CHR 0x5C # CHR ''u'' # drop 2 (json_u r) @ rest" by (simp add: json_u_def)
  ultimately show ?thesis by (simp only:)
qed

lemma unquote_raw:
  assumes "decode_rune bs = (r, length bs)" "bs \<noteq> []" "\<not> (r = rune_error \<and> length bs = 1)"
    and "r \<ge> 0x20" "r \<noteq> 0x22" "r \<noteq> 0x5C"
  shows "unquote (bs @ rest) = map_option (\<lambda>(s, t). (encode_rune r @ s, t)) (unquote rest)"
proof -
  obtain c cs where bs: "bs = c # cs" using assms by (cases bs) auto
  have d: "decode_rune (c # cs @ rest) = (r, length bs)"
    using decode_rune_extend [OF assms(1-3), of rest] bs by simp
  have c: "code c \<ge> 0x20" "c \<noteq> CHR 0x22" "c \<noteq> CHR 0x5C"
    using d assms(4-6) by (auto split: if_splits)
  show ?thesis using c d by (simp add: bs del: decode_rune.simps)
qed

lemma unquote_esc:
  assumes "decode_rune bs = (r, length bs)" "bs \<noteq> []"
  shows "unquote (json_esc (r, bs) @ rest) = map_option (\<lambda>(s, t). (encode_rune r @ s, t)) (unquote rest)"
proof (cases "r < 0x80")
  case small: True
  have raw: "unquote (bs @ rest) = map_option (\<lambda>(s, t). (encode_rune r @ s, t)) (unquote rest)"
    if "0x20 \<le> r" "r \<noteq> 0x22" "r \<noteq> 0x5C"
    using unquote_raw [OF assms _ that] small by (simp add: rune_error_def)
  have esc: "unquote (json_u r @ rest) = map_option (\<lambda>(s, t). (encode_rune r @ s, t)) (unquote rest)"
    using small by (simp add: unquote_json_u)
  show ?thesis
  proof (cases "r = 0x22 \<or> r = 0x5C \<or> r = 0x08 \<or> r = 0x0C \<or> r = 0x0A \<or> r = 0x0D \<or> r = 0x09")
    case True
    then show ?thesis by (elim disjE) (simp_all add: encode_rune_def char_of_def bit_0)
  next
    case plain: False
    show ?thesis
    proof (cases "r < 0x20 \<or> r = 0x3C \<or> r = 0x3E \<or> r = 0x26")
      case True
      then have "json_esc (r, bs) = json_u r" using plain small by simp
      then show ?thesis using esc by (simp only:)
    next
      case False
      then have "json_esc (r, bs) = bs" using plain small by simp
      then show ?thesis using False plain raw by simp
    qed
  qed
next
  case False
  have raw: "unquote (bs @ rest) = map_option (\<lambda>(s, t). (encode_rune r @ s, t)) (unquote rest)"
    if "\<not> (r = rune_error \<and> length bs = 1)"
    using unquote_raw [OF assms that] False by simp
  show ?thesis using False raw by (auto simp: unquote_json_u rune_error_def)
qed

lemma segments_decoded: "(r, bs) \<in> set (segments s) \<Longrightarrow> decode_rune bs = (r, length bs) \<and> bs \<noteq> []"
proof (induction s rule: length_induct)
  case (1 s)
  then have s: "s \<noteq> []" by auto
  obtain x n where d: "decode_rune s = (x, n)" by (cases "decode_rune s")
  have n: "1 \<le> n" "n \<le> length s" using decode_rune_size [OF s] d by auto
  have "(r, bs) = (x, take n s) \<or> (r, bs) \<in> set (segments (drop n s))"
    using 1 segments_step [OF s d] by simp
  then show ?case
  proof
    assume *: "(r, bs) = (x, take n s)"
    have "decode_rune (take n s) = decode_rune (take n s @ drop n s)"
      using n d s by (intro decode_rune_prefix) auto
    then show ?thesis using * d n s by simp
  next
    assume "(r, bs) \<in> set (segments (drop n s))"
    moreover have "length (drop n s) < length s" using n s by simp
    ultimately show ?thesis using 1(1) by blast
  qed
qed

lemma unquote_escaped:
  assumes "\<And>r bs. (r, bs) \<in> set sg \<Longrightarrow> decode_rune bs = (r, length bs) \<and> bs \<noteq> []"
  shows "unquote (concat (map json_esc sg) @ CHR 0x22 # rest) = Some (concat (map (\<lambda>x. encode_rune (fst x)) sg), rest)"
  using assms
proof (induction sg)
  case (Cons x sg)
  obtain r bs where x: "x = (r, bs)" by (cases x)
  have "decode_rune bs = (r, length bs)" "bs \<noteq> []" using Cons.prems x by auto
  note u = unquote_esc [OF this, of "concat (map json_esc sg) @ CHR 0x22 # rest"]
  have "unquote (concat (map json_esc sg) @ CHR 0x22 # rest) = Some (concat (map (\<lambda>x. encode_rune (fst x)) sg), rest)"
    using Cons by (metis list.set_intros(2))
  then show ?case using u by (simp add: x del: json_esc.simps unquote.simps)
qed simp

lemma unquote_string:
  "unquote (concat (map json_esc (segments s)) @ CHR 0x22 # rest) = Some (utf8_clean s, rest)"
  using unquote_escaped [of "segments s" rest] segments_decoded by (simp add: utf8_clean_def runes_def comp_def)

text \<open>A valid UTF-8 string survives unchanged.\<close>

definition valid_utf8 :: "bytes \<Rightarrow> bool" where
  "valid_utf8 s \<longleftrightarrow> utf8_clean s = s"

lemma utf8_clean_append: "valid_rune r \<Longrightarrow> utf8_clean (encode_rune r @ rest) = encode_rune r @ utf8_clean rest"
  by (simp add: utf8_clean_def runes_def segments_encode_rune)

lemma valid_utf8_runes: "list_all valid_rune rs \<Longrightarrow> valid_utf8 (concat (map encode_rune rs))"
proof (induction rs)
  case (Cons r rs)
  then show ?case by (simp add: valid_utf8_def utf8_clean_append)
qed (simp add: valid_utf8_def utf8_clean_def runes_def)

lemma ascii_valid_utf8: "is_ascii s \<Longrightarrow> valid_utf8 s"
proof (induction s)
  case (Cons c s)
  then have "utf8_clean (c # s) = encode_rune (code c) @ utf8_clean s"
    by (simp add: utf8_clean_def runes_def is_ascii_def)
  then show ?case using Cons by (simp add: valid_utf8_def is_ascii_def encode_rune_ascii)
qed (simp add: valid_utf8_def utf8_clean_def runes_def)

section \<open>Values survive\<close>

definition num_end :: "bytes \<Rightarrow> bool" where
  "num_end s = (case s of [] \<Rightarrow> True | c # _ \<Rightarrow> \<not> is_digit c \<and> c \<noteq> CHR ''.'' \<and> c \<noteq> CHR ''e'' \<and> c \<noteq> CHR ''E'')"

fun no_float :: "jval \<Rightarrow> bool" where
  "no_float (VFloat s) = False"
| "no_float (VArr vs) = list_all no_float vs"
| "no_float (VObj m) = list_all (\<lambda>(k, v). no_float v) m"
| "no_float _ = True"

fun json_clean :: "jval \<Rightarrow> jval" where
  "json_clean (VStr s) = VStr (utf8_clean s)"
| "json_clean (VArr vs) = VArr (map json_clean vs)"
| "json_clean (VObj m) = VObj (map (\<lambda>(k, v). (utf8_clean k, json_clean v)) m)"
| "json_clean v = v"

lemma takeWhile_digits: "list_all is_digit ds \<Longrightarrow> num_end rest \<Longrightarrow> takeWhile is_digit (ds @ rest) = ds"
  by (induction ds) (auto simp: num_end_def split: list.splits)

lemma dropWhile_digits: "list_all is_digit ds \<Longrightarrow> num_end rest \<Longrightarrow> dropWhile is_digit (ds @ rest) = rest"
  by (induction ds) (auto simp: num_end_def split: list.splits)

lemma nat_digits_canonical: "nat_digits n \<noteq> [CHR ''0''] \<Longrightarrow> hd (nat_digits n) \<noteq> CHR ''0''"
proof (induction n rule: nat_digits.induct)
  case (1 n)
  show ?case
  proof (cases "n < 10")
    case True
    then show ?thesis using 1(2) by (subst nat_digits.simps) (auto simp: nat_digits.simps [of n])
  next
    case False
    then have "n div 10 \<noteq> 0" by simp
    then have "nat_digits (n div 10) \<noteq> [CHR ''0'']"
      using digits_value_nat_digits [of "n div 10"] by (auto simp: digits_value_def)
    then show ?thesis using 1(1) False by (subst nat_digits.simps) simp
  qed
qed

lemma scan_end: "num_end s \<Longrightarrow> scan_frac s = Some ([], s) \<and> scan_exp s = Some ([], s)"
  by (auto simp: num_end_def scan_frac_def scan_exp_def split: list.splits)

lemma parse_number_itoa:
  assumes "num_end rest"
  shows "parse_number (itoa i @ rest) = Some (VInt i, rest)"
proof -
  have d: "list_all is_digit (nat_digits n)" for n by (rule nat_digits_all_digits)
  have z: "\<not> (hd (nat_digits n) = CHR ''0'' \<and> length (nat_digits n) > 1)" for n
    using nat_digits_canonical [of n] by fastforce
  have m: "take 1 (nat_digits n @ rest) \<noteq> ''-''" for n
    using is_digit_not_sign [OF nat_digits_hd [of n]] by (cases "nat_digits n") (auto simp: nat_digits_not_Nil)
  show ?thesis
  proof (cases "i < 0")
    case True
    then show ?thesis using z assms
      by (simp add: itoa_def parse_number_def Let_def takeWhile_digits [OF d] dropWhile_digits [OF d] scan_end)
  next
    case False
    then show ?thesis using z m assms
      by (simp add: itoa_def parse_number_def Let_def takeWhile_digits [OF d] dropWhile_digits [OF d] scan_end)
  qed
qed

lemma json_string_cons: "json_string s @ rest = CHR 0x22 # concat (map json_esc (segments s)) @ CHR 0x22 # rest"
  by (simp add: json_string_def)

lemma itoa_hd: "itoa i \<noteq> [] \<and> (is_digit (hd (itoa i)) \<or> hd (itoa i) = CHR ''-'')"
  using itoa_chars [of i] by (cases "itoa i") (auto simp: itoa_def split: if_splits)

lemma skip_ws_nonspace: "\<not> is_ws c \<Longrightarrow> skip_ws (c # s) = c # s"
  by (simp add: skip_ws_def)

lemma parse_value_int:
  assumes "num_end rest"
  shows "parse_value (Suc k) (itoa i @ rest) = Some (VInt i, rest)"
proof -
  obtain c cs where s: "itoa i = c # cs" and c: "is_digit c \<or> c = CHR ''-''"
    using itoa_hd [of i] by (cases "itoa i") auto
  have "\<not> is_ws c" "c \<noteq> CHR 0x22" "c \<noteq> CHR ''[''" "c \<noteq> CHR ''{''" "c \<noteq> CHR ''n''" "c \<noteq> CHR ''t''" "c \<noteq> CHR ''f''"
    using c by (auto simp: is_digit_def is_ws_def)
  then show ?thesis
    using parse_number_itoa [OF assms, of i] s by (simp add: skip_ws_nonspace has_prefix_def)
qed

lemma marshal_hd:
  assumes "no_float v"
  shows "\<exists>c cs. json_marshal v = c # cs \<and> \<not> is_ws c \<and> c \<noteq> CHR '']''"
proof (cases v)
  case (VInt i)
  then show ?thesis using itoa_hd [of i] by (cases "itoa i") (auto simp: is_ws_def is_digit_def)
qed (use assms in \<open>auto simp: is_ws_def json_string_def\<close>)

lemma num_end_close: "num_end (CHR '']'' # s)" "num_end (CHR ''}'' # s)" "num_end (CHR '','' # s)" "num_end []"
  by (simp_all add: num_end_def is_digit_def)

text \<open>A list of elements and a list of members, given that their parts are read back.\<close>

lemma parse_elems_marshal:
  assumes "vs \<noteq> []"
    and "\<And>v k rest. v \<in> set vs \<Longrightarrow> num_end rest \<Longrightarrow> length (json_marshal v) < k \<Longrightarrow>
           parse_value k (json_marshal v @ rest) = Some (json_clean v, rest)"
    and "list_all no_float vs"
    and "length (go_join [CHR '',''] (map json_marshal vs)) + 1 < k"
  shows "parse_elems k (go_join [CHR '',''] (map json_marshal vs) @ CHR '']'' # rest) =
    Some (map json_clean vs, rest)"
  using assms
proof (induction vs arbitrary: k)
  case (Cons v vs)
  obtain j where k: "k = Suc j" using Cons.prems(4) by (cases k) auto
  obtain c cs where m: "json_marshal v = c # cs" using marshal_hd [of v] Cons.prems(3) by auto
  have close: "skip_ws (CHR '']'' # s) = CHR '']'' # s" "skip_ws (CHR '','' # s) = CHR '','' # s" for s
    by (simp_all add: skip_ws_def is_ws_def)
  show ?case
  proof (cases vs)
    case Nil
    have "parse_value j (json_marshal v @ CHR '']'' # rest) = Some (json_clean v, CHR '']'' # rest)"
      using Cons.prems(2,4) Nil k by (simp add: num_end_close)
    then show ?thesis by (simp add: k Nil close)
  next
    case (Cons w ws)
    let ?rest = "CHR '','' # go_join [CHR '',''] (map json_marshal vs) @ CHR '']'' # rest"
    have "parse_value j (json_marshal v @ ?rest) = Some (json_clean v, ?rest)"
      using Cons.prems(2,4) k Cons by (intro Cons.prems(2)) (auto simp: num_end_close)
    moreover have "parse_elems j (go_join [CHR '',''] (map json_marshal vs) @ CHR '']'' # rest) =
        Some (map json_clean vs, rest)"
      using Cons.prems k Cons m by (intro Cons.IH) auto
    ultimately show ?thesis using Cons by (simp add: k close del: parse_value.simps)
  qed
qed simp

definition marshal_member :: "gostring \<times> jval \<Rightarrow> gostring" where
  "marshal_member p = (case p of (k, v) \<Rightarrow> json_string k @ CHR '':'' # json_marshal v)"

lemma parse_members_marshal:
  assumes "m \<noteq> []"
    and "\<And>key v k rest. (key, v) \<in> set m \<Longrightarrow> num_end rest \<Longrightarrow> length (json_marshal v) < k \<Longrightarrow>
           parse_value k (json_marshal v @ rest) = Some (json_clean v, rest)"
    and "length (go_join [CHR '',''] (map marshal_member m)) + 1 < k"
  shows "parse_members k (go_join [CHR '',''] (map marshal_member m) @ CHR ''}'' # rest) =
    Some (map (\<lambda>(k, v). (utf8_clean k, json_clean v)) m, rest)"
  using assms
proof (induction m arbitrary: k)
  case (Cons kv m)
  obtain key v where kv: "kv = (key, v)" by (cases kv)
  obtain j where k: "k = Suc j" using Cons.prems(3) by (cases k) auto
  have close: "skip_ws (CHR ''}'' # s) = CHR ''}'' # s" "skip_ws (CHR '','' # s) = CHR '','' # s"
      "skip_ws (CHR '':'' # s) = CHR '':'' # s" "skip_ws (CHR 0x22 # s) = CHR 0x22 # s" for s
    by (simp_all add: skip_ws_def is_ws_def)
  have mm: "marshal_member (key, v) = CHR 0x22 # concat (map json_esc (segments key)) @ CHR 0x22 # CHR '':'' # json_marshal v"
    by (simp add: marshal_member_def json_string_def)
  show ?case
  proof (cases m)
    case Nil
    have "parse_value j (json_marshal v @ CHR ''}'' # rest) = Some (json_clean v, CHR ''}'' # rest)"
      using Cons.prems(2,3) Nil k kv by (simp add: num_end_close mm)
    then show ?thesis by (simp add: k kv Nil close mm unquote_string del: parse_value.simps unquote.simps)
  next
    case (Cons w ws)
    let ?rest = "CHR '','' # go_join [CHR '',''] (map marshal_member m) @ CHR ''}'' # rest"
    have "parse_value j (json_marshal v @ ?rest) = Some (json_clean v, ?rest)"
      using Cons.prems(3) k Cons kv by (intro Cons.prems(2) [of key]) (auto simp: num_end_close mm)
    moreover have "parse_members j (go_join [CHR '',''] (map marshal_member m) @ CHR ''}'' # rest) =
        Some (map (\<lambda>(k, v). (utf8_clean k, json_clean v)) m, rest)"
      using Cons.prems k Cons kv mm by (intro Cons.IH) auto
    ultimately show ?thesis using Cons
      by (simp add: k kv close mm unquote_string del: parse_value.simps unquote.simps)
  qed
qed simp

lemma marshal_obj: "json_marshal (VObj m) = CHR ''{'' # go_join [CHR '',''] (map marshal_member m) @ [CHR ''}'']"
  by (simp add: marshal_member_def [abs_def])

lemma parse_value_marshal:
  "no_float v \<Longrightarrow> num_end rest \<Longrightarrow> length (json_marshal v) < k \<Longrightarrow>
   parse_value k (json_marshal v @ rest) = Some (json_clean v, rest)"
proof (induction v arbitrary: k rest)
  case (VInt i)
  then show ?case using parse_value_int [of rest "k - 1" i] by (cases k) auto
next
  case (VStr s)
  then show ?case
    by (cases k) (simp_all add: json_string_cons skip_ws_def is_ws_def unquote_string del: unquote.simps)
next
  case (VArr vs)
  obtain j where k: "k = Suc j" using VArr.prems(3) by (cases k) auto
  show ?case
  proof (cases vs)
    case Nil
    then show ?thesis by (simp add: k skip_ws_def is_ws_def)
  next
    case (Cons v ws)
    have "parse_elems j (go_join [CHR '',''] (map json_marshal vs) @ CHR '']'' # rest) = Some (map json_clean vs, rest)"
      using VArr k Cons by (intro parse_elems_marshal) (auto simp: list_all_iff)
    moreover obtain c cs where "go_join [CHR '',''] (map json_marshal vs) @ CHR '']'' # rest = c # cs" "\<not> is_ws c" "c \<noteq> CHR '']''"
      using marshal_hd [of v] VArr.prems(1) Cons by (cases ws) auto
    ultimately show ?thesis by (simp add: k skip_ws_def is_ws_def del: parse_elems.simps)
  qed
next
  case (VObj m)
  obtain j where k: "k = Suc j" using VObj.prems(3) by (cases k) auto
  show ?case
  proof (cases m)
    case Nil
    then show ?thesis by (simp add: k skip_ws_def is_ws_def)
  next
    case (Cons p ws)
    have "parse_members j (go_join [CHR '',''] (map marshal_member m) @ CHR ''}'' # rest) =
        Some (map (\<lambda>(k, v). (utf8_clean k, json_clean v)) m, rest)"
    proof (rule parse_members_marshal)
      show "parse_value i (json_marshal v @ rest) = Some (json_clean v, rest)"
        if "(key, v) \<in> set m" "num_end rest" "length (json_marshal v) < i" for key v i rest
        using VObj.IH [of "(key, v)" v rest i] VObj.prems(1) that by (auto simp: list_all_iff)
      show "length (go_join [CHR '',''] (map marshal_member m)) + 1 < j"
        using VObj.prems(3) k unfolding marshal_obj by simp
    qed (simp add: Cons)
    moreover obtain cs where "go_join [CHR '',''] (map marshal_member m) @ CHR ''}'' # rest = CHR 0x22 # cs"
      using Cons by (cases p; cases ws) (auto simp: marshal_member_def json_string_def)
    ultimately show ?thesis by (simp add: k marshal_obj skip_ws_def is_ws_def del: parse_members.simps json_marshal.simps)
  qed
qed (case_tac k, simp_all add: skip_ws_def is_ws_def has_prefix_def)+

lemma parse_json_marshal: "no_float v \<Longrightarrow> parse_json (json_marshal v) = Some (json_clean v)"
  using parse_value_marshal [of v "[]" "Suc (length (json_marshal v))"]
  by (simp add: parse_json_def num_end_close skip_ws_def)

section \<open>Structs\<close>

text \<open>
  A struct is decoded member by member: the field is the one with that name, else the first one
  whose folded name is equal, else the member is ignored. \<open>null\<close> leaves a field alone and a
  value of another type or out of the field's range is an error.
\<close>

type_synonym 'h field_table = "(gostring \<times> (jval \<Rightarrow> 'h \<Rightarrow> 'h option)) list"

definition fold_rune :: "nat \<Rightarrow> nat" where
  "fold_rune r = (if 97 \<le> r \<and> r \<le> 122 then r - 32 else if r = 0x212A then 75 else if r = 0x17F then 83 else r)"

definition fold_name :: "bytes \<Rightarrow> nat list" where
  "fold_name s = map fold_rune (runes s)"

definition decode_member :: "'h field_table \<Rightarrow> gostring \<times> jval \<Rightarrow> 'h \<Rightarrow> 'h option" where
  "decode_member tbl kv h =
     (case find (\<lambda>f. fst f = fst kv) tbl of
        Some f \<Rightarrow> snd f (snd kv) h
      | None \<Rightarrow>
          (case find (\<lambda>f. fold_name (fst f) = fold_name (fst kv)) tbl of
             Some f \<Rightarrow> snd f (snd kv) h
           | None \<Rightarrow> Some h))"

fun decode_members :: "'h field_table \<Rightarrow> (gostring \<times> jval) list \<Rightarrow> 'h \<Rightarrow> 'h option" where
  "decode_members tbl [] h = Some h"
| "decode_members tbl (kv # m) h = Option.bind (decode_member tbl kv h) (decode_members tbl m)"

fun decode_struct :: "'h field_table \<Rightarrow> jval \<Rightarrow> 'h \<Rightarrow> 'h option" where
  "decode_struct tbl (VObj m) h = decode_members tbl m h"
| "decode_struct tbl VNull h = Some h"
| "decode_struct tbl _ h = None"

fun str_field :: "((gostring \<Rightarrow> gostring) \<Rightarrow> 'h \<Rightarrow> 'h) \<Rightarrow> jval \<Rightarrow> 'h \<Rightarrow> 'h option" where
  "str_field upd (VStr s) h = Some (upd (\<lambda>_. s) h)"
| "str_field upd VNull h = Some h"
| "str_field upd _ h = None"

fun bool_field :: "((bool \<Rightarrow> bool) \<Rightarrow> 'h \<Rightarrow> 'h) \<Rightarrow> jval \<Rightarrow> 'h \<Rightarrow> 'h option" where
  "bool_field upd (VBool b) h = Some (upd (\<lambda>_. b) h)"
| "bool_field upd VNull h = Some h"
| "bool_field upd _ h = None"

fun int_field :: "int \<Rightarrow> int \<Rightarrow> ((int \<Rightarrow> int) \<Rightarrow> 'h \<Rightarrow> 'h) \<Rightarrow> jval \<Rightarrow> 'h \<Rightarrow> 'h option" where
  "int_field lo hi upd (VInt i) h = (if lo \<le> i \<and> i < hi then Some (upd (\<lambda>_. i) h) else None)"
| "int_field lo hi upd VNull h = Some h"
| "int_field lo hi upd _ h = None"

abbreviation int64_field :: "((int \<Rightarrow> int) \<Rightarrow> 'h \<Rightarrow> 'h) \<Rightarrow> jval \<Rightarrow> 'h \<Rightarrow> 'h option" where
  "int64_field \<equiv> int_field (- (2 ^ 63)) (2 ^ 63)"

abbreviation uint32_field :: "((int \<Rightarrow> int) \<Rightarrow> 'h \<Rightarrow> 'h) \<Rightarrow> jval \<Rightarrow> 'h \<Rightarrow> 'h option" where
  "uint32_field \<equiv> int_field 0 (2 ^ 32)"

text \<open>The members a marshaled struct has: a field tagged \<open>omitempty\<close> is left out when zero.\<close>

definition omit :: "bool \<Rightarrow> gostring \<Rightarrow> jval \<Rightarrow> (gostring \<times> jval) list" where
  "omit zero name v = (if zero then [] else [(name, v)])"

lemma decode_members_append:
  "decode_members tbl (xs @ ys) h = Option.bind (decode_members tbl xs h) (decode_members tbl ys)"
  by (induction xs arbitrary: h) (auto split: bind_splits)

end
