(* ===== verification/HelperProtocol.thy ===== *)
theory HelperProtocol
  imports GoJson
begin

text \<open>
  \<open>internal/guesthelper/protocol.go\<close>: the messages between proxpass and the helper inside a
  container. A message is a 4-byte big-endian length, that many bytes of JSON and the raw payload
  the header announces. A reader is the list of bytes it delivers before its end.
\<close>

section \<open>Messages\<close>

definition Version :: int where "Version = 2"
definition MaxFrame :: nat where "MaxFrame = 2 ^ 20"
definition MaxPayload :: nat where "MaxPayload = 8 * 2 ^ 20"

definition OpHello :: gostring where "OpHello = ''hello''"
definition OpStat :: gostring where "OpStat = ''stat''"
definition OpList :: gostring where "OpList = ''list''"
definition OpRead :: gostring where "OpRead = ''read''"
definition OpWrite :: gostring where "OpWrite = ''write''"
definition OpMkdir :: gostring where "OpMkdir = ''mkdir''"
definition OpRemove :: gostring where "OpRemove = ''remove''"
definition OpRmdir :: gostring where "OpRmdir = ''rmdir''"
definition OpRename :: gostring where "OpRename = ''rename''"
definition OpSymlink :: gostring where "OpSymlink = ''symlink''"
definition OpReadlink :: gostring where "OpReadlink = ''readlink''"
definition OpChmod :: gostring where "OpChmod = ''chmod''"
definition OpChown :: gostring where "OpChown = ''chown''"
definition OpChtimes :: gostring where "OpChtimes = ''chtimes''"
definition OpTruncate :: gostring where "OpTruncate = ''truncate''"
definition OpQuit :: gostring where "OpQuit = ''quit''"

lemmas helper_ops = OpHello_def OpStat_def OpList_def OpRead_def OpWrite_def OpMkdir_def OpRemove_def
  OpRmdir_def OpRename_def OpSymlink_def OpReadlink_def OpChmod_def OpChown_def OpChtimes_def
  OpTruncate_def OpQuit_def

record request =
  q_op :: gostring
  q_path :: gostring
  q_target :: gostring
  q_offset :: int
  q_length :: int
  q_len :: int
  q_trunc :: bool
  q_mode :: int
  q_uid :: int
  q_gid :: int
  q_atime :: int
  q_mtime :: int
  q_version :: int
  q_idle :: int

definition zero_request :: request where
  "zero_request = \<lparr>q_op = [], q_path = [], q_target = [], q_offset = 0, q_length = 0, q_len = 0,
     q_trunc = False, q_mode = 0, q_uid = 0, q_gid = 0, q_atime = 0, q_mtime = 0, q_version = 0, q_idle = 0\<rparr>"

record entry =
  e_name :: gostring
  e_size :: int
  e_mode :: int
  e_uid :: int
  e_gid :: int
  e_mtime :: int

definition zero_entry :: entry where
  "zero_entry = \<lparr>e_name = [], e_size = 0, e_mode = 0, e_uid = 0, e_gid = 0, e_mtime = 0\<rparr>"

record response =
  p_err :: gostring
  p_errno :: gostring
  p_len :: int
  p_entries :: "entry list"
  p_link :: gostring
  p_version :: int
  p_arch :: gostring

definition zero_response :: response where
  "zero_response = \<lparr>p_err = [], p_errno = [], p_len = 0, p_entries = [], p_link = [], p_version = 0, p_arch = []\<rparr>"

definition ErrnoNone :: gostring where "ErrnoNone = []"
definition ErrnoNotExist :: gostring where "ErrnoNotExist = ''notexist''"
definition ErrnoPerm :: gostring where "ErrnoPerm = ''perm''"
definition ErrnoExist :: gostring where "ErrnoExist = ''exist''"
definition ErrnoNotEmpty :: gostring where "ErrnoNotEmpty = ''notempty''"
definition ErrnoIsDir :: gostring where "ErrnoIsDir = ''isdir''"
definition ErrnoNotDir :: gostring where "ErrnoNotDir = ''notdir''"
definition ErrnoOther :: gostring where "ErrnoOther = ''other''"

lemmas errno_defs = ErrnoNone_def ErrnoNotExist_def ErrnoPerm_def ErrnoExist_def ErrnoNotEmpty_def
  ErrnoIsDir_def ErrnoNotDir_def ErrnoOther_def

section \<open>Their JSON\<close>

abbreviation omit_str :: "gostring \<Rightarrow> gostring \<Rightarrow> (gostring \<times> jval) list" where
  "omit_str name s \<equiv> omit (s = []) name (VStr s)"

abbreviation omit_int :: "gostring \<Rightarrow> int \<Rightarrow> (gostring \<times> jval) list" where
  "omit_int name i \<equiv> omit (i = 0) name (VInt i)"

definition request_json :: "request \<Rightarrow> jval" where
  "request_json q = VObj (
     [(''op'', VStr (q_op q))] @ omit_str ''path'' (q_path q) @ omit_str ''target'' (q_target q) @
     omit_int ''offset'' (q_offset q) @ omit_int ''length'' (q_length q) @ omit_int ''len'' (q_len q) @
     omit (\<not> q_trunc q) ''trunc'' (VBool (q_trunc q)) @ omit_int ''mode'' (q_mode q) @
     omit_int ''uid'' (q_uid q) @ omit_int ''gid'' (q_gid q) @ omit_int ''atime'' (q_atime q) @
     omit_int ''mtime'' (q_mtime q) @ omit_int ''version'' (q_version q) @ omit_int ''idle_timeout_sec'' (q_idle q))"

definition request_fields :: "request field_table" where
  "request_fields =
     [(''op'', str_field q_op_update), (''path'', str_field q_path_update),
      (''target'', str_field q_target_update), (''offset'', int64_field q_offset_update),
      (''length'', int64_field q_length_update), (''len'', int64_field q_len_update),
      (''trunc'', bool_field q_trunc_update), (''mode'', uint32_field q_mode_update),
      (''uid'', int64_field q_uid_update), (''gid'', int64_field q_gid_update),
      (''atime'', int64_field q_atime_update), (''mtime'', int64_field q_mtime_update),
      (''version'', int64_field q_version_update), (''idle_timeout_sec'', int64_field q_idle_update)]"

definition entry_json :: "entry \<Rightarrow> jval" where
  "entry_json e = VObj
     [(''name'', VStr (e_name e)), (''size'', VInt (e_size e)), (''mode'', VInt (e_mode e)),
      (''uid'', VInt (e_uid e)), (''gid'', VInt (e_gid e)), (''mtime'', VInt (e_mtime e))]"

definition entry_fields :: "entry field_table" where
  "entry_fields =
     [(''name'', str_field e_name_update), (''size'', int64_field e_size_update),
      (''mode'', uint32_field e_mode_update), (''uid'', uint32_field e_uid_update),
      (''gid'', uint32_field e_gid_update), (''mtime'', int64_field e_mtime_update)]"

fun decode_entries :: "jval list \<Rightarrow> entry list option" where
  "decode_entries [] = Some []"
| "decode_entries (v # vs) =
     Option.bind (decode_struct entry_fields v zero_entry) (\<lambda>e. map_option ((#) e) (decode_entries vs))"

fun entries_field :: "jval \<Rightarrow> response \<Rightarrow> response option" where
  "entries_field (VArr vs) h = map_option (\<lambda>es. h\<lparr>p_entries := es\<rparr>) (decode_entries vs)"
| "entries_field VNull h = Some (h\<lparr>p_entries := []\<rparr>)"
| "entries_field _ h = None"

definition response_json :: "response \<Rightarrow> jval" where
  "response_json p = VObj (
     omit_str ''err'' (p_err p) @ omit_str ''errno'' (p_errno p) @ omit_int ''len'' (p_len p) @
     omit (p_entries p = []) ''entries'' (VArr (map entry_json (p_entries p))) @
     omit_str ''link'' (p_link p) @ omit_int ''version'' (p_version p) @ omit_str ''arch'' (p_arch p))"

definition response_fields :: "response field_table" where
  "response_fields =
     [(''err'', str_field p_err_update), (''errno'', str_field p_errno_update),
      (''len'', int64_field p_len_update), (''entries'', entries_field),
      (''link'', str_field p_link_update), (''version'', int64_field p_version_update),
      (''arch'', str_field p_arch_update)]"

section \<open>Frames\<close>

datatype wire_error =
    ErrShortFrame
  | ErrEOF
  | ErrUnexpectedEOF
  | ErrDecoding

definition put_uint32 :: "nat \<Rightarrow> bytes" where
  "put_uint32 n = [char_of (n div 16777216 mod 256), char_of (n div 65536 mod 256),
                   char_of (n div 256 mod 256), char_of (n mod 256)]"

fun get_uint32 :: "bytes \<Rightarrow> nat" where
  "get_uint32 [a, b, c, d] = code a * 16777216 + code b * 65536 + code c * 256 + code d"
| "get_uint32 _ = 0"

text \<open>\<open>io.ReadFull\<close>: end of input before the first byte, or in the middle.\<close>

definition read_full :: "nat \<Rightarrow> bytes \<Rightarrow> wire_error + bytes \<times> bytes" where
  "read_full n s =
     (if n \<le> length s then Inr (take n s, drop n s)
      else if s = [] then Inl ErrEOF else Inl ErrUnexpectedEOF)"

definition WriteMessage :: "jval \<Rightarrow> bytes \<Rightarrow> wire_error + bytes" where
  "WriteMessage header payload =
     (let b = json_marshal header
      in if length b > MaxFrame then Inl ErrShortFrame
         else Inr (put_uint32 (length b) @ b @ payload))"

definition ReadHeader :: "'h field_table \<Rightarrow> 'h \<Rightarrow> bytes \<Rightarrow> wire_error + 'h \<times> bytes" where
  "ReadHeader tbl zero r =
     (case read_full 4 r of
        Inl e \<Rightarrow> Inl e
      | Inr (pre, r1) \<Rightarrow>
          if get_uint32 pre > MaxFrame then Inl ErrShortFrame
          else (case read_full (get_uint32 pre) r1 of
                  Inl e \<Rightarrow> Inl e
                | Inr (buf, r2) \<Rightarrow>
                    (case parse_json buf of
                       None \<Rightarrow> Inl ErrDecoding
                     | Some v \<Rightarrow>
                         (case decode_struct tbl v zero of
                            None \<Rightarrow> Inl ErrDecoding
                          | Some h \<Rightarrow> Inr (h, r2)))))"

definition ReadPayload :: "bytes \<Rightarrow> int \<Rightarrow> wire_error + bytes \<times> bytes" where
  "ReadPayload r n =
     (if n < 0 \<or> n > int MaxPayload then Inl ErrShortFrame
      else if n = 0 then Inr ([], r)
      else read_full (nat n) r)"

section \<open>Round trips\<close>

definition in_int64 :: "int \<Rightarrow> bool" where "in_int64 i \<longleftrightarrow> - (2 ^ 63) \<le> i \<and> i < 2 ^ 63"
definition in_uint32 :: "int \<Rightarrow> bool" where "in_uint32 i \<longleftrightarrow> 0 \<le> i \<and> i < 2 ^ 32"

text \<open>The values the Go types of the fields have, with names that are valid UTF-8.\<close>

definition sendable_request :: "request \<Rightarrow> bool" where
  "sendable_request q \<longleftrightarrow>
     valid_utf8 (q_op q) \<and> valid_utf8 (q_path q) \<and> valid_utf8 (q_target q) \<and>
     list_all in_int64 [q_offset q, q_length q, q_len q, q_uid q, q_gid q, q_atime q, q_mtime q, q_version q, q_idle q] \<and>
     in_uint32 (q_mode q)"

definition sendable_entry :: "entry \<Rightarrow> bool" where
  "sendable_entry e \<longleftrightarrow> valid_utf8 (e_name e) \<and> in_int64 (e_size e) \<and> in_int64 (e_mtime e) \<and>
     in_uint32 (e_mode e) \<and> in_uint32 (e_uid e) \<and> in_uint32 (e_gid e)"

definition sendable_response :: "response \<Rightarrow> bool" where
  "sendable_response p \<longleftrightarrow>
     valid_utf8 (p_err p) \<and> valid_utf8 (p_errno p) \<and> valid_utf8 (p_link p) \<and> valid_utf8 (p_arch p) \<and>
     in_int64 (p_len p) \<and> in_int64 (p_version p) \<and> list_all sendable_entry (p_entries p)"

lemma decode_members_omit:
  assumes "z \<Longrightarrow> h' = h" "\<not> z \<Longrightarrow> decode_member tbl (n, v) h = Some h'"
  shows "decode_members tbl (omit z n v @ rest) h = decode_members tbl rest h'"
  using assms by (cases z) (simp_all add: omit_def)

lemma decode_members_last:
  "decode_members tbl (omit z n v) h = decode_members tbl (omit z n v @ []) h"
  by simp

lemma json_clean_omit: "map (\<lambda>(k, v). (utf8_clean k, json_clean v)) (omit z n v) = omit z (utf8_clean n) (json_clean v)"
  by (simp add: omit_def)

lemma clean_ascii: "is_ascii s \<Longrightarrow> utf8_clean s = s"
  using ascii_valid_utf8 [of s] by (simp add: valid_utf8_def)

lemma no_float_omit: "list_all (\<lambda>(k, v). no_float v) (omit z n v) \<longleftrightarrow> z \<or> no_float v"
  by (simp add: omit_def)

lemma request_json_clean:
  assumes "sendable_request q"
  shows "json_clean (request_json q) = request_json q" "no_float (request_json q)"
  using assms
  by (simp_all add: request_json_def sendable_request_def valid_utf8_def json_clean_omit no_float_omit
      clean_ascii is_ascii_def)

lemma request_members:
  "decode_member request_fields (''op'', VStr s) h = Some (h\<lparr>q_op := s\<rparr>)"
  "decode_member request_fields (''path'', VStr s) h = Some (h\<lparr>q_path := s\<rparr>)"
  "decode_member request_fields (''target'', VStr s) h = Some (h\<lparr>q_target := s\<rparr>)"
  "in_int64 i \<Longrightarrow> decode_member request_fields (''offset'', VInt i) h = Some (h\<lparr>q_offset := i\<rparr>)"
  "in_int64 i \<Longrightarrow> decode_member request_fields (''length'', VInt i) h = Some (h\<lparr>q_length := i\<rparr>)"
  "in_int64 i \<Longrightarrow> decode_member request_fields (''len'', VInt i) h = Some (h\<lparr>q_len := i\<rparr>)"
  "decode_member request_fields (''trunc'', VBool b) h = Some (h\<lparr>q_trunc := b\<rparr>)"
  "in_uint32 i \<Longrightarrow> decode_member request_fields (''mode'', VInt i) h = Some (h\<lparr>q_mode := i\<rparr>)"
  "in_int64 i \<Longrightarrow> decode_member request_fields (''uid'', VInt i) h = Some (h\<lparr>q_uid := i\<rparr>)"
  "in_int64 i \<Longrightarrow> decode_member request_fields (''gid'', VInt i) h = Some (h\<lparr>q_gid := i\<rparr>)"
  "in_int64 i \<Longrightarrow> decode_member request_fields (''atime'', VInt i) h = Some (h\<lparr>q_atime := i\<rparr>)"
  "in_int64 i \<Longrightarrow> decode_member request_fields (''mtime'', VInt i) h = Some (h\<lparr>q_mtime := i\<rparr>)"
  "in_int64 i \<Longrightarrow> decode_member request_fields (''version'', VInt i) h = Some (h\<lparr>q_version := i\<rparr>)"
  "in_int64 i \<Longrightarrow> decode_member request_fields (''idle_timeout_sec'', VInt i) h = Some (h\<lparr>q_idle := i\<rparr>)"
  by (simp_all add: decode_member_def request_fields_def in_int64_def in_uint32_def)

lemma request_steps:
  "q_path h = [] \<Longrightarrow> decode_members request_fields (omit_str ''path'' s @ rest) h = decode_members request_fields rest (h\<lparr>q_path := s\<rparr>)"
  "q_target h = [] \<Longrightarrow> decode_members request_fields (omit_str ''target'' s @ rest) h = decode_members request_fields rest (h\<lparr>q_target := s\<rparr>)"
  "q_offset h = 0 \<Longrightarrow> in_int64 i \<Longrightarrow> decode_members request_fields (omit_int ''offset'' i @ rest) h = decode_members request_fields rest (h\<lparr>q_offset := i\<rparr>)"
  "q_length h = 0 \<Longrightarrow> in_int64 i \<Longrightarrow> decode_members request_fields (omit_int ''length'' i @ rest) h = decode_members request_fields rest (h\<lparr>q_length := i\<rparr>)"
  "q_len h = 0 \<Longrightarrow> in_int64 i \<Longrightarrow> decode_members request_fields (omit_int ''len'' i @ rest) h = decode_members request_fields rest (h\<lparr>q_len := i\<rparr>)"
  "\<not> q_trunc h \<Longrightarrow> decode_members request_fields (omit (\<not> b) ''trunc'' (VBool b) @ rest) h = decode_members request_fields rest (h\<lparr>q_trunc := b\<rparr>)"
  "q_mode h = 0 \<Longrightarrow> in_uint32 i \<Longrightarrow> decode_members request_fields (omit_int ''mode'' i @ rest) h = decode_members request_fields rest (h\<lparr>q_mode := i\<rparr>)"
  "q_uid h = 0 \<Longrightarrow> in_int64 i \<Longrightarrow> decode_members request_fields (omit_int ''uid'' i @ rest) h = decode_members request_fields rest (h\<lparr>q_uid := i\<rparr>)"
  "q_gid h = 0 \<Longrightarrow> in_int64 i \<Longrightarrow> decode_members request_fields (omit_int ''gid'' i @ rest) h = decode_members request_fields rest (h\<lparr>q_gid := i\<rparr>)"
  "q_atime h = 0 \<Longrightarrow> in_int64 i \<Longrightarrow> decode_members request_fields (omit_int ''atime'' i @ rest) h = decode_members request_fields rest (h\<lparr>q_atime := i\<rparr>)"
  "q_mtime h = 0 \<Longrightarrow> in_int64 i \<Longrightarrow> decode_members request_fields (omit_int ''mtime'' i @ rest) h = decode_members request_fields rest (h\<lparr>q_mtime := i\<rparr>)"
  "q_version h = 0 \<Longrightarrow> in_int64 i \<Longrightarrow> decode_members request_fields (omit_int ''version'' i @ rest) h = decode_members request_fields rest (h\<lparr>q_version := i\<rparr>)"
  "q_idle h = 0 \<Longrightarrow> in_int64 i \<Longrightarrow> decode_members request_fields (omit_int ''idle_timeout_sec'' i @ rest) h = decode_members request_fields rest (h\<lparr>q_idle := i\<rparr>)"
  by (rule decode_members_omit; cases h; simp add: request_members)+

lemma decode_request:
  assumes "sendable_request q"
  shows "decode_struct request_fields (request_json q) zero_request = Some q"
proof -
  have last: "decode_members request_fields (omit_int ''idle_timeout_sec'' (q_idle q)) h = Some (h\<lparr>q_idle := q_idle q\<rparr>)"
    if "q_idle h = 0" for h
    using request_steps(13) [OF that, of "q_idle q" "[]"] assms by (simp add: sendable_request_def)
  show ?thesis using assms
    by (simp add: request_json_def sendable_request_def zero_request_def request_members(1) request_steps last)
qed

lemma entry_members:
  "decode_member entry_fields (''name'', VStr s) h = Some (h\<lparr>e_name := s\<rparr>)"
  "in_int64 i \<Longrightarrow> decode_member entry_fields (''size'', VInt i) h = Some (h\<lparr>e_size := i\<rparr>)"
  "in_uint32 i \<Longrightarrow> decode_member entry_fields (''mode'', VInt i) h = Some (h\<lparr>e_mode := i\<rparr>)"
  "in_uint32 i \<Longrightarrow> decode_member entry_fields (''uid'', VInt i) h = Some (h\<lparr>e_uid := i\<rparr>)"
  "in_uint32 i \<Longrightarrow> decode_member entry_fields (''gid'', VInt i) h = Some (h\<lparr>e_gid := i\<rparr>)"
  "in_int64 i \<Longrightarrow> decode_member entry_fields (''mtime'', VInt i) h = Some (h\<lparr>e_mtime := i\<rparr>)"
  by (simp_all add: decode_member_def entry_fields_def in_int64_def in_uint32_def)

lemma decode_entry: "sendable_entry e \<Longrightarrow> decode_struct entry_fields (entry_json e) zero_entry = Some e"
  by (simp add: entry_json_def sendable_entry_def entry_members zero_entry_def)

lemma decode_entries_json: "list_all sendable_entry es \<Longrightarrow> decode_entries (map entry_json es) = Some es"
  by (induction es) (simp_all add: decode_entry)

lemma entry_json_clean:
  assumes "sendable_entry e"
  shows "json_clean (entry_json e) = entry_json e" "no_float (entry_json e)"
  using assms by (simp_all add: entry_json_def sendable_entry_def valid_utf8_def clean_ascii is_ascii_def)

lemma response_json_clean:
  assumes "sendable_response p"
  shows "json_clean (response_json p) = response_json p" "no_float (response_json p)"
proof -
  have "map json_clean (map entry_json (p_entries p)) = map entry_json (p_entries p)"
    using assms entry_json_clean(1) by (simp add: sendable_response_def list_all_iff)
  then have "map (json_clean \<circ> entry_json) (p_entries p) = map entry_json (p_entries p)" by simp
  then show "json_clean (response_json p) = response_json p"
    using assms
    by (simp only: map_map response_json_def json_clean.simps map_append json_clean_omit)
       (simp add: response_json_def sendable_response_def valid_utf8_def json_clean_omit clean_ascii is_ascii_def)
  have "list_all no_float (map entry_json (p_entries p))"
    using assms entry_json_clean(2) by (simp add: sendable_response_def list_all_iff)
  then show "no_float (response_json p)"
    by (simp add: response_json_def no_float_omit)
qed

lemma response_members:
  "decode_member response_fields (''err'', VStr s) h = Some (h\<lparr>p_err := s\<rparr>)"
  "decode_member response_fields (''errno'', VStr s) h = Some (h\<lparr>p_errno := s\<rparr>)"
  "in_int64 i \<Longrightarrow> decode_member response_fields (''len'', VInt i) h = Some (h\<lparr>p_len := i\<rparr>)"
  "list_all sendable_entry es \<Longrightarrow>
     decode_member response_fields (''entries'', VArr (map entry_json es)) h = Some (h\<lparr>p_entries := es\<rparr>)"
  "decode_member response_fields (''link'', VStr s) h = Some (h\<lparr>p_link := s\<rparr>)"
  "in_int64 i \<Longrightarrow> decode_member response_fields (''version'', VInt i) h = Some (h\<lparr>p_version := i\<rparr>)"
  "decode_member response_fields (''arch'', VStr s) h = Some (h\<lparr>p_arch := s\<rparr>)"
  by (simp_all add: decode_member_def response_fields_def in_int64_def decode_entries_json)

lemma response_steps:
  "p_err h = [] \<Longrightarrow> decode_members response_fields (omit_str ''err'' s @ rest) h = decode_members response_fields rest (h\<lparr>p_err := s\<rparr>)"
  "p_errno h = [] \<Longrightarrow> decode_members response_fields (omit_str ''errno'' s @ rest) h = decode_members response_fields rest (h\<lparr>p_errno := s\<rparr>)"
  "p_len h = 0 \<Longrightarrow> in_int64 i \<Longrightarrow> decode_members response_fields (omit_int ''len'' i @ rest) h = decode_members response_fields rest (h\<lparr>p_len := i\<rparr>)"
  "p_entries h = [] \<Longrightarrow> list_all sendable_entry es \<Longrightarrow>
     decode_members response_fields (omit (es = []) ''entries'' (VArr (map entry_json es)) @ rest) h =
     decode_members response_fields rest (h\<lparr>p_entries := es\<rparr>)"
  "p_link h = [] \<Longrightarrow> decode_members response_fields (omit_str ''link'' s @ rest) h = decode_members response_fields rest (h\<lparr>p_link := s\<rparr>)"
  "p_version h = 0 \<Longrightarrow> in_int64 i \<Longrightarrow> decode_members response_fields (omit_int ''version'' i @ rest) h = decode_members response_fields rest (h\<lparr>p_version := i\<rparr>)"
  "p_arch h = [] \<Longrightarrow> decode_members response_fields (omit_str ''arch'' s @ rest) h = decode_members response_fields rest (h\<lparr>p_arch := s\<rparr>)"
  by (rule decode_members_omit; cases h; simp add: response_members)+

lemma decode_response:
  assumes "sendable_response p"
  shows "decode_struct response_fields (response_json p) zero_response = Some p"
proof -
  have last: "decode_members response_fields (omit_str ''arch'' (p_arch p)) h = Some (h\<lparr>p_arch := p_arch p\<rparr>)"
    if "p_arch h = []" for h
    using response_steps(7) [OF that, of "p_arch p" "[]"] by simp
  show ?thesis using assms
    by (simp add: response_json_def sendable_response_def zero_response_def response_steps last)
qed

lemma get_put_uint32:
  assumes "n < 2 ^ 32"
  shows "get_uint32 (put_uint32 n) = n"
proof -
  define x where "x = n div 256"
  define y where "y = x div 256"
  define z where "z = y div 256"
  have e: "n div 256 = x" "n div 65536 = y" "n div 16777216 = z"
    by (simp_all add: x_def y_def z_def div_mult2_eq [symmetric])
  have q: "x * 256 + n mod 256 = n" "y * 256 + x mod 256 = x" "z * 256 + y mod 256 = y"
    by (simp_all add: x_def y_def z_def)
  have "n < 256 * 256 * 256 * 256" using assms by simp
  then have "z < 256" using q by linarith
  then have "z mod 256 * 16777216 + y mod 256 * 65536 + x mod 256 * 256 + n mod 256 = n"
    using q by (simp only: mod_less)
  then show ?thesis by (simp add: put_uint32_def e)
qed

lemma put_uint32_length [simp]: "length (put_uint32 n) = 4"
  by (simp add: put_uint32_def)

lemma read_full_append [simp]: "n = length s \<Longrightarrow> read_full n (s @ rest) = Inr (s, rest)"
  by (simp add: read_full_def)

lemma ReadHeader_written:
  assumes "length (json_marshal v) \<le> MaxFrame" "no_float v" "json_clean v = v"
    and "decode_struct tbl v zero = Some h"
  shows "ReadHeader tbl zero (put_uint32 (length (json_marshal v)) @ json_marshal v @ rest) = Inr (h, rest)"
  using assms parse_json_marshal [OF assms(2)]
  by (simp add: ReadHeader_def get_put_uint32 MaxFrame_def)

lemma written_request_is_read:
  assumes "sendable_request q" "q_len q = int (length payload)" "length payload \<le> MaxPayload"
    and "WriteMessage (request_json q) payload = Inr bs"
  shows "\<exists>r. ReadHeader request_fields zero_request (bs @ rest) = Inr (q, r) \<and>
             ReadPayload r (q_len q) = Inr (payload, rest)"
proof (intro exI conjI)
  have b: "length (json_marshal (request_json q)) \<le> MaxFrame"
      "bs = put_uint32 (length (json_marshal (request_json q))) @ json_marshal (request_json q) @ payload"
    using assms(4) by (simp_all add: WriteMessage_def Let_def split: if_splits)
  show "ReadHeader request_fields zero_request (bs @ rest) = Inr (q, payload @ rest)"
    using ReadHeader_written [OF b(1) _ _ decode_request, of "payload @ rest"]
      request_json_clean [OF assms(1)] assms(1) by (simp add: b(2))
  show "ReadPayload (payload @ rest) (q_len q) = Inr (payload, rest)"
    using assms(2,3) by (auto simp: ReadPayload_def)
qed

text \<open>A request written to the stream is read back exactly, header and payload, whatever
  follows it: the next message starts where this one ends.\<close>

theorem request_frame_roundtrip:
  assumes "sendable_request q" "q_len q = int (length payload)" "length payload \<le> MaxPayload"
    and "WriteMessage (request_json q) payload = Inr bs"
  shows "\<exists>r. ReadHeader request_fields zero_request (bs @ rest) = Inr (q, r) \<and>
             ReadPayload r (q_len q) = Inr (payload, rest)"
  by (rule written_request_is_read [OF assms])

lemma response_frame_roundtrip:
  assumes "sendable_response p" "WriteMessage (response_json p) payload = Inr bs"
  shows "ReadHeader response_fields zero_response (bs @ rest) = Inr (p, payload @ rest)"
proof -
  have b: "length (json_marshal (response_json p)) \<le> MaxFrame"
      "bs = put_uint32 (length (json_marshal (response_json p))) @ json_marshal (response_json p) @ payload"
    using assms(2) by (simp_all add: WriteMessage_def Let_def split: if_splits)
  show ?thesis
    using ReadHeader_written [OF b(1) _ _ decode_response, of "payload @ rest"]
      response_json_clean [OF assms(1)] assms(1) by (simp add: b(2))
qed

text \<open>A stream that ends inside a header is an error on the spot: an unexpected end, except
  right at the start and right after the length, where it looks like an ordinary end of stream.\<close>

theorem truncated_frame:
  assumes "WriteMessage h payload = Inr bs" and "n < length bs - length payload"
  shows "ReadHeader tbl zero (take n bs) = Inl (if n = 0 \<or> n = 4 then ErrEOF else ErrUnexpectedEOF)"
proof -
  define m where "m = json_marshal h"
  have b: "length m \<le> MaxFrame" "bs = put_uint32 (length m) @ m @ payload" and n: "n < 4 + length m"
    using assms by (auto simp: WriteMessage_def Let_def m_def split: if_splits)
  show ?thesis
  proof (cases "n < 4")
    case True
    then have "read_full 4 (take n bs) = Inl (if n = 0 then ErrEOF else ErrUnexpectedEOF)"
      using b by (auto simp: read_full_def put_uint32_def)
    then show ?thesis using True by (simp add: ReadHeader_def)
  next
    case False
    then have t: "take n bs = put_uint32 (length m) @ take (n - 4) m" using b n by simp
    have g: "get_uint32 (put_uint32 (length m)) = length m" using b(1) by (intro get_put_uint32) (simp add: MaxFrame_def)
    have "read_full (length m) (take (n - 4) m) = Inl (if n = 4 then ErrEOF else ErrUnexpectedEOF)"
      using False n by (auto simp: read_full_def)
    then show ?thesis using False b(1) by (simp add: ReadHeader_def t g)
  qed
qed

definition demo_request :: request where
  "demo_request = zero_request\<lparr>q_op := OpWrite, q_path := ''/etc/hosts'', q_len := 3, q_trunc := True\<rparr>"

lemma demo_request_ok: "sendable_request demo_request"
  by (simp add: sendable_request_def demo_request_def zero_request_def OpWrite_def in_int64_def in_uint32_def
      ascii_valid_utf8 is_ascii_def valid_utf8_def clean_ascii)

lemma demo_request_bytes:
  "WriteMessage (request_json demo_request) ''abc'' =
     Inr (put_uint32 (length (json_marshal (request_json demo_request))) @ json_marshal (request_json demo_request) @ ''abc'')"
  by (simp add: WriteMessage_def Let_def MaxFrame_def demo_request_def zero_request_def request_json_def omit_def
      json_string_def OpWrite_def itoa_def nat_digits.simps)

theorem request_frame_roundtrip_witness:
  "\<exists>bs r. WriteMessage (request_json demo_request) ''abc'' = Inr bs \<and>
     ReadHeader request_fields zero_request (bs @ ''next'') = Inr (demo_request, r) \<and>
     ReadPayload r 3 = Inr (''abc'', ''next'')"
proof -
  have "q_len demo_request = int (length ''abc'')" "length ''abc'' \<le> MaxPayload"
    by (simp_all add: demo_request_def MaxPayload_def)
  from request_frame_roundtrip [OF demo_request_ok this demo_request_bytes, of "''next''"]
  show ?thesis using demo_request_bytes by (auto simp: demo_request_def)
qed

theorem truncated_frame_witness:
  "\<exists>bs. WriteMessage (VObj []) [] = Inr bs \<and>
     ReadHeader request_fields zero_request (take 5 bs) = Inl ErrUnexpectedEOF"
proof -
  have w: "WriteMessage (VObj []) [] = Inr (put_uint32 (Suc (Suc 0)) @ ''{}'')"
    by (simp add: WriteMessage_def MaxFrame_def Let_def)
  from truncated_frame [OF w, of 5 request_fields zero_request] w show ?thesis by auto
qed

end
