(* ===== verification/HelperServer.thy ===== *)
theory HelperServer
  imports HelperProtocol
begin

text \<open>
  \<open>cmd/proxpass-helper\<close>: the process inside the container. It decodes requests from its
  input, performs each with the operating system and answers it; the input's end, a quit request
  or a period without requests ends it. The operating system is an argument: a record of the calls
  the helper makes. An idle period is counted in nanoseconds, as a \<open>time.Duration\<close> is.
\<close>

section \<open>The operating system\<close>

datatype errno = ENOENT | EACCES | EPERM | EEXIST | ENOTEMPTY | EISDIR | ENOTDIR | EOTHER gostring

datatype sentinel = FsNotExist | FsPermission | FsExist | SysNotEmpty | SysIsDir | SysNotDir

text \<open>An error of the \<open>os\<close> package: its text and the errno it wraps, if it wraps one.\<close>

record os_error =
  oe_text :: gostring
  oe_errno :: "errno option"

text \<open>\<open>errors.Is\<close>: \<open>syscall.Errno.Is\<close> maps an errno to the sentinels of \<open>io/fs\<close>.\<close>

fun errno_is :: "errno \<Rightarrow> sentinel \<Rightarrow> bool" where
  "errno_is e FsNotExist = (e = ENOENT)"
| "errno_is e FsPermission = (e = EACCES \<or> e = EPERM)"
| "errno_is e FsExist = (e = EEXIST \<or> e = ENOTEMPTY)"
| "errno_is e SysNotEmpty = (e = ENOTEMPTY)"
| "errno_is e SysIsDir = (e = EISDIR)"
| "errno_is e SysNotDir = (e = ENOTDIR)"

definition os_error_is :: "os_error \<Rightarrow> sentinel \<Rightarrow> bool" where
  "os_error_is e s = (case oe_errno e of None \<Rightarrow> False | Some n \<Rightarrow> errno_is n s)"

record file_info =
  fi_name :: gostring
  fi_size :: int
  fi_mode :: int
  fi_mtime :: int
  fi_owner :: "(int \<times> int) option"

datatype change =
    Mkdir gostring int
  | Remove gostring
  | Rename gostring gostring
  | Symlink gostring gostring
  | Chmod gostring int
  | Lchown gostring int int
  | Chtimes gostring int int
  | Truncate gostring int

record 'fs os =
  os_lstat :: "'fs \<Rightarrow> gostring \<Rightarrow> os_error + file_info"
  os_readdir :: "'fs \<Rightarrow> gostring \<Rightarrow> os_error + file_info option list"
  os_readlink :: "'fs \<Rightarrow> gostring \<Rightarrow> os_error + gostring"
  os_open :: "'fs \<Rightarrow> gostring \<Rightarrow> os_error option"
  os_seek :: "'fs \<Rightarrow> gostring \<Rightarrow> int \<Rightarrow> os_error option"
  os_read_all :: "'fs \<Rightarrow> gostring \<Rightarrow> int \<Rightarrow> nat option \<Rightarrow> os_error + bytes"
  os_open_write :: "'fs \<Rightarrow> gostring \<Rightarrow> bool \<Rightarrow> 'fs \<times> os_error option"
  os_write_at :: "'fs \<Rightarrow> gostring \<Rightarrow> bytes \<Rightarrow> int \<Rightarrow> 'fs \<times> os_error option"
  os_change :: "'fs \<Rightarrow> change \<Rightarrow> 'fs \<times> os_error option"
  os_quote :: "gostring \<Rightarrow> gostring"
  os_arch :: gostring

section \<open>Replies\<close>

definition classify :: "os_error option \<Rightarrow> gostring" where
  "classify err =
     (case err of
        None \<Rightarrow> ErrnoNone
      | Some e \<Rightarrow>
          if os_error_is e FsNotExist then ErrnoNotExist
          else if os_error_is e FsPermission then ErrnoPerm
          else if os_error_is e FsExist then ErrnoExist
          else if os_error_is e SysNotEmpty then ErrnoNotEmpty
          else if os_error_is e SysIsDir then ErrnoIsDir
          else if os_error_is e SysNotDir then ErrnoNotDir
          else ErrnoOther)"

definition fail :: "os_error \<Rightarrow> response" where
  "fail e = zero_response\<lparr>p_err := oe_text e, p_errno := classify (Some e)\<rparr>"

definition okOr :: "os_error option \<Rightarrow> response" where
  "okOr err = (case err of None \<Rightarrow> zero_response | Some e \<Rightarrow> fail e)"

definition plain_error :: "gostring \<Rightarrow> os_error" where
  "plain_error msg = \<lparr>oe_text = msg, oe_errno = None\<rparr>"

definition entryOf :: "file_info \<Rightarrow> entry" where
  "entryOf fi =
     \<lparr>e_name = fi_name fi, e_size = fi_size fi, e_mode = fi_mode fi,
      e_uid = (case fi_owner fi of None \<Rightarrow> 0 | Some (u, g) \<Rightarrow> u),
      e_gid = (case fi_owner fi of None \<Rightarrow> 0 | Some (u, g) \<Rightarrow> g), e_mtime = fi_mtime fi\<rparr>"

section \<open>Operations\<close>

record 'fs session =
  s_idle :: int
  s_fs :: 'fs
  s_out :: bytes
  s_done :: "wire_error option option"

definition helper_list :: "'fs os \<Rightarrow> gostring \<Rightarrow> 'fs \<Rightarrow> response" where
  "helper_list os dir fs =
     (case os_readdir os fs dir of
        Inl e \<Rightarrow> fail e
      | Inr des \<Rightarrow> zero_response\<lparr>p_entries := map entryOf (List.map_filter id des)\<rparr>)"

definition helper_read :: "'fs os \<Rightarrow> request \<Rightarrow> 'fs \<Rightarrow> response \<times> bytes" where
  "helper_read os h fs =
     (case os_open os fs (q_path h) of
        Some e \<Rightarrow> (fail e, [])
      | None \<Rightarrow>
          (case (if q_offset h > 0 then os_seek os fs (q_path h) (q_offset h) else None) of
             Some e \<Rightarrow> (fail e, [])
           | None \<Rightarrow>
               if q_length h > int MaxPayload then
                 (fail (plain_error (''read of '' @ itoa (q_length h) @ '' bytes exceeds the '' @
                    itoa (int MaxPayload) @ '' limit'')), [])
               else
                 (case os_read_all os fs (q_path h) (if q_offset h > 0 then q_offset h else 0)
                         (if q_length h \<ge> 0 then Some (nat (q_length h)) else None) of
                    Inl e \<Rightarrow> (fail e, [])
                  | Inr data \<Rightarrow> (zero_response, data))))"

definition helper_write :: "'fs os \<Rightarrow> request \<Rightarrow> bytes \<Rightarrow> 'fs \<Rightarrow> 'fs \<times> response" where
  "helper_write os h payload fs =
     (case os_open_write os fs (q_path h) (q_trunc h) of
        (fs1, Some e) \<Rightarrow> (fs1, fail e)
      | (fs1, None) \<Rightarrow>
          (case os_write_at os fs1 (q_path h) payload (q_offset h) of
             (fs2, Some e) \<Rightarrow> (fs2, fail e)
           | (fs2, None) \<Rightarrow> (fs2, zero_response)))"

definition wrap64 :: "int \<Rightarrow> int" where
  "wrap64 i = (i + 2 ^ 63) mod 2 ^ 64 - 2 ^ 63"

text \<open>\<open>fs.FileMode(m).Perm()\<close>: the nine permission bits.\<close>

definition perm_bits :: "int \<Rightarrow> int" where
  "perm_bits m = m mod 512"

definition change_of :: "request \<Rightarrow> change option" where
  "change_of h =
     (if q_op h = OpMkdir then Some (Mkdir (q_path h) 0x1ED)
      else if q_op h = OpRemove then Some (Remove (q_path h))
      else if q_op h = OpRmdir then Some (Remove (q_path h))
      else if q_op h = OpRename then Some (Rename (q_path h) (q_target h))
      else if q_op h = OpSymlink then Some (Symlink (q_path h) (q_target h))
      else if q_op h = OpChmod then Some (Chmod (q_path h) (perm_bits (q_mode h)))
      else if q_op h = OpChown then Some (Lchown (q_path h) (q_uid h) (q_gid h))
      else if q_op h = OpChtimes then Some (Chtimes (q_path h) (q_atime h) (q_mtime h))
      else if q_op h = OpTruncate then Some (Truncate (q_path h) (q_offset h))
      else None)"

definition helper_dispatch :: "'fs os \<Rightarrow> request \<Rightarrow> bytes \<Rightarrow> 'fs session \<Rightarrow> 'fs session \<times> response \<times> bytes" where
  "helper_dispatch os h payload s =
     (if q_op h = OpHello then
        (if q_version h \<noteq> Version then
           (s, fail (plain_error (''protocol mismatch: client '' @ itoa (q_version h) @ '', helper '' @ itoa Version)), [])
         else
           (s\<lparr>s_idle := if q_idle h > 0 then wrap64 (q_idle h * 1000000000) else s_idle s\<rparr>,
            zero_response\<lparr>p_version := Version, p_arch := os_arch os\<rparr>, []))
      else if q_op h = OpStat then
        (case os_lstat os (s_fs s) (q_path h) of
           Inl e \<Rightarrow> (s, fail e, [])
         | Inr fi \<Rightarrow> (s, zero_response\<lparr>p_entries := [entryOf fi]\<rparr>, []))
      else if q_op h = OpList then (s, helper_list os (q_path h) (s_fs s), [])
      else if q_op h = OpRead then (s, helper_read os h (s_fs s))
      else if q_op h = OpWrite then
        (let (fs, resp) = helper_write os h payload (s_fs s) in (s\<lparr>s_fs := fs\<rparr>, resp, []))
      else if q_op h = OpReadlink then
        (case os_readlink os (s_fs s) (q_path h) of
           Inl e \<Rightarrow> (s, fail e, [])
         | Inr dst \<Rightarrow> (s, zero_response\<lparr>p_link := dst\<rparr>, []))
      else if q_op h = OpQuit then (s, zero_response, [])
      else
        (case change_of h of
           Some c \<Rightarrow> (let (fs, err) = os_change os (s_fs s) c in (s\<lparr>s_fs := fs\<rparr>, okOr err, []))
         | None \<Rightarrow> (s, fail (plain_error (''unknown op '' @ os_quote os (q_op h))), [])))"

section \<open>The request loop\<close>

datatype incoming = Incoming request bytes | Broken wire_error

text \<open>One turn of \<open>readLoop\<close>: a request with its payload, or the error that ends the loop.\<close>

definition read_one :: "bytes \<Rightarrow> incoming \<times> bytes" where
  "read_one s =
     (case ReadHeader request_fields zero_request s of
        Inl e \<Rightarrow> (Broken e, [])
      | Inr (hdr, r) \<Rightarrow>
          if q_len hdr > 0 then
            (case ReadPayload r (q_len hdr) of
               Inl e \<Rightarrow> (Broken e, [])
             | Inr (p, r') \<Rightarrow> (Incoming hdr p, r'))
          else (Incoming hdr [], r))"

datatype helper_event = Arrived incoming | IdleFired

text \<open>
  One turn of \<open>run\<close>. \<open>s_done\<close> says that it has returned: \<open>Some None\<close> without an
  error, \<open>Some (Some e)\<close> with one.
\<close>

definition helper_step :: "'fs os \<Rightarrow> helper_event \<Rightarrow> 'fs session \<Rightarrow> 'fs session" where
  "helper_step os ev s =
     (if s_done s \<noteq> None then s
      else case ev of
        IdleFired \<Rightarrow> s\<lparr>s_done := Some None\<rparr>
      | Arrived (Broken e) \<Rightarrow> s\<lparr>s_done := Some (if e = ErrEOF then None else Some e)\<rparr>
      | Arrived (Incoming h p) \<Rightarrow>
          if q_op h = OpQuit then s\<lparr>s_done := Some None\<rparr>
          else (let (s1, resp, data) = helper_dispatch os h p s
                in case WriteMessage (response_json (resp\<lparr>p_len := int (length data)\<rparr>)) data of
                     Inl e \<Rightarrow> s1\<lparr>s_done := Some (Some e)\<rparr>
                   | Inr bs \<Rightarrow> s1\<lparr>s_out := s_out s1 @ bs\<rparr>))"

lemma ReadHeader_shorter: "ReadHeader tbl z s = Inr (h, r) \<Longrightarrow> length r < length s"
  by (auto simp: ReadHeader_def read_full_def split: if_splits sum.splits option.splits)

lemma ReadPayload_shorter: "ReadPayload s n = Inr (p, r) \<Longrightarrow> length r \<le> length s"
  by (auto simp: ReadPayload_def read_full_def split: if_splits)

lemma read_one_shorter: "s \<noteq> [] \<Longrightarrow> length (snd (read_one s)) < length s"
  by (fastforce simp: read_one_def split: sum.splits if_splits dest: ReadHeader_shorter ReadPayload_shorter)

text \<open>The helper's response to bytes that have arrived; it waits when it has read them all.\<close>

function feed :: "'fs os \<Rightarrow> bytes \<Rightarrow> 'fs session \<Rightarrow> 'fs session" where
  "feed os m s =
     (if m = [] \<or> s_done s \<noteq> None then s
      else feed os (snd (read_one m)) (helper_step os (Arrived (fst (read_one m))) s))"
  by pat_completeness auto
termination
  by (relation "measure (\<lambda>(os, m, s). length m)") (auto intro: read_one_shorter)

declare feed.simps [simp del]

text \<open>\<open>serve\<close> on an input that ends.\<close>

definition serve :: "'fs os \<Rightarrow> bytes \<Rightarrow> int \<Rightarrow> 'fs \<Rightarrow> 'fs session" where
  "serve os input idle fs =
     helper_step os (Arrived (Broken ErrEOF))
       (feed os input \<lparr>s_idle = idle, s_fs = fs, s_out = [], s_done = None\<rparr>)"

end
