(* ===== verification/HelperClient.thy ===== *)
theory HelperClient
  imports HelperServer
begin

text \<open>
  \<open>internal/guesthelper/client.go\<close>: the client of the helper. The stream is a peer: writing a
  message to it may fail, and delivers the bytes it answers with; a read finds the bytes delivered
  and not yet read, and behind them the end of the stream. The mutex makes every call atomic.
\<close>

section \<open>Calls\<close>

datatype client_error =
    SessionClosed
  | WriteFailed
  | WireError wire_error
  | Remote gostring "sentinel option"
  | WrongEntries nat
  | ReaderFailed
  | WriterFailed
  | UnsupportedHandshake client_error
  | UnsupportedVersion int

type_synonym 'w peer = "bytes \<Rightarrow> 'w \<Rightarrow> ('w \<times> bytes) option"

record 'w client =
  c_closed :: bool
  c_in :: bytes
  c_peer :: 'w

definition decode_errno :: "gostring \<Rightarrow> sentinel option" where
  "decode_errno n =
     (if n = ErrnoNotExist then Some FsNotExist
      else if n = ErrnoPerm then Some FsPermission
      else if n = ErrnoExist then Some FsExist
      else if n = ErrnoNotEmpty then Some SysNotEmpty
      else if n = ErrnoIsDir then Some SysIsDir
      else if n = ErrnoNotDir then Some SysNotDir
      else None)"

definition decode_error :: "response \<Rightarrow> client_error" where
  "decode_error resp = Remote (p_err resp) (decode_errno (p_errno resp))"

text \<open>\<open>errors.Is\<close> on the errors of a call.\<close>

fun client_error_is :: "client_error \<Rightarrow> sentinel \<Rightarrow> bool" where
  "client_error_is (Remote msg n) s = (n = Some s)"
| "client_error_is _ s = False"

definition call ::
  "'w peer \<Rightarrow> request \<Rightarrow> bytes \<Rightarrow> 'w client \<Rightarrow> 'w client \<times> (client_error + response \<times> bytes)" where
  "call peer req payload c =
     (if c_closed c then (c, Inl SessionClosed)
      else case WriteMessage (request_json (req\<lparr>q_len := int (length payload)\<rparr>)) payload of
        Inl e \<Rightarrow> (c\<lparr>c_closed := True\<rparr>, Inl (WireError e))
      | Inr bs \<Rightarrow>
          (case peer bs (c_peer c) of
             None \<Rightarrow> (c\<lparr>c_closed := True\<rparr>, Inl WriteFailed)
           | Some (w, answer) \<Rightarrow>
               (case ReadHeader response_fields zero_response (c_in c @ answer) of
                  Inl e \<Rightarrow> (c\<lparr>c_closed := True, c_peer := w\<rparr>, Inl (WireError e))
                | Inr (resp, r) \<Rightarrow>
                    (case (if p_len resp > 0 then ReadPayload r (p_len resp) else Inr ([], r)) of
                       Inl e \<Rightarrow> (c\<lparr>c_closed := True, c_peer := w\<rparr>, Inl (WireError e))
                     | Inr (data, r') \<Rightarrow>
                         (c\<lparr>c_in := r', c_peer := w\<rparr>,
                          if p_err resp \<noteq> [] then Inl (decode_error resp) else Inr (resp, data))))))"

definition client_Close :: "'w peer \<Rightarrow> 'w client \<Rightarrow> 'w client" where
  "client_Close peer c =
     (if c_closed c then c
      else case WriteMessage (request_json (zero_request\<lparr>q_op := OpQuit\<rparr>)) [] of
        Inl e \<Rightarrow> c\<lparr>c_closed := True\<rparr>
      | Inr bs \<Rightarrow>
          (case peer bs (c_peer c) of
             None \<Rightarrow> c\<lparr>c_closed := True\<rparr>
           | Some (w, answer) \<Rightarrow> c\<lparr>c_closed := True, c_in := c_in c @ answer, c_peer := w\<rparr>))"

definition simple_call :: "'w peer \<Rightarrow> request \<Rightarrow> 'w client \<Rightarrow> 'w client \<times> client_error option" where
  "simple_call peer req c =
     (case call peer req [] c of
        (c', Inl e) \<Rightarrow> (c', Some e)
      | (c', Inr _) \<Rightarrow> (c', None))"

text \<open>The idle timeout arrives as whole seconds.\<close>

definition NewClient :: "'w peer \<Rightarrow> int \<Rightarrow> 'w \<Rightarrow> client_error + 'w client" where
  "NewClient peer idleSeconds w =
     (case call peer (zero_request\<lparr>q_op := OpHello, q_version := Version, q_idle := idleSeconds\<rparr>) []
             \<lparr>c_closed = False, c_in = [], c_peer = w\<rparr> of
        (c, Inl e) \<Rightarrow> Inl (UnsupportedHandshake e)
      | (c, Inr (resp, _)) \<Rightarrow>
          if p_version resp \<noteq> Version then Inl (UnsupportedVersion (p_version resp)) else Inr c)"

section \<open>Operations\<close>

definition on_path :: "gostring \<Rightarrow> gostring \<Rightarrow> request" where
  "on_path op path = zero_request\<lparr>q_op := op, q_path := path\<rparr>"

definition client_Stat :: "'w peer \<Rightarrow> gostring \<Rightarrow> 'w client \<Rightarrow> 'w client \<times> (client_error + entry)" where
  "client_Stat peer path c =
     (case call peer (on_path OpStat path) [] c of
        (c', Inl e) \<Rightarrow> (c', Inl e)
      | (c', Inr (resp, _)) \<Rightarrow>
          (case p_entries resp of
             [e] \<Rightarrow> (c', Inr e)
           | es \<Rightarrow> (c', Inl (WrongEntries (length es)))))"

definition client_List :: "'w peer \<Rightarrow> gostring \<Rightarrow> 'w client \<Rightarrow> 'w client \<times> (client_error + entry list)" where
  "client_List peer dir c =
     (case call peer (on_path OpList dir) [] c of
        (c', Inl e) \<Rightarrow> (c', Inl e)
      | (c', Inr (resp, _)) \<Rightarrow> (c', Inr (p_entries resp)))"

definition client_Readlink :: "'w peer \<Rightarrow> gostring \<Rightarrow> 'w client \<Rightarrow> 'w client \<times> (client_error + gostring)" where
  "client_Readlink peer path c =
     (case call peer (on_path OpReadlink path) [] c of
        (c', Inl e) \<Rightarrow> (c', Inl e)
      | (c', Inr (resp, _)) \<Rightarrow> (c', Inr (p_link resp)))"

definition client_Mkdir where "client_Mkdir peer path = simple_call peer (on_path OpMkdir path)"
definition client_Remove where "client_Remove peer path = simple_call peer (on_path OpRemove path)"
definition client_Rmdir where "client_Rmdir peer path = simple_call peer (on_path OpRmdir path)"

definition client_Rename where
  "client_Rename peer from to = simple_call peer ((on_path OpRename from)\<lparr>q_target := to\<rparr>)"

definition client_Symlink where
  "client_Symlink peer target linkPath = simple_call peer ((on_path OpSymlink target)\<lparr>q_target := linkPath\<rparr>)"

definition client_Chmod where
  "client_Chmod peer path mode = simple_call peer ((on_path OpChmod path)\<lparr>q_mode := perm_bits mode\<rparr>)"

definition client_Chown :: "'w peer \<Rightarrow> gostring \<Rightarrow> int \<Rightarrow> int \<Rightarrow> 'w client \<Rightarrow> 'w client \<times> client_error option" where
  "client_Chown peer path uid gid c =
     (if uid < 0 \<and> gid < 0 then (c, None)
      else simple_call peer ((on_path OpChown path)\<lparr>q_uid := uid, q_gid := gid\<rparr>) c)"

definition client_Chtimes where
  "client_Chtimes peer path atime mtime =
     simple_call peer ((on_path OpChtimes path)\<lparr>q_atime := atime, q_mtime := mtime\<rparr>)"

definition client_Truncate where
  "client_Truncate peer path len = simple_call peer ((on_path OpTruncate path)\<lparr>q_offset := len\<rparr>)"

section \<open>Transfers\<close>

definition chunkSize :: int where "chunkSize = 256 * 1024"

text \<open>
  A file may go on for ever, so the loop is partial. The writer accepts a block and changes state,
  or fails.
\<close>

partial_function (option) ReadRangeTo ::
  "'w peer \<Rightarrow> ('s \<Rightarrow> bytes \<Rightarrow> 's option) \<Rightarrow> gostring \<Rightarrow> int \<Rightarrow> int \<Rightarrow> 's \<Rightarrow> 'w client \<Rightarrow>
   ('w client \<times> 's \<times> client_error option) option" where
  "ReadRangeTo peer wr path offset remaining out c =
     (if remaining = 0 then Some (c, out, None)
      else
        let want = (if remaining > 0 \<and> remaining < chunkSize then remaining else chunkSize) in
        case call peer ((on_path OpRead path)\<lparr>q_offset := offset, q_length := want\<rparr>) [] c of
          (c', Inl e) \<Rightarrow> Some (c', out, Some e)
        | (c', Inr (_, data)) \<Rightarrow>
            (case (if data = [] then Some out else wr out data) of
               None \<Rightarrow> Some (c', out, Some WriterFailed)
             | Some out' \<Rightarrow>
                 if int (length data) < want then Some (c', out', None)
                 else ReadRangeTo peer wr path (offset + int (length data))
                        (if remaining > 0 then remaining - int (length data) else remaining) out' c'))"

text \<open>What successive reads of a source return: a block and, possibly with it, the end or an error.\<close>

datatype read_status = MoreToCome | AtEOF | ReadError

fun WriteAtFrom ::
  "'w peer \<Rightarrow> gostring \<Rightarrow> int \<Rightarrow> (bytes \<times> read_status) list \<Rightarrow> 'w client \<Rightarrow> 'w client \<times> client_error option" where
  "WriteAtFrom peer path offset [] c = (c, None)"
| "WriteAtFrom peer path offset ((buf, st) # rs) c =
     (case (if buf = [] then (c, None)
            else (case call peer ((on_path OpWrite path)\<lparr>q_offset := offset\<rparr>) buf c of
                    (c', Inl e) \<Rightarrow> (c', Some e)
                  | (c', Inr _) \<Rightarrow> (c', None))) of
        (c', Some e) \<Rightarrow> (c', Some e)
      | (c', None) \<Rightarrow>
          (case st of
             AtEOF \<Rightarrow> (c', None)
           | ReadError \<Rightarrow> (c', Some ReaderFailed)
           | MoreToCome \<Rightarrow> WriteAtFrom peer path (offset + int (length buf)) rs c'))"

definition WriteFrom ::
  "'w peer \<Rightarrow> gostring \<Rightarrow> (bytes \<times> read_status) list \<Rightarrow> 'w client \<Rightarrow> 'w client \<times> client_error option" where
  "WriteFrom peer path rs c =
     (let (buf, st) = (case rs of [] \<Rightarrow> ([], AtEOF) | r # _ \<Rightarrow> r) in
      if st = ReadError then (c, Some ReaderFailed)
      else case call peer ((on_path OpWrite path)\<lparr>q_trunc := True\<rparr>) buf c of
        (c', Inl e) \<Rightarrow> (c', Some e)
      | (c', Inr _) \<Rightarrow>
          if st = AtEOF then (c', None)
          else WriteAtFrom peer path (int (length buf)) (tl rs) c')"

section \<open>The helper as the peer\<close>

definition helper_peer :: "'fs os \<Rightarrow> 'fs session peer" where
  "helper_peer os m s = (let s' = feed os m (s\<lparr>s_out := []\<rparr>) in Some (s'\<lparr>s_out := []\<rparr>, s_out s'))"

definition fits :: "jval \<Rightarrow> bool" where
  "fits v \<longleftrightarrow> length (json_marshal v) \<le> MaxFrame"

lemma WriteMessage_fits:
  "fits v \<Longrightarrow> WriteMessage v payload = Inr (put_uint32 (length (json_marshal v)) @ json_marshal v @ payload)"
  by (simp add: WriteMessage_def fits_def Let_def)

lemma read_one_written:
  assumes "sendable_request q" "q_len q = int (length payload)" "length payload \<le> MaxPayload"
    and "WriteMessage (request_json q) payload = Inr bs"
  shows "read_one (bs @ rest) = (Incoming q payload, rest)"
proof -
  obtain r where r: "ReadHeader request_fields zero_request (bs @ rest) = Inr (q, r)"
      "ReadPayload r (q_len q) = Inr (payload, rest)"
    using written_request_is_read [OF assms, of rest] by blast
  then show ?thesis using assms(2) by (auto simp: read_one_def ReadPayload_def)
qed

text \<open>The states in which the two sides are in step.\<close>

definition in_step :: "'fs session client \<Rightarrow> bool" where
  "in_step c \<longleftrightarrow> \<not> c_closed c \<and> c_in c = [] \<and> s_done (c_peer c) = None \<and> s_out (c_peer c) = []"

lemma dispatch_keeps:
  "helper_dispatch os h p s = (s', resp, data) \<Longrightarrow> s_done s' = s_done s \<and> s_out s' = s_out s \<and> p_len resp = 0"
  by (auto simp: helper_dispatch_def helper_read_def helper_list_def helper_write_def fail_def okOr_def zero_response_def
      split: if_splits sum.splits option.splits prod.splits)

lemma call_helper:
  assumes "in_step c" "sendable_request (req\<lparr>q_len := int (length payload)\<rparr>)"
    and "length payload \<le> MaxPayload" "fits (request_json (req\<lparr>q_len := int (length payload)\<rparr>))"
    and "q_op req \<noteq> OpQuit"
    and d: "helper_dispatch os (req\<lparr>q_len := int (length payload)\<rparr>) payload (c_peer c) = (s', resp, data)"
    and "sendable_response resp" "length data \<le> MaxPayload" "fits (response_json (resp\<lparr>p_len := int (length data)\<rparr>))"
  shows "call (helper_peer os) req payload c =
      (c\<lparr>c_peer := s'\<rparr>, if p_err resp \<noteq> [] then Inl (decode_error resp)
                        else Inr (resp\<lparr>p_len := int (length data)\<rparr>, data))"
    and "in_step (c\<lparr>c_peer := s'\<rparr>)"
proof -
  define q where "q = req\<lparr>q_len := int (length payload)\<rparr>"
  define p where "p = resp\<lparr>p_len := int (length data)\<rparr>"
  note keeps = dispatch_keeps [OF d]
  obtain bs where bs: "WriteMessage (request_json q) payload = Inr bs"
    using WriteMessage_fits assms(4) by (auto simp: q_def)
  obtain out where out: "WriteMessage (response_json p) data = Inr out"
    using WriteMessage_fits assms(9) by (auto simp: p_def)
  have ne: "bs \<noteq> []" using bs by (auto simp: WriteMessage_def Let_def put_uint32_def split: if_splits)
  have one: "read_one bs = (Incoming q payload, [])"
    using read_one_written [of q payload bs "[]"] assms(2,3) bs by (simp add: q_def)
  have peer0: "(c_peer c)\<lparr>s_out := []\<rparr> = c_peer c" using assms(1) by (cases "c_peer c") (simp add: in_step_def)
  have step: "helper_step os (Arrived (Incoming q payload)) (c_peer c) = s'\<lparr>s_out := out\<rparr>"
    using assms(1,5) d keeps out by (simp add: helper_step_def in_step_def q_def p_def)
  have "feed os bs (c_peer c) = s'\<lparr>s_out := out\<rparr>"
    using ne one step assms(1) by (subst feed.simps) (simp add: in_step_def feed.simps)
  then have peer: "helper_peer os bs (c_peer c) = Some (s', out)"
    using keeps assms(1) by (cases s') (simp add: helper_peer_def Let_def peer0 in_step_def)
  have sp: "sendable_response p" using assms(7,8) by (simp add: p_def sendable_response_def in_int64_def MaxPayload_def)
  have hdr: "ReadHeader response_fields zero_response out = Inr (p, data)"
    using response_frame_roundtrip [OF sp out, of "[]"] by simp
  have pl: "(if p_len p > 0 then ReadPayload data (p_len p) else Inr ([], data)) = Inr (data, [])"
    using assms(8) by (auto simp: p_def ReadPayload_def read_full_def)
  have cin: "c\<lparr>c_in := [], c_peer := s'\<rparr> = c\<lparr>c_peer := s'\<rparr>" "c_in c @ out = out" "\<not> c_closed c"
    using assms(1) by (cases c, simp_all add: in_step_def)
  have err: "p_err p = p_err resp" "decode_error p = decode_error resp" by (simp_all add: p_def decode_error_def)
  show "call (helper_peer os) req payload c =
      (c\<lparr>c_peer := s'\<rparr>, if p_err resp \<noteq> [] then Inl (decode_error resp)
                        else Inr (resp\<lparr>p_len := int (length data)\<rparr>, data))"
    unfolding call_def q_def [symmetric] p_def [symmetric]
    by (simp only: cin(3) if_False bs sum.case peer option.case prod.case cin(2) hdr pl cin(1) err)
  show "in_step (c\<lparr>c_peer := s'\<rparr>)" using assms(1) keeps by (simp add: in_step_def)
qed

section \<open>Headers that fit a frame\<close>

lemma json_esc_length: "bs \<noteq> [] \<Longrightarrow> length (json_esc (r, bs)) \<le> 6 * length bs"
  by (cases bs) (auto simp: json_u_def)

lemma escaped_length:
  "\<forall>(r, bs)\<in>set sg. bs \<noteq> [] \<Longrightarrow> length (concat (map json_esc sg)) \<le> 6 * length (concat (map snd sg))"
proof (induction sg)
  case (Cons x sg)
  obtain r bs where x: "x = (r, bs)" by (cases x)
  have "length (json_esc (r, bs)) \<le> 6 * length bs" using Cons.prems x by (intro json_esc_length) simp
  moreover have "length (concat (map json_esc sg)) \<le> 6 * length (concat (map snd sg))" using Cons by simp
  ultimately show ?case by (simp add: x del: json_esc.simps)
qed simp

lemma json_string_length: "length (json_string s) \<le> 6 * length s + 2"
proof -
  have "\<forall>(r, bs)\<in>set (segments s). bs \<noteq> []" using segments_decoded by fastforce
  then have "length (concat (map json_esc (segments s))) \<le> 6 * length s"
    using escaped_length [of "segments s"] by (simp add: segments_concat)
  then show ?thesis by (simp add: json_string_def)
qed

lemma nat_digits_length: "n < 10 ^ Suc k \<Longrightarrow> length (nat_digits n) \<le> Suc k"
proof (induction k arbitrary: n)
  case 0
  then show ?case by (simp add: nat_digits.simps)
next
  case (Suc k)
  have "length (nat_digits (n div 10)) \<le> Suc k" using Suc.prems by (intro Suc.IH) (simp add: div_less_iff_less_mult)
  then show ?case by (subst nat_digits.simps) simp
qed

lemma itoa_length: "in_int64 i \<Longrightarrow> length (itoa i) \<le> 20"
proof -
  assume "in_int64 i"
  then have "nat i \<le> nat (2 ^ 63)" "nat (- i) \<le> nat (2 ^ 63)" unfolding in_int64_def by (intro nat_mono, linarith)+
  then have "nat i < 10 ^ Suc 18" "nat (- i) < 10 ^ Suc 18" by simp_all
  then show ?thesis using nat_digits_length [of "nat i" 18] nat_digits_length [of "nat (- i)" 18] by (simp add: itoa_def)
qed

definition weight :: "(gostring \<times> jval) list \<Rightarrow> nat" where
  "weight m = sum_list (map (\<lambda>p. length (marshal_member p) + 1) m)"

lemma go_join_length: "length (go_join [x] ps) \<le> sum_list (map (\<lambda>p. length p + 1) ps)"
  by (induction "[x]" ps rule: go_join.induct) auto

lemma obj_length: "length (json_marshal (VObj m)) \<le> weight m + 2"
  using go_join_length [of "CHR '',''" "map marshal_member m"] by (simp add: marshal_obj weight_def comp_def del: json_marshal.simps)

lemma weight_append: "weight (xs @ ys) = weight xs + weight ys"
  by (simp add: weight_def)

lemma weight_str: "weight (omit z n (VStr s)) \<le> 6 * length n + 6 * length s + 6"
  using json_string_length [of n] json_string_length [of s] by (simp add: omit_def weight_def marshal_member_def)

lemma weight_int: "in_int64 i \<Longrightarrow> weight (omit z n (VInt i)) \<le> 6 * length n + 24"
  using json_string_length [of n] itoa_length [of i] by (simp add: omit_def weight_def marshal_member_def)

lemma weight_bool: "weight (omit z n (VBool b)) \<le> 6 * length n + 9"
  using json_string_length [of n] by (simp add: omit_def weight_def marshal_member_def)

lemma request_fits:
  assumes "sendable_request q" "length (q_op q) + length (q_path q) + length (q_target q) \<le> 100000"
  shows "fits (request_json q)"
proof -
  have u: "in_uint32 i \<Longrightarrow> in_int64 i" for i by (simp add: in_uint32_def in_int64_def)
  have r: "in_int64 (q_offset q)" "in_int64 (q_length q)" "in_int64 (q_len q)" "in_int64 (q_uid q)" "in_int64 (q_gid q)"
      "in_int64 (q_atime q)" "in_int64 (q_mtime q)" "in_int64 (q_version q)" "in_int64 (q_idle q)" "in_int64 (q_mode q)"
    using assms(1) u by (simp_all add: sendable_request_def)
  have o: "weight [(''op'', VStr (q_op q))] \<le> 6 * length (q_op q) + 18"
    using weight_str [of False "''op''" "q_op q"] by (simp add: omit_def)
  have j: "length (json_marshal (request_json q)) \<le> weight (case request_json q of VObj m \<Rightarrow> m | _ \<Rightarrow> []) + 2"
    unfolding request_json_def jval.case by (rule obj_length)
  show ?thesis
    unfolding fits_def MaxFrame_def
    using j [unfolded request_json_def jval.case weight_append] assms(2) o weight_str [of "q_path q = []" "''path''" "q_path q"]
      weight_str [of "q_target q = []" "''target''" "q_target q"]
      weight_int [OF r(1), of "q_offset q = 0" "''offset''"] weight_int [OF r(2), of "q_length q = 0" "''length''"]
      weight_int [OF r(3), of "q_len q = 0" "''len''"] weight_bool [of "\<not> q_trunc q" "''trunc''" "q_trunc q"]
      weight_int [OF r(10), of "q_mode q = 0" "''mode''"] weight_int [OF r(4), of "q_uid q = 0" "''uid''"]
      weight_int [OF r(5), of "q_gid q = 0" "''gid''"] weight_int [OF r(6), of "q_atime q = 0" "''atime''"]
      weight_int [OF r(7), of "q_mtime q = 0" "''mtime''"] weight_int [OF r(8), of "q_version q = 0" "''version''"]
      weight_int [OF r(9), of "q_idle q = 0" "''idle_timeout_sec''"]
    unfolding request_json_def by (simp del: json_marshal.simps)
qed

lemma data_response_fits: "in_int64 n \<Longrightarrow> fits (response_json (zero_response\<lparr>p_len := n\<rparr>))"
  using weight_int [of n "n = 0" "''len''"] obj_length [of "omit_int ''len'' n"]
  by (simp add: fits_def MaxFrame_def response_json_def zero_response_def omit_def del: json_marshal.simps)

section \<open>Reading and writing files through the helper\<close>

text \<open>\<open>pwrite\<close> into a file: a gap is filled with zero bytes, and no bytes change nothing.\<close>

definition overlay :: "bytes \<Rightarrow> nat \<Rightarrow> bytes \<Rightarrow> bytes" where
  "overlay d off b =
     (if b = [] then d
      else take off (d @ replicate (off - length d) (CHR 0x00)) @ b @ drop (off + length b) d)"

text \<open>
  What reading and writing a regular file means: \<open>content\<close> is what the file at the path holds.
  These are the POSIX meanings of open, lseek, read and pwrite on a file that may be opened.
\<close>

definition readable_file :: "'fs os \<Rightarrow> 'fs \<Rightarrow> gostring \<Rightarrow> bytes \<Rightarrow> bool" where
  "readable_file os fs p d \<longleftrightarrow>
     os_open os fs p = None \<and> (\<forall>off\<ge>0. os_seek os fs p off = None) \<and>
     (\<forall>off\<ge>0. \<forall>n. os_read_all os fs p off (Some n) = Inr (take n (drop (nat off) d)))"

definition writable_file :: "'fs os \<Rightarrow> ('fs \<Rightarrow> bytes option) \<Rightarrow> gostring \<Rightarrow> bool" where
  "writable_file os content p \<longleftrightarrow>
     (\<forall>fs trunc. \<exists>fs'. os_open_write os fs p trunc = (fs', None) \<and>
        content fs' = Some (if trunc then [] else case content fs of None \<Rightarrow> [] | Some d \<Rightarrow> d)) \<and>
     (\<forall>fs d b off. content fs = Some d \<longrightarrow> off \<ge> 0 \<longrightarrow>
        (\<exists>fs'. os_write_at os fs p b off = (fs', None) \<and> content fs' = Some (overlay d (nat off) b)))"

definition sendable_path :: "gostring \<Rightarrow> bool" where
  "sendable_path p \<longleftrightarrow> valid_utf8 p \<and> length p \<le> 4096"

lemma on_path_sendable:
  assumes "sendable_path p" "is_ascii op" "length op \<le> 8" "in_int64 off" "in_int64 n" "in_int64 k"
  shows "sendable_request ((on_path op p)\<lparr>q_offset := off, q_length := n, q_len := k, q_trunc := t\<rparr>)"
    and "fits (request_json ((on_path op p)\<lparr>q_offset := off, q_length := n, q_len := k, q_trunc := t\<rparr>))"
proof -
  have z: "in_int64 0" "in_uint32 0" by (simp_all add: in_int64_def in_uint32_def)
  show s: "sendable_request ((on_path op p)\<lparr>q_offset := off, q_length := n, q_len := k, q_trunc := t\<rparr>)"
    using assms z ascii_valid_utf8 [of "[]"] ascii_valid_utf8 [OF assms(2)]
    by (simp add: sendable_request_def on_path_def zero_request_def sendable_path_def is_ascii_def)
  show "fits (request_json ((on_path op p)\<lparr>q_offset := off, q_length := n, q_len := k, q_trunc := t\<rparr>))"
    using assms by (intro request_fits [OF s]) (simp add: on_path_def zero_request_def sendable_path_def)
qed

lemma zero_response_sendable: "sendable_response zero_response"
  using ascii_valid_utf8 [of "[]"] by (simp add: sendable_response_def zero_response_def in_int64_def is_ascii_def)

lemma call_read:
  assumes c: "in_step c" and d: "readable_file os (s_fs (c_peer c)) p d" and p: "sendable_path p"
    and off: "0 \<le> off" "off < 2 ^ 63" and want: "0 < want" "want \<le> chunkSize"
  shows "\<exists>resp. call (helper_peer os) ((on_path OpRead p)\<lparr>q_offset := off, q_length := want\<rparr>) [] c =
    (c, Inr (resp, take (nat want) (drop (nat off) d)))"
proof -
  let ?req = "(on_path OpRead p)\<lparr>q_offset := off, q_length := want\<rparr>"
  let ?data = "take (nat want) (drop (nat off) d)"
  have op: "is_ascii OpRead" "length OpRead \<le> 8" by (simp_all add: OpRead_def is_ascii_def)
  have w: "want \<le> int MaxPayload" "in_int64 want" "in_int64 off" "in_int64 0"
    using want off by (simp_all add: chunkSize_def MaxPayload_def in_int64_def)
  have eq: "?req\<lparr>q_len := int (length [])\<rparr> = (on_path OpRead p)\<lparr>q_offset := off, q_length := want, q_len := 0, q_trunc := False\<rparr>"
    by (simp add: on_path_def zero_request_def)
  have send: "sendable_request (?req\<lparr>q_len := int (length [])\<rparr>)" "fits (request_json (?req\<lparr>q_len := int (length [])\<rparr>))"
    unfolding eq by (rule on_path_sendable [OF p op w(3) w(2) w(4)])+
  have len: "length ?data \<le> MaxPayload" using w(1) by simp
  have disp: "helper_dispatch os (?req\<lparr>q_len := int (length [])\<rparr>) [] (c_peer c) = (c_peer c, zero_response, ?data)"
    using d w(1) off want
    by (auto simp: helper_dispatch_def helper_read_def readable_file_def on_path_def zero_request_def helper_ops)
  have ds: "fits (response_json (zero_response\<lparr>p_len := int (length ?data)\<rparr>))"
    using len by (intro data_response_fits) (simp add: in_int64_def MaxPayload_def)
  have "q_op ?req \<noteq> OpQuit" by (simp add: on_path_def helper_ops)
  from call_helper(1) [OF c send(1) _ send(2) this disp zero_response_sendable len ds]
  have "call (helper_peer os) ?req [] c = (c\<lparr>c_peer := c_peer c\<rparr>, Inr (zero_response\<lparr>p_len := int (length ?data)\<rparr>, ?data))"
    by (simp add: zero_response_def del: length_take length_drop)
  then show ?thesis by (cases c) auto
qed

text \<open>The part of a file a range names; a negative length means to the end.\<close>

definition file_range :: "bytes \<Rightarrow> int \<Rightarrow> int \<Rightarrow> bytes" where
  "file_range d off len = (if len < 0 then drop (nat off) d else take (nat len) (drop (nat off) d))"

abbreviation collect :: "bytes \<Rightarrow> bytes \<Rightarrow> bytes option" where
  "collect out b \<equiv> Some (out @ b)"

lemma read_range_loop:
  assumes c: "in_step c" and d: "readable_file os (s_fs (c_peer c)) p d" and p: "sendable_path p"
    and small: "length d < 2 ^ 63"
  shows "0 \<le> off \<Longrightarrow> off < 2 ^ 63 \<Longrightarrow>
    ReadRangeTo (helper_peer os) collect p off len out c = Some (c, out @ file_range d off len, None)"
proof (induction "length d - nat off" arbitrary: off len out rule: less_induct)
  case less
  show ?case
  proof (cases "len = 0")
    case True
    then show ?thesis by (simp add: ReadRangeTo.simps file_range_def)
  next
    case False
    define want where "want = (if len > 0 \<and> len < chunkSize then len else chunkSize)"
    define data where "data = take (nat want) (drop (nat off) d)"
    have w: "0 < want" "want \<le> chunkSize" using False by (auto simp: want_def chunkSize_def)
    obtain resp where call: "call (helper_peer os) ((on_path OpRead p)\<lparr>q_offset := off, q_length := want\<rparr>) [] c =
        (c, Inr (resp, data))"
      using call_read [OF c d p less.prems w] by (auto simp: data_def)
    have out: "(if data = [] then Some out else collect out data) = Some (out @ data)" by simp
    have unf: "ReadRangeTo (helper_peer os) collect p off len out c =
        (if int (length data) < want then Some (c, out @ data, None)
         else ReadRangeTo (helper_peer os) collect p (off + int (length data))
                (if len > 0 then len - int (length data) else len) (out @ data) c)"
      using False by (subst ReadRangeTo.simps) (simp add: Let_def call out flip: want_def)
    show ?thesis
    proof (cases "int (length data) < want")
      case True
      then have "length (drop (nat off) d) < nat want" by (auto simp: data_def)
      moreover have "nat want \<le> nat len" if "\<not> len < 0" using that False by (auto simp: want_def)
      ultimately have "file_range d off len = data"
        by (fastforce simp: file_range_def data_def)
      then show ?thesis using True unf by simp
    next
      case long: False
      have n: "length data = nat want" "nat want \<le> length d - nat off" using long w by (auto simp: data_def)
      have next_off: "nat (off + want) = nat off + nat want" using less.prems w by simp
      have room: "nat off + nat want \<le> length d" using n w by linarith
      have "int (length d) < 2 ^ 63" using small by simp
      then have lt: "off + want < 2 ^ 63" using room less.prems(1) w by linarith
      have "length d - nat (off + want) < length d - nat off" using next_off room w by linarith
      from less.hyps [OF this] less.prems(1) w lt
      have rest: "ReadRangeTo (helper_peer os) collect p (off + want) (if len > 0 then len - want else len) (out @ data) c =
          Some (c, (out @ data) @ file_range d (off + want) (if len > 0 then len - want else len), None)"
        by simp
      have wl: "want \<le> len" if "len > 0" using that by (auto simp: want_def)
      have dr: "drop (nat (off + want)) d = drop (nat want) (drop (nat off) d)" by (simp add: next_off add.commute)
      have ta: "take (nat want) x @ take (nat len - nat want) (drop (nat want) x) = take (nat len) x"
        if "nat want \<le> nat len" for x :: bytes
        using that by (metis le_add_diff_inverse take_add)
      have "data @ file_range d (off + want) (if len > 0 then len - want else len) = file_range d off len"
      proof (cases "len < 0")
        case True
        then have "\<not> 0 < len" by simp
        then show ?thesis using True append_take_drop_id [of "nat want" "drop (nat off) d"]
          by (simp only: file_range_def data_def dr if_True if_False)
      next
        case pos: False
        then have "nat want \<le> nat len" "0 < len" "\<not> len - want < 0" "nat (len - want) = nat len - nat want"
          using False wl w by (auto simp: nat_diff_distrib)
        then show ?thesis using pos ta by (simp only: file_range_def data_def dr if_True if_False)
      qed
      moreover have il: "int (length data) = want" using n(1) w by simp
      ultimately show ?thesis using rest unfolding unf il by (simp only: less_irrefl if_False append_assoc)
    qed
  qed
qed

lemma call_write:
  assumes c: "in_step c" and wr: "writable_file os (content p) p" and p: "sendable_path p"
    and off: "0 \<le> off" "off < 2 ^ 63" and b: "length b \<le> MaxPayload"
    and old: "(if t then [] else case content p (s_fs (c_peer c)) of None \<Rightarrow> [] | Some d \<Rightarrow> d) = d"
  shows "\<exists>c' r. call (helper_peer os) ((on_path OpWrite p)\<lparr>q_offset := off, q_trunc := t\<rparr>) b c = (c', Inr r) \<and>
    in_step c' \<and> content p (s_fs (c_peer c')) = Some (overlay d (nat off) b)"
proof -
  let ?req = "(on_path OpWrite p)\<lparr>q_offset := off, q_trunc := t\<rparr>"
  obtain fs1 where o: "os_open_write os (s_fs (c_peer c)) p t = (fs1, None)" "content p fs1 = Some d"
  proof -
    have "\<exists>fs'. os_open_write os (s_fs (c_peer c)) p t = (fs', None) \<and>
        content p fs' = Some (if t then [] else case content p (s_fs (c_peer c)) of None \<Rightarrow> [] | Some d \<Rightarrow> d)"
      using wr unfolding writable_file_def by blast
    then show ?thesis using old that by auto
  qed
  then obtain fs2 where w: "os_write_at os fs1 p b off = (fs2, None)" "content p fs2 = Some (overlay d (nat off) b)"
    using wr off unfolding writable_file_def by blast
  have op: "is_ascii OpWrite" "length OpWrite \<le> 8" by (simp_all add: OpWrite_def is_ascii_def)
  have i: "in_int64 off" "in_int64 0" "in_int64 (int (length b))"
    using off b by (simp_all add: in_int64_def MaxPayload_def)
  have eq: "?req\<lparr>q_len := int (length b)\<rparr> =
      (on_path OpWrite p)\<lparr>q_offset := off, q_length := 0, q_len := int (length b), q_trunc := t\<rparr>"
    by (simp add: on_path_def zero_request_def)
  have send: "sendable_request (?req\<lparr>q_len := int (length b)\<rparr>)" "fits (request_json (?req\<lparr>q_len := int (length b)\<rparr>))"
    unfolding eq by (rule on_path_sendable [OF p op i])+
  define s' where "s' = (c_peer c)\<lparr>s_fs := fs2\<rparr>"
  have disp: "helper_dispatch os (?req\<lparr>q_len := int (length b)\<rparr>) b (c_peer c) = (s', zero_response, [])"
    using o w by (simp add: helper_dispatch_def helper_write_def on_path_def zero_request_def helper_ops s'_def)
  have ds: "fits (response_json (zero_response\<lparr>p_len := int (length ([]::bytes))\<rparr>))"
    by (intro data_response_fits) (simp add: in_int64_def)
  have q: "q_op ?req \<noteq> OpQuit" by (simp add: on_path_def helper_ops)
  note h = call_helper [OF c send(1) b send(2) q disp zero_response_sendable _ ds, simplified]
  show ?thesis
    using h w(2) by (intro exI conjI) (auto simp: zero_response_def s'_def)
qed

lemma overlay_append: "overlay d (length d) b = d @ b"
  by (simp add: overlay_def)

lemma overlay_start: "overlay [] 0 b = b"
  by (simp add: overlay_def)

text \<open>A source that delivers blocks no longer than the buffer and ends without an error.\<close>

fun clean_source :: "(bytes \<times> read_status) list \<Rightarrow> bool" where
  "clean_source [] = True"
| "clean_source ((b, st) # rs) =
     (int (length b) \<le> chunkSize \<and> st \<noteq> ReadError \<and> (st = AtEOF \<or> clean_source rs))"

fun source_bytes :: "(bytes \<times> read_status) list \<Rightarrow> bytes" where
  "source_bytes [] = []"
| "source_bytes ((b, st) # rs) = b @ (if st = AtEOF then [] else source_bytes rs)"

lemma write_at_loop:
  assumes "writable_file os (content p) p" "sendable_path p"
  shows "in_step c \<Longrightarrow> content p (s_fs (c_peer c)) = Some d \<Longrightarrow> clean_source rs \<Longrightarrow>
    length d + length (source_bytes rs) < 2 ^ 63 \<Longrightarrow>
    \<exists>c'. WriteAtFrom (helper_peer os) p (int (length d)) rs c = (c', None) \<and> in_step c' \<and>
      content p (s_fs (c_peer c')) = Some (d @ source_bytes rs)"
proof (induction rs arbitrary: c d rule: clean_source.induct)
  case 1
  then show ?case by simp
next
  case (2 b st rs)
  have bl: "length b \<le> MaxPayload" using 2(4) by (simp add: chunkSize_def MaxPayload_def)
  have dl: "int (length d) < 2 ^ 63" using 2(5) by simp
  obtain c1 where c1: "(if b = [] then (c, None)
      else case call (helper_peer os) ((on_path OpWrite p)\<lparr>q_offset := int (length d)\<rparr>) b c of
        (c', Inl e) \<Rightarrow> (c', Some e) | (c', Inr r) \<Rightarrow> (c', None)) = (c1, None)"
      and i1: "in_step c1" "content p (s_fs (c_peer c1)) = Some (d @ b)"
  proof (cases "b = []")
    case True
    then show ?thesis using 2(2,3) that by simp
  next
    case False
    have "(on_path OpWrite p)\<lparr>q_offset := int (length d)\<rparr> = (on_path OpWrite p)\<lparr>q_offset := int (length d), q_trunc := False\<rparr>"
      by (simp add: on_path_def zero_request_def)
    then show ?thesis
      using call_write [where content = content, OF 2(2) assms _ dl bl, of False d] 2(3) False that
      by (auto simp: overlay_append)
  qed
  show ?case
  proof (cases st)
    case AtEOF
    then show ?thesis using c1 i1 by (auto simp: on_path_def)
  next
    case ReadError
    then show ?thesis using 2(4) by simp
  next
    case MoreToCome
    have "clean_source rs" "length (d @ b) + length (source_bytes rs) < 2 ^ 63"
      using 2(4,5) MoreToCome by simp_all
    from 2(1) [OF i1 this] obtain c' where "WriteAtFrom (helper_peer os) p (int (length (d @ b))) rs c1 = (c', None)"
        "in_step c'" "content p (s_fs (c_peer c')) = Some ((d @ b) @ source_bytes rs)" by blast
    then show ?thesis using c1 MoreToCome by simp
  qed
qed

text \<open>C27: A ranged or whole-file read through the helper ends and delivers exactly the bytes of the
  range, however many chunks that takes, and leaves client and helper in step.\<close>

theorem download_exact:
  assumes "in_step c" and "readable_file os (s_fs (c_peer c)) p d" and "sendable_path p"
    and "length d < 2 ^ 63" and "0 \<le> off" and "off < 2 ^ 63"
  shows "ReadRangeTo (helper_peer os) collect p off len out c = Some (c, out @ file_range d off len, None)"
  using assms by (intro read_range_loop)

text \<open>Writing a file through the helper succeeds and replaces what the file held by exactly the
  source's bytes, in order; an empty source leaves an empty file.\<close>

theorem upload_replaces:
  assumes "in_step c" and "writable_file os (content p) p" and "sendable_path p"
    and "clean_source rs" and "length (source_bytes rs) < 2 ^ 63"
  shows "\<exists>c'. WriteFrom (helper_peer os) p rs c = (c', None) \<and> in_step c' \<and>
    content p (s_fs (c_peer c')) = Some (source_bytes rs)"
proof -
  obtain b st where r: "(case rs of [] \<Rightarrow> ([], AtEOF) | r # _ \<Rightarrow> r) = (b, st)"
    by (cases "case rs of [] \<Rightarrow> ([], AtEOF) | r # _ \<Rightarrow> r")
  have b: "length b \<le> MaxPayload" "st \<noteq> ReadError"
      "source_bytes rs = b @ (if st = AtEOF then [] else source_bytes (tl rs))" "st = AtEOF \<or> clean_source (tl rs)"
    using r assms(4) by (auto simp: chunkSize_def MaxPayload_def split: list.splits)
  have eq: "(on_path OpWrite p)\<lparr>q_trunc := True\<rparr> = (on_path OpWrite p)\<lparr>q_offset := 0, q_trunc := True\<rparr>"
    by (simp add: on_path_def zero_request_def)
  obtain c1 x where c1: "call (helper_peer os) ((on_path OpWrite p)\<lparr>q_trunc := True\<rparr>) b c = (c1, Inr x)"
      "in_step c1" "content p (s_fs (c_peer c1)) = Some b"
    using call_write [where content = content and t = True and off = 0 and d = "[]", OF assms(1-3) _ _ b(1)]
    by (auto simp: eq overlay_start)
  show ?thesis
  proof (cases "st = AtEOF")
    case True
    then show ?thesis using r b c1 by (auto simp: WriteFrom_def)
  next
    case False
    then have "clean_source (tl rs)" "length b + length (source_bytes (tl rs)) < 2 ^ 63"
      using b assms(5) by simp_all
    from write_at_loop [where content = content, OF assms(2,3) c1(2,3) this]
    show ?thesis using r b c1 False by (auto simp: WriteFrom_def)
  qed
qed

text \<open>A classified failure of the operating system reaches the caller with the classification it
  had on the node, except that a directory that is not empty arrives as an existing file.\<close>

theorem failures_keep_their_class:
  "client_error_is (decode_error (fail e)) s \<longleftrightarrow> os_error_is e s \<and> s \<noteq> SysNotEmpty"
proof (cases "oe_errno e")
  case (Some n)
  then show ?thesis
    by (cases n; cases s)
       (simp_all add: decode_error_def decode_errno_def fail_def classify_def os_error_is_def errno_defs)
qed (simp add: decode_error_def decode_errno_def fail_def classify_def os_error_is_def errno_defs)

text \<open>A call that fails for any reason but an error reported by the helper leaves the client
  closed, and a closed client never touches the stream again, so no reply is read for the wrong
  request.\<close>

theorem broken_exchange_closes:
  "(case call peer req payload c of
      (c', Inl (Remote msg n)) \<Rightarrow> \<not> c_closed c \<and> \<not> c_closed c'
    | (c', Inl e) \<Rightarrow> c_closed c' \<and> call peer req2 payload2 c' = (c', Inl SessionClosed) \<and> client_Close peer c' = c'
    | (c', Inr _) \<Rightarrow> \<not> c_closed c \<and> \<not> c_closed c')"
  by (simp add: call_def client_Close_def decode_error_def split: sum.splits option.splits prod.splits if_splits)

text \<open>C37: On a stream of well-formed requests the helper does what it does on the sequence of
  requests, one after the other: framing is invisible.\<close>

theorem stream_is_request_sequence:
  assumes "list_all (\<lambda>(q, p). sendable_request q \<and> q_len q = int (length p) \<and> length p \<le> MaxPayload \<and>
             fits (request_json q)) msgs"
  shows "feed os (concat (map (\<lambda>(q, p). put_uint32 (length (json_marshal (request_json q))) @
             json_marshal (request_json q) @ p) msgs)) s =
         fold (\<lambda>(q, p). helper_step os (Arrived (Incoming q p))) msgs s"
  using assms
proof (induction msgs arbitrary: s)
  case Nil
  then show ?case by (simp add: feed.simps)
next
  case (Cons m msgs)
  obtain q p where m: "m = (q, p)" by (cases m)
  define bs where "bs = put_uint32 (length (json_marshal (request_json q))) @ json_marshal (request_json q) @ p"
  define more where "more = concat (map (\<lambda>(q, p). put_uint32 (length (json_marshal (request_json q))) @
             json_marshal (request_json q) @ p) msgs)"
  have "WriteMessage (request_json q) p = Inr bs" using Cons.prems m by (simp add: WriteMessage_fits bs_def)
  then have one: "read_one (bs @ more) = (Incoming q p, more)"
    using Cons.prems m by (intro read_one_written) auto
  have ne: "bs \<noteq> []" by (simp add: bs_def put_uint32_def)
  have done_id: "s_done t \<noteq> None \<Longrightarrow> feed os w t = t" "s_done t \<noteq> None \<Longrightarrow> helper_step os ev t = t" for w t ev
    by (simp_all add: feed.simps helper_step_def)
  have fold_id: "s_done t \<noteq> None \<Longrightarrow> fold (\<lambda>(q, p). helper_step os (Arrived (Incoming q p))) l t = t" for l t
    using done_id(2) by (induction l) auto
  have "feed os (bs @ more) s = fold (\<lambda>(q, p). helper_step os (Arrived (Incoming q p))) msgs (helper_step os (Arrived (Incoming q p)) s)"
  proof (cases "s_done s = None")
    case True
    then have "feed os (bs @ more) s = feed os more (helper_step os (Arrived (Incoming q p)) s)"
      using one ne by (subst feed.simps) simp
    then show ?thesis using Cons.IH Cons.prems by (simp add: more_def)
  next
    case False
    then show ?thesis using done_id fold_id by simp
  qed
  then show ?case by (simp add: m bs_def more_def)
qed

section \<open>A directory that is too large\<close>

lemma go_join_length_ge: "ps \<noteq> [] \<Longrightarrow> sum_list (map length ps) + length ps \<le> length (go_join [x] ps) + 1"
  by (induction "[x]" ps rule: go_join.induct) auto

lemma json_string_ge: "2 \<le> length (json_string s)"
  by (simp add: json_string_def)

lemma itoa_ge: "1 \<le> length (itoa i)"
  using itoa_hd [of i] by (cases "itoa i") auto

lemma entry_length: "55 \<le> length (json_marshal (entry_json e))"
  using json_string_ge [of "e_name e"] itoa_ge [of "e_size e"] itoa_ge [of "e_mode e"] itoa_ge [of "e_uid e"]
    itoa_ge [of "e_gid e"] itoa_ge [of "e_mtime e"]
  by (simp add: entry_json_def json_string_def)

lemma entries_length:
  assumes "n \<le> length es" "es \<noteq> []"
  shows "56 * n \<le> length (json_marshal (VArr (map entry_json es)))"
proof -
  have "sum_list (map (\<lambda>e. 55) es) \<le> sum_list (map (length \<circ> json_marshal \<circ> entry_json) es)"
    by (rule sum_list_mono) (simp add: entry_length del: json_marshal.simps)
  then have "55 * length es \<le> sum_list (map (length \<circ> json_marshal \<circ> entry_json) es)"
    by (simp add: sum_list_triv)
  then show ?thesis
    using go_join_length_ge [of "map json_marshal (map entry_json es)" "CHR '',''"] assms by (simp add: comp_def)
qed

lemma listing_does_not_fit:
  assumes "18725 \<le> length (p_entries p)"
  shows "WriteMessage (response_json p) data = Inl ErrShortFrame"
proof -
  have ne: "p_entries p \<noteq> []" using assms by auto
  have "56 * 18725 \<le> length (json_marshal (VArr (map entry_json (p_entries p))))"
    using entries_length [OF assms ne] .
  then have big: "56 * 18725 \<le> length (marshal_member (''entries'', VArr (map entry_json (p_entries p))))"
    by (simp add: marshal_member_def del: json_marshal.simps)
  have eq: "response_json p = VObj ((omit_str ''err'' (p_err p) @ omit_str ''errno'' (p_errno p) @ omit_int ''len'' (p_len p)) @
      (''entries'', VArr (map entry_json (p_entries p))) #
      (omit_str ''link'' (p_link p) @ omit_int ''version'' (p_version p) @ omit_str ''arch'' (p_arch p)))"
    using ne by (simp add: response_json_def omit_def [of False] omit_def [of "p_entries p = []"])
  have sub: "length (marshal_member k) \<le> length (json_marshal (VObj (xs @ k # ys)))" for xs ys k
  proof -
    have "sum_list (map length (map marshal_member (xs @ k # ys))) + length (xs @ k # ys)
        \<le> length (go_join [CHR '',''] (map marshal_member (xs @ k # ys))) + 1"
      using go_join_length_ge [of "map marshal_member (xs @ k # ys)" "CHR '',''"] by simp
    then show ?thesis by (simp add: marshal_obj del: json_marshal.simps)
  qed
  have "length (marshal_member (''entries'', VArr (map entry_json (p_entries p)))) \<le> length (json_marshal (response_json p))"
    unfolding eq by (rule sub)
  with big have "56 * 18725 \<le> length (json_marshal (response_json p))" by (rule le_trans)
  then show ?thesis by (simp add: WriteMessage_def MaxFrame_def)
qed

text \<open>Listing a directory of 18725 readable entries or more ends the helper: the reply header
  exceeds the frame limit, nothing is answered and the session is over.\<close>

theorem large_listing_ends_session:
  assumes "s_done s = None" and "os_readdir os (s_fs s) dir = Inr (map Some fis)" and "18725 \<le> length fis"
  shows "s_done (helper_step os (Arrived (Incoming (on_path OpList dir) [])) s) = Some (Some ErrShortFrame) \<and>
         s_out (helper_step os (Arrived (Incoming (on_path OpList dir) [])) s) = s_out s"
proof -
  have l: "helper_list os dir (s_fs s) = zero_response\<lparr>p_entries := map entryOf fis\<rparr>"
    using assms(2) by (simp add: helper_list_def List.map_filter_def comp_def)
  have d: "helper_dispatch os (on_path OpList dir) [] s = (s, zero_response\<lparr>p_entries := map entryOf fis\<rparr>, [])"
    by (simp add: helper_dispatch_def on_path_def helper_ops l)
  have w: "WriteMessage (response_json ((zero_response\<lparr>p_entries := map entryOf fis\<rparr>)\<lparr>p_len := int (length [])\<rparr>)) [] = Inl ErrShortFrame"
    using assms(3) by (intro listing_does_not_fit) simp
  have q: "q_op (on_path OpList dir) \<noteq> OpQuit" by (simp add: on_path_def helper_ops)
  show ?thesis using assms(1) q d w by (simp add: helper_step_def)
qed

section \<open>Witnesses\<close>

text \<open>A node with one file.\<close>

definition demo_os :: "bytes option os" where
  "demo_os =
     \<lparr>os_lstat = (\<lambda>fs p. Inl (plain_error ''lstat'')), os_readdir = (\<lambda>fs p. Inl (plain_error ''readdir'')),
      os_readlink = (\<lambda>fs p. Inl (plain_error ''readlink'')), os_open = (\<lambda>fs p. None), os_seek = (\<lambda>fs p off. None),
      os_read_all = (\<lambda>fs p off lim. Inr (case lim of None \<Rightarrow> drop (nat off) (the fs) | Some n \<Rightarrow> take n (drop (nat off) (the fs)))),
      os_open_write = (\<lambda>fs p t. (Some (if t then [] else case fs of None \<Rightarrow> [] | Some d \<Rightarrow> d), None)),
      os_write_at = (\<lambda>fs p b off. (map_option (\<lambda>d. overlay d (nat off) b) fs, None)),
      os_change = (\<lambda>fs c. (fs, None)), os_quote = id, os_arch = ''amd64''\<rparr>"

definition demo_client :: "bytes option \<Rightarrow> bytes option session client" where
  "demo_client fs =
     \<lparr>c_closed = False, c_in = [], c_peer = \<lparr>s_idle = 60000000000, s_fs = fs, s_out = [], s_done = None\<rparr>\<rparr>"

lemma demo_in_step: "in_step (demo_client fs)"
  by (simp add: in_step_def demo_client_def)

lemma demo_path: "sendable_path ''/tmp/f''"
  using ascii_valid_utf8 [of "''/tmp/f''"] by (simp add: sendable_path_def is_ascii_def)

theorem download_exact_witness:
  "ReadRangeTo (helper_peer demo_os) collect ''/tmp/f'' 2 (- 1) [] (demo_client (Some ''hello'')) =
     Some (demo_client (Some ''hello''), ''llo'', None)"
proof -
  have "readable_file demo_os (s_fs (c_peer (demo_client (Some ''hello'')))) ''/tmp/f'' ''hello''"
    by (simp add: readable_file_def demo_os_def demo_client_def)
  from download_exact [where off = 2 and out = "[]" and len = "- 1", OF demo_in_step this demo_path]
  show ?thesis by (simp add: file_range_def)
qed

theorem upload_replaces_witness:
  "\<exists>c'. WriteFrom (helper_peer demo_os) ''/tmp/f'' [(''ab'', MoreToCome), (''c'', AtEOF)] (demo_client (Some ''old'')) = (c', None) \<and>
     s_fs (c_peer c') = Some ''abc''"
proof -
  have "writable_file demo_os (id :: bytes option \<Rightarrow> bytes option) ''/tmp/f''"
    by (simp add: writable_file_def demo_os_def)
  from upload_replaces [where content = "\<lambda>p. id", OF demo_in_step this demo_path, of "[(''ab'', MoreToCome), (''c'', AtEOF)]" "Some ''old''"]
  show ?thesis by (auto simp: chunkSize_def)
qed

theorem stream_is_request_sequence_witness:
  "feed demo_os (concat (map (\<lambda>(q, p). put_uint32 (length (json_marshal (request_json q))) @
       json_marshal (request_json q) @ p) [(demo_request, ''abc'')])) (c_peer (demo_client None)) =
   helper_step demo_os (Arrived (Incoming demo_request ''abc'')) (c_peer (demo_client None))"
proof -
  have "fits (request_json demo_request)"
    by (intro request_fits [OF demo_request_ok]) (simp add: demo_request_def zero_request_def OpWrite_def)
  then show ?thesis
    using stream_is_request_sequence [of "[(demo_request, ''abc'')]" demo_os "c_peer (demo_client None)"] demo_request_ok
    by (simp add: demo_request_def MaxPayload_def)
qed

definition crowded_os :: "unit os" where
  "crowded_os =
     \<lparr>os_lstat = (\<lambda>fs p. Inl (plain_error ''lstat'')),
      os_readdir = (\<lambda>fs p. Inr (replicate 20000 (Some \<lparr>fi_name = ''f'', fi_size = 0, fi_mode = 0, fi_mtime = 0, fi_owner = None\<rparr>))),
      os_readlink = (\<lambda>fs p. Inl (plain_error ''readlink'')), os_open = (\<lambda>fs p. None), os_seek = (\<lambda>fs p off. None),
      os_read_all = (\<lambda>fs p off lim. Inr []), os_open_write = (\<lambda>fs p t. (fs, None)),
      os_write_at = (\<lambda>fs p b off. (fs, None)), os_change = (\<lambda>fs c. (fs, None)), os_quote = id, os_arch = ''amd64''\<rparr>"

theorem large_listing_ends_session_witness:
  "s_done (helper_step crowded_os (Arrived (Incoming (on_path OpList ''/spool'') []))
     \<lparr>s_idle = 0, s_fs = (), s_out = [], s_done = None\<rparr>) = Some (Some ErrShortFrame)"
  by (rule conjunct1 [OF large_listing_ends_session
        [where fis = "replicate 20000 \<lparr>fi_name = ''f'', fi_size = 0, fi_mode = 0, fi_mtime = 0, fi_owner = None\<rparr>"]])
     (simp_all add: crowded_os_def)

end
