(* ===== verification/ContainerCommand.thy ===== *)
theory ContainerCommand
  imports GoText
begin

text \<open>
  \<open>internal/guesthelper/exec.go\<close> and \<open>launch.go\<close>: the command lines proxpass runs on a
  node. They are shell text; what the client asked for is one quoted argument in it. How a POSIX
  shell reads quoted words is defined here as the reference the quoting is checked against.
\<close>

section \<open>Quoting\<close>

definition shellQuote :: "gostring \<Rightarrow> gostring" where
  "shellQuote s = CHR 0x27 # concat (map (\<lambda>c. if c = CHR 0x27 then [CHR 0x27, CHR 0x5C, CHR 0x27, CHR 0x27] else [c]) s) @ [CHR 0x27]"

definition shellQuoteAll :: "gostring list \<Rightarrow> gostring" where
  "shellQuoteAll args = go_join [CHR '' ''] (map shellQuote args)"

section \<open>The reference: words of a shell command\<close>

text \<open>
  The characters that mean themselves outside quotes. Anything else that is not a blank, a
  backslash or a single quote (an expansion, an operator, a double quote) makes the text more than
  literal words, and it is not read at all. A NUL byte cannot be in an argument.
\<close>

definition sh_plain :: "char \<Rightarrow> bool" where
  "sh_plain c = (is_digit c \<or> (65 \<le> code c \<and> code c \<le> 90) \<or> (97 \<le> code c \<and> code c \<le> 122) \<or> c \<in> set ''/.-_=:,+%@'')"

datatype sh_mode = Blank | InWord | Quoted | Escaped

fun sh_read :: "sh_mode \<Rightarrow> bytes \<Rightarrow> bytes \<Rightarrow> bytes list option" where
  "sh_read Blank w [] = Some []"
| "sh_read InWord w [] = Some [w]"
| "sh_read Quoted w [] = None"
| "sh_read Escaped w [] = None"
| "sh_read Quoted w (c # s) =
     (if c = CHR 0x27 then sh_read InWord w s
      else if c = CHR 0x00 then None
      else sh_read Quoted (w @ [c]) s)"
| "sh_read Escaped w (c # s) =
     (if c = CHR 0x00 \<or> c = CHR 0x0A then None else sh_read InWord (w @ [c]) s)"
| "sh_read m w (c # s) =
     (if c = CHR '' '' then (if m = InWord then map_option ((#) w) (sh_read Blank [] s) else sh_read Blank [] s)
      else if c = CHR 0x27 then sh_read Quoted w s
      else if c = CHR 0x5C then sh_read Escaped w s
      else if sh_plain c then sh_read InWord (w @ [c]) s
      else None)"

definition sh_words :: "bytes \<Rightarrow> bytes list option" where
  "sh_words s = sh_read Blank [] s"

section \<open>Commands in a container\<close>

definition ErrNotRunningStatus :: int where "ErrNotRunningStatus = 125"

definition shellPrelude :: gostring where "shellPrelude = ''set -e''"

definition cgroupFlagVar :: gostring where "cgroupFlagVar = ''$ppcg''"

definition enterArgs :: "bool \<Rightarrow> gostring list" where
  "enterArgs unprivileged =
     [''nsenter'', cgroupFlagVar, ''-t'', [CHR 0x22] @ ''$pid'' @ [CHR 0x22],
      ''-m'', ''-r'', ''-n'', ''-p'', ''-u'', ''-i''] @
     (if unprivileged then [''-U'', ''-S'', ''0'', ''-G'', ''0''] else [])"

definition cgroupProbe :: gostring where
  "cgroupProbe =
     ''ppcg=; if nsenter --help 2>&1 | grep -q -- --join-cgroup && '' @
     ''[ '' @ [CHR 0x22] @ ''$(printf pp | nsenter -c -t '' @ [CHR 0x22] @ ''$pid'' @ [CHR 0x22] @ '' -u -- /bin/cat 2>/dev/null)'' @ [CHR 0x22] @ '' = pp ]; '' @
     ''then ppcg=-c; fi''"

definition containerCommand :: "int \<Rightarrow> gostring \<Rightarrow> gostring" where
  "containerCommand vmid cmd =
     (let pidOf = ''lxc-info -n '' @ shellQuote (itoa vmid) @ '' -p 2>/dev/null | '' @
            ''sed -n '' @ [CHR 0x27] @ ''s/^PID:[[:space:]]*'' @ [CHR 0x5C] @ ''([0-9]'' @ [CHR 0x5C] @ ''{1,'' @ [CHR 0x5C] @ ''}'' @ [CHR 0x5C] @ '')$/'' @ [CHR 0x5C] @ ''1/p'' @ [CHR 0x27]
      in go_join ''; ''
        [shellPrelude,
         ''pid=$('' @ pidOf @ '')'',
         ''[ -n '' @ [CHR 0x22] @ ''$pid'' @ [CHR 0x22] @ '' ] || { echo '' @ [CHR 0x22] @ ''container '' @ itoa vmid @
           '' is not running'' @ [CHR 0x22] @ '' >&2; exit '' @ itoa ErrNotRunningStatus @ ''; }'',
         cgroupProbe,
         ''exec '' @ cmd])"

definition ExecCommand :: "int \<Rightarrow> bool \<Rightarrow> gostring list \<Rightarrow> gostring" where
  "ExecCommand vmid unprivileged argv =
     containerCommand vmid (go_join [CHR '' ''] (enterArgs unprivileged @ [''--'']) @ '' '' @ shellQuoteAll argv)"

definition envPrelude :: gostring where
  "envPrelude = ''PATH=/usr/local/sbin:/usr/local/bin:/usr/sbin:/usr/bin:/sbin:/bin; export PATH; ''"

definition ShellCommand :: "int \<Rightarrow> bool \<Rightarrow> gostring \<Rightarrow> gostring" where
  "ShellCommand vmid unprivileged command =
     (if trim_space command = [] then ExecCommand vmid unprivileged [''/bin/sh'', ''-l'']
      else ExecCommand vmid unprivileged [''/bin/sh'', ''-c'', envPrelude @ command])"

section \<open>Staging and launching the helper\<close>

definition ArchAMD64 :: gostring where "ArchAMD64 = ''amd64''"
definition ArchARM64 :: gostring where "ArchARM64 = ''arm64''"
definition ArchCommand :: gostring where "ArchCommand = ''uname -m''"

definition ParseArch :: "(bytes \<Rightarrow> bytes) \<Rightarrow> gostring \<Rightarrow> gostring option" where
  "ParseArch U unameM =
     (let m = to_lower U (trim_space unameM)
      in if m = ''x86_64'' \<or> m = ''amd64'' then Some ArchAMD64
         else if m = ''aarch64'' \<or> m = ''arm64'' \<or> m = ''armv8l'' then Some ArchARM64
         else None)"

definition StageDir :: gostring where "StageDir = ''/var/tmp''"

definition StagePath :: "gostring \<Rightarrow> gostring" where
  "StagePath arch = StageDir @ ''/proxpass-helper-'' @ itoa 2 @ ''-'' @ arch"

definition stage_temp :: "gostring \<Rightarrow> gostring" where
  "stage_temp arch = StagePath arch @ ''.$$''"

definition StageCommand :: "gostring \<Rightarrow> gostring" where
  "StageCommand arch =
     (let final = StagePath arch; tmp = stage_temp arch
      in go_join ''; ''
        [shellPrelude,
         ''mkdir -p '' @ shellQuote StageDir,
         ''if [ -x '' @ shellQuote final @ '' ]; then cat > /dev/null; exit 0; fi'',
         ''cat > '' @ shellQuote tmp,
         ''chmod 0755 '' @ shellQuote tmp,
         ''mv -f '' @ shellQuote tmp @ '' '' @ shellQuote final])"

definition helperFD :: int where "helperFD = 3"

definition attachCommand :: "int \<Rightarrow> gostring \<Rightarrow> gostring" where
  "attachCommand vmid cmd = go_join ''; ''
     [shellPrelude,
      ''lxc-info -n '' @ shellQuote (itoa vmid) @ '' -p >/dev/null 2>&1 || '' @
        ''{ echo '' @ [CHR 0x22] @ ''container '' @ itoa vmid @
        '' is not running'' @ [CHR 0x22] @ '' >&2; exit '' @ itoa ErrNotRunningStatus @ ''; }'',
      ''exec '' @ cmd]"

definition LaunchCommand :: "int \<Rightarrow> gostring \<Rightarrow> bool \<Rightarrow> gostring" where
  "LaunchCommand vmid arch unprivileged =
     attachCommand vmid
       (go_join [CHR '' '']
          [''lxc-attach'', ''-n'', shellQuote (itoa vmid), ''--clear-env'', ''--'',
           ''/proc/self/fd/'' @ itoa helperFD, ''serve''] @
        '' '' @ itoa helperFD @ ''< '' @ shellQuote (StagePath arch))"

section \<open>A quoted argument is one literal word\<close>

lemma sh_read_quoted:
  "CHR 0x00 \<notin> set s \<Longrightarrow>
   sh_read Quoted w (concat (map (\<lambda>c. if c = CHR 0x27 then [CHR 0x27, CHR 0x5C, CHR 0x27, CHR 0x27] else [c]) s) @ CHR 0x27 # rest) =
   sh_read InWord (w @ s) rest"
  by (induction s arbitrary: w) auto

lemma sh_read_quote:
  "CHR 0x00 \<notin> set s \<Longrightarrow> sh_read Blank [] (shellQuote s @ rest) = sh_read InWord s rest"
  using sh_read_quoted [of s "[]" rest] by (simp add: shellQuote_def)

lemma sh_words_quoted:
  "\<forall>a\<in>set args. CHR 0x00 \<notin> set a \<Longrightarrow> sh_words (shellQuoteAll args) = Some args"
  unfolding sh_words_def shellQuoteAll_def
proof (induction args)
  case (Cons a args)
  then show ?case
  proof (cases args)
    case Nil
    then show ?thesis using Cons.prems sh_read_quote [of a "[]"] by simp
  next
    case (Cons b bs)
    then show ?thesis using Cons.IH Cons.prems by (simp add: sh_read_quote)
  qed
qed simp

definition exec_prefix :: "int \<Rightarrow> bool \<Rightarrow> gostring" where
  "exec_prefix vmid u = containerCommand vmid (go_join [CHR '' ''] (enterArgs u @ [''--'']) @ '' '')"

lemma exec_command_is_prefix: "ExecCommand vmid u argv = exec_prefix vmid u @ shellQuoteAll argv"
  by (simp add: ExecCommand_def exec_prefix_def containerCommand_def Let_def)



text \<open>
  The staging script writes to a temporary name meant to differ from process to process; quoted, its
  \<open>$$\<close> is two characters, the same for every concurrent staging.
\<close>

lemma stage_temp_is_literal:
  "CHR 0x00 \<notin> set arch \<Longrightarrow> sh_words (shellQuote (stage_temp arch)) = Some [StagePath arch @ ''.$$'']"
  using sh_words_quoted [of "[stage_temp arch]"]
  by (simp add: shellQuoteAll_def stage_temp_def StagePath_def StageDir_def itoa_def nat_digits.simps digit_char_def)

lemma shellQuote_inj: "CHR 0x00 \<notin> set s \<Longrightarrow> CHR 0x00 \<notin> set t \<Longrightarrow> shellQuote s = shellQuote t \<Longrightarrow> s = t"
  using sh_words_quoted [of "[s]"] sh_words_quoted [of "[t]"] by (simp add: shellQuoteAll_def)

end
