(* ===== verification/HelperSession.thy ===== *)
theory HelperSession
  imports HelperClient ContainerCommand
begin

text \<open>
  \<open>internal/guesthelper/session.go\<close> and \<open>embed.go\<close>: starting a helper in a container and
  what its standard error says. The node is an argument, a record of the two things asked of it;
  the binaries the build embeds are an argument too. Errors keep the step that failed.
\<close>

section \<open>What the helper says on standard error\<close>

definition maxKeep :: nat where "maxKeep = 8192"

record diag_writer =
  dw_logger :: bool
  dw_prefix :: gostring
  dw_buf :: bytes
  dw_all :: bytes

text \<open>The loop over \<open>bytes.IndexByte\<close>: the complete lines and what is left of the last one.\<close>

fun cut_lines :: "bytes \<Rightarrow> bytes \<Rightarrow> bytes list \<times> bytes" where
  "cut_lines acc [] = ([], acc)"
| "cut_lines acc (c # cs) =
     (if c = CHR 0x0A then (let (ls, r) = cut_lines [] cs in (acc # ls, r))
      else cut_lines (acc @ [c]) cs)"

definition log_step :: "bytes \<Rightarrow> bytes \<Rightarrow> bytes \<times> bytes list" where
  "log_step buf p =
     (let (ls, r) = cut_lines [] (buf @ p) in (r, filter (\<lambda>l. l \<noteq> []) (map trim_space ls)))"

definition diag_write :: "diag_writer \<Rightarrow> bytes \<Rightarrow> diag_writer \<times> bytes list" where
  "diag_write w p =
     (let w1 = w\<lparr>dw_all := if length (dw_all w) < maxKeep then dw_all w @ p else dw_all w\<rparr>
      in if \<not> dw_logger w then (w1, [])
         else (let (buf, ls) = log_step (dw_buf w) p
               in (w1\<lparr>dw_buf := buf\<rparr>, map (\<lambda>l. dw_prefix w @ '': '' @ l) ls)))"

definition diag_suffix :: "diag_writer \<Rightarrow> gostring" where
  "diag_suffix w =
     (let msg = trim_space (dw_all w)
      in if msg = [] then []
         else '': '' @ concat (map (\<lambda>c. if c = CHR 0x0A then ''; '' else [c]) msg))"

section \<open>Starting\<close>

datatype run_result =
    RunError gostring
  | Ran int bytes bytes

record ('n, 'w) node =
  n_run :: "gostring \<Rightarrow> bytes \<Rightarrow> 'n \<Rightarrow> 'n \<times> run_result"
  n_stream :: "gostring \<Rightarrow> 'n \<Rightarrow> 'n \<times> bytes list \<times> 'w option"

datatype start_error =
    DetectFailed gostring
  | DetectExited gostring
  | ArchUnsupported gostring
  | NoBinary gostring
  | StagingFailed gostring
  | StagingExited gostring
  | LaunchFailed gostring
  | HandshakeFailed client_error gostring

text \<open>\<open>errors.Is(err, ErrUnsupported)\<close>: by the constructor, the error wraps it.\<close>

fun IsUnsupported :: "start_error \<Rightarrow> bool" where
  "IsUnsupported (HandshakeFailed (UnsupportedHandshake e) s) = True"
| "IsUnsupported (HandshakeFailed (UnsupportedVersion v) s) = True"
| "IsUnsupported (HandshakeFailed e s) = False"
| "IsUnsupported _ = True"

definition elfMagic :: bytes where "elfMagic = [CHR 0x7F, CHR ''E'', CHR ''L'', CHR ''F'']"

definition Binary :: "(gostring \<Rightarrow> bytes option) \<Rightarrow> gostring \<Rightarrow> bytes option" where
  "Binary files arch =
     (case files (''bin/proxpass-helper-'' @ arch) of
        None \<Rightarrow> None
      | Some b \<Rightarrow> if has_prefix elfMagic b then Some b else None)"

definition detectArch :: "(bytes \<Rightarrow> bytes) \<Rightarrow> ('n, 'w) node \<Rightarrow> 'n \<Rightarrow> 'n \<times> (start_error + gostring)" where
  "detectArch U nd n =
     (case n_run nd ArchCommand [] n of
        (n', RunError e) \<Rightarrow> (n', Inl (DetectFailed e))
      | (n', Ran status out err) \<Rightarrow>
          if status \<noteq> 0 then (n', Inl (DetectExited (trim_space err)))
          else (case ParseArch U out of
                  None \<Rightarrow> (n', Inl (ArchUnsupported (trim_space out)))
                | Some arch \<Rightarrow> (n', Inr arch)))"

definition stage_helper :: "(gostring \<Rightarrow> bytes option) \<Rightarrow> ('n, 'w) node \<Rightarrow> gostring \<Rightarrow> 'n \<Rightarrow> 'n \<times> start_error option" where
  "stage_helper files nd arch n =
     (case Binary files arch of
        None \<Rightarrow> (n, Some (NoBinary arch))
      | Some b \<Rightarrow>
          (case n_run nd (StageCommand arch) b n of
             (n', RunError e) \<Rightarrow> (n', Some (StagingFailed e))
           | (n', Ran status out err) \<Rightarrow>
               if status \<noteq> 0 then (n', Some (StagingExited (trim_space err))) else (n', None)))"

definition diag_run :: "diag_writer \<Rightarrow> bytes list \<Rightarrow> diag_writer" where
  "diag_run w ps = fold (\<lambda>p w. fst (diag_write w p)) ps w"

definition DefaultIdleTimeout :: int where "DefaultIdleTimeout = 60"

text \<open>
  \<open>Start\<close>. The stream is a peer; what the helper writes on standard error up to the end of the
  handshake is what a failure's text ends with.
\<close>

definition helper_start ::
  "(bytes \<Rightarrow> bytes) \<Rightarrow> (gostring \<Rightarrow> bytes option) \<Rightarrow> ('n, 'w) node \<Rightarrow> 'w peer \<Rightarrow> int \<Rightarrow> bool \<Rightarrow> bool \<Rightarrow> 'n \<Rightarrow>
   'n \<times> (start_error + 'w client)" where
  "helper_start U files nd peer vmid unprivileged logger n =
     (case detectArch U nd n of
        (n1, Inl e) \<Rightarrow> (n1, Inl e)
      | (n1, Inr arch) \<Rightarrow>
          (case stage_helper files nd arch n1 of
             (n2, Some e) \<Rightarrow> (n2, Inl e)
           | (n2, None) \<Rightarrow>
               (case n_stream nd (LaunchCommand vmid arch unprivileged) n2 of
                  (n3, said, stream) \<Rightarrow>
                    let w = diag_run \<lparr>dw_logger = logger, dw_prefix = ''helper ct'' @ itoa vmid, dw_buf = [], dw_all = []\<rparr> said
                    in case stream of
                         None \<Rightarrow> (n3, Inl (LaunchFailed (diag_suffix w)))
                       | Some s \<Rightarrow>
                           (case NewClient peer DefaultIdleTimeout s of
                              Inl e \<Rightarrow> (n3, Inl (HandshakeFailed e (diag_suffix w)))
                            | Inr c \<Rightarrow> (n3, Inr c)))))"

section \<open>Lines do not depend on how they were written\<close>

lemma cut_lines_append:
  "cut_lines acc (xs @ ys) =
     (let (ls, r) = cut_lines acc xs; (ls', r') = cut_lines r ys in (ls @ ls', r'))"
  by (induction xs arbitrary: acc) (simp_all add: Let_def split_beta)

lemma cut_lines_acc: "CHR 0x0A \<notin> set acc \<Longrightarrow> cut_lines w (acc @ s) = cut_lines (w @ acc) s"
  by (induction acc arbitrary: w) auto

lemma cut_lines_rest: "CHR 0x0A \<notin> set acc \<Longrightarrow> cut_lines acc s = (ls, r) \<Longrightarrow> CHR 0x0A \<notin> set r"
proof (induction s arbitrary: acc ls)
  case (Cons c s)
  show ?case
  proof (cases "c = CHR 0x0A")
    case True
    then obtain ls' where "cut_lines [] s = (ls', r)" using Cons.prems(2) by (auto simp: Let_def split: prod.splits)
    then show ?thesis using Cons.IH [of "[]"] by simp
  next
    case False
    then show ?thesis using Cons.IH [of "acc @ [c]" ls] Cons.prems by simp
  qed
qed simp

text \<open>The same step with the pending line as an accumulator, which no newline is ever in.\<close>

definition line_step :: "bytes \<Rightarrow> bytes \<Rightarrow> bytes \<times> bytes list" where
  "line_step buf p = (let (ls, r) = cut_lines buf p in (r, filter (\<lambda>l. l \<noteq> []) (map trim_space ls)))"

lemma log_step_line: "CHR 0x0A \<notin> set buf \<Longrightarrow> log_step buf p = line_step buf p"
  by (simp add: log_step_def line_step_def cut_lines_acc)

interpretation diag: chunked line_step "[]" "(@)"
  by unfold_locales
     (auto simp: line_step_def cut_lines_append Let_def split: prod.splits)

lemma diag_write_line_step:
  assumes "dw_logger w" "CHR 0x0A \<notin> set (dw_buf w)" "diag_write w p = (w', out)"
  shows "dw_logger w' \<and> CHR 0x0A \<notin> set (dw_buf w') \<and> dw_prefix w' = dw_prefix w \<and>
    (\<exists>ls. line_step (dw_buf w) p = (dw_buf w', ls) \<and> out = map (\<lambda>l. dw_prefix w @ '': '' @ l) ls)"
  using assms cut_lines_rest [OF assms(2)]
  by (auto simp: diag_write_def Let_def log_step_line line_step_def split: prod.splits)

lemma diag_run_lines:
  "dw_logger w \<Longrightarrow> CHR 0x0A \<notin> set (dw_buf w) \<Longrightarrow>
   snd (run_chunks diag_write [] (@) w ps) =
   map (\<lambda>l. dw_prefix w @ '': '' @ l) (snd (run_chunks line_step [] (@) (dw_buf w) ps))"
proof (induction ps arbitrary: w)
  case (Cons p ps)
  obtain w' out where d: "diag_write w p = (w', out)" by (cases "diag_write w p")
  note s = diag_write_line_step [OF Cons.prems d]
  obtain ls where ls: "line_step (dw_buf w) p = (dw_buf w', ls)" "out = map (\<lambda>l. dw_prefix w @ '': '' @ l) ls"
    using s by blast
  have "snd (run_chunks diag_write [] (@) w' ps) =
      map (\<lambda>l. dw_prefix w @ '': '' @ l) (snd (run_chunks line_step [] (@) (dw_buf w') ps))"
    using Cons.IH [of w'] s by simp
  then show ?case using d ls by (simp add: Let_def split_beta)
qed simp

text \<open>The lines of a helper's standard error are logged whole, trimmed and without the empty ones,
  however the stream was cut into writes.\<close>

theorem stderr_lines_logged_whole:
  assumes "dw_logger w" and "dw_buf w = []"
  shows "snd (run_chunks diag_write [] (@) w ps) =
    map (\<lambda>l. dw_prefix w @ '': '' @ l)
      (filter (\<lambda>l. l \<noteq> []) (map trim_space (fst (cut_lines [] (concat ps)))))"
  using diag_run_lines [OF assms(1), of ps] assms(2)
  by (simp add: diag.run_concat line_step_def Let_def split: prod.splits)

theorem stderr_lines_logged_whole_witness:
  "snd (run_chunks diag_write [] (@) \<lparr>dw_logger = True, dw_prefix = ''ct7'', dw_buf = [], dw_all = []\<rparr>
     [''no such'', '' file'' @ [CHR 0x0A] @ ''x'']) = [''ct7: no such file'']"
  by (subst stderr_lines_logged_whole) (simp_all add: trim_space_def space_encs_def has_prefix_def)

lemma diag_all_bounded:
  assumes "\<forall>p\<in>set ps. length p \<le> k" "length (dw_all w) < maxKeep + k"
  shows "length (dw_all (diag_run w ps)) < maxKeep + k"
  using assms
proof (induction ps arbitrary: w)
  case (Cons p ps)
  have "length (dw_all (fst (diag_write w p))) < maxKeep + k"
    using Cons.prems by (auto simp: diag_write_def Let_def split: prod.splits)
  then show ?case using Cons by (simp add: diag_run_def)
qed (simp add: diag_run_def)
section \<open>Failures before the handshake\<close>

lemma NewClient_errors: "NewClient peer t s = Inl e \<Longrightarrow> IsUnsupported (HandshakeFailed e msg)"
  by (auto simp: NewClient_def split: prod.splits sum.splits if_splits)

text \<open>Whatever keeps a helper from starting is reported as unsupported, so the caller falls back
  to the shell; and a started helper has completed the handshake of this protocol version.\<close>

theorem start_failures_fall_back:
  "case helper_start U files nd peer vmid unprivileged logger n of
     (n', Inl e) \<Rightarrow> IsUnsupported e
   | (n', Inr c) \<Rightarrow> (\<exists>s. NewClient peer DefaultIdleTimeout s = Inr c) \<and> \<not> c_closed c"
proof -
  have open_client: "\<not> c_closed c" if "NewClient peer t s = Inr c" for t s c
    using that by (auto simp: NewClient_def call_def split: prod.splits sum.splits option.splits if_splits)
  show ?thesis
    by (auto simp: helper_start_def detectArch_def stage_helper_def Let_def
        split: prod.splits sum.splits option.splits run_result.splits if_splits
        dest: NewClient_errors open_client)
qed

end
