(* ===== verification/PickerPrompt.thy ===== *)
theory PickerPrompt
  imports PickerState
begin

text \<open>
  Choosing a target: the interactive loop of \<open>internal/session/interactive.go\<close> and the numbered
  prompt of \<open>picker.go\<close>. The input is the list of bytes still to come; what a choice leaves of it
  is what the guest's console reads. Resizes are given as the batch that has arrived before each
  keystroke.
\<close>

section \<open>The interactive loop\<close>

function pick_loop ::
  "(bytes \<Rightarrow> bytes) \<Rightarrow> (nat \<Rightarrow> (int \<times> int) list) \<Rightarrow> nat \<Rightarrow> picker_state \<Rightarrow> bytes \<Rightarrow> picker_row option \<times> bytes" where
  "pick_loop U resizes n s bs =
     (let s = fold (\<lambda>(w, h). resize_picker w h) (resizes n) s in
      case readKey bs of
        None \<Rightarrow> (None, bs)
      | Some (k, rest) \<Rightarrow>
          (case apply_key U k s of
             (ActionQuit, s') \<Rightarrow> (None, rest)
           | (ActionSelect, s') \<Rightarrow> (Some (ps_shown s' ! nat (ps_cursor s')), rest)
           | (ActionNone, s') \<Rightarrow> pick_loop U resizes (Suc n) s' rest))"
  by pat_completeness auto
termination
proof (relation "measure (\<lambda>(U, resizes, n, s, bs). length bs)", goal_cases)
  case (2 U resizes n s bs x a k rest)
  then have "readKey bs = Some (k, rest)" by simp
  then have "strict_suffix rest bs" by (rule readKey_rest)
  then show ?case by (auto simp: strict_suffix_def suffix_def)
qed simp

declare pick_loop.simps [simp del]

definition pickInteractive ::
  "(bytes \<Rightarrow> bytes) \<Rightarrow> (nat \<Rightarrow> (int \<times> int) list) \<Rightarrow> picker_row list \<Rightarrow> gostring \<Rightarrow> int \<Rightarrow> int \<Rightarrow> bytes \<Rightarrow>
   picker_row option \<times> bytes" where
  "pickInteractive U resizes rows user width height bs =
     pick_loop U resizes 0 (init_picker rows user width height) bs"

section \<open>The numbered prompt\<close>

text \<open>One line, read byte by byte; the end of the input ends a line that has begun.\<close>

fun read_line :: "bytes \<Rightarrow> bytes \<Rightarrow> (bytes \<times> bytes) option" where
  "read_line out [] = (if out = [] then None else Some (out, []))"
| "read_line out (b # bs) =
     (if b = CHR 0x0D \<or> b = CHR 0x0A then Some (out, bs) else read_line (out @ [b]) bs)"

text \<open>\<open>fmt.Sscanf\<close> with \<open>%d\<close>: a sign, the digits that follow, and nothing said of the rest.\<close>

definition sscanf_d :: "gostring \<Rightarrow> int option" where
  "sscanf_d s =
     (let neg = (s \<noteq> [] \<and> hd s = CHR ''-'');
          t = (if s \<noteq> [] \<and> (hd s = CHR ''-'' \<or> hd s = CHR ''+'') then tl s else s);
          ds = takeWhile is_digit t;
          v = (if neg then - int (digits_value ds) else int (digits_value ds))
      in if ds = [] then None else if - (2 ^ 63) \<le> v \<and> v < 2 ^ 63 then Some v else None)"

datatype choice = Chosen int | Quits | Invalid gostring

definition readChoice :: "(bytes \<Rightarrow> bytes \<Rightarrow> bool) \<Rightarrow> bytes \<Rightarrow> int \<Rightarrow> choice \<times> bytes" where
  "readChoice E r maxChoice =
     (case read_line [] r of
        None \<Rightarrow> (Quits, [])
      | Some (line, rest) \<Rightarrow>
          (let line = trim_space line in
           if line = [] \<or> equal_fold E line ''q'' \<or> equal_fold E line ''quit'' then (Quits, rest)
           else (case sscanf_d line of
                   None \<Rightarrow> (Invalid line, rest)
                 | Some n \<Rightarrow> if n < 1 \<or> n > maxChoice then (Invalid line, rest) else (Chosen n, rest))))"

datatype pick_error = PickQuit | InvalidSelection gostring | NotRunning gostring gostring

definition pickNumbered ::
  "(bytes \<Rightarrow> bytes \<Rightarrow> bool) \<Rightarrow> picker_row list \<Rightarrow> bytes \<Rightarrow> (pick_error + picker_row) \<times> bytes" where
  "pickNumbered E rows r =
     (case readChoice E r (int (length rows)) of
        (Quits, rest) \<Rightarrow> (Inl PickQuit, rest)
      | (Invalid line, rest) \<Rightarrow> (Inl (InvalidSelection line), rest)
      | (Chosen n, rest) \<Rightarrow>
          (let row = rows ! nat (n - 1) in
           if \<not> isRunning row then (Inl (NotRunning (pr_name row) (row_status row)), rest) else (Inr row, rest)))"

definition pick ::
  "(bytes \<Rightarrow> bytes) \<Rightarrow> (bytes \<Rightarrow> bytes \<Rightarrow> bool) \<Rightarrow> (nat \<Rightarrow> (int \<times> int) list) \<Rightarrow> bool \<Rightarrow> gostring \<Rightarrow> int \<Rightarrow> int \<Rightarrow>
   picker_row list \<Rightarrow> bytes \<Rightarrow> (pick_error + picker_row) \<times> bytes" where
  "pick U E resizes raw user width height rows r =
     (if \<not> raw then pickNumbered E rows r
      else (case pickInteractive U resizes rows user width height r of
              (None, rest) \<Rightarrow> (Inl PickQuit, rest)
            | (Some row, rest) \<Rightarrow> (Inr row, rest)))"

section \<open>What a choice can be\<close>

lemma resize_reachable:
  "picker_reachable U rows s \<Longrightarrow> picker_reachable U rows (fold (\<lambda>(w, h). resize_picker w h) sizes s)"
  by (induction sizes arbitrary: s) (auto intro: picker_reachable.resize)

lemma read_line_rest: "read_line out bs = Some (line, rest) \<Longrightarrow> suffix rest bs"
  by (induction out bs rule: read_line.induct) (auto split: if_splits intro: suffix_ConsI)

lemma pick_loop_select:
  assumes "pick_loop U resizes n s bs = (Some row, rest)" "picker_reachable U rows s"
  shows "isRunning row \<and> unscored row \<in> unscored ` set rows \<and> suffix rest bs"
  using assms
proof (induction U resizes n s bs rule: pick_loop.induct)
  case (1 U resizes n s bs)
  let ?s = "fold (\<lambda>(w, h). resize_picker w h) (resizes n) s"
  have r: "picker_reachable U rows ?s" using 1(3) by (rule resize_reachable)
  obtain k more where k: "readKey bs = Some (k, more)"
    using 1(2) by (subst (asm) pick_loop.simps) (auto split: option.splits)
  have suf: "suffix more bs" using readKey_rest [OF k] by (simp add: strict_suffix_def)
  obtain a s' where a: "apply_key U k ?s = (a, s')" by (cases "apply_key U k ?s")
  show ?case
  proof (cases a)
    case ActionNone
    then have "pick_loop U resizes (Suc n) s' more = (Some row, rest)"
      using 1(2) k a by (subst (asm) pick_loop.simps) simp
    moreover have "picker_reachable U rows s'" using picker_reachable.keystroke [OF r] a ActionNone by simp
    ultimately have "isRunning row \<and> unscored row \<in> unscored ` set rows \<and> suffix rest more"
      using 1(1) k a ActionNone by simp
    then show ?thesis using suf suffix_order.trans by blast
  next
    case ActionQuit
    then show ?thesis using 1(2) k a by (subst (asm) pick_loop.simps) simp
  next
    case ActionSelect
    then have "row = ps_shown s' ! nat (ps_cursor s')" "rest = more"
      using 1(2) k a by (subst (asm) pick_loop.simps, simp)+
    then show ?thesis using selected_row_runs [OF r, of k s'] a ActionSelect suf by (simp add: Let_def)
  qed
qed

text \<open>Whichever way a target is chosen, it is one of the rows on offer and a node or a running
  guest, and what was typed after the choice is still there for its console.\<close>

theorem picked_target_runs:
  assumes "pick U E resizes raw user width height rows r = (Inr row, rest)"
  shows "isRunning row \<and> unscored row \<in> unscored ` set rows \<and> suffix rest r"
proof (cases raw)
  case True
  then have "pick_loop U resizes 0 (init_picker rows user width height) r = (Some row, rest)"
    using assms by (auto simp: pick_def pickInteractive_def split: prod.splits option.splits)
  then show ?thesis using pick_loop_select picker_reachable.start by blast
next
  case False
  then obtain n where n: "readChoice E r (int (length rows)) = (Chosen n, rest)" "row = rows ! nat (n - 1)" "isRunning row"
    using assms by (auto simp: pick_def pickNumbered_def Let_def split: prod.splits choice.splits if_splits)
  have "1 \<le> n" "n \<le> int (length rows)" "suffix rest r"
    using n(1) read_line_rest by (auto simp: readChoice_def Let_def split: option.splits if_splits)
  then have "row \<in> set rows" using n(2) by simp
  then show ?thesis using n(3) \<open>suffix rest r\<close> by blast
qed

theorem picked_target_runs_witness:
  "\<exists>row. pick id (=) (\<lambda>_. []) False ''bob'' 80 24 demo_picker (''1'' @ [CHR 0x0A] @ ''ls'') = (Inr row, ''ls'') \<and>
     isRunning row \<and> suffix ''ls'' (''1'' @ [CHR 0x0A] @ ''ls'')"
proof -
  have c: "readChoice (=) (''1'' @ [CHR 0x0A] @ ''ls'') (int (length demo_picker)) = (Chosen 1, ''ls'')"
    by (simp add: readChoice_def trim_space_def space_encs_def has_prefix_def sscanf_d_def is_digit_def digits_value_def
        equal_fold_def is_ascii_def ascii_lower_def demo_picker_def newPickerRows_def)
  have d: "isRunning (demo_picker ! 0)"
    by (simp add: demo_picker_def demo_ct_def isRunning_def isNode_def StatusRunning_def)
  have p: "pick id (=) (\<lambda>_. []) False ''bob'' 80 24 demo_picker (''1'' @ [CHR 0x0A] @ ''ls'') = (Inr (demo_picker ! 0), ''ls'')"
    using c d by (simp add: pick_def pickNumbered_def)
  from picked_target_runs [OF p] p show ?thesis by blast
qed

text \<open>
  A line that ends in CR LF leaves the LF in the input, and a number may be followed by anything.
\<close>

lemma crlf_leaves_lf: "read_line [] (''1'' @ [CHR 0x0D, CHR 0x0A] @ rest) = Some (''1'', CHR 0x0A # rest)"
  by simp

lemma trailing_text_ignored: "sscanf_d ''2abc'' = Some 2"
  by (simp add: sscanf_d_def is_digit_def digits_value_def)

end
