(* ===== verification/SessionDispatch.thy ===== *)
theory SessionDispatch
  imports EscapeKey PickerPrompt Resolve SessionApi ContainerCommand
begin

text \<open>
  What a login does: \<open>internal/session/session.go\<close>, \<open>guestcommand.go\<close>, the login-name half of
  \<open>picker.go\<close>, the dispatch of \<open>sftp.go\<close> and the client's CLI commands. A session is a function
  to the list of its effects, in order, and an exit code. The directory is the record of the calls
  the session makes on it; what it asks of a node, of the terminal proxy and of the command-line
  parser are arguments. Log lines are not effects; an error's text is kept where it is proxpass's own.
\<close>

section \<open>Arguments of a session\<close>

datatype dir_error = AccessDenied | DirFailed

record connect_info =
  ci_guest :: guest_row
  ci_inst :: instance_row
  ci_key :: gostring

record node_info =
  ni_inst :: instance_row
  ni_key :: gostring

record activity_report =
  ar_kind :: gostring
  ar_command :: gostring
  ar_host :: gostring
  ar_guest :: gostring

record directory =
  dir_guests :: "dir_error + guest_info list"
  dir_connect :: "int \<Rightarrow> dir_error + connect_info"
  dir_instances :: "dir_error + instance_row list"
  dir_connect_node :: "int \<Rightarrow> dir_error + node_info"

text \<open>What the urfave/cli parser makes of a client's command line.\<close>

datatype client_action =
    CliFails
  | CliGuestLs bool
  | CliGuestConnect "gostring list"
  | CliOther

record session_deps =
  sd_dir :: directory
  sd_login :: gostring
  sd_identity :: gostring
  sd_admin :: bool
  sd_command :: gostring
  sd_raw :: bool
  sd_width :: int
  sd_height :: int
  sd_input :: bytes
  sd_resizes :: "nat \<Rightarrow> (int \<times> int) list"
  sd_bar :: bool
  sd_parse_client :: "gostring list \<Rightarrow> client_action"
  sd_admin_cli :: "gostring list \<Rightarrow> bool \<times> guest_row option"
  sd_attach_ok :: "gostring \<Rightarrow> bool"
  sd_dial_ok :: "instance_row \<Rightarrow> bool"
  sd_exec :: "gostring \<Rightarrow> int option"
  sd_sftp :: "instance_row \<Rightarrow> bool"

datatype session_effect =
    Says gostring
  | SaysResolve resolve_error
  | SaysPick pick_error
  | PrintsUsage gostring
  | Prints gostring
  | Shows "picker_row list"
  | Reports activity_report
  | AttachesGuest guest_row instance_row gostring
  | AttachesNode instance_row gostring
  | Dials instance_row gostring
  | Executes instance_row gostring
  | ServesSFTP guest_row instance_row
  | PumpsSFTP instance_row
  | RunsAdminCLI "gostring list"
  | ListsGuests "guest_row list" bool

type_synonym session_outcome = "session_effect list \<times> int"

definition session_displayName :: "session_deps \<Rightarrow> gostring" where
  "session_displayName d = (if sd_identity d \<noteq> [] then sd_identity d else sd_login d)"

section \<open>Commands\<close>

definition sftpSubsystem :: gostring where "sftpSubsystem = ''sftp-server''"

definition isSFTPRequest :: "gostring \<Rightarrow> bool" where
  "isSFTPRequest cmd =
     (let cmd = trim_space cmd in
      if cmd = [] then False
      else let fs = go_fields cmd in
        if length fs \<noteq> 1 then False
        else let base = hd fs;
                 base = (case last_index CHR ''/'' base of Some i \<Rightarrow> drop (i + 1) base | None \<Rightarrow> base)
          in base = sftpSubsystem \<or> base = ''internal-sftp'')"

definition isHelp :: "(bytes \<Rightarrow> bytes) \<Rightarrow> gostring \<Rightarrow> bool" where
  "isHelp U cmd = (to_lower U (trim_space cmd) \<in> {''help'', ''--help'', ''-h''})"

definition dispatchKind :: "(bytes \<Rightarrow> bytes) \<Rightarrow> gostring \<Rightarrow> gostring" where
  "dispatchKind U cmd =
     (if isHelp U cmd then ''help''
      else if isSFTPRequest cmd then ''sftp''
      else if cmd = [] then ''login-name''
      else ''command'')"

text \<open>\<open>splitArgs\<close>: runes 34 and 39 quote, a blank or a tab outside quotes ends an argument.\<close>

fun split_step :: "nat \<Rightarrow> gostring list \<times> gostring \<times> nat \<Rightarrow> gostring list \<times> gostring \<times> nat" where
  "split_step r (args, cur, quote) =
     (if quote \<noteq> 0 then
        (if r = quote then (args, cur, 0) else (args, cur @ encode_rune r, quote))
      else if r = 34 \<or> r = 39 then (args, cur, r)
      else if r = 32 \<or> r = 9 then (if cur \<noteq> [] then (args @ [cur], [], 0) else (args, cur, 0))
      else (args, cur @ encode_rune r, 0))"

definition splitArgs :: "gostring \<Rightarrow> gostring list" where
  "splitArgs s =
     (case fold split_step (runes s) ([], [], 0) of
        (args, cur, quote) \<Rightarrow> if cur \<noteq> [] then args @ [cur] else args)"

section \<open>Naming a target\<close>

definition isReservedLoginName :: "(bytes \<Rightarrow> bytes) \<Rightarrow> gostring \<Rightarrow> bool" where
  "isReservedLoginName U name = NamesEqual U name AdminUser"

definition guestModels :: "guest_info list \<Rightarrow> guest_row list" where
  "guestModels gs = map gi_guest gs"

definition named_instance :: "int \<Rightarrow> gostring \<Rightarrow> instance_row" where
  "named_instance iid name =
     \<lparr>in_id = iid, in_name = name, in_api_url = [], in_token_id = [], in_token_secret = [], in_transport = [],
      in_node = [], in_insecure_tls = False, in_insecure_ssh = False, in_ssh_host = [], in_ssh_port = 0,
      in_ssh_user = [], in_fps = []\<rparr>"

fun named_loop :: "int list \<Rightarrow> guest_info list \<Rightarrow> instance_row list" where
  "named_loop seen [] = []"
| "named_loop seen (g # gs) =
     (if g_instance (gi_guest g) \<in> set seen then named_loop seen gs
      else named_instance (g_instance (gi_guest g)) (gi_instance_name g) #
             named_loop (g_instance (gi_guest g) # seen) gs)"

definition namedInstances :: "guest_info list \<Rightarrow> instance_row list" where
  "namedInstances gs = named_loop [] gs"

definition resolve_name :: "(bytes \<Rightarrow> bytes) \<Rightarrow> gostring \<Rightarrow> guest_info list \<Rightarrow> resolve_error + guest_row" where
  "resolve_name U name guests =
     (let visible = namedInstances guests;
          (instName, identifier) = ParseGuestTarget name (Some (InstanceLookup U visible))
      in map_sum id fst (ResolveGuestAndInstance U identifier instName (guestModels guests) visible))"

text \<open>\<open>None\<close> stands for a directory that failed.\<close>

definition resolveLoginNameGuest :: "(bytes \<Rightarrow> bytes) \<Rightarrow> session_deps \<Rightarrow> gostring \<Rightarrow> guest_row option" where
  "resolveLoginNameGuest U d name =
     (case dir_guests (sd_dir d) of
        Inl e \<Rightarrow> None
      | Inr guests \<Rightarrow> (case resolve_name U name guests of Inl e \<Rightarrow> None | Inr g \<Rightarrow> Some g))"

definition namesAGuest :: "(bytes \<Rightarrow> bytes) \<Rightarrow> session_deps \<Rightarrow> guest_row option" where
  "namesAGuest U d =
     (let name = trim_space (sd_login d) in
      if name = [] then None
      else if isReservedLoginName U name then None
      else resolveLoginNameGuest U d name)"

definition namesANode :: "(bytes \<Rightarrow> bytes) \<Rightarrow> session_deps \<Rightarrow> gostring \<Rightarrow> instance_row option" where
  "namesANode U d name =
     (if name = [] \<or> isReservedLoginName U name then None
      else if CHR ''@'' \<in> set name then None
      else (case dir_instances (sd_dir d) of
              Inl e \<Rightarrow> None
            | Inr insts \<Rightarrow> find (\<lambda>i. NamesEqual U (in_name i) name) insts))"

section \<open>Consoles\<close>

definition report_of :: "gostring \<Rightarrow> gostring \<Rightarrow> gostring \<Rightarrow> gostring \<Rightarrow> session_effect" where
  "report_of kind cmd host guest = Reports \<lparr>ar_kind = kind, ar_command = cmd, ar_host = host, ar_guest = guest\<rparr>"

definition attach :: "session_deps \<Rightarrow> guest_row \<Rightarrow> instance_row \<Rightarrow> gostring \<Rightarrow> session_outcome" where
  "attach d guest inst key =
     (let banner = (if sd_bar d then ''connecting to '' @ g_name guest @ '' ('' @ in_name inst @ '')''
                    else ''connecting to '' @ g_name guest @ '' ('' @ in_name inst @ '') -- '' @ EscapeHint);
          effects = [Prints banner, AttachesGuest guest inst key]
      in if sd_attach_ok d (g_name guest) then (effects, 0) else (effects @ [Says ''console error''], 1))"

definition attachNode :: "session_deps \<Rightarrow> instance_row \<Rightarrow> gostring \<Rightarrow> session_outcome" where
  "attachNode d inst key =
     (let banner = (if sd_bar d then ''connecting to node '' @ in_name inst
                    else ''connecting to node '' @ in_name inst @ '' -- '' @ EscapeHint);
          effects = [Prints banner, AttachesNode inst key]
      in if sd_attach_ok d (in_name inst) then (effects, 0) else (effects @ [Says ''console error''], 1))"

definition after :: "session_effect list \<Rightarrow> session_outcome \<Rightarrow> session_outcome" where
  "after es r = (es @ fst r, snd r)"

definition connectChecked :: "session_deps \<Rightarrow> guest_row \<Rightarrow> session_outcome" where
  "connectChecked d guest =
     (case dir_connect (sd_dir d) (g_id guest) of
        Inl AccessDenied \<Rightarrow> ([Says ''access denied''], 1)
      | Inl DirFailed \<Rightarrow> ([Says ''internal error''], 1)
      | Inr info \<Rightarrow>
          after [report_of ''console'' [] (in_name (ci_inst info)) (g_name (ci_guest info))]
            (attach d (ci_guest info) (ci_inst info) (ci_key info)))"

definition connectNodeChecked :: "session_deps \<Rightarrow> instance_row \<Rightarrow> session_outcome" where
  "connectNodeChecked d inst =
     (case dir_connect_node (sd_dir d) (in_id inst) of
        Inl AccessDenied \<Rightarrow> ([Says ''access denied''], 1)
      | Inl DirFailed \<Rightarrow> ([Says ''internal error''], 1)
      | Inr info \<Rightarrow>
          after [report_of ''console'' [] (in_name (ni_inst info)) []] (attachNode d (ni_inst info) (ni_key info)))"

section \<open>The picker\<close>

definition session_pick ::
  "(bytes \<Rightarrow> bytes) \<Rightarrow> (bytes \<Rightarrow> bytes \<Rightarrow> bool) \<Rightarrow> session_deps \<Rightarrow> picker_row list \<Rightarrow> pick_error + picker_row" where
  "session_pick U E d rows =
     fst (pick U E (sd_resizes d) (sd_raw d) (session_displayName d) (sd_width d) (sd_height d) rows (sd_input d))"

definition runPicker :: "(bytes \<Rightarrow> bytes) \<Rightarrow> (bytes \<Rightarrow> bytes \<Rightarrow> bool) \<Rightarrow> session_deps \<Rightarrow> session_outcome" where
  "runPicker U E d =
     (case dir_guests (sd_dir d) of
        Inl e \<Rightarrow> ([Says ''internal error''], 1)
      | Inr guests \<Rightarrow>
          (let nodes = (case dir_instances (sd_dir d) of Inl e \<Rightarrow> [] | Inr ns \<Rightarrow> ns) in
           if guests = [] \<and> nodes = [] then ([Says ''nothing available''], 1)
           else let rows = newPickerRows guests nodes in
             after [Shows rows]
               (case session_pick U E d rows of
                  Inl PickQuit \<Rightarrow> ([], 0)
                | Inl e \<Rightarrow> ([SaysPick e], 1)
                | Inr chosen \<Rightarrow>
                    (case pr_inst chosen of
                       Some inst \<Rightarrow> connectNodeChecked d inst
                     | None \<Rightarrow> (case pr_guest chosen of
                                 Some guest \<Rightarrow> connectChecked d guest
                               | None \<Rightarrow> ([], 2))))))"

definition pickerLoginHint :: "session_deps \<Rightarrow> gostring" where
  "pickerLoginHint d =
     (if sd_admin d then AdminUser
      else if session_displayName d \<noteq> [] then session_displayName d else AdminUser)"

definition connectByLoginName :: "(bytes \<Rightarrow> bytes) \<Rightarrow> (bytes \<Rightarrow> bytes \<Rightarrow> bool) \<Rightarrow> session_deps \<Rightarrow> session_outcome" where
  "connectByLoginName U E d =
     (let name = trim_space (sd_login d) in
      if name = [] then runPicker U E d
      else if isReservedLoginName U name then runPicker U E d
      else case namesANode U d name of
        Some inst \<Rightarrow> connectNodeChecked d inst
      | None \<Rightarrow>
          (case dir_guests (sd_dir d) of
             Inl e \<Rightarrow> ([Says ''internal error''], 1)
           | Inr guests \<Rightarrow>
               (case resolve_name U name guests of
                  Inl (ErrGuestNotFound s) \<Rightarrow> runPicker U E d
                | Inl e \<Rightarrow>
                    ([SaysResolve e,
                      Says (''or log in by name and pick from the list: ssh '' @ pickerLoginHint d @ ''@<host>'')], 1)
                | Inr guest \<Rightarrow> connectChecked d guest)))"

section \<open>Commands on a target\<close>

definition runGuestCommand :: "session_deps \<Rightarrow> guest_row \<Rightarrow> gostring \<Rightarrow> session_outcome" where
  "runGuestCommand d guest command =
     (case dir_connect (sd_dir d) (g_id guest) of
        Inl AccessDenied \<Rightarrow> ([Says ''access denied''], 1)
      | Inl DirFailed \<Rightarrow> ([Says ''internal error''], 1)
      | Inr info \<Rightarrow>
          (let inst = ci_inst info in
           if g_type guest \<noteq> GuestTypeCT then
             ([Says (g_name guest @ '' is a virtual machine; running commands is supported for containers only'')], 1)
           else if in_ssh_host inst = [] then
             ([Says (''instance '' @ in_name inst @ '' has no ssh host configured'')], 1)
           else after [Dials inst (ci_key info)]
             (if \<not> sd_dial_ok d inst then ([Says (''cannot reach '' @ in_ssh_host inst)], 1)
              else let cmd = ShellCommand (g_vmid guest) True command in
                after [report_of ''command'' command (in_name inst) (g_name guest), Executes inst cmd]
                  (case sd_exec d cmd of
                     None \<Rightarrow> ([Says ''command failed''], 1)
                   | Some status \<Rightarrow> ([], status)))))"

definition runNodeCommand :: "session_deps \<Rightarrow> instance_row \<Rightarrow> gostring \<Rightarrow> session_outcome" where
  "runNodeCommand d inst command =
     (case dir_connect_node (sd_dir d) (in_id inst) of
        Inl AccessDenied \<Rightarrow> ([Says ''access denied''], 1)
      | Inl DirFailed \<Rightarrow> ([Says ''internal error''], 1)
      | Inr info \<Rightarrow>
          after [report_of ''command'' command (in_name (ni_inst info)) [], Dials (ni_inst info) (ni_key info)]
            (if \<not> sd_dial_ok d (ni_inst info) then ([Says (''cannot reach '' @ in_ssh_host (ni_inst info))], 1)
             else after [Executes (ni_inst info) command]
               (case sd_exec d command of
                  None \<Rightarrow> ([Says ''command failed''], 1)
                | Some status \<Rightarrow> ([], status))))"

section \<open>File transfer\<close>

definition serveSFTP :: "session_deps \<Rightarrow> connect_info \<Rightarrow> session_outcome" where
  "serveSFTP d info =
     (let guest = ci_guest info; inst = ci_inst info in
      if g_type guest \<noteq> GuestTypeCT then ([], 1)
      else if in_ssh_host inst = [] then ([], 1)
      else after [Dials inst (ci_key info)]
        (if \<not> sd_dial_ok d inst then ([], 1)
         else ([ServesSFTP guest inst], if sd_sftp d inst then 0 else 1)))"

definition serveNodeSFTP :: "session_deps \<Rightarrow> instance_row \<Rightarrow> session_outcome" where
  "serveNodeSFTP d inst =
     (case dir_connect_node (sd_dir d) (in_id inst) of
        Inl e \<Rightarrow> ([], 1)
      | Inr info \<Rightarrow>
          after [Dials (ni_inst info) (ni_key info)]
            (if \<not> sd_dial_ok d (ni_inst info) then ([], 1)
             else ([report_of ''sftp'' [] (in_name (ni_inst info)) [], PumpsSFTP (ni_inst info)],
                   if sd_sftp d (ni_inst info) then 0 else 1)))"

definition runSFTP :: "(bytes \<Rightarrow> bytes) \<Rightarrow> session_deps \<Rightarrow> session_outcome" where
  "runSFTP U d =
     (let name = trim_space (sd_login d) in
      if name = [] then ([], 1)
      else if isReservedLoginName U name then ([], 1)
      else case namesANode U d name of
        Some inst \<Rightarrow> serveNodeSFTP d inst
      | None \<Rightarrow>
          (case resolveLoginNameGuest U d name of
             None \<Rightarrow> ([], 1)
           | Some guest \<Rightarrow>
               (case dir_connect (sd_dir d) (g_id guest) of
                  Inl e \<Rightarrow> ([], 1)
                | Inr info \<Rightarrow>
                    after [report_of ''sftp'' [] (in_name (ci_inst info)) (g_name (ci_guest info))]
                      (serveSFTP d info))))"

section \<open>The command-line trees\<close>

text \<open>\<open>clientGuestConnect\<close>: the target it hands back, or an error.\<close>

definition clientGuestConnect ::
  "(bytes \<Rightarrow> bytes) \<Rightarrow> guest_row list \<Rightarrow> instance_row list \<Rightarrow> gostring list \<Rightarrow> guest_row option" where
  "clientGuestConnect U guests instances args =
     (case args of
        [] \<Rightarrow> None
      | a # _ \<Rightarrow>
          (let visible = filter (\<lambda>i. in_id i \<in> g_instance ` set guests) instances;
               (instName, identifier) = ParseGuestTarget (trim_space a) (Some (InstanceLookup U visible))
           in case ResolveGuestAndInstance U identifier instName guests instances of
                Inl e \<Rightarrow> None
              | Inr (guest, inst) \<Rightarrow> Some guest))"

definition runClient :: "(bytes \<Rightarrow> bytes) \<Rightarrow> session_deps \<Rightarrow> gostring \<Rightarrow> session_outcome" where
  "runClient U d cmd =
     (case dir_guests (sd_dir d) of
        Inl e \<Rightarrow> ([Says ''internal error''], 1)
      | Inr guests \<Rightarrow>
          (case sd_parse_client d (''proxpass'' # splitArgs cmd) of
             CliFails \<Rightarrow> ([Says ''Error''], 1)
           | CliOther \<Rightarrow> ([], 0)
           | CliGuestLs as_json \<Rightarrow> ([ListsGuests (guestModels guests) as_json], 0)
           | CliGuestConnect args \<Rightarrow>
               (case clientGuestConnect U (guestModels guests) (namedInstances guests) args of
                  None \<Rightarrow> ([Says ''Error''], 1)
                | Some guest \<Rightarrow> connectChecked d guest)))"

definition runAdmin :: "session_deps \<Rightarrow> gostring \<Rightarrow> session_outcome" where
  "runAdmin d cmd =
     (let argv = ''proxpass'' # splitArgs cmd in
      after [RunsAdminCLI argv]
        (case sd_admin_cli d argv of
           (False, req) \<Rightarrow> ([Says ''Error''], 1)
         | (True, None) \<Rightarrow> ([], 0)
         | (True, Some guest) \<Rightarrow> connectChecked d guest))"

definition writeHelp :: "session_deps \<Rightarrow> session_outcome" where
  "writeHelp d =
     (if sd_admin d then ([RunsAdminCLI [''proxpass'', ''--help'']], 0)
      else after [PrintsUsage (session_displayName d)]
        (case dir_guests (sd_dir d) of
           Inl e \<Rightarrow> ([], 1)
         | Inr guests \<Rightarrow> ([Shows (newGuestRows guests)], 0)))"

definition session_run :: "(bytes \<Rightarrow> bytes) \<Rightarrow> (bytes \<Rightarrow> bytes \<Rightarrow> bool) \<Rightarrow> session_deps \<Rightarrow> session_outcome" where
  "session_run U E d =
     (let cmd = trim_space (sd_command d) in
      if isHelp U cmd then writeHelp d
      else if isSFTPRequest cmd then runSFTP U d
      else if cmd = [] then connectByLoginName U E d
      else case namesANode U d (trim_space (sd_login d)) of
        Some inst \<Rightarrow> runNodeCommand d inst cmd
      | None \<Rightarrow>
          (case namesAGuest U d of
             Some guest \<Rightarrow> runGuestCommand d guest cmd
           | None \<Rightarrow> if sd_admin d then runAdmin d cmd else runClient U d cmd))"

section \<open>Every connection is reported\<close>

fun target_host :: "session_effect \<Rightarrow> gostring option" where
  "target_host (AttachesGuest g i k) = Some (in_name i)"
| "target_host (AttachesNode i k) = Some (in_name i)"
| "target_host (Executes i cmd) = Some (in_name i)"
| "target_host (ServesSFTP g i) = Some (in_name i)"
| "target_host (PumpsSFTP i) = Some (in_name i)"
| "target_host _ = None"

fun audited :: "gostring list \<Rightarrow> session_effect list \<Rightarrow> bool" where
  "audited hs [] = True"
| "audited hs (Reports r # es) = audited (ar_host r # hs) es"
| "audited hs (e # es) = ((case target_host e of None \<Rightarrow> True | Some h \<Rightarrow> h \<in> set hs) \<and> audited hs es)"

lemma audited_step:
  "audited hs (e # es) \<longleftrightarrow>
     (case e of Reports r \<Rightarrow> audited (ar_host r # hs) es
      | _ \<Rightarrow> (case target_host e of None \<Rightarrow> True | Some h \<Rightarrow> h \<in> set hs) \<and> audited hs es)"
  by (cases e) simp_all

named_theorems audit_simps \<open>the effects of the parts of a session are audited\<close>

lemma attach_audited: "in_name inst \<in> set hs \<Longrightarrow> audited hs (fst (attach d g inst k))"
  by (simp add: attach_def Let_def audited_step)

lemma attachNode_audited: "in_name inst \<in> set hs \<Longrightarrow> audited hs (fst (attachNode d inst k))"
  by (simp add: attachNode_def Let_def audited_step)

lemma connectChecked_audited [audit_simps]: "audited hs (fst (connectChecked d g))"
  by (simp add: connectChecked_def after_def report_of_def attach_audited audited_step split: sum.split dir_error.split)

lemma connectNodeChecked_audited [audit_simps]: "audited hs (fst (connectNodeChecked d i))"
  by (simp add: connectNodeChecked_def after_def report_of_def attachNode_audited audited_step split: sum.split dir_error.split)

lemma runPicker_audited [audit_simps]: "audited hs (fst (runPicker U E d))"
  by (simp add: runPicker_def Let_def after_def audit_simps audited_step
      split: sum.split option.split pick_error.split)

lemma connectByLoginName_audited [audit_simps]: "audited hs (fst (connectByLoginName U E d))"
  by (simp add: connectByLoginName_def Let_def audit_simps audited_step
      split: sum.split option.split resolve_error.split)

lemma runGuestCommand_audited [audit_simps]: "audited hs (fst (runGuestCommand d g c))"
  by (simp add: runGuestCommand_def Let_def after_def report_of_def audited_step
      split: sum.split dir_error.split option.split)

lemma runNodeCommand_audited [audit_simps]: "audited hs (fst (runNodeCommand d i c))"
  by (simp add: runNodeCommand_def Let_def after_def report_of_def audited_step
      split: sum.split dir_error.split option.split)

lemma serveSFTP_audited: "in_name (ci_inst info) \<in> set hs \<Longrightarrow> audited hs (fst (serveSFTP d info))"
  by (simp add: serveSFTP_def Let_def after_def audited_step)

lemma runSFTP_audited [audit_simps]: "audited hs (fst (runSFTP U d))"
  by (simp add: runSFTP_def serveNodeSFTP_def Let_def after_def report_of_def audited_step serveSFTP_audited
      split: sum.split option.split)

lemma runClient_audited [audit_simps]: "audited hs (fst (runClient U d c))"
  by (simp add: runClient_def audit_simps audited_step split: sum.split client_action.split option.split)

lemma runAdmin_audited [audit_simps]: "audited hs (fst (runAdmin d c))"
  by (simp add: runAdmin_def Let_def after_def audit_simps audited_step split: prod.split bool.split option.split)

lemma writeHelp_audited [audit_simps]: "audited hs (fst (writeHelp d))"
  by (simp add: writeHelp_def after_def audited_step split: sum.split)

text \<open>C26: Whatever a login asks for, a console, a command or a transfer never reaches a host that the
  session has not reported to the activity log before.\<close>

theorem every_connection_is_reported: "audited [] (fst (session_run U E d))"
  by (simp add: session_run_def Let_def audit_simps split: option.split)

section \<open>Credentials come from the access check\<close>

definition granted :: "directory \<Rightarrow> session_effect \<Rightarrow> bool" where
  "granted dir e \<longleftrightarrow>
     (case e of
        AttachesGuest g i k \<Rightarrow> \<exists>gid. dir_connect dir gid = Inr \<lparr>ci_guest = g, ci_inst = i, ci_key = k\<rparr>
      | AttachesNode i k \<Rightarrow> \<exists>iid. dir_connect_node dir iid = Inr \<lparr>ni_inst = i, ni_key = k\<rparr>
      | Dials i k \<Rightarrow> (\<exists>gid g. dir_connect dir gid = Inr \<lparr>ci_guest = g, ci_inst = i, ci_key = k\<rparr>) \<or>
                   (\<exists>iid. dir_connect_node dir iid = Inr \<lparr>ni_inst = i, ni_key = k\<rparr>)
      | ServesSFTP g i \<Rightarrow> \<exists>gid k. dir_connect dir gid = Inr \<lparr>ci_guest = g, ci_inst = i, ci_key = k\<rparr>
      | _ \<Rightarrow> True)"

named_theorems grant_intros \<open>the effects of the parts of a session are granted\<close>

lemma granted_all_append: "list_all P (fst (after es r)) \<longleftrightarrow> list_all P es \<and> list_all P (fst r)"
  by (simp add: after_def)

lemma connect_info_eta: "\<lparr>ci_guest = ci_guest info, ci_inst = ci_inst info, ci_key = ci_key info\<rparr> = (info :: connect_info)"
  by (cases info) simp

lemma node_info_eta: "\<lparr>ni_inst = ni_inst info, ni_key = ni_key info\<rparr> = (info :: node_info)"
  by (cases info) simp

lemma connectChecked_granted [grant_intros]: "list_all (granted (sd_dir d)) (fst (connectChecked d g))"
  by (auto simp: connectChecked_def granted_all_append report_of_def attach_def Let_def granted_def
      connect_info_eta split: sum.split dir_error.split)


lemma connectNodeChecked_granted [grant_intros]: "list_all (granted (sd_dir d)) (fst (connectNodeChecked d i))"
  by (auto simp: connectNodeChecked_def granted_all_append report_of_def attachNode_def Let_def granted_def
      node_info_eta split: sum.split dir_error.split)

lemma runPicker_granted [grant_intros]: "list_all (granted (sd_dir d)) (fst (runPicker U E d))"
  by (auto simp: runPicker_def Let_def granted_all_append granted_def
      intro: connectChecked_granted connectNodeChecked_granted split: sum.split option.split pick_error.split)

lemma connectByLoginName_granted [grant_intros]: "list_all (granted (sd_dir d)) (fst (connectByLoginName U E d))"
  by (auto simp: connectByLoginName_def Let_def granted_def
      intro: connectChecked_granted connectNodeChecked_granted runPicker_granted
      split: sum.split option.split resolve_error.split)

lemma runGuestCommand_granted [grant_intros]: "list_all (granted (sd_dir d)) (fst (runGuestCommand d g c))"
  by (simp add: runGuestCommand_def Let_def granted_all_append report_of_def granted_def
      split: sum.split dir_error.split option.split) (metis connect_info_eta)

lemma runNodeCommand_granted [grant_intros]: "list_all (granted (sd_dir d)) (fst (runNodeCommand d i c))"
  by (simp add: runNodeCommand_def Let_def granted_all_append report_of_def granted_def
      split: sum.split dir_error.split option.split) (metis node_info_eta)

lemma granted_connect:
  assumes "dir_connect dir gid = Inr info"
  shows "granted dir (Dials (ci_inst info) (ci_key info))" "granted dir (ServesSFTP (ci_guest info) (ci_inst info))"
  using assms by (auto simp: granted_def intro!: exI [of _ gid] exI [of _ "ci_key info"] connect_info_eta [symmetric])

lemma granted_connect_node:
  "dir_connect_node dir iid = Inr info \<Longrightarrow> granted dir (Dials (ni_inst info) (ni_key info))"
  by (auto simp: granted_def intro!: exI [of _ iid])

lemma granted_others: "granted dir (Says m)" "granted dir (Reports r)" "granted dir (PumpsSFTP i)"
  by (simp_all add: granted_def)

lemma serveSFTP_granted:
  "dir_connect (sd_dir d) gid = Inr info \<Longrightarrow> list_all (granted (sd_dir d)) (fst (serveSFTP d info))"
  using granted_connect [of "sd_dir d" gid info] by (simp add: serveSFTP_def Let_def granted_all_append)

lemma serveNodeSFTP_granted: "list_all (granted (sd_dir d)) (fst (serveNodeSFTP d inst))"
  using granted_connect_node [of "sd_dir d" "in_id inst"]
  by (auto simp: serveNodeSFTP_def Let_def granted_all_append report_of_def granted_others split: sum.split)

lemma runSFTP_granted [grant_intros]: "list_all (granted (sd_dir d)) (fst (runSFTP U d))"
  by (auto simp: runSFTP_def Let_def granted_all_append report_of_def granted_others
      intro: serveSFTP_granted serveNodeSFTP_granted split: sum.split option.split)

lemma runClient_granted [grant_intros]: "list_all (granted (sd_dir d)) (fst (runClient U d c))"
  by (auto simp: runClient_def granted_def intro: connectChecked_granted
      split: sum.split client_action.split option.split)

lemma runAdmin_granted [grant_intros]: "list_all (granted (sd_dir d)) (fst (runAdmin d c))"
  by (auto simp: runAdmin_def Let_def granted_all_append granted_def intro: connectChecked_granted
      split: prod.split bool.split option.split)

lemma writeHelp_granted [grant_intros]: "list_all (granted (sd_dir d)) (fst (writeHelp d))"
  by (auto simp: writeHelp_def granted_all_append granted_def split: sum.split)

lemma session_granted: "list_all (granted (sd_dir d)) (fst (session_run U E d))"
  by (simp add: session_run_def Let_def grant_intros split: option.split)

section \<open>The directory of a client session\<close>

text \<open>\<open>apidirectory.go\<close> over the handlers of the session API; \<open>do\<close> of \<open>apiclient.go\<close> maps 403 to
  a denial and any other failure to an error.\<close>

definition guestFromAPI :: "guest_response \<Rightarrow> guest_row" where
  "guestFromAPI g =
     \<lparr>g_id = gw_id g, g_type = gw_type g, g_name = gw_name g, g_status = gw_status g,
      g_vmid = gw_vmid g, g_instance = gw_instance g\<rparr>"

definition or_default :: "'a \<Rightarrow> 'a option \<Rightarrow> 'a" where
  "or_default z v = (case v of None \<Rightarrow> z | Some x \<Rightarrow> x)"

definition instanceFromAPI :: "instance_credentials \<Rightarrow> instance_row" where
  "instanceFromAPI c =
     \<lparr>in_id = ic_id c, in_name = ic_name c, in_api_url = ic_api_url c,
      in_token_id = or_default [] (ic_token_id c), in_token_secret = or_default [] (ic_token_secret c),
      in_transport = ic_transport c, in_node = ic_node c,
      in_insecure_tls = or_default False (ic_insecure_tls c), in_insecure_ssh = or_default False (ic_insecure_ssh c),
      in_ssh_host = or_default [] (ic_ssh_host c), in_ssh_port = or_default 0 (ic_ssh_port c),
      in_ssh_user = or_default [] (ic_ssh_user c), in_fps = or_default [] (ic_fps c)\<rparr>"

definition instanceSSHKey :: "instance_credentials \<Rightarrow> gostring" where
  "instanceSSHKey c = or_default [] (ic_ssh_key c)"

fun api_do :: "'a reply \<Rightarrow> dir_error + 'a" where
  "api_do (OK200 a) = Inr a"
| "api_do (Forbidden403 msg) = Inl AccessDenied"
| "api_do _ = Inl DirFailed"

definition no_forbidden :: "dir_error + 'a \<Rightarrow> dir_error + 'a" where
  "no_forbidden r = map_sum (\<lambda>_. DirFailed) id r"

definition api_AccessibleGuests ::
  "(gostring \<Rightarrow> gostring) \<Rightarrow> gostring \<Rightarrow> (int list \<Rightarrow> int list) \<Rightarrow> time \<Rightarrow> gostring option \<Rightarrow> db \<Rightarrow>
   dir_error + guest_info list" where
  "api_AccessibleGuests H rest ord now tok db =
     no_forbidden (map_sum id
       (map (\<lambda>g. \<lparr>gi_guest = guestFromAPI g, gi_instance_name = gw_instance_name g\<rparr>))
       (api_do (ListSessionGuests H rest ord now tok db)))"

definition api_Connect ::
  "(gostring \<Rightarrow> gostring) \<Rightarrow> gostring \<Rightarrow> (int list \<Rightarrow> int list) \<Rightarrow> gostring + gostring \<Rightarrow> time \<Rightarrow>
   gostring option \<Rightarrow> db \<Rightarrow> int \<Rightarrow> dir_error + connect_info" where
  "api_Connect H rest ord keyfile now tok db guestID =
     map_sum id
       (\<lambda>(g, c). \<lparr>ci_guest = guestFromAPI g, ci_inst = instanceFromAPI c, ci_key = instanceSSHKey c\<rparr>)
       (api_do (ConnectSessionGuest H rest ord keyfile now tok guestID db))"

definition api_AccessibleInstances ::
  "(gostring \<Rightarrow> gostring) \<Rightarrow> gostring \<Rightarrow> (int list \<Rightarrow> int list) \<Rightarrow> time \<Rightarrow> gostring option \<Rightarrow> db \<Rightarrow>
   dir_error + instance_row list" where
  "api_AccessibleInstances H rest ord now tok db =
     no_forbidden (map_sum id
       (map (\<lambda>i. (named_instance (iw_id i) (iw_name i))\<lparr>in_node := iw_node i\<rparr>))
       (api_do (ListSessionInstances H rest ord now tok db)))"

definition api_ConnectNode ::
  "(gostring \<Rightarrow> gostring) \<Rightarrow> gostring \<Rightarrow> (int list \<Rightarrow> int list) \<Rightarrow> gostring + gostring \<Rightarrow> time \<Rightarrow>
   gostring option \<Rightarrow> db \<Rightarrow> int \<Rightarrow> dir_error + node_info" where
  "api_ConnectNode H rest ord keyfile now tok db instanceID =
     map_sum id (\<lambda>c. \<lparr>ni_inst = instanceFromAPI c, ni_key = instanceSSHKey c\<rparr>)
       (api_do (ConnectSessionNode H rest ord keyfile now tok instanceID db))"

definition api_directory ::
  "(gostring \<Rightarrow> gostring) \<Rightarrow> gostring \<Rightarrow> (int list \<Rightarrow> int list) \<Rightarrow> gostring + gostring \<Rightarrow> time \<Rightarrow>
   gostring option \<Rightarrow> db \<Rightarrow> directory" where
  "api_directory H rest ord keyfile now tok db =
     \<lparr>dir_guests = api_AccessibleGuests H rest ord now tok db,
      dir_connect = api_Connect H rest ord keyfile now tok db,
      dir_instances = api_AccessibleInstances H rest ord now tok db,
      dir_connect_node = api_ConnectNode H rest ord keyfile now tok db\<rparr>"

lemmas api_directory_defs = api_directory_def api_AccessibleGuests_def api_Connect_def api_AccessibleInstances_def
  api_ConnectNode_def

lemma guestFromAPI_response: "guestFromAPI (guestResponse g name) = g"
  by (cases g) (simp add: guestFromAPI_def guestResponse_def)

lemma guestResponse_name: "gw_instance_name (guestResponse g name) = name"
  by (simp add: guestResponse_def)

lemma connect_granted:
  assumes "callerIdentity H rest now tok db = Inr ident"
    and "dir_connect (api_directory H rest ord keyfile now tok db) gid = Inr info"
  shows "mayReach ord ident (g_id (ci_guest info)) db"
  using assms
  by (auto simp: api_directory_defs ConnectSessionGuest_def authenticated_def forbidden_def guestFromAPI_response map_sum_Inr
      split: option.splits if_splits sum.splits)

lemma instance_roundtrip_id:
  "instanceCredentials keyfile i = Inr c \<Longrightarrow> in_id (instanceFromAPI c) = in_id i \<and> in_name (instanceFromAPI c) = in_name i"
  by (auto simp: instanceCredentials_def instanceFromAPI_def split: sum.splits)

lemma connect_node_granted:
  assumes "callerIdentity H rest now tok db = Inr ident"
    and "dir_connect_node (api_directory H rest ord keyfile now tok db) iid = Inr info"
  shows "mayReachInstance ord ident (in_id (ni_inst info)) db"
  using assms instance_roundtrip_id
  by (fastforce simp: api_directory_defs ConnectSessionNode_def authenticated_def forbiddenNode_def map_sum_Inr
      split: option.splits if_splits sum.splits)

text \<open>C1: A session over the API, whatever it is asked to do and however the name it logs in under is
  chosen, attaches to a guest or opens a transfer to it only when the identity behind its
  credential may reach that guest, and to a node only when it may reach the node.\<close>

theorem session_reaches_only_granted_targets:
  assumes "callerIdentity H rest now tok db = Inr ident"
    and "sd_dir d = api_directory H rest ord keyfile now tok db"
    and "e \<in> set (fst (session_run U E d))"
  shows "case e of
      AttachesGuest g i k \<Rightarrow> mayReach ord ident (g_id g) db
    | ServesSFTP g i \<Rightarrow> mayReach ord ident (g_id g) db
    | AttachesNode i k \<Rightarrow> mayReachInstance ord ident (in_id i) db
    | _ \<Rightarrow> True"
proof -
  have g: "granted (api_directory H rest ord keyfile now tok db) e"
    using session_granted [of d U E] assms(2,3) by (simp add: list_all_iff)
  show ?thesis
  proof (cases e)
    case (AttachesGuest g i k)
    then show ?thesis using g connect_granted [OF assms(1)] by (fastforce simp: granted_def)
  next
    case (ServesSFTP g i)
    then show ?thesis using g connect_granted [OF assms(1)] by (fastforce simp: granted_def)
  next
    case (AttachesNode i k)
    then show ?thesis using g connect_node_granted [OF assms(1)] by (fastforce simp: granted_def)
  qed simp_all
qed

section \<open>What a session may not reach does not show\<close>

lemma resolve_in_pool:
  assumes "ResolveGuestAndInstance U identifier instName guests instances = Inr (g, i)"
  shows "g \<in> set guests"
  using assms resolveGuest_Inr
  by (fastforce simp: ResolveGuestAndInstance_def Let_def split: if_splits sum.splits option.splits)

lemma resolve_name_in: "resolve_name U name guests = Inr g \<Longrightarrow> g \<in> gi_guest ` set guests"
  using resolve_in_pool
  by (fastforce simp: resolve_name_def guestModels_def Let_def map_sum_Inr split: prod.splits)

lemma clientGuestConnect_in: "clientGuestConnect U guests insts args = Some g \<Longrightarrow> g \<in> set guests"
  using resolve_in_pool
  by (fastforce simp: clientGuestConnect_def Let_def split: list.splits prod.splits sum.splits)

lemma picker_row_source:
  assumes "unscored row \<in> unscored ` set (newPickerRows guests nodes)"
  shows "case pr_inst row of
      Some i \<Rightarrow> i \<in> set nodes
    | None \<Rightarrow> (case pr_guest row of Some g \<Rightarrow> g \<in> gi_guest ` set guests | None \<Rightarrow> False)"
proof -
  obtain q where q: "q \<in> set (newPickerRows guests nodes)" "unscored row = unscored q" using assms by auto
  have "pr_inst row = pr_inst q" "pr_guest row = pr_guest q"
    using arg_cong [OF q(2), of pr_inst] arg_cong [OF q(2), of pr_guest] by (simp_all add: unscored_def)
  then show ?thesis using q(1) by (auto simp: newPickerRows_def Let_def)
qed

definition same_view :: "directory \<Rightarrow> directory \<Rightarrow> bool" where
  "same_view D1 D2 \<longleftrightarrow>
     dir_guests D1 = dir_guests D2 \<and> dir_instances D1 = dir_instances D2 \<and>
     (\<forall>gs. dir_guests D1 = Inr gs \<longrightarrow>
        (\<forall>g\<in>gi_guest ` set gs. dir_connect D1 (g_id g) = dir_connect D2 (g_id g))) \<and>
     (\<forall>ns. dir_instances D1 = Inr ns \<longrightarrow>
        (\<forall>i\<in>set ns. dir_connect_node D1 (in_id i) = dir_connect_node D2 (in_id i)))"

lemma attach_dir: "attach (d\<lparr>sd_dir := D\<rparr>) = attach d" "attachNode (d\<lparr>sd_dir := D\<rparr>) = attachNode d"
  by (intro ext, simp add: attach_def attachNode_def)+

lemma connectChecked_view:
  "dir_connect D (g_id g) = dir_connect (sd_dir d) (g_id g) \<Longrightarrow> connectChecked (d\<lparr>sd_dir := D\<rparr>) g = connectChecked d g"
  by (simp add: connectChecked_def attach_dir split: sum.split)

lemma connectNodeChecked_view:
  "dir_connect_node D (in_id i) = dir_connect_node (sd_dir d) (in_id i) \<Longrightarrow>
   connectNodeChecked (d\<lparr>sd_dir := D\<rparr>) i = connectNodeChecked d i"
  by (simp add: connectNodeChecked_def attach_dir split: sum.split)

lemma view_guest:
  "same_view (sd_dir d) D \<Longrightarrow> dir_guests (sd_dir d) = Inr gs \<Longrightarrow> g \<in> gi_guest ` set gs \<Longrightarrow>
   dir_connect D (g_id g) = dir_connect (sd_dir d) (g_id g)"
  by (auto simp: same_view_def)

lemma view_node:
  "same_view (sd_dir d) D \<Longrightarrow> dir_instances (sd_dir d) = Inr ns \<Longrightarrow> i \<in> set ns \<Longrightarrow>
   dir_connect_node D (in_id i) = dir_connect_node (sd_dir d) (in_id i)"
  by (auto simp: same_view_def)

lemma same_lists: "same_view (sd_dir d) D \<Longrightarrow> dir_guests D = dir_guests (sd_dir d) \<and> dir_instances D = dir_instances (sd_dir d)"
  by (simp add: same_view_def)

lemma pick_selects:
  assumes "session_pick U E d rows = Inr row"
  shows "unscored row \<in> unscored ` set rows"
proof (cases "sd_raw d")
  case True
  then obtain rest where "pick_loop U (sd_resizes d) 0 (init_picker rows (session_displayName d) (sd_width d) (sd_height d)) (sd_input d)
      = (Some row, rest)"
    using assms by (auto simp: session_pick_def pick_def pickInteractive_def split: prod.splits option.splits)
  then show ?thesis using pick_loop_select picker_reachable.start by blast
next
  case False
  then obtain n rest where n: "readChoice E (sd_input d) (int (length rows)) = (Chosen n, rest)" "row = rows ! nat (n - 1)"
    using assms by (auto simp: session_pick_def pick_def pickNumbered_def Let_def split: prod.splits choice.splits if_splits)
  then have "1 \<le> n" "n \<le> int (length rows)" by (auto simp: readChoice_def Let_def split: option.splits if_splits)
  then show ?thesis using n(2) by simp
qed

lemma runPicker_view:
  assumes "same_view (sd_dir d) D"
  shows "runPicker U E (d\<lparr>sd_dir := D\<rparr>) = runPicker U E d"
proof (cases "dir_guests (sd_dir d)")
  case (Inl e)
  then show ?thesis using same_lists [OF assms] by (simp add: runPicker_def)
next
  case (Inr guests)
  define nodes where "nodes = (case dir_instances (sd_dir d) of Inl e \<Rightarrow> [] | Inr ns \<Rightarrow> ns)"
  have p: "session_pick U E (d\<lparr>sd_dir := D\<rparr>) = session_pick U E d"
    by (intro ext) (simp add: session_pick_def session_displayName_def)
  have n: "dir_connect_node D (in_id i) = dir_connect_node (sd_dir d) (in_id i)" if "i \<in> set nodes" for i
    using that view_node [OF assms] by (cases "dir_instances (sd_dir d)") (simp_all add: nodes_def)
  have c: "(case pr_inst row of
        Some inst \<Rightarrow> connectNodeChecked (d\<lparr>sd_dir := D\<rparr>) inst
      | None \<Rightarrow> (case pr_guest row of Some guest \<Rightarrow> connectChecked (d\<lparr>sd_dir := D\<rparr>) guest | None \<Rightarrow> ([], 2))) =
      (case pr_inst row of
        Some inst \<Rightarrow> connectNodeChecked d inst
      | None \<Rightarrow> (case pr_guest row of Some guest \<Rightarrow> connectChecked d guest | None \<Rightarrow> ([], 2)))"
    if "session_pick U E d (newPickerRows guests nodes) = Inr row" for row
    using picker_row_source [OF pick_selects [OF that]] n view_guest [OF assms Inr]
    by (auto simp: connectNodeChecked_view connectChecked_view split: option.splits)
  show ?thesis
    using Inr same_lists [OF assms] c
    by (simp add: runPicker_def p flip: nodes_def) (auto simp: Let_def split: sum.split pick_error.split)
qed

lemma namesANode_view:
  "same_view (sd_dir d) D \<Longrightarrow> namesANode U (d\<lparr>sd_dir := D\<rparr>) name = namesANode U d name"
  by (simp add: namesANode_def same_lists)

lemma namesANode_in:
  "namesANode U d name = Some i \<Longrightarrow> \<exists>ns. dir_instances (sd_dir d) = Inr ns \<and> i \<in> set ns"
  by (auto simp: namesANode_def dest: find_in split: if_splits sum.splits)

lemma namesANode_connect:
  "same_view (sd_dir d) D \<Longrightarrow> namesANode U d name = Some i \<Longrightarrow>
   dir_connect_node D (in_id i) = dir_connect_node (sd_dir d) (in_id i)"
  using namesANode_in view_node by blast

lemma resolveLoginNameGuest_view:
  "same_view (sd_dir d) D \<Longrightarrow> resolveLoginNameGuest U (d\<lparr>sd_dir := D\<rparr>) name = resolveLoginNameGuest U d name"
  by (simp add: resolveLoginNameGuest_def same_lists)

lemma resolved_connect:
  "same_view (sd_dir d) D \<Longrightarrow> resolveLoginNameGuest U d name = Some g \<Longrightarrow>
   dir_connect D (g_id g) = dir_connect (sd_dir d) (g_id g)"
  using view_guest resolve_name_in by (fastforce simp: resolveLoginNameGuest_def split: sum.splits)

lemma namesAGuest_view:
  "same_view (sd_dir d) D \<Longrightarrow> namesAGuest U (d\<lparr>sd_dir := D\<rparr>) = namesAGuest U d"
  by (simp add: namesAGuest_def resolveLoginNameGuest_view Let_def)

lemma namesAGuest_connect:
  "same_view (sd_dir d) D \<Longrightarrow> namesAGuest U d = Some g \<Longrightarrow> dir_connect D (g_id g) = dir_connect (sd_dir d) (g_id g)"
  using resolved_connect by (fastforce simp: namesAGuest_def Let_def split: if_splits)

lemma connectByLoginName_view:
  assumes "same_view (sd_dir d) D"
  shows "connectByLoginName U E (d\<lparr>sd_dir := D\<rparr>) = connectByLoginName U E d"
proof -
  have h: "pickerLoginHint (d\<lparr>sd_dir := D\<rparr>) = pickerLoginHint d"
    by (simp add: pickerLoginHint_def session_displayName_def)
  have n: "connectNodeChecked (d\<lparr>sd_dir := D\<rparr>) i = connectNodeChecked d i" if "namesANode U d name = Some i" for i name
    using namesANode_connect [OF assms that] by (rule connectNodeChecked_view)
  have g: "connectChecked (d\<lparr>sd_dir := D\<rparr>) g = connectChecked d g"
    if "dir_guests (sd_dir d) = Inr gs" "resolve_name U name gs = Inr g" for g gs name
    using view_guest [OF assms that(1) resolve_name_in [OF that(2)]] by (rule connectChecked_view)
  show ?thesis
    by (auto simp: connectByLoginName_def Let_def runPicker_view [OF assms] namesANode_view [OF assms] same_lists [OF assms]
        h n g split: option.split sum.split resolve_error.split)
qed

lemma runGuestCommand_view:
  "dir_connect D (g_id g) = dir_connect (sd_dir d) (g_id g) \<Longrightarrow>
   runGuestCommand (d\<lparr>sd_dir := D\<rparr>) g c = runGuestCommand d g c"
  by (simp add: runGuestCommand_def Let_def split: sum.split)

lemma runNodeCommand_view:
  "dir_connect_node D (in_id i) = dir_connect_node (sd_dir d) (in_id i) \<Longrightarrow>
   runNodeCommand (d\<lparr>sd_dir := D\<rparr>) i c = runNodeCommand d i c"
  by (simp add: runNodeCommand_def Let_def split: sum.split)

lemma runSFTP_view:
  assumes "same_view (sd_dir d) D"
  shows "runSFTP U (d\<lparr>sd_dir := D\<rparr>) = runSFTP U d"
proof -
  have n: "serveNodeSFTP (d\<lparr>sd_dir := D\<rparr>) i = serveNodeSFTP d i" if "namesANode U d name = Some i" for i name
    using namesANode_connect [OF assms that] by (simp add: serveNodeSFTP_def split: sum.split)
  have s: "serveSFTP (d\<lparr>sd_dir := D\<rparr>) info = serveSFTP d info" for info
    by (simp add: serveSFTP_def Let_def)
  show ?thesis
    using n resolved_connect [OF assms]
    by (auto simp: runSFTP_def Let_def namesANode_view [OF assms] resolveLoginNameGuest_view [OF assms] s
        split: option.split sum.split)
qed

lemma runClient_view:
  assumes "same_view (sd_dir d) D"
  shows "runClient U (d\<lparr>sd_dir := D\<rparr>) c = runClient U d c"
proof -
  have g: "connectChecked (d\<lparr>sd_dir := D\<rparr>) g = connectChecked d g"
    if "dir_guests (sd_dir d) = Inr gs" "clientGuestConnect U (guestModels gs) insts args = Some g" for g gs insts args
    using view_guest [OF assms that(1)] clientGuestConnect_in [OF that(2)]
    by (intro connectChecked_view) (auto simp: guestModels_def)
  show ?thesis
    using g by (auto simp: runClient_def same_lists [OF assms] split: sum.split client_action.split option.split)
qed

text \<open>C2: To a client, a guest or node outside its reach is the same as one that does not exist: what a
  session does depends on the directory only through the targets listed to it, so no login name and
  no command tells the two apart.\<close>

theorem unreachable_targets_are_invisible:
  assumes "\<not> sd_admin d" and "same_view (sd_dir d) D"
  shows "session_run U E (d\<lparr>sd_dir := D\<rparr>) = session_run U E d"
proof -
  have h: "writeHelp (d\<lparr>sd_dir := D\<rparr>) = writeHelp d"
    using assms by (simp add: writeHelp_def same_lists session_displayName_def)
  show ?thesis
    using assms(1) namesANode_connect [OF assms(2)] namesAGuest_connect [OF assms(2)]
    by (auto simp: session_run_def Let_def h runSFTP_view [OF assms(2)] connectByLoginName_view [OF assms(2)]
        namesANode_view [OF assms(2)] namesAGuest_view [OF assms(2)] runNodeCommand_view runGuestCommand_view
        runClient_view [OF assms(2)] split: option.split)
qed

section \<open>Arguments keep their spaces\<close>

definition dquote :: "gostring \<Rightarrow> gostring" where
  "dquote a = [CHR 0x22] @ a @ [CHR 0x22]"

lemma split_quoted:
  "34 \<notin> set rs \<Longrightarrow> fold split_step rs (args, cur, 34) = (args, cur @ concat (map encode_rune rs), 34)"
  by (induction rs arbitrary: cur) auto

lemma split_args_loop:
  assumes "\<forall>rs\<in>set rss. rs \<noteq> [] \<and> list_all valid_rune rs \<and> 34 \<notin> set rs"
  shows "rss \<noteq> [] \<Longrightarrow> \<exists>as a. as @ [a] = map (\<lambda>rs. concat (map encode_rune rs)) rss \<and>
    fold split_step (runes (go_join [CHR '' ''] (map (\<lambda>rs. dquote (concat (map encode_rune rs))) rss))) (args, [], 0) = (args @ as, a, 0)"
  using assms
proof (induction rss arbitrary: args)
  case (Cons rs rss)
  let ?e = "\<lambda>rs. concat (map encode_rune rs)"
  have rs: "rs \<noteq> []" "list_all valid_rune rs" "34 \<notin> set rs" using Cons.prems by auto
  have ne: "?e rs \<noteq> []" using rs(1) by (cases rs) auto
  have one: "fold split_step (runes (dquote (?e rs) @ s)) (args, [], 0) = fold split_step (runes s) (args, ?e rs, 0)" for s args
    using split_quoted [OF rs(3)] by (simp add: dquote_def runes_ascii_cons runes_encode rs(2))
  show ?case
  proof (cases rss)
    case Nil
    then show ?thesis using one [where args = args and s = "[]"] by (simp add: runes_def)
  next
    case (Cons r2 more)
    obtain as a where IH: "as @ [a] = map ?e rss"
        "fold split_step (runes (go_join [CHR '' ''] (map (\<lambda>rs. dquote (?e rs)) rss))) (args @ [?e rs], [], 0) = (args @ [?e rs] @ as, a, 0)"
      using Cons.IH [of "args @ [?e rs]"] Cons Cons.prems by auto
    have "go_join [CHR '' ''] (map (\<lambda>rs. dquote (?e rs)) (rs # rss)) =
        dquote (?e rs) @ CHR '' '' # go_join [CHR '' ''] (map (\<lambda>rs. dquote (?e rs)) rss)"
      using Cons by simp
    then have "fold split_step (runes (go_join [CHR '' ''] (map (\<lambda>rs. dquote (?e rs)) (rs # rss)))) (args, [], 0) =
        (args @ [?e rs] @ as, a, 0)"
      using one [where args = args and s = "CHR '' '' # go_join [CHR '' ''] (map (\<lambda>rs. dquote (?e rs)) rss)"] IH(2) ne
      by (simp add: runes_ascii_cons)
    moreover have "(?e rs # as) @ [a] = map ?e (rs # rss)" using IH(1) by simp
    ultimately show ?thesis by (metis append.assoc append_Cons append_Nil)
  qed
qed simp

text \<open>Arguments in double quotes, each of valid characters and none of them empty or holding a double
  quote, come out of the split as they were, whatever spaces they hold.\<close>

theorem quoted_arguments_survive:
  assumes "\<forall>rs\<in>set rss. rs \<noteq> [] \<and> list_all valid_rune rs \<and> 34 \<notin> set rs"
  shows "splitArgs (go_join [CHR '' ''] (map (\<lambda>rs. dquote (concat (map encode_rune rs))) rss)) =
    map (\<lambda>rs. concat (map encode_rune rs)) rss"
proof (cases "rss = []")
  case True
  then show ?thesis by (simp add: splitArgs_def runes_def)
next
  case False
  obtain as a where s: "as @ [a] = map (\<lambda>rs. concat (map encode_rune rs)) rss"
      "fold split_step (runes (go_join [CHR '' ''] (map (\<lambda>rs. dquote (concat (map encode_rune rs))) rss))) ([], [], 0) = (as, a, 0)"
    using split_args_loop [OF assms False, of "[]"] by auto
  have "a \<in> set (map (\<lambda>rs. concat (map encode_rune rs)) rss)" using s(1) by (metis in_set_conv_decomp)
  then have "a \<noteq> []" using assms by auto
  then show ?thesis using s by (simp add: splitArgs_def)
qed

lemma empty_argument_dropped: "splitArgs (''guest '' @ dquote [] @ '' x'') = [''guest'', ''x'']"
  by (simp add: splitArgs_def dquote_def runes_def encode_rune_def char_of_def bit_0)

section \<open>Witnesses\<close>

theorem quoted_arguments_survive_witness:
  "splitArgs (go_join [CHR '' ''] [dquote ''a b'', dquote ''c'']) = [''a b'', ''c'']"
  using quoted_arguments_survive [of "[[97, 32, 98], [99]]"]
  by (simp add: valid_rune_def encode_rune_def char_of_def bit_0)

definition empty_directory :: directory where
  "empty_directory = \<lparr>dir_guests = Inr [], dir_connect = (\<lambda>_. Inl AccessDenied), dir_instances = Inr [],
     dir_connect_node = (\<lambda>_. Inl AccessDenied)\<rparr>"

definition hidden_guest :: connect_info where
  "hidden_guest = \<lparr>ci_guest = \<lparr>g_id = 7, g_type = ''ct'', g_name = ''web'', g_status = ''running'', g_vmid = 100, g_instance = 1\<rparr>,
     ci_inst = named_instance 1 ''rome'', ci_key = ''key''\<rparr>"

definition demo_session :: "directory \<Rightarrow> session_deps" where
  "demo_session dir =
     \<lparr>sd_dir = dir, sd_login = ''web'', sd_identity = ''bob'', sd_admin = False, sd_command = [], sd_raw = False,
      sd_width = 80, sd_height = 24, sd_input = [], sd_resizes = (\<lambda>_. []), sd_bar = False,
      sd_parse_client = (\<lambda>_. CliOther), sd_admin_cli = (\<lambda>_. (False, None)), sd_attach_ok = (\<lambda>_. True),
      sd_dial_ok = (\<lambda>_. True), sd_exec = (\<lambda>_. Some 0), sd_sftp = (\<lambda>_. True)\<rparr>"

theorem unreachable_targets_are_invisible_witness:
  "session_run id (=) (demo_session (empty_directory\<lparr>dir_connect := (\<lambda>_. Inr hidden_guest)\<rparr>)) =
   session_run id (=) (demo_session empty_directory)"
proof -
  have "same_view empty_directory (empty_directory\<lparr>dir_connect := (\<lambda>_. Inr hidden_guest)\<rparr>)"
    by (simp add: same_view_def empty_directory_def)
  then have v: "same_view (sd_dir (demo_session empty_directory)) (empty_directory\<lparr>dir_connect := (\<lambda>_. Inr hidden_guest)\<rparr>)"
    by (simp add: demo_session_def)
  have "\<not> sd_admin (demo_session empty_directory)" by (simp add: demo_session_def)
  from unreachable_targets_are_invisible [OF this v, of id "(=)"] show ?thesis by (simp add: demo_session_def)
qed

text \<open>A client with a rule for one guest logs in under that guest's name.\<close>

definition web_guest :: guest_row where
  "web_guest = \<lparr>g_id = 42, g_type = ''ct'', g_name = ''web'', g_status = ''running'', g_vmid = 100, g_instance = 1\<rparr>"

definition bob_identity :: identity where
  "bob_identity = \<lparr>id_login = ''web'', id_name = ''bob'', id_admin = False, id_client = 7\<rparr>"

definition one_grant_db :: db where
  "one_grant_db = empty_db\<lparr>d_guests := [web_guest], d_instances := [named_instance 1 ''rome''],
     d_rules := [\<lparr>r_id = 1, r_type = RuleClient, r_subject = 7, r_target = 42\<rparr>],
     d_sessions := [\<lparr>tk_hash = ''s'', tk_identity = bob_identity, tk_expires = 100\<rparr>]\<rparr>"

abbreviation one_grant_directory :: directory where
  "one_grant_directory \<equiv> api_directory id [] id (Inr ''key'') 0 (Some ''s'') one_grant_db"

lemma one_grant_caller: "callerIdentity id [] 0 (Some ''s'') one_grant_db = Inr bob_identity"
  by (simp add: callerIdentity_def LookupAPISession_def token_live_def one_grant_db_def empty_db_def)

lemma one_grant_access: "HasAccess id 7 42 one_grant_db"
  by (simp add: HasAccess_def has_rule_def one_grant_db_def)

lemma one_grant_fields:
  "d_guests one_grant_db = [web_guest]" "d_instances one_grant_db = [named_instance 1 ''rome'']"
  "id_admin bob_identity = False" "id_client bob_identity = 7" "g_id web_guest = 42" "g_instance web_guest = 1"
  "g_type web_guest = ''ct''" "g_name web_guest = ''web''" "g_vmid web_guest = 100"
  "in_id (named_instance i n) = i" "in_name (named_instance i n) = n" "in_ssh_host (named_instance i n) = []"
  by (simp_all add: one_grant_db_def bob_identity_def web_guest_def named_instance_def)

lemma one_grant_lists:
  "dir_guests one_grant_directory = Inr [\<lparr>gi_guest = web_guest, gi_instance_name = ''rome''\<rparr>]"
  "dir_instances one_grant_directory = Inr []"
  using one_grant_caller one_grant_access
  by (simp_all add: api_directory_defs ListSessionGuests_def ListSessionInstances_def authenticated_def no_forbidden_def
      accessibleGuests_def accessibleInstances_def accessible_def ListGuests_def ListProxmoxInstances_def instanceNames_def
      one_grant_fields guestFromAPI_response Let_def guestResponse_name)

lemma one_grant_connect: "\<exists>i. dir_connect one_grant_directory 42 = Inr \<lparr>ci_guest = web_guest, ci_inst = i, ci_key = ''key''\<rparr>"
  using one_grant_caller one_grant_access
  by (simp add: api_directory_defs ConnectSessionGuest_def authenticated_def findGuest_def GetGuestByID_def findInstance_def
      ListProxmoxInstances_def mayReach_def one_grant_fields guestFromAPI_response instanceCredentials_def
      instanceSSHKey_def or_default_def setIfNotEmpty_def)

lemma web_by_name: "resolve_name id ''web'' [\<lparr>gi_guest = web_guest, gi_instance_name = ''rome''\<rparr>] = Inr web_guest"
  by (simp add: resolve_name_def namedInstances_def guestModels_def ParseGuestTarget_def ResolveGuestAndInstance_def
      resolveGuest_def atoi_def atoi_digits_def is_digit_def has_prefix_def GuestTypeCT_def GuestTypeVM_def
      to_lower_def is_ascii_def ascii_lower_def decide_matches_def NamesEqual_def FoldName_def inst_by_id_def
      one_grant_fields)

theorem session_reaches_only_granted_targets_witness:
  "\<exists>i. AttachesGuest web_guest i ''key'' \<in> set (fst (session_run id (=) (demo_session one_grant_directory))) \<and>
     mayReach id bob_identity 42 one_grant_db"
proof -
  let ?d = "demo_session one_grant_directory"
  obtain i where i: "dir_connect one_grant_directory 42 = Inr \<lparr>ci_guest = web_guest, ci_inst = i, ci_key = ''key''\<rparr>"
    using one_grant_connect by blast
  have t: "trim_space ''web'' = ''web''" "trim_space [] = []" by (simp_all add: trim_space_def space_encs_def has_prefix_def)
  have h: "\<not> isHelp id []" "\<not> isSFTPRequest []" "\<not> isReservedLoginName id ''web''"
    by (simp_all add: isHelp_def isSFTPRequest_def t isReservedLoginName_def AdminUser_def NamesEqual_def FoldName_def
        to_lower_def is_ascii_def ascii_lower_def)
  have "session_run id (=) ?d = connectChecked ?d web_guest"
    by (simp add: session_run_def demo_session_def t h connectByLoginName_def namesANode_def one_grant_lists web_by_name)
  then have e: "AttachesGuest web_guest i ''key'' \<in> set (fst (session_run id (=) ?d))"
    by (simp add: connectChecked_def demo_session_def i one_grant_fields after_def attach_def)
  have "sd_dir ?d = one_grant_directory" by (simp add: demo_session_def)
  from session_reaches_only_granted_targets [OF one_grant_caller this e]
  show ?thesis using e by (auto simp: one_grant_fields)
qed

end
