(* ===== verification/AdminApi.thy ===== *)
theory AdminApi
  imports SessionApi Discovery AccessQuery
begin

text \<open>
  The administrator's half of the HTTP API: \<open>internal/api/adminhandlers.go\<close>,
  \<open>adminmappers.go\<close>, \<open>activity.go\<close>, \<open>settings.go\<close> and the field maps of
  \<open>listfilter.go\<close>. Every handler takes the server's configuration, the call (the clock and the
  bearer token) and the request, and returns its response and the database after it. What is not
  the repository's code is an argument of the configuration: the hash, the text of a driver's
  unique violation, the evaluation of a WHERE clause by the database, the Proxmox API, the SSH
  scan, the deployment's key file.
\<close>

section \<open>The server's configuration\<close>

record settings_snapshot =
  ss_data :: gostring
  ss_log_level :: gostring
  ss_discovery_interval :: gostring
  ss_listen :: gostring
  ss_admin_key :: gostring
  ss_nss_token_set :: bool
  ss_rest_token_set :: bool
  ss_activity_retention :: gostring
  ss_prune_interval :: gostring

record handler =
  h_hash :: "gostring \<Rightarrow> gostring"
  h_rest :: gostring
  h_fold :: "bytes \<Rightarrow> bytes"
  h_efold :: "bytes \<Rightarrow> bytes \<Rightarrow> bool"
  h_url_unique :: bool
  h_postgres :: bool
  h_quote :: "gostring \<Rightarrow> gostring"
  h_unique_text :: gostring
  h_filter_text :: "query_error \<Rightarrow> gostring"
  h_rule_rows :: "gostring \<Rightarrow> gostring list \<Rightarrow> rule_row \<Rightarrow> bool"
  h_event_rows :: "gostring \<Rightarrow> gostring list \<Rightarrow> activity_event \<Rightarrow> bool"
  h_checker :: "(instance_row \<Rightarrow> gostring option) option"
  h_discoverer :: "(instance_row \<Rightarrow> gostring + guest_row list) option"
  h_expires :: "instance_row \<Rightarrow> nat \<Rightarrow> bool"
  h_finish_order :: "instance_row list \<Rightarrow> instance_row list"
  h_scan :: "gostring \<Rightarrow> int \<Rightarrow> gostring + (gostring \<times> gostring) list"
  h_keyfile :: "gostring + gostring"
  h_public_line :: "gostring \<Rightarrow> gostring + gostring"
  h_protected :: gostring
  h_settings :: "settings_snapshot option"
  h_version :: gostring
  h_retention :: int

record api_call =
  c_now :: time
  c_tok :: "gostring option"

definition WithProtectedAdminKey :: "gostring \<Rightarrow> handler \<Rightarrow> handler" where
  "WithProtectedAdminKey key h = h\<lparr>h_protected := trim_space key\<rparr>"

section \<open>Wire values and error texts\<close>

definition toAPIInstance :: "instance_row \<Rightarrow> instance_row" where
  "toAPIInstance i =
     \<lparr>in_id = in_id i, in_name = in_name i, in_api_url = in_api_url i, in_token_id = in_token_id i,
      in_token_secret = in_token_secret i, in_transport = in_transport i, in_node = in_node i,
      in_insecure_tls = in_insecure_tls i, in_insecure_ssh = in_insecure_ssh i,
      in_ssh_host = in_ssh_host i, in_ssh_port = in_ssh_port i, in_ssh_user = in_ssh_user i,
      in_fps = in_fps i\<rparr>"

definition fromAPIInstance :: "instance_row \<Rightarrow> instance_row" where
  "fromAPIInstance i =
     \<lparr>in_id = in_id i, in_name = in_name i, in_api_url = in_api_url i, in_token_id = in_token_id i,
      in_token_secret = in_token_secret i, in_transport = in_transport i, in_node = in_node i,
      in_insecure_tls = in_insecure_tls i, in_insecure_ssh = in_insecure_ssh i,
      in_ssh_host = in_ssh_host i, in_ssh_port = in_ssh_port i, in_ssh_user = in_ssh_user i,
      in_fps = in_fps i\<rparr>"

definition toAPIClient :: "client_row \<Rightarrow> client_row" where
  "toAPIClient c = \<lparr>c_id = c_id c, c_name = c_name c, c_keys = c_keys c, c_groups = c_groups c\<rparr>"

definition fromAPIClient :: "client_row \<Rightarrow> client_row" where
  "fromAPIClient c = \<lparr>c_id = c_id c, c_name = c_name c, c_keys = c_keys c, c_groups = c_groups c\<rparr>"

definition toAPIGroup :: "group_row \<Rightarrow> group_row" where
  "toAPIGroup g = \<lparr>gr_id = gr_id g, gr_name = gr_name g, gr_clients = gr_clients g\<rparr>"

definition fromAPIGroup :: "group_row \<Rightarrow> group_row" where
  "fromAPIGroup g = \<lparr>gr_id = gr_id g, gr_name = gr_name g, gr_clients = gr_clients g\<rparr>"

definition toAPIGuestRow :: "guest_row \<Rightarrow> guest_row" where
  "toAPIGuestRow g =
     \<lparr>g_id = g_id g, g_type = g_type g, g_name = g_name g, g_status = g_status g, g_vmid = g_vmid g,
      g_instance = g_instance g\<rparr>"

definition toAPIAccessRuleRow :: "rule_row \<Rightarrow> rule_row" where
  "toAPIAccessRuleRow r = \<lparr>r_id = r_id r, r_type = r_type r, r_subject = r_subject r, r_target = r_target r\<rparr>"

text \<open>The policy's node flag is optional on the wire.\<close>

record api_policy =
  ap_clients :: "int list"
  ap_groups :: "int list"
  ap_node_access :: "bool option"

definition toAPIDefaultPolicy :: "default_policy \<Rightarrow> api_policy" where
  "toAPIDefaultPolicy p =
     \<lparr>ap_clients = dp_clients p, ap_groups = dp_groups p, ap_node_access = Some (dp_node_access p)\<rparr>"

definition fromAPIDefaultPolicy :: "api_policy \<Rightarrow> default_policy" where
  "fromAPIDefaultPolicy p =
     \<lparr>dp_clients = ap_clients p, dp_groups = ap_groups p,
      dp_node_access = (ap_node_access p = Some True)\<rparr>"

definition already_exists :: gostring where "already_exists = '' already exists''"

fun db_error_text :: "handler \<Rightarrow> db_error \<Rightarrow> gostring" where
  "db_error_text h (DupInstanceURL url) = ''an instance with api-url '' @ h_quote h url @ already_exists"
| "db_error_text h (DupInstanceName name) = ''an instance named '' @ h_quote h name @ already_exists"
| "db_error_text h UniqueViolation = h_unique_text h"
| "db_error_text h ErrNoRows = ''sql: no rows in result set''"
| "db_error_text h ErrNoSuchToken = ''no such session token''"

definition isConflict :: "gostring \<Rightarrow> bool" where
  "isConflict msg = (go_contains ''already exists'' msg \<or> go_contains ''UNIQUE constraint failed'' msg)"

text \<open>A repository error in a create or update handler: 409 for a conflict, 500 otherwise.\<close>

definition conflict_or_500 :: "handler \<Rightarrow> db_error \<Rightarrow> 'a reply" where
  "conflict_or_500 h e =
     (if isConflict (db_error_text h e) then Conflict409 (db_error_text h e)
      else Error500 (db_error_text h e))"

definition errNotAdminAPI :: gostring where "errNotAdminAPI = ''this operation requires the administrator''"
definition errMissingBody :: gostring where "errMissingBody = ''request body is required''"
definition errNoSuchInstance :: gostring where "errNoSuchInstance = ''no such instance''"
definition errNoSuchClient :: gostring where "errNoSuchClient = ''no such client''"
definition errNoSuchGroup :: gostring where "errNoSuchGroup = ''no such group''"
definition errNoSuchGuest :: gostring where "errNoSuchGuest = ''no such guest''"
definition errUnknownSubject :: gostring where "errUnknownSubject = ''subject kind must be client or group''"

section \<open>Filterable fields\<close>

definition instanceFilterFields :: field_spec_map where
  "instanceFilterFields = map plain_column
     [''id'', ''name'', ''node'', ''api_url'', ''console_transport'', ''ssh_host'', ''ssh_user'']"

definition clientFilterFields :: field_spec_map where
  "clientFilterFields = map plain_column [''id'', ''name'']"

definition groupFilterFields :: field_spec_map where
  "groupFilterFields = map plain_column [''id'', ''name'']"

definition guestFilterFields :: field_spec_map where
  "guestFilterFields = map plain_column [''id'', ''instance_id'', ''name'', ''proxmox_id'', ''status'', ''type'']"

definition settingFilterFields :: field_spec_map where
  "settingFilterFields = map plain_column [''key'', ''value'']"

text \<open>The rows as the JSON objects the filter looks their fields up in.\<close>

definition instance_json :: "instance_row \<Rightarrow> (gostring \<times> json) list" where
  "instance_json i =
     [(''api_token_id'', JStr (in_token_id i)), (''api_token_secret'', JStr (in_token_secret i)),
      (''api_url'', JStr (in_api_url i)), (''console_transport'', JStr (in_transport i)),
      (''id'', JInt (in_id i)), (''insecure_ssh'', JBool (in_insecure_ssh i)),
      (''insecure_tls'', JBool (in_insecure_tls i)), (''name'', JStr (in_name i)), (''node'', JStr (in_node i)),
      (''ssh_fingerprints'', JArr (map JStr (in_fps i))), (''ssh_host'', JStr (in_ssh_host i)),
      (''ssh_port'', JInt (in_ssh_port i)), (''ssh_user'', JStr (in_ssh_user i))]"

definition client_json :: "client_row \<Rightarrow> (gostring \<times> json) list" where
  "client_json c =
     [(''group_ids'', JArr (map JInt (c_groups c))), (''id'', JInt (c_id c)), (''name'', JStr (c_name c)),
      (''public_keys'', JArr (map JStr (c_keys c)))]"

definition group_json :: "group_row \<Rightarrow> (gostring \<times> json) list" where
  "group_json g =
     [(''client_ids'', JArr (map JInt (gr_clients g))), (''id'', JInt (gr_id g)), (''name'', JStr (gr_name g))]"

definition guest_json :: "guest_row \<Rightarrow> (gostring \<times> json) list" where
  "guest_json g =
     [(''id'', JInt (g_id g)), (''instance_id'', JInt (g_instance g)), (''name'', JStr (g_name g)),
      (''proxmox_id'', JInt (g_vmid g)), (''status'', JStr (g_status g)), (''type'', JStr (g_type g))]"

definition setting_json :: "gostring \<times> gostring \<Rightarrow> (gostring \<times> json) list" where
  "setting_json kv = [(''key'', JStr (fst kv)), (''value'', JStr (snd kv))]"


section \<open>The gate\<close>

definition caller :: "handler \<Rightarrow> api_call \<Rightarrow> db \<Rightarrow> auth_error + identity" where
  "caller h c d = callerIdentity (h_hash h) (h_rest h) (c_now c) (c_tok c) d"

definition gateAdmin :: "handler \<Rightarrow> api_call \<Rightarrow> db \<Rightarrow> 'a reply option" where
  "gateAdmin h c d =
     (case caller h c d of
        Inl NoCredential \<Rightarrow> Some (Unauthorized401 reasonMissingToken)
      | Inl NoSuchToken \<Rightarrow> Some (Unauthorized401 reasonInvalidToken)
      | Inr ident \<Rightarrow> if \<not> id_admin ident then Some (Forbidden403 errNotAdminAPI) else None)"

text \<open>A handler: the gate, then its body.\<close>

definition gated :: "handler \<Rightarrow> api_call \<Rightarrow> (db \<Rightarrow> 'a reply \<times> db) \<Rightarrow> db \<Rightarrow> 'a reply \<times> db" where
  "gated h c body d = (case gateAdmin h c d of Some denied \<Rightarrow> (denied, d) | None \<Rightarrow> body d)"

definition with_body :: "'b option \<Rightarrow> ('b \<Rightarrow> db \<Rightarrow> 'a reply \<times> db) \<Rightarrow> db \<Rightarrow> 'a reply \<times> db" where
  "with_body b k d = (case b of None \<Rightarrow> (BadRequest400 errMissingBody, d) | Some x \<Rightarrow> k x d)"

section \<open>The activity log\<close>

definition maxActivityCommand :: nat where "maxActivityCommand = 4096"

definition ellipsis :: gostring where "ellipsis = [CHR 0xE2, CHR 0x80, CHR 0xA6]"

definition activityEnabled :: "handler \<Rightarrow> bool" where
  "activityEnabled h = (h_retention h > 0)"

definition record_event ::
  "handler \<Rightarrow> api_call \<Rightarrow> gostring \<Rightarrow> gostring \<Rightarrow> (gostring \<times> param_value) list \<Rightarrow> db \<Rightarrow> db" where
  "record_event h c eventID actor ps d =
     (if \<not> activityEnabled h then d
      else snd (AddActivityEvent
             \<lparr>ev_id = 0, ev_event = eventID, ev_actor = actor, ev_at = c_now c, ev_params = ps\<rparr> d))"

definition actorName :: "handler \<Rightarrow> api_call \<Rightarrow> db \<Rightarrow> gostring" where
  "actorName h c d =
     (case caller h c d of
        Inl _ \<Rightarrow> ''unknown''
      | Inr ident \<Rightarrow> if id_name ident = '''' then ''unknown'' else id_name ident)"

definition recordAdmin ::
  "handler \<Rightarrow> api_call \<Rightarrow> gostring \<Rightarrow> (gostring \<times> param_value) list \<Rightarrow> db \<Rightarrow> db" where
  "recordAdmin h c eventID ps d = record_event h c eventID (actorName h c d) ps d"

definition boundedCommand :: "gostring \<Rightarrow> gostring" where
  "boundedCommand cmd =
     (if length cmd > maxActivityCommand then take maxActivityCommand cmd @ ellipsis else cmd)"

definition adminKeySummary :: "gostring \<Rightarrow> gostring" where
  "adminKeySummary pubKey =
     (case go_fields (trim_space pubKey) of
        [] \<Rightarrow> ''''
      | [ty] \<Rightarrow> ty
      | ty # material # comment \<Rightarrow>
          (let material = (if length material > 12 then take 12 material @ ellipsis else material)
           in ty @ '' '' @ material @
              (if comment = [] then '''' else '' '' @ go_join '' '' comment)))"

definition named_event :: "gostring \<Rightarrow> int \<Rightarrow> (gostring \<times> param_value) list" where
  "named_event name i = [(''name'', PStr name), (''id'', PInt i)]"

section \<open>Instances\<close>

record discover_row =
  dr_instance :: int
  dr_name :: gostring
  dr_discovered :: nat
  dr_stored :: nat
  dr_removed :: nat
  dr_error :: "gostring option"

fun store_error_text :: "handler \<Rightarrow> db_error store_error \<Rightarrow> gostring" where
  "store_error_text h StoreCancelled = ''context deadline exceeded''"
| "store_error_text h (UpsertFailed name vmid e) =
     ''upsert guest '' @ name @ '' (proxmox_id='' @ itoa vmid @ ''): '' @ db_error_text h e"
| "store_error_text h (PruneFailed name e) =
     ''prune stale guests on '' @ name @ '': '' @ db_error_text h e"

text \<open>
  \<open>discoverInstance\<close> of the API: the counts of one instance's pass. \<open>h_expires\<close> says before
  which guest the pass's deadline has passed.
\<close>

definition discover_row_of ::
  "handler \<Rightarrow> (instance_row \<Rightarrow> gostring + guest_row list) \<Rightarrow> instance_row \<Rightarrow> db \<Rightarrow> discover_row \<times> db" where
  "discover_row_of h poll inst d =
     (let row = \<lparr>dr_instance = in_id inst, dr_name = in_name inst, dr_discovered = 0, dr_stored = 0,
                 dr_removed = 0, dr_error = None\<rparr>
      in case poll inst of
           Inl msg \<Rightarrow> (row\<lparr>dr_error := Some msg\<rparr>, d)
         | Inr guests \<Rightarrow>
             (let ((stored, removed, err), d) = StoreGuests repo_upsert repo_prune (h_expires h inst) inst guests d;
                  row = row\<lparr>dr_discovered := length guests\<rparr>
              in case err of
                   Some e \<Rightarrow> (row\<lparr>dr_error := Some (store_error_text h e)\<rparr>, d)
                 | None \<Rightarrow> (row\<lparr>dr_stored := stored, dr_removed := removed\<rparr>, d)))"

definition termproxy_refusal :: "handler \<Rightarrow> instance_row \<Rightarrow> gostring option" where
  "termproxy_refusal h inst =
     (if in_transport inst = ''termproxy''
      then Option.bind (h_checker h) (\<lambda>check. check inst) else None)"

definition filtered_list ::
  "handler \<Rightarrow> ('r \<Rightarrow> (gostring \<times> json) list) \<Rightarrow> json option option \<Rightarrow> field_spec_map \<Rightarrow> 'r list \<Rightarrow> 'r list reply" where
  "filtered_list h to_map raw allowed rows =
     (case Match (h_fold h) (h_efold h) to_map raw rows allowed of
        Inl e \<Rightarrow> BadRequest400 (h_filter_text h (InvalidFilter e))
      | Inr out \<Rightarrow> OK200 out)"

definition v1_ListInstances ::
  "handler \<Rightarrow> api_call \<Rightarrow> json option option \<Rightarrow> db \<Rightarrow> instance_row list reply \<times> db" where
  "v1_ListInstances h c raw =
     gated h c (\<lambda>d. (filtered_list h instance_json raw instanceFilterFields
                      (map toAPIInstance (ListProxmoxInstances d)), d))"

definition v1_AddInstance :: "handler \<Rightarrow> api_call \<Rightarrow> instance_row option \<Rightarrow> db \<Rightarrow> instance_row reply \<times> db" where
  "v1_AddInstance h c body =
     gated h c (with_body body (\<lambda>body d.
       let inst = fromAPIInstance body in
       case termproxy_refusal h inst of
         Some e \<Rightarrow> (BadRequest400 e, d)
       | None \<Rightarrow>
           (case AddProxmoxInstance (h_fold h) (h_url_unique h) inst d of
              Inl e \<Rightarrow> (conflict_or_500 h e, d)
            | Inr (inst, d) \<Rightarrow>
                let d = (case h_discoverer h of
                           None \<Rightarrow> d
                         | Some poll \<Rightarrow> snd (discover_row_of h poll inst d));
                    d = recordAdmin h c ''instance.added'' (named_event (in_name inst) (in_id inst)) d
                in (Created201 (toAPIInstance inst), d))))"

definition v1_GetInstance :: "handler \<Rightarrow> api_call \<Rightarrow> int \<Rightarrow> db \<Rightarrow> instance_row reply \<times> db" where
  "v1_GetInstance h c i =
     gated h c (\<lambda>d. (case findInstance i d of
                        None \<Rightarrow> NotFound404 errNoSuchInstance
                      | Some inst \<Rightarrow> OK200 (toAPIInstance inst), d))"

text \<open>The repository normalises the caller's struct in place, so the response shows the stored form.\<close>

definition v1_UpdateInstance ::
  "handler \<Rightarrow> api_call \<Rightarrow> int \<Rightarrow> instance_row option \<Rightarrow> db \<Rightarrow> instance_row reply \<times> db" where
  "v1_UpdateInstance h c i body =
     gated h c (with_body body (\<lambda>body d.
       case findInstance i d of
         None \<Rightarrow> (NotFound404 errNoSuchInstance, d)
       | Some _ \<Rightarrow>
           let inst = (fromAPIInstance body)\<lparr>in_id := i\<rparr> in
           (case termproxy_refusal h inst of
              Some e \<Rightarrow> (BadRequest400 e, d)
            | None \<Rightarrow>
                (case UpdateProxmoxInstance (h_fold h) (h_url_unique h) inst d of
                   Inl e \<Rightarrow> (conflict_or_500 h e, d)
                 | Inr d \<Rightarrow>
                     let inst = normalise_instance (h_fold h) inst;
                         d = recordAdmin h c ''instance.updated'' (named_event (in_name inst) (in_id inst)) d
                     in (OK200 (toAPIInstance inst), d)))))"

definition v1_RemoveInstance :: "handler \<Rightarrow> api_call \<Rightarrow> int \<Rightarrow> db \<Rightarrow> unit reply \<times> db" where
  "v1_RemoveInstance h c i =
     gated h c (\<lambda>d. case findInstance i d of
         None \<Rightarrow> (NotFound404 errNoSuchInstance, d)
       | Some existing \<Rightarrow>
           (NoContent204, recordAdmin h c ''instance.removed'' (named_event (in_name existing) i)
                            (RemoveProxmoxInstance i d)))"

section \<open>Clients and groups\<close>

definition findClient :: "int \<Rightarrow> db \<Rightarrow> client_row option" where
  "findClient i d = find (\<lambda>cl. c_id cl = i) (ListClients d)"

definition findGroup :: "int \<Rightarrow> db \<Rightarrow> group_row option" where
  "findGroup i d = find (\<lambda>g. gr_id g = i) (ListGroups d)"

definition v1_ListClients ::
  "handler \<Rightarrow> api_call \<Rightarrow> gostring option \<Rightarrow> json option option \<Rightarrow> db \<Rightarrow> client_row list reply \<times> db" where
  "v1_ListClients h c name raw =
     gated h c (\<lambda>d. (case name of
         Some n \<Rightarrow>
           (case GetClientByName (h_fold h) n d of
              Inl e \<Rightarrow> NotFound404 errNoSuchClient
            | Inr cl \<Rightarrow> OK200 [toAPIClient cl])
       | None \<Rightarrow> filtered_list h client_json raw clientFilterFields (map toAPIClient (ListClients d)), d))"

definition v1_AddClient :: "handler \<Rightarrow> api_call \<Rightarrow> client_row option \<Rightarrow> db \<Rightarrow> client_row reply \<times> db" where
  "v1_AddClient h c body =
     gated h c (with_body body (\<lambda>body d.
       case AddClient (h_fold h) (fromAPIClient body) d of
         Inl e \<Rightarrow> (conflict_or_500 h e, d)
       | Inr (cl, d) \<Rightarrow>
           (Created201 (toAPIClient cl),
            recordAdmin h c ''client.added'' (named_event (c_name cl) (c_id cl)) d)))"

definition v1_GetClient :: "handler \<Rightarrow> api_call \<Rightarrow> int \<Rightarrow> db \<Rightarrow> client_row reply \<times> db" where
  "v1_GetClient h c i =
     gated h c (\<lambda>d. (case findClient i d of
                        None \<Rightarrow> NotFound404 errNoSuchClient
                      | Some cl \<Rightarrow> OK200 (toAPIClient cl), d))"

definition v1_UpdateClient :: "handler \<Rightarrow> api_call \<Rightarrow> int \<Rightarrow> client_row option \<Rightarrow> db \<Rightarrow> client_row reply \<times> db" where
  "v1_UpdateClient h c i body =
     gated h c (with_body body (\<lambda>body d.
       case findClient i d of
         None \<Rightarrow> (NotFound404 errNoSuchClient, d)
       | Some _ \<Rightarrow>
           let cl = (fromAPIClient body)\<lparr>c_id := i\<rparr> in
           (case UpdateClient (h_fold h) cl d of
              Inl e \<Rightarrow> (conflict_or_500 h e, d)
            | Inr d \<Rightarrow>
                let cl = cl\<lparr>c_name := FoldName (h_fold h) (c_name cl)\<rparr>
                in (OK200 (toAPIClient cl),
                    recordAdmin h c ''client.updated'' (named_event (c_name cl) (c_id cl)) d))))"

definition v1_RemoveClient :: "handler \<Rightarrow> api_call \<Rightarrow> int \<Rightarrow> db \<Rightarrow> unit reply \<times> db" where
  "v1_RemoveClient h c i =
     gated h c (\<lambda>d. case findClient i d of
         None \<Rightarrow> (NotFound404 errNoSuchClient, d)
       | Some existing \<Rightarrow>
           (NoContent204, recordAdmin h c ''client.removed'' (named_event (c_name existing) i)
                            (RemoveClient i d)))"

definition v1_ListGroups ::
  "handler \<Rightarrow> api_call \<Rightarrow> json option option \<Rightarrow> db \<Rightarrow> group_row list reply \<times> db" where
  "v1_ListGroups h c raw =
     gated h c (\<lambda>d. (filtered_list h group_json raw groupFilterFields (map toAPIGroup (ListGroups d)), d))"

definition v1_AddGroup :: "handler \<Rightarrow> api_call \<Rightarrow> group_row option \<Rightarrow> db \<Rightarrow> group_row reply \<times> db" where
  "v1_AddGroup h c body =
     gated h c (with_body body (\<lambda>body d.
       case AddGroup (h_fold h) (fromAPIGroup body) d of
         Inl e \<Rightarrow> (conflict_or_500 h e, d)
       | Inr (g, d) \<Rightarrow>
           (Created201 (toAPIGroup g),
            recordAdmin h c ''group.added'' (named_event (gr_name g) (gr_id g)) d)))"

definition v1_GetGroup :: "handler \<Rightarrow> api_call \<Rightarrow> int \<Rightarrow> db \<Rightarrow> group_row reply \<times> db" where
  "v1_GetGroup h c i =
     gated h c (\<lambda>d. (case findGroup i d of
                        None \<Rightarrow> NotFound404 errNoSuchGroup
                      | Some g \<Rightarrow> OK200 (toAPIGroup g), d))"

definition v1_UpdateGroup :: "handler \<Rightarrow> api_call \<Rightarrow> int \<Rightarrow> group_row option \<Rightarrow> db \<Rightarrow> group_row reply \<times> db" where
  "v1_UpdateGroup h c i body =
     gated h c (with_body body (\<lambda>body d.
       case findGroup i d of
         None \<Rightarrow> (NotFound404 errNoSuchGroup, d)
       | Some _ \<Rightarrow>
           let g = (fromAPIGroup body)\<lparr>gr_id := i\<rparr> in
           (case UpdateGroup (h_fold h) g d of
              Inl e \<Rightarrow> (conflict_or_500 h e, d)
            | Inr d \<Rightarrow>
                let g = g\<lparr>gr_name := FoldName (h_fold h) (gr_name g)\<rparr>
                in (OK200 (toAPIGroup g),
                    recordAdmin h c ''group.updated'' (named_event (gr_name g) (gr_id g)) d))))"

definition v1_RemoveGroup :: "handler \<Rightarrow> api_call \<Rightarrow> int \<Rightarrow> db \<Rightarrow> unit reply \<times> db" where
  "v1_RemoveGroup h c i =
     gated h c (\<lambda>d. case findGroup i d of
         None \<Rightarrow> (NotFound404 errNoSuchGroup, d)
       | Some existing \<Rightarrow>
           (NoContent204, recordAdmin h c ''group.removed'' (named_event (gr_name existing) i)
                            (RemoveGroup i d)))"

section \<open>Guests and access rules\<close>

definition v1_ListGuests ::
  "handler \<Rightarrow> api_call \<Rightarrow> json option option \<Rightarrow> db \<Rightarrow> guest_row list reply \<times> db" where
  "v1_ListGuests h c raw =
     gated h c (\<lambda>d. (filtered_list h guest_json raw guestFilterFields (map toAPIGuestRow (ListGuests d)), d))"

definition v1_GetGuest :: "handler \<Rightarrow> api_call \<Rightarrow> int \<Rightarrow> db \<Rightarrow> guest_row reply \<times> db" where
  "v1_GetGuest h c i =
     gated h c (\<lambda>d. (case GetGuestByID i d of
                        Inl e \<Rightarrow> NotFound404 errNoSuchGuest
                      | Inr g \<Rightarrow> OK200 (toAPIGuestRow g), d))"

text \<open>The repository's filtered lists: no clause means every row, in id order.\<close>

definition ListAccessRules ::
  "handler \<Rightarrow> json option option \<Rightarrow> db \<Rightarrow> query_error + rule_row list" where
  "ListAccessRules h raw d =
     map_sum id (\<lambda>(w, args). filter (\<lambda>r. w = '''' \<or> h_rule_rows h w args r) (sort_key r_id (d_rules d)))
       (access_where (h_fold h) raw accessRuleFields)"

definition ListInstanceAccessRules ::
  "handler \<Rightarrow> json option option \<Rightarrow> db \<Rightarrow> query_error + rule_row list" where
  "ListInstanceAccessRules h raw d =
     map_sum id (\<lambda>(w, args). filter (\<lambda>r. w = '''' \<or> h_rule_rows h w args r) (sort_key r_id (d_inst_rules d)))
       (access_where (h_fold h) raw instanceAccessRuleFields)"

definition query_reply :: "handler \<Rightarrow> query_error + 'a \<Rightarrow> 'a reply" where
  "query_reply h r = (case r of Inl e \<Rightarrow> BadRequest400 (h_filter_text h e) | Inr x \<Rightarrow> OK200 x)"

definition v1_ListAccessRules ::
  "handler \<Rightarrow> api_call \<Rightarrow> json option option \<Rightarrow> db \<Rightarrow> rule_row list reply \<times> db" where
  "v1_ListAccessRules h c raw =
     gated h c (\<lambda>d. (query_reply h (map_sum id (map toAPIAccessRuleRow) (ListAccessRules h raw d)), d))"

definition v1_ListInstanceAccessRules ::
  "handler \<Rightarrow> api_call \<Rightarrow> json option option \<Rightarrow> db \<Rightarrow> rule_row list reply \<times> db" where
  "v1_ListInstanceAccessRules h c raw =
     gated h c (\<lambda>d. (query_reply h (map_sum id (map toAPIAccessRuleRow) (ListInstanceAccessRules h raw d)), d))"

record access_change =
  ac_kind :: gostring
  ac_subject :: int
  ac_targets :: "int list"

definition change_event :: "gostring \<Rightarrow> access_change \<Rightarrow> (gostring \<times> param_value) list" where
  "change_event ids ch =
     [(''subject_kind'', PStr (ac_kind ch)), (''subject_id'', PInt (ac_subject ch)), (ids, PInts (ac_targets ch))]"

text \<open>The four handlers differ in what they do for a client and for a group.\<close>

definition access_handler ::
  "handler \<Rightarrow> api_call \<Rightarrow> gostring \<Rightarrow> gostring \<Rightarrow> (int \<Rightarrow> int list \<Rightarrow> db \<Rightarrow> db) \<Rightarrow> (int \<Rightarrow> int list \<Rightarrow> db \<Rightarrow> db) \<Rightarrow>
   access_change option \<Rightarrow> db \<Rightarrow> unit reply \<times> db" where
  "access_handler h c event ids for_client for_group body =
     gated h c (with_body body (\<lambda>ch d.
       if ac_kind ch = ''client''
       then (NoContent204, recordAdmin h c event (change_event ids ch) (for_client (ac_subject ch) (ac_targets ch) d))
       else if ac_kind ch = ''group''
       then (NoContent204, recordAdmin h c event (change_event ids ch) (for_group (ac_subject ch) (ac_targets ch) d))
       else (BadRequest400 errUnknownSubject, d)))"

definition v1_GrantAccess :: "handler \<Rightarrow> api_call \<Rightarrow> access_change option \<Rightarrow> db \<Rightarrow> unit reply \<times> db" where
  "v1_GrantAccess h c =
     access_handler h c ''access.granted'' ''guest_ids'' GrantClientAccess GrantGroupAccess"

definition v1_RevokeAccess :: "handler \<Rightarrow> api_call \<Rightarrow> access_change option \<Rightarrow> db \<Rightarrow> unit reply \<times> db" where
  "v1_RevokeAccess h c =
     access_handler h c ''access.revoked'' ''guest_ids''
       (\<lambda>s. fold (RevokeClientAccess s)) (\<lambda>s. fold (RevokeGroupAccess s))"

definition v1_GrantInstanceAccess :: "handler \<Rightarrow> api_call \<Rightarrow> access_change option \<Rightarrow> db \<Rightarrow> unit reply \<times> db" where
  "v1_GrantInstanceAccess h c =
     access_handler h c ''instance_access.granted'' ''instance_ids''
       GrantClientInstanceAccess GrantGroupInstanceAccess"

definition v1_RevokeInstanceAccess :: "handler \<Rightarrow> api_call \<Rightarrow> access_change option \<Rightarrow> db \<Rightarrow> unit reply \<times> db" where
  "v1_RevokeInstanceAccess h c =
     access_handler h c ''instance_access.revoked'' ''instance_ids''
       (\<lambda>s. fold (RevokeClientInstanceAccess s)) (\<lambda>s. fold (RevokeGroupInstanceAccess s))"

section \<open>Policy, version and keys\<close>

definition v1_GetDefaultPolicy :: "handler \<Rightarrow> api_call \<Rightarrow> db \<Rightarrow> api_policy reply \<times> db" where
  "v1_GetDefaultPolicy h c = gated h c (\<lambda>d. (OK200 (toAPIDefaultPolicy (GetDefaultPolicy d)), d))"

definition v1_SetDefaultPolicy :: "handler \<Rightarrow> api_call \<Rightarrow> api_policy option \<Rightarrow> db \<Rightarrow> api_policy reply \<times> db" where
  "v1_SetDefaultPolicy h c body =
     gated h c (with_body body (\<lambda>body d.
       let policy = fromAPIDefaultPolicy body
       in (OK200 (toAPIDefaultPolicy policy),
           recordAdmin h c ''policy.set''
             [(''client_count'', PInt (int (length (dp_clients policy)))),
              (''group_count'', PInt (int (length (dp_groups policy))))] (SetDefaultPolicy policy d))))"

definition v1_GetVersion :: "handler \<Rightarrow> api_call \<Rightarrow> db \<Rightarrow> gostring reply \<times> db" where
  "v1_GetVersion h c = gated h c (\<lambda>d. (OK200 (if h_version h = '''' then ''dev'' else h_version h), d))"

text \<open>\<open>h_keyfile\<close> is the trimmed content of the key file, empty when there is none.\<close>

definition readPublicKey :: "handler \<Rightarrow> gostring + gostring" where
  "readPublicKey h =
     (case h_keyfile h of
        Inl e \<Rightarrow> Inl e
      | Inr pem \<Rightarrow> if pem \<noteq> '''' then h_public_line h pem else Inr '''')"

definition v1_GetProxpassSSHPublicKey :: "handler \<Rightarrow> api_call \<Rightarrow> db \<Rightarrow> gostring reply \<times> db" where
  "v1_GetProxpassSSHPublicKey h c =
     gated h c (\<lambda>d. (case readPublicKey h of Inl e \<Rightarrow> Error500 e | Inr key \<Rightarrow> OK200 key, d))"

definition v1_ListAdminKeys :: "handler \<Rightarrow> api_call \<Rightarrow> db \<Rightarrow> gostring list reply \<times> db" where
  "v1_ListAdminKeys h c = gated h c (\<lambda>d. (OK200 (ListAdminKeys d), d))"

definition v1_AddAdminKey :: "handler \<Rightarrow> api_call \<Rightarrow> gostring option \<Rightarrow> db \<Rightarrow> unit reply \<times> db" where
  "v1_AddAdminKey h c body =
     gated h c (with_body body (\<lambda>key d.
       (NoContent204,
        recordAdmin h c ''admin_key.added'' [(''key'', PStr (adminKeySummary key))] (AddAdminKey key d))))"

definition errProtectedKey :: gostring where
  "errProtectedKey =
     ''this key is set by PROXPASS_ADMIN_KEY and cannot be removed here; change the configuration and restart instead''"

definition v1_RemoveAdminKey :: "handler \<Rightarrow> api_call \<Rightarrow> gostring option \<Rightarrow> db \<Rightarrow> unit reply \<times> db" where
  "v1_RemoveAdminKey h c body =
     gated h c (with_body body (\<lambda>key d.
       if h_protected h \<noteq> '''' \<and> trim_space key = h_protected h then (Conflict409 errProtectedKey, d)
       else (NoContent204,
             recordAdmin h c ''admin_key.removed'' [(''key'', PStr (adminKeySummary key))] (RemoveAdminKey key d))))"

section \<open>Settings\<close>

definition bullets :: gostring where
  "bullets = concat (replicate 8 [CHR 0xE2, CHR 0x80, CHR 0xA2])"

definition maskSecretSet :: "bool \<Rightarrow> gostring" where
  "maskSecretSet b = (if b then bullets @ '' (set)'' else ''(not set)'')"

definition maskDataSource :: "gostring \<Rightarrow> gostring" where
  "maskDataSource s =
     (if \<not> has_prefix ''postgres://'' s \<and> \<not> has_prefix ''postgresql://'' s then s
      else let scheme = (if has_prefix ''postgres://'' s then ''postgres://'' else ''postgresql://'');
               rest = drop (length scheme) s;
               (creds, tail, found) = go_cut CHR 0x40 rest
           in if \<not> found then s
              else let (user, password, has_password) = go_cut CHR '':'' creds
                   in scheme @ (if has_password then user @ '':***'' else creds) @ CHR 0x40 # tail)"

definition activityRetentionDisplay :: "gostring \<Rightarrow> gostring" where
  "activityRetentionDisplay v =
     (if v = '''' \<or> v = ''0s'' \<or> v = ''0'' then ''0s (activity logging disabled)'' else v)"

definition valueOrUnset :: "gostring \<Rightarrow> gostring" where
  "valueOrUnset v = (if v = '''' then ''(not set)'' else v)"

definition buildSettings :: "settings_snapshot \<Rightarrow> gostring \<Rightarrow> (gostring \<times> gostring) list" where
  "buildSettings s publicEndpoint =
     [(''PROXPASS_PUBLIC_ENDPOINT'', valueOrUnset publicEndpoint),
      (''PROXPASS_DATA'', maskDataSource (ss_data s)),
      (''PROXPASS_LOG_LEVEL'', ss_log_level s),
      (''PROXPASS_DISCOVERY_INTERVAL'', ss_discovery_interval s),
      (''PROXPASS_LISTEN'', ss_listen s),
      (''PROXPASS_ADMIN_KEY'', valueOrUnset (ss_admin_key s)),
      (''PROXPASS_NSS_TOKEN'', maskSecretSet (ss_nss_token_set s)),
      (''PROXPASS_REST_API_TOKEN'', maskSecretSet (ss_rest_token_set s)),
      (''PROXPASS_ACTIVITY_RETENTION'', activityRetentionDisplay (ss_activity_retention s)),
      (''PROXPASS_ACTIVITY_PRUNE_INTERVAL'', ss_prune_interval s)]"

definition no_settings :: settings_snapshot where
  "no_settings = \<lparr>ss_data = [], ss_log_level = [], ss_discovery_interval = [], ss_listen = [],
     ss_admin_key = [], ss_nss_token_set = False, ss_rest_token_set = False,
     ss_activity_retention = [], ss_prune_interval = []\<rparr>"

definition v1_ListSettings ::
  "handler \<Rightarrow> api_call \<Rightarrow> json option option \<Rightarrow> db \<Rightarrow> (gostring \<times> gostring) list reply \<times> db" where
  "v1_ListSettings h c raw =
     gated h c (\<lambda>d.
       let endpoint = GetSetting ''public_endpoint'' d;
           snap = (case h_settings h of None \<Rightarrow> no_settings | Some s \<Rightarrow> s)
       in (filtered_list h setting_json raw settingFilterFields (buildSettings snap endpoint), d))"

definition v1_GetSetting :: "handler \<Rightarrow> api_call \<Rightarrow> gostring \<Rightarrow> db \<Rightarrow> (gostring \<times> gostring) reply \<times> db" where
  "v1_GetSetting h c key = gated h c (\<lambda>d. (OK200 (key, GetSetting key d), d))"

definition v1_SetSetting ::
  "handler \<Rightarrow> api_call \<Rightarrow> gostring \<Rightarrow> gostring option \<Rightarrow> db \<Rightarrow> (gostring \<times> gostring) reply \<times> db" where
  "v1_SetSetting h c key body =
     gated h c (with_body body (\<lambda>v d.
       (OK200 (key, v),
        recordAdmin h c ''setting.changed'' [(''key'', PStr key), (''value'', PStr v)] (SetSetting key v d))))"

section \<open>Discovery and host keys\<close>

definition filterInstancesByID :: "instance_row list \<Rightarrow> int \<Rightarrow> instance_row list" where
  "filterInstancesByID insts i = (case find (\<lambda>r. in_id r = i) insts of None \<Rightarrow> [] | Some r \<Rightarrow> [r])"

text \<open>The concurrent passes, in the order in which they finish; each fills its instance's row.\<close>

fun discover_all ::
  "handler \<Rightarrow> (instance_row \<Rightarrow> gostring + guest_row list) \<Rightarrow> instance_row list \<Rightarrow> db \<Rightarrow>
   (int \<times> discover_row) list \<times> db" where
  "discover_all h poll [] d = ([], d)"
| "discover_all h poll (i # is) d =
     (let (row, d) = discover_row_of h poll i d;
          (rows, d) = discover_all h poll is d
      in ((in_id i, row) # rows, d))"

record discover_result =
  dd_total :: nat
  dd_rows :: "discover_row list"

definition v1_RunDiscovery ::
  "handler \<Rightarrow> api_call \<Rightarrow> int option \<Rightarrow> db \<Rightarrow> discover_result reply \<times> db" where
  "v1_RunDiscovery h c only =
     gated h c (\<lambda>d.
       case h_discoverer h of
         None \<Rightarrow> (Error500 ''discovery is not configured on this server: wire a discoverer with WithDiscoverer'', d)
       | Some poll \<Rightarrow>
           (let insts = ListProxmoxInstances d;
                insts = (case only of None \<Rightarrow> insts | Some i \<Rightarrow> filterInstancesByID insts i)
            in if only \<noteq> None \<and> insts = [] then (NotFound404 errNoSuchInstance, d)
               else let (done, d) = discover_all h poll (h_finish_order h insts) d;
                        rows = map (\<lambda>i. the (map_of done (in_id i))) insts;
                        total = sum_list (map dr_stored rows)
                    in (OK200 \<lparr>dd_total = total, dd_rows = rows\<rparr>,
                        recordAdmin h c ''discovery.ran''
                          [(''instance_count'', PInt (int (length insts))), (''guests_found'', PInt (int total))] d)))"

definition v1_ScanSSHFingerprints ::
  "handler \<Rightarrow> api_call \<Rightarrow> (gostring \<times> int) option \<Rightarrow> db \<Rightarrow> (gostring \<times> gostring) list reply \<times> db" where
  "v1_ScanSSHFingerprints h c body =
     gated h c (with_body body (\<lambda>(host, port) d.
       (case h_scan h host port of Inl e \<Rightarrow> BadGateway502 e | Inr keys \<Rightarrow> OK200 keys, d)))"

section \<open>Reading and reporting activity\<close>

record activity_page =
  pg_entries :: "activity_event list"
  pg_total :: nat
  pg_limit :: int
  pg_offset :: int

definition positive_or :: "int \<Rightarrow> int option \<Rightarrow> int" where
  "positive_or z v = (case v of Some n \<Rightarrow> if n > 0 then n else z | None \<Rightarrow> z)"

definition activity_where ::
  "handler \<Rightarrow> json option option \<Rightarrow> query_error + (activity_event \<Rightarrow> bool)" where
  "activity_where h raw =
     (case BuildWhere (h_fold h) raw (activityFilterFields (h_postgres h)) of
        Inl e \<Rightarrow> Inl (InvalidFilter e)
      | Inr (w, args) \<Rightarrow> Inr (\<lambda>e. w = '''' \<or> h_event_rows h w args e))"

definition v1_ListActivity ::
  "handler \<Rightarrow> api_call \<Rightarrow> int option \<Rightarrow> int option \<Rightarrow> json option option \<Rightarrow> db \<Rightarrow> activity_page reply \<times> db" where
  "v1_ListActivity h c plimit poffset raw =
     gated h c (\<lambda>d.
       let limit = positive_or 100 plimit; offset = positive_or 0 poffset
       in (query_reply h (map_sum id (\<lambda>match.
             \<lparr>pg_entries = ListActivity match limit offset d, pg_total = CountActivity match d,
              pg_limit = limit, pg_offset = offset\<rparr>) (activity_where h raw)), d))"

fun sessionEventID :: "gostring \<Rightarrow> gostring option" where
  "sessionEventID kind =
     (if kind = ''console'' then Some ''session.console.opened''
      else if kind = ''command'' then Some ''session.command.run''
      else if kind = ''sftp'' then Some ''session.sftp.opened''
      else None)"

record session_report =
  ar_kind :: gostring
  ar_command :: "gostring option"
  ar_host :: "gostring option"
  ar_guest :: "gostring option"

definition report_params :: "session_report \<Rightarrow> (gostring \<times> param_value) list" where
  "report_params r =
     (if ar_kind r = ''command''
      then (case ar_command r of Some cmd \<Rightarrow> [(''command'', PStr (boundedCommand cmd))] | None \<Rightarrow> []) else []) @
     (case ar_host r of Some v \<Rightarrow> if v \<noteq> '''' then [(''host'', PStr v)] else [] | None \<Rightarrow> []) @
     (case ar_guest r of Some v \<Rightarrow> if v \<noteq> '''' then [(''guest'', PStr v)] else [] | None \<Rightarrow> [])"

definition ReportSessionActivity ::
  "handler \<Rightarrow> api_call \<Rightarrow> session_report option \<Rightarrow> db \<Rightarrow> unit reply \<times> db" where
  "ReportSessionActivity h c body d =
     (case caller h c d of
        Inl e \<Rightarrow> (Unauthorized401 (authFailureReason e), d)
      | Inr ident \<Rightarrow>
          (case body of
             None \<Rightarrow> (NoContent204, d)
           | Some r \<Rightarrow>
               (case sessionEventID (ar_kind r) of
                  None \<Rightarrow> (NoContent204, d)
                | Some eventID \<Rightarrow>
                    (NoContent204, record_event h c eventID (id_name ident) (report_params r) d))))"

section \<open>All the administrator's requests\<close>

text \<open>The requests of the administrator's routes; a body is \<open>None\<close> when the request has none.\<close>

datatype admin_request =
    ListInstancesReq "json option option" | AddInstanceReq "instance_row option" | GetInstanceReq int
  | UpdateInstanceReq int "instance_row option" | RemoveInstanceReq int
  | ListClientsReq "gostring option" "json option option" | AddClientReq "client_row option" | GetClientReq int
  | UpdateClientReq int "client_row option" | RemoveClientReq int
  | ListGroupsReq "json option option" | AddGroupReq "group_row option" | GetGroupReq int
  | UpdateGroupReq int "group_row option" | RemoveGroupReq int
  | ListGuestsReq "json option option" | GetGuestReq int
  | ListAccessRulesReq "json option option" | GrantAccessReq "access_change option" | RevokeAccessReq "access_change option"
  | ListInstanceAccessRulesReq "json option option" | GrantInstanceAccessReq "access_change option"
  | RevokeInstanceAccessReq "access_change option"
  | GetDefaultPolicyReq | SetDefaultPolicyReq "api_policy option" | GetVersionReq | GetSSHPublicKeyReq
  | ListSettingsReq "json option option" | GetSettingReq gostring | SetSettingReq gostring "gostring option"
  | ListAdminKeysReq | AddAdminKeyReq "gostring option" | RemoveAdminKeyReq "gostring option"
  | RunDiscoveryReq "int option" | ScanReq "(gostring \<times> int) option"
  | ListActivityReq "int option" "int option" "json option option"

text \<open>The response's payload is left out here: what is compared is the status and the database.\<close>

definition status_of :: "'a reply \<times> db \<Rightarrow> unit reply \<times> db" where
  "status_of r = (map_reply (\<lambda>_. ()) (fst r), snd r)"

fun serve_admin :: "handler \<Rightarrow> api_call \<Rightarrow> admin_request \<Rightarrow> db \<Rightarrow> unit reply \<times> db" where
  "serve_admin h c (ListInstancesReq raw) d = status_of (v1_ListInstances h c raw d)"
| "serve_admin h c (AddInstanceReq b) d = status_of (v1_AddInstance h c b d)"
| "serve_admin h c (GetInstanceReq i) d = status_of (v1_GetInstance h c i d)"
| "serve_admin h c (UpdateInstanceReq i b) d = status_of (v1_UpdateInstance h c i b d)"
| "serve_admin h c (RemoveInstanceReq i) d = status_of (v1_RemoveInstance h c i d)"
| "serve_admin h c (ListClientsReq n raw) d = status_of (v1_ListClients h c n raw d)"
| "serve_admin h c (AddClientReq b) d = status_of (v1_AddClient h c b d)"
| "serve_admin h c (GetClientReq i) d = status_of (v1_GetClient h c i d)"
| "serve_admin h c (UpdateClientReq i b) d = status_of (v1_UpdateClient h c i b d)"
| "serve_admin h c (RemoveClientReq i) d = status_of (v1_RemoveClient h c i d)"
| "serve_admin h c (ListGroupsReq raw) d = status_of (v1_ListGroups h c raw d)"
| "serve_admin h c (AddGroupReq b) d = status_of (v1_AddGroup h c b d)"
| "serve_admin h c (GetGroupReq i) d = status_of (v1_GetGroup h c i d)"
| "serve_admin h c (UpdateGroupReq i b) d = status_of (v1_UpdateGroup h c i b d)"
| "serve_admin h c (RemoveGroupReq i) d = status_of (v1_RemoveGroup h c i d)"
| "serve_admin h c (ListGuestsReq raw) d = status_of (v1_ListGuests h c raw d)"
| "serve_admin h c (GetGuestReq i) d = status_of (v1_GetGuest h c i d)"
| "serve_admin h c (ListAccessRulesReq raw) d = status_of (v1_ListAccessRules h c raw d)"
| "serve_admin h c (GrantAccessReq b) d = status_of (v1_GrantAccess h c b d)"
| "serve_admin h c (RevokeAccessReq b) d = status_of (v1_RevokeAccess h c b d)"
| "serve_admin h c (ListInstanceAccessRulesReq raw) d = status_of (v1_ListInstanceAccessRules h c raw d)"
| "serve_admin h c (GrantInstanceAccessReq b) d = status_of (v1_GrantInstanceAccess h c b d)"
| "serve_admin h c (RevokeInstanceAccessReq b) d = status_of (v1_RevokeInstanceAccess h c b d)"
| "serve_admin h c GetDefaultPolicyReq d = status_of (v1_GetDefaultPolicy h c d)"
| "serve_admin h c (SetDefaultPolicyReq b) d = status_of (v1_SetDefaultPolicy h c b d)"
| "serve_admin h c GetVersionReq d = status_of (v1_GetVersion h c d)"
| "serve_admin h c GetSSHPublicKeyReq d = status_of (v1_GetProxpassSSHPublicKey h c d)"
| "serve_admin h c (ListSettingsReq raw) d = status_of (v1_ListSettings h c raw d)"
| "serve_admin h c (GetSettingReq k) d = status_of (v1_GetSetting h c k d)"
| "serve_admin h c (SetSettingReq k b) d = status_of (v1_SetSetting h c k b d)"
| "serve_admin h c ListAdminKeysReq d = status_of (v1_ListAdminKeys h c d)"
| "serve_admin h c (AddAdminKeyReq b) d = status_of (v1_AddAdminKey h c b d)"
| "serve_admin h c (RemoveAdminKeyReq b) d = status_of (v1_RemoveAdminKey h c b d)"
| "serve_admin h c (RunDiscoveryReq i) d = status_of (v1_RunDiscovery h c i d)"
| "serve_admin h c (ScanReq b) d = status_of (v1_ScanSSHFingerprints h c b d)"
| "serve_admin h c (ListActivityReq n off raw) d = status_of (v1_ListActivity h c n off raw d)"

lemmas v1_defs =
  v1_ListInstances_def v1_AddInstance_def v1_GetInstance_def v1_UpdateInstance_def v1_RemoveInstance_def
  v1_ListClients_def v1_AddClient_def v1_GetClient_def v1_UpdateClient_def v1_RemoveClient_def
  v1_ListGroups_def v1_AddGroup_def v1_GetGroup_def v1_UpdateGroup_def v1_RemoveGroup_def
  v1_ListGuests_def v1_GetGuest_def v1_ListAccessRules_def v1_GrantAccess_def v1_RevokeAccess_def
  v1_ListInstanceAccessRules_def v1_GrantInstanceAccess_def v1_RevokeInstanceAccess_def
  v1_GetDefaultPolicy_def v1_SetDefaultPolicy_def v1_GetVersion_def v1_GetProxpassSSHPublicKey_def
  v1_ListSettings_def v1_GetSetting_def v1_SetSetting_def v1_ListAdminKeys_def v1_AddAdminKey_def
  v1_RemoveAdminKey_def v1_RunDiscovery_def v1_ScanSSHFingerprints_def v1_ListActivity_def access_handler_def

section \<open>Nothing without the administrator\<close>

definition is_admin :: "handler \<Rightarrow> api_call \<Rightarrow> db \<Rightarrow> bool" where
  "is_admin h c d \<longleftrightarrow> (\<exists>ident. caller h c d = Inr ident \<and> id_admin ident)"

lemma gated_admin: "is_admin h c d \<Longrightarrow> gated h c body d = body d"
  by (auto simp: is_admin_def gated_def gateAdmin_def)

definition refusal :: "handler \<Rightarrow> api_call \<Rightarrow> db \<Rightarrow> unit reply" where
  "refusal h c d =
     (case caller h c d of
        Inl e \<Rightarrow> Unauthorized401 (authFailureReason e)
      | Inr ident \<Rightarrow> Forbidden403 errNotAdminAPI)"

lemma gated_other: "\<not> is_admin h c d \<Longrightarrow> status_of (gated h c body d) = (refusal h c d, d)"
  by (auto simp: is_admin_def gated_def gateAdmin_def status_of_def refusal_def split: sum.split auth_error.split)

text \<open>C10: A caller who is not the administrator changes nothing over the administrator's routes and
  learns nothing: whatever the request and its body, the answer is the 401 or 403 that the caller's
  credential alone decides, and the database is the one before the request.\<close>

theorem admin_routes_refuse_others:
  assumes "\<not> is_admin h c d"
  shows "serve_admin h c q d = (refusal h c d, d)"
  by (cases q) (simp_all add: v1_defs gated_other [OF assms])

section \<open>A server\<close>

definition demo_handler :: handler where
  "demo_handler =
     \<lparr>h_hash = id, h_rest = ''secret'', h_fold = id, h_efold = (=), h_url_unique = False, h_postgres = False,
      h_quote = id, h_unique_text = ''UNIQUE constraint failed: clients.name'', h_filter_text = (\<lambda>_. ''invalid filter''),
      h_rule_rows = (\<lambda>_ _ _. True), h_event_rows = (\<lambda>_ _ _. True), h_checker = None, h_discoverer = None,
      h_expires = (\<lambda>_ _. False), h_finish_order = id, h_scan = (\<lambda>_ _. Inr []), h_keyfile = Inr [],
      h_public_line = Inr, h_protected = [], h_settings = None, h_version = [], h_retention = 7\<rparr>"

definition rest_call :: api_call where "rest_call = \<lparr>c_now = 100, c_tok = Some ''secret''\<rparr>"

definition alice_client :: client_row where
  "alice_client = \<lparr>c_id = 0, c_name = ''alice'', c_keys = [''ssh-ed25519 AAAA''], c_groups = []\<rparr>"

lemma rest_is_admin: "is_admin demo_handler rest_call d"
  by (simp add: is_admin_def caller_def callerIdentity_def demo_handler_def rest_call_def)

lemma demo_logs: "h_retention demo_handler > 0"
  by (simp add: demo_handler_def)

theorem admin_routes_refuse_others_witness:
  "serve_admin demo_handler \<lparr>c_now = 0, c_tok = None\<rparr> (AddClientReq (Some alice_client)) empty_db =
     (Unauthorized401 reasonMissingToken, empty_db)"
proof -
  have "\<not> is_admin demo_handler \<lparr>c_now = 0, c_tok = None\<rparr> empty_db"
    by (simp add: is_admin_def caller_def callerIdentity_def)
  from admin_routes_refuse_others [OF this]
  show ?thesis by (simp add: refusal_def caller_def callerIdentity_def del: serve_admin.simps)
qed

end
