(* ===== verification/AdminAudit.thy ===== *)
theory AdminAudit
  imports AdminApi
begin

text \<open>
  What the administrator's routes do to the database: every request is a run of repository
  operations, so it keeps the tables' invariants, and every successful change leaves exactly one
  event in the activity log, under the caller's name.
\<close>

section \<open>A pass as a relation between databases\<close>

text \<open>A relation that composes and holds for one upsert and one prune holds for a whole pass.\<close>

locale pass_relation =
  fixes R :: "db \<Rightarrow> db \<Rightarrow> bool"
  assumes same: "R d d"
    and comp: "R d1 d2 \<Longrightarrow> R d2 d3 \<Longrightarrow> R d1 d3"
    and upsert: "R d (snd (UpsertGuest g d))"
    and prune: "R d (snd (RemoveGuestsNotIn i keep d))"
begin

lemma store_loop_related:
  "store_loop repo_upsert cancelled iid n gs a d = (fin, a', d') \<Longrightarrow> R d d'"
proof (induction gs arbitrary: n a d)
  case (Cons g gs)
  show ?case
  proof (cases "cancelled n \<or> g_status g \<noteq> StatusRunning")
    case False
    let ?d = "snd (UpsertGuest (g\<lparr>g_instance := iid\<rparr>) d)"
    have "R ?d d'" using Cons False by (auto simp: repo_upsert_def)
    then show ?thesis using comp upsert by blast
  qed (use Cons same in \<open>auto split: if_splits\<close>)
qed (simp add: same)

lemma StoreGuests_related: "R d (snd (StoreGuests repo_upsert repo_prune cancelled inst gs d))"
proof -
  obtain fin a d1 where l: "store_loop repo_upsert cancelled (in_id inst) 0 gs
      \<lparr>sa_live = [], sa_stored = 0, sa_err = None\<rparr> d = (fin, a, d1)"
    by (metis prod_cases3)
  show ?thesis
    using store_loop_related [OF l] comp [OF store_loop_related [OF l] prune]
    by (simp add: StoreGuests_def l repo_prune_def split_beta)
qed

lemma discover_row_related: "R d (snd (discover_row_of h poll i d))"
proof (cases "poll i")
  case (Inr guests)
  then show ?thesis
    using StoreGuests_related [of d "h_expires h i" i guests]
    by (simp add: discover_row_of_def Let_def split_beta split: option.split)
qed (simp add: discover_row_of_def Let_def same)

lemma discover_all_related: "R d (snd (discover_all h poll is d))"
proof (induction "is" arbitrary: d)
  case (Cons i "is")
  show ?case
    using comp [OF discover_row_related Cons] by (simp add: split_beta)
qed (simp add: same)

end

section \<open>Requests are runs of repository operations\<close>

abbreviation db_run :: "handler \<Rightarrow> db \<Rightarrow> db \<Rightarrow> bool" where
  "db_run h \<equiv> (db_step (h_fold h) (h_url_unique h))\<^sup>*\<^sup>*"

interpretation run: pass_relation "db_run h"
proof
  show "db_run h d (snd (UpsertGuest g d))" for g d
    by (rule r_into_rtranclp, rule db_step.upsert_guest) (simp add: prod_eq_iff)
  show "db_run h d (snd (RemoveGuestsNotIn i keep d))" for i keep d
    by (rule r_into_rtranclp, rule db_step.remove_guests) (simp add: prod_eq_iff)
qed auto

lemma recordAdmin_run: "db_run h d (recordAdmin h c ev ps d)"
  by (auto simp: recordAdmin_def record_event_def intro!: r_into_rtranclp db_step.add_activity prod.collapse [symmetric])

lemma then_record: "db_run h d d' \<Longrightarrow> db_run h d (recordAdmin h c ev ps d')"
  by (rule rtranclp_trans [OF _ recordAdmin_run])

lemma step_run: "db_step (h_fold h) (h_url_unique h) d d' \<Longrightarrow> db_run h d d'"
  by (rule r_into_rtranclp)

lemma fold_run:
  "(\<And>x d. db_step (h_fold h) (h_url_unique h) d (f x d)) \<Longrightarrow> db_run h d (fold f xs d)"
  by (induction xs arbitrary: d) (auto intro: converse_rtranclp_into_rtranclp)

lemma gated_run:
  "(\<And>d. db_run h d (snd (body d))) \<Longrightarrow> db_run h d (snd (status_of (gated h c body d)))"
  by (auto simp: gated_def status_of_def split: option.split)

lemma with_body_run:
  "(\<And>x d. db_run h d (snd (k x d))) \<Longrightarrow> db_run h d (snd (with_body b k d))"
  by (auto simp: with_body_def split: option.split)

lemmas step_intros = db_step.intros [THEN step_run]

lemma access_handler_run:
  "(\<And>s ts d. db_run h d (f s ts d)) \<Longrightarrow> (\<And>s ts d. db_run h d (g s ts d)) \<Longrightarrow>
   db_run h d (snd (status_of (access_handler h c ev ids f g b d)))"
  unfolding access_handler_def by (intro gated_run with_body_run) (auto intro: then_record)

lemma added_instance_run:
  assumes "AddProxmoxInstance (h_fold h) (h_url_unique h) i d = Inr (i', d')"
  shows "db_run h d (snd (discover_row_of h poll i' d'))"
  using db_step.add_instance [OF assms] run.discover_row_related by (rule converse_rtranclp_into_rtranclp)

lemmas grant_defs =
  GrantClientAccess_def GrantGroupAccess_def GrantClientInstanceAccess_def GrantGroupInstanceAccess_def
  RevokeClientInstanceAccess_def RevokeGroupInstanceAccess_def

lemma serve_run: "db_run h d (snd (serve_admin h c q d))"
proof (cases q)
  case (AddInstanceReq b)
  show ?thesis
    unfolding AddInstanceReq serve_admin.simps v1_AddInstance_def Let_def
    by (intro gated_run with_body_run)
       (auto intro: then_record added_instance_run step_intros split: option.split sum.split prod.split)
next
  case (RunDiscoveryReq i)
  show ?thesis
    unfolding RunDiscoveryReq serve_admin.simps v1_RunDiscovery_def Let_def
    by (intro gated_run) (auto simp: split_beta intro: then_record run.discover_all_related split: option.split)
next
  case (GrantAccessReq b)
  show ?thesis
    unfolding GrantAccessReq serve_admin.simps v1_GrantAccess_def grant_defs by (intro access_handler_run step_intros)
next
  case (RevokeAccessReq b)
  show ?thesis
    unfolding RevokeAccessReq serve_admin.simps v1_RevokeAccess_def
    by (intro access_handler_run fold_run db_step.intros)
next
  case (GrantInstanceAccessReq b)
  show ?thesis
    unfolding GrantInstanceAccessReq serve_admin.simps v1_GrantInstanceAccess_def grant_defs
    by (intro access_handler_run step_intros)
next
  case (RevokeInstanceAccessReq b)
  show ?thesis
    unfolding RevokeInstanceAccessReq serve_admin.simps v1_RevokeInstanceAccess_def grant_defs
    by (intro access_handler_run fold_run db_step.intros)
qed (simp_all only: serve_admin.simps v1_defs Let_def,
     (intro gated_run with_body_run;
      auto intro: then_record step_intros split: option.split sum.split prod.split)+)

section \<open>The events\<close>

datatype param_tag = TStr | TInt | TInts

fun tag_of :: "param_value \<Rightarrow> param_tag" where
  "tag_of (PStr s) = TStr"
| "tag_of (PInt i) = TInt"
| "tag_of (PInts is) = TInts"

definition signature_of :: "activity_event \<Rightarrow> (gostring \<times> param_tag) list" where
  "signature_of e = map (\<lambda>(k, v). (k, tag_of v)) (ev_params e)"

definition named_signature :: "(gostring \<times> param_tag) list" where
  "named_signature = [(''name'', TStr), (''id'', TInt)]"

definition change_signature :: "gostring \<Rightarrow> (gostring \<times> param_tag) list" where
  "change_signature ids = [(''subject_kind'', TStr), (''subject_id'', TInt), (ids, TInts)]"

text \<open>The administrator's events with the names and types of their parameters.\<close>

definition admin_events :: "(gostring \<times> (gostring \<times> param_tag) list) list" where
  "admin_events =
     [(''instance.added'', named_signature), (''instance.updated'', named_signature),
      (''instance.removed'', named_signature), (''client.added'', named_signature),
      (''client.updated'', named_signature), (''client.removed'', named_signature),
      (''group.added'', named_signature), (''group.updated'', named_signature),
      (''group.removed'', named_signature),
      (''access.granted'', change_signature ''guest_ids''), (''access.revoked'', change_signature ''guest_ids''),
      (''instance_access.granted'', change_signature ''instance_ids''),
      (''instance_access.revoked'', change_signature ''instance_ids''),
      (''policy.set'', [(''client_count'', TInt), (''group_count'', TInt)]),
      (''setting.changed'', [(''key'', TStr), (''value'', TStr)]),
      (''admin_key.added'', [(''key'', TStr)]), (''admin_key.removed'', [(''key'', TStr)]),
      (''discovery.ran'', [(''instance_count'', TInt), (''guests_found'', TInt)])]"

definition session_events :: "gostring list" where
  "session_events = [''session.console.opened'', ''session.command.run'', ''session.sftp.opened'']"

definition event_typed :: "activity_event \<Rightarrow> bool" where
  "event_typed e \<longleftrightarrow>
     map_of admin_events (ev_event e) = Some (signature_of e) \<or>
     ev_event e \<in> set session_events \<and>
     set (signature_of e) \<subseteq> {(''command'', TStr), (''host'', TStr), (''guest'', TStr)} \<and>
     distinct (map fst (ev_params e)) \<and>
     (''command'' \<in> fst ` set (ev_params e) \<longrightarrow> ev_event e = ''session.command.run'')"

text \<open>Which event a request records when it succeeds.\<close>

fun event_name :: "admin_request \<Rightarrow> gostring option" where
  "event_name (AddInstanceReq b) = Some ''instance.added''"
| "event_name (UpdateInstanceReq i b) = Some ''instance.updated''"
| "event_name (RemoveInstanceReq i) = Some ''instance.removed''"
| "event_name (AddClientReq b) = Some ''client.added''"
| "event_name (UpdateClientReq i b) = Some ''client.updated''"
| "event_name (RemoveClientReq i) = Some ''client.removed''"
| "event_name (AddGroupReq b) = Some ''group.added''"
| "event_name (UpdateGroupReq i b) = Some ''group.updated''"
| "event_name (RemoveGroupReq i) = Some ''group.removed''"
| "event_name (GrantAccessReq b) = Some ''access.granted''"
| "event_name (RevokeAccessReq b) = Some ''access.revoked''"
| "event_name (GrantInstanceAccessReq b) = Some ''instance_access.granted''"
| "event_name (RevokeInstanceAccessReq b) = Some ''instance_access.revoked''"
| "event_name (SetDefaultPolicyReq b) = Some ''policy.set''"
| "event_name (SetSettingReq k b) = Some ''setting.changed''"
| "event_name (AddAdminKeyReq b) = Some ''admin_key.added''"
| "event_name (RemoveAdminKeyReq b) = Some ''admin_key.removed''"
| "event_name (RunDiscoveryReq i) = Some ''discovery.ran''"
| "event_name _ = None"

fun succeeded :: "'a reply \<Rightarrow> bool" where
  "succeeded (OK200 x) = True"
| "succeeded (Created201 x) = True"
| "succeeded NoContent204 = True"
| "succeeded _ = False"

section \<open>One event per change\<close>

text \<open>What the log and the sessions are before the event is recorded.\<close>

definition quiet :: "db \<Rightarrow> db \<Rightarrow> bool" where
  "quiet d d' \<longleftrightarrow> d_sessions d' = d_sessions d \<and> d_activity d' = d_activity d \<and> d_seq_activity d' = d_seq_activity d"

lemma quiet_refl [simp]: "quiet d d" by (simp add: quiet_def)

lemma quiet_trans: "quiet d1 d2 \<Longrightarrow> quiet d2 d3 \<Longrightarrow> quiet d1 d3" by (simp add: quiet_def)

interpretation quiet: pass_relation quiet
proof
  show "quiet d (snd (RemoveGuestsNotIn i keep d))" for i keep d
    by (simp add: RemoveGuestsNotIn_eq quiet_def)
qed (auto simp: quiet_def UpsertGuest_def Let_def split: option.split)

lemma caller_quiet: "quiet d d' \<Longrightarrow> caller h c d' = caller h c d"
  by (auto simp: caller_def callerIdentity_def LookupAPISession_def quiet_def split: option.split)

definition admin_event :: "handler \<Rightarrow> api_call \<Rightarrow> db \<Rightarrow> gostring \<Rightarrow> (gostring \<times> param_value) list \<Rightarrow> activity_event" where
  "admin_event h c d ev ps =
     \<lparr>ev_id = d_seq_activity d, ev_event = ev, ev_actor = actorName h c d, ev_at = c_now c, ev_params = ps\<rparr>"

definition audits :: "handler \<Rightarrow> api_call \<Rightarrow> gostring option \<Rightarrow> db \<Rightarrow> 'a reply \<times> db \<Rightarrow> bool" where
  "audits h c name d r \<longleftrightarrow>
     (case name of
        Some ev \<Rightarrow>
          if succeeded (fst r) \<and> activityEnabled h
          then \<exists>ps. event_typed (admin_event h c d ev ps) \<and>
                 d_activity (snd r) = d_activity d @ [admin_event h c d ev ps]
          else d_activity (snd r) = d_activity d
      | None \<Rightarrow> d_activity (snd r) = d_activity d)"

lemma audits_same: "\<not> succeeded r \<or> name = None \<Longrightarrow> audits h c name d (r, d)"
  by (auto simp: audits_def split: option.split)

lemma audits_record:
  assumes "quiet d d'" "succeeded r" "event_typed (admin_event h c d ev ps)"
  shows "audits h c (Some ev) d (r, recordAdmin h c ev ps d')"
proof -
  have "actorName h c d' = actorName h c d" by (simp add: actorName_def caller_quiet [OF assms(1)])
  then show ?thesis
    using assms by (auto simp: audits_def recordAdmin_def record_event_def AddActivityEvent_def quiet_def admin_event_def Let_def)
qed

lemma succeeded_map [simp]: "succeeded (map_reply f r) = succeeded r"
  by (cases r) simp_all

lemma audits_gated:
  "audits h c name d (body d) \<Longrightarrow> audits h c name d (status_of (gated h c body d))"
  by (auto simp: gated_def gateAdmin_def status_of_def audits_def split: option.splits sum.splits auth_error.splits)

lemma audits_body:
  "(\<And>x. audits h c name d (k x d)) \<Longrightarrow> audits h c name d (with_body b k d)"
  by (auto simp: with_body_def audits_same split: option.split)

lemma not_conflict [simp]: "\<not> succeeded (conflict_or_500 h e)"
  by (simp add: conflict_or_500_def)

lemma admin_events_of [simp]:
  "map_of admin_events ''instance.added'' = Some named_signature"
  "map_of admin_events ''instance.updated'' = Some named_signature"
  "map_of admin_events ''instance.removed'' = Some named_signature"
  "map_of admin_events ''client.added'' = Some named_signature"
  "map_of admin_events ''client.updated'' = Some named_signature"
  "map_of admin_events ''client.removed'' = Some named_signature"
  "map_of admin_events ''group.added'' = Some named_signature"
  "map_of admin_events ''group.updated'' = Some named_signature"
  "map_of admin_events ''group.removed'' = Some named_signature"
  "map_of admin_events ''access.granted'' = Some (change_signature ''guest_ids'')"
  "map_of admin_events ''access.revoked'' = Some (change_signature ''guest_ids'')"
  "map_of admin_events ''instance_access.granted'' = Some (change_signature ''instance_ids'')"
  "map_of admin_events ''instance_access.revoked'' = Some (change_signature ''instance_ids'')"
  "map_of admin_events ''policy.set'' = Some [(''client_count'', TInt), (''group_count'', TInt)]"
  "map_of admin_events ''setting.changed'' = Some [(''key'', TStr), (''value'', TStr)]"
  "map_of admin_events ''admin_key.added'' = Some [(''key'', TStr)]"
  "map_of admin_events ''admin_key.removed'' = Some [(''key'', TStr)]"
  "map_of admin_events ''discovery.ran'' = Some [(''instance_count'', TInt), (''guests_found'', TInt)]"
  by (simp_all add: admin_events_def)

lemma typed_admin:
  "map_of admin_events ev = Some (map (\<lambda>(k, v). (k, tag_of v)) ps) \<Longrightarrow> event_typed (admin_event h c d ev ps)"
  by (simp add: event_typed_def admin_event_def signature_of_def)

lemma named_event_tags [simp]: "map (\<lambda>(k, v). (k, tag_of v)) (named_event n i) = named_signature"
  by (simp add: named_event_def named_signature_def)

lemma change_event_tags [simp]: "map (\<lambda>(k, v). (k, tag_of v)) (change_event ids ch) = change_signature ids"
  by (simp add: change_event_def change_signature_def)

named_theorems quiet_intros \<open>operations that leave the log and the sessions alone\<close>

lemma quiet_instances [quiet_intros]:
  "AddProxmoxInstance U uq i d = Inr (i', d') \<Longrightarrow> quiet d d'"
  "UpdateProxmoxInstance U uq i d = Inr d' \<Longrightarrow> quiet d d'"
  "quiet d (RemoveProxmoxInstance iid d)"
  by (auto simp: AddProxmoxInstance_def UpdateProxmoxInstance_def RemoveProxmoxInstance_eq Let_def quiet_def
      split: if_splits)

lemma quiet_clients [quiet_intros]:
  "AddClient U cl d = Inr (cl', d') \<Longrightarrow> quiet d d'"
  "UpdateClient U cl d = Inr d' \<Longrightarrow> quiet d d'"
  "quiet d (RemoveClient cid d)"
  by (auto simp: AddClient_def UpdateClient_def RemoveClient_def Let_def quiet_def split: if_splits)

lemma quiet_groups [quiet_intros]:
  "AddGroup U g d = Inr (g', d') \<Longrightarrow> quiet d d'"
  "UpdateGroup U g d = Inr d' \<Longrightarrow> quiet d d'"
  "quiet d (RemoveGroup gid d)"
  by (auto simp: AddGroup_def UpdateGroup_def RemoveGroup_def Let_def quiet_def split: if_splits)

lemma quiet_fold: "(\<And>x d. quiet d (f x d)) \<Longrightarrow> quiet d (fold f xs d)"
  by (induction xs arbitrary: d) (auto intro: quiet_trans)

lemma quiet_access [quiet_intros]:
  "quiet d (GrantClientAccess s ts d)" "quiet d (GrantGroupAccess s ts d)"
  "quiet d (GrantClientInstanceAccess s ts d)" "quiet d (GrantGroupInstanceAccess s ts d)"
  "quiet d (RevokeClientAccess s t d)" "quiet d (RevokeGroupAccess s t d)"
  "quiet d (RevokeClientInstanceAccess s t d)" "quiet d (RevokeGroupInstanceAccess s t d)"
  by (auto simp: grant_defs grantAccess_def grantInstanceAccess_def RevokeClientAccess_def RevokeGroupAccess_def
      revokeInstanceAccess_def quiet_def split: prod.split)

lemma quiet_misc [quiet_intros]:
  "quiet d (SetDefaultPolicy p d)" "quiet d (SetSetting k v d)" "quiet d (AddAdminKey k d)" "quiet d (RemoveAdminKey k d)"
  by (simp_all add: SetDefaultPolicy_def SetSetting_def AddAdminKey_def RemoveAdminKey_def quiet_def)

lemma access_handler_audits:
  assumes "\<And>s ts d. quiet d (f s ts d)" "\<And>s ts d. quiet d (g s ts d)"
    and "map_of admin_events ev = Some (change_signature ids)"
  shows "audits h c (Some ev) d (status_of (access_handler h c ev ids f g b d))"
  unfolding access_handler_def
  by (intro audits_gated audits_body) (auto intro!: audits_record assms typed_admin simp: assms(3) audits_same)

lemma serve_audited: "audits h c (event_name q) d (serve_admin h c q d)"
proof (cases q)
  case (AddInstanceReq b)
  show ?thesis
    unfolding AddInstanceReq serve_admin.simps v1_AddInstance_def event_name.simps Let_def
    by (intro audits_gated audits_body)
       (auto simp: audits_same intro!: audits_record typed_admin
          intro: quiet_intros quiet_trans [OF quiet_instances(1) quiet.discover_row_related]
          split: option.split sum.split prod.split)
next
  case (RunDiscoveryReq i)
  show ?thesis
    unfolding RunDiscoveryReq serve_admin.simps v1_RunDiscovery_def event_name.simps Let_def
    by (intro audits_gated)
       (auto simp: audits_same split_beta intro!: audits_record typed_admin quiet.discover_all_related
          split: option.split)
next
  case (GrantAccessReq b)
  show ?thesis
    unfolding GrantAccessReq serve_admin.simps v1_GrantAccess_def event_name.simps
    by (intro access_handler_audits quiet_intros) simp
next
  case (RevokeAccessReq b)
  show ?thesis
    unfolding RevokeAccessReq serve_admin.simps v1_RevokeAccess_def event_name.simps
    by (intro access_handler_audits quiet_fold quiet_intros) simp
next
  case (GrantInstanceAccessReq b)
  show ?thesis
    unfolding GrantInstanceAccessReq serve_admin.simps v1_GrantInstanceAccess_def event_name.simps
    by (intro access_handler_audits quiet_intros) simp
next
  case (RevokeInstanceAccessReq b)
  show ?thesis
    unfolding RevokeInstanceAccessReq serve_admin.simps v1_RevokeInstanceAccess_def event_name.simps
    by (intro access_handler_audits quiet_fold quiet_intros) simp
qed (simp_all only: serve_admin.simps v1_defs event_name.simps Let_def,
     (intro audits_gated audits_body;
      auto simp: audits_same intro!: audits_record typed_admin intro: quiet_intros
        split: option.split sum.split prod.split)+)

section \<open>What a request leaves alone\<close>

lemma gated_fails:
  "(succeeded (fst (body d)) \<or> snd (body d) = d) \<Longrightarrow>
   succeeded (fst (status_of (gated h c body d))) \<or> snd (status_of (gated h c body d)) = d"
  by (auto simp: gated_def status_of_def split: option.split)

lemma with_body_fails:
  "(\<And>x. succeeded (fst (k x d)) \<or> snd (k x d) = d) \<Longrightarrow>
   succeeded (fst (with_body b k d)) \<or> snd (with_body b k d) = d"
  by (auto simp: with_body_def split: option.split)

lemma failed_same: "succeeded (fst (serve_admin h c q d)) \<or> snd (serve_admin h c q d) = d"
  by (cases q;
      simp only: serve_admin.simps v1_defs Let_def;
      intro gated_fails with_body_fails;
      auto simp: split_beta split: option.split sum.split)

lemma gated_reads: "(\<And>d. snd (body d) = d) \<Longrightarrow> snd (status_of (gated h c body d)) = d"
  by (simp add: gated_def status_of_def split: option.split)

lemma read_same: "event_name q = None \<Longrightarrow> snd (serve_admin h c q d) = d"
  by (cases q;
      simp only: serve_admin.simps v1_defs Let_def event_name.simps option.distinct;
      intro gated_reads; auto simp: with_body_def split_beta split: option.split sum.split)

lemma succeeded_is_admin: "succeeded (fst (serve_admin h c q d)) \<Longrightarrow> is_admin h c d"
proof (rule ccontr)
  assume s: "succeeded (fst (serve_admin h c q d))" and "\<not> is_admin h c d"
  have "serve_admin h c q d = (refusal h c d, d)"
    by (cases q) (simp_all add: v1_defs gated_other [OF \<open>\<not> is_admin h c d\<close>])
  with s show False by (auto simp: refusal_def split: sum.splits)
qed


section \<open>The log is typed\<close>

text \<open>What the server is asked: an administrator's request, or a session's report.\<close>

datatype server_request = Admin admin_request | Report "session_report option"

fun server_step :: "handler \<Rightarrow> api_call \<times> server_request \<Rightarrow> db \<Rightarrow> db" where
  "server_step h (c, Admin q) d = snd (serve_admin h c q d)"
| "server_step h (c, Report b) d = snd (ReportSessionActivity h c b d)"

definition log_typed :: "db \<Rightarrow> bool" where
  "log_typed d \<longleftrightarrow> (\<forall>e\<in>set (d_activity d). event_typed e)"

lemma session_event_cases:
  "sessionEventID kind = Some ev \<Longrightarrow>
   ev \<in> set session_events \<and> (kind = ''command'' \<longrightarrow> ev = ''session.command.run'')"
  by (auto simp: session_events_def split: if_splits)

definition optional_param :: "gostring \<Rightarrow> gostring option \<Rightarrow> (gostring \<times> param_value) list" where
  "optional_param k v = (case v of None \<Rightarrow> [] | Some s \<Rightarrow> [(k, PStr s)])"

lemma report_params_eq:
  "report_params r =
     optional_param ''command'' (if ar_kind r = ''command'' then map_option boundedCommand (ar_command r) else None) @
     optional_param ''host'' (case ar_host r of Some v \<Rightarrow> if v \<noteq> [] then Some v else None | None \<Rightarrow> None) @
     optional_param ''guest'' (case ar_guest r of Some v \<Rightarrow> if v \<noteq> [] then Some v else None | None \<Rightarrow> None)"
  by (simp add: report_params_def optional_param_def split: option.split)

lemma three_params_typed:
  assumes "ev \<in> set session_events" "v \<noteq> None \<longrightarrow> ev = ''session.command.run''"
  shows "event_typed \<lparr>ev_id = i, ev_event = ev, ev_actor = a, ev_at = t, ev_params =
     optional_param ''command'' v @ optional_param ''host'' x @ optional_param ''guest'' y\<rparr>"
  using assms
  by (cases v; cases x; cases y) (simp_all add: event_typed_def signature_of_def optional_param_def)

lemma report_typed:
  "sessionEventID (ar_kind r) = Some ev \<Longrightarrow>
   event_typed \<lparr>ev_id = i, ev_event = ev, ev_actor = a, ev_at = t, ev_params = report_params r\<rparr>"
  unfolding report_params_eq using session_event_cases [of "ar_kind r" ev]
  by (intro three_params_typed) (auto split: if_splits)

lemma log_typed_step: "log_typed d \<Longrightarrow> log_typed (server_step h x d)"
proof (cases x)
  case (Pair c q)
  assume typed: "log_typed d"
  show ?thesis
  proof (cases q)
    case (Admin a)
    then show ?thesis
      using typed serve_audited [of h c a d] Pair
      by (auto simp: audits_def log_typed_def split: option.splits if_splits)
  next
    case (Report b)
    then show ?thesis
      using typed Pair report_typed
      by (auto simp: ReportSessionActivity_def record_event_def AddActivityEvent_def log_typed_def Let_def
          simp del: sessionEventID.simps split: sum.split option.split)
  qed
qed

text \<open>C33: The activity log is typed: from an empty log, whoever calls whatever administrator's
  route or reports whatever activity, every entry's event is one the API names, with the
  parameters of that event and their types; a command is recorded for a command event only.\<close>

theorem activity_log_typed:
  assumes "d_activity d = []"
  shows "\<forall>e\<in>set (d_activity (fold (server_step h) calls d)). event_typed e"
proof -
  have "log_typed d" using assms by (simp add: log_typed_def)
  then have "log_typed (fold (server_step h) calls d)"
    by (induction calls arbitrary: d) (simp_all add: log_typed_step)
  then show ?thesis by (simp add: log_typed_def)
qed

section \<open>Witnesses\<close>


theorem activity_log_typed_witness:
  "\<exists>e. e \<in> set (d_activity (fold (server_step demo_handler) [(rest_call, Admin (AddClientReq (Some alice_client)))] empty_db)) \<and>
     event_typed e"
proof -
  let ?cs = "[(rest_call, Admin (AddClientReq (Some alice_client)))]"
  have "d_activity (fold (server_step demo_handler) ?cs empty_db) \<noteq> []"
    by (simp add: gated_admin [OF rest_is_admin] status_of_def v1_AddClient_def with_body_def AddClient_def empty_db_def Let_def
        recordAdmin_def record_event_def AddActivityEvent_def activityEnabled_def demo_logs)
  then obtain e where "e \<in> set (d_activity (fold (server_step demo_handler) ?cs empty_db))"
    by (meson list.set_sel(1))
  moreover have "d_activity empty_db = []" by (simp add: empty_db_def)
  ultimately show ?thesis using activity_log_typed [of empty_db demo_handler ?cs] by blast
qed

end
