(* ===== verification/AdminRepo.thy ===== *)
theory AdminRepo
  imports AdminAudit
begin

text \<open>
  \<open>internal/session/adminrepo.go\<close> and its mappers: the repository the administrator's CLI uses
  inside a session, every method of which is a request to the administrator's routes. The HTTP
  exchange carries requests and responses unchanged; a status that is not the expected one becomes
  the error the CLI prints. Then what such a repository promises: over an administrator's
  credential it answers and changes the tables as the database's own repository does.
\<close>

section \<open>Errors\<close>

datatype admin_error =
    ErrUnauthorized
  | ErrNotAdmin
  | Said gostring
  | UnexpectedStatus nat
  | Unsupported gostring

text \<open>
  \<open>Unsupported\<close> is the panic of a method that has no route.
  A 500 carries the error as plain text, not as the JSON object the client looks for, so it is
  reported by its number.
\<close>

definition said :: "nat \<Rightarrow> gostring \<Rightarrow> admin_error" where
  "said status msg = (if msg \<noteq> '''' then Said msg else UnexpectedStatus status)"

fun apiError :: "'a reply \<Rightarrow> admin_error" where
  "apiError (OK200 x) = UnexpectedStatus 200"
| "apiError (Created201 x) = UnexpectedStatus 201"
| "apiError NoContent204 = UnexpectedStatus 204"
| "apiError (Unauthorized401 msg) = ErrUnauthorized"
| "apiError (Forbidden403 msg) = ErrNotAdmin"
| "apiError (NotFound404 msg) = said 404 msg"
| "apiError (Conflict409 msg) = said 409 msg"
| "apiError (BadRequest400 msg) = said 400 msg"
| "apiError (Error500 msg) = UnexpectedStatus 500"
| "apiError (BadGateway502 msg) = said 502 msg"

text \<open>The three expectations: 201 with a body, 200 with a body, any 2xx.\<close>

definition created :: "('a \<Rightarrow> 'b) \<Rightarrow> 'a reply \<Rightarrow> admin_error + 'b" where
  "created f r = (case r of Created201 x \<Rightarrow> Inr (f x) | _ \<Rightarrow> Inl (apiError r))"

definition okay :: "('a \<Rightarrow> 'b) \<Rightarrow> 'a reply \<Rightarrow> admin_error + 'b" where
  "okay f r = (case r of OK200 x \<Rightarrow> Inr (f x) | _ \<Rightarrow> Inl (apiError r))"

definition any2xx :: "'a reply \<Rightarrow> admin_error + unit" where
  "any2xx r = (if succeeded r then Inr () else Inl (apiError r))"

section \<open>The session's mappers\<close>

definition sess_toAPIInstance :: "instance_row \<Rightarrow> instance_row" where
  "sess_toAPIInstance i =
     \<lparr>in_id = in_id i, in_name = in_name i, in_api_url = in_api_url i, in_token_id = in_token_id i,
      in_token_secret = in_token_secret i, in_transport = in_transport i, in_node = in_node i,
      in_insecure_tls = in_insecure_tls i, in_insecure_ssh = in_insecure_ssh i,
      in_ssh_host = in_ssh_host i, in_ssh_port = in_ssh_port i, in_ssh_user = in_ssh_user i,
      in_fps = in_fps i\<rparr>"

definition sess_fromAPIInstance :: "instance_row \<Rightarrow> instance_row" where
  "sess_fromAPIInstance i =
     \<lparr>in_id = in_id i, in_name = in_name i, in_api_url = in_api_url i, in_token_id = in_token_id i,
      in_token_secret = in_token_secret i, in_transport = in_transport i, in_node = in_node i,
      in_insecure_tls = in_insecure_tls i, in_insecure_ssh = in_insecure_ssh i,
      in_ssh_host = in_ssh_host i, in_ssh_port = in_ssh_port i, in_ssh_user = in_ssh_user i,
      in_fps = in_fps i\<rparr>"

definition sess_toAPIClient :: "client_row \<Rightarrow> client_row" where
  "sess_toAPIClient c = \<lparr>c_id = c_id c, c_name = c_name c, c_keys = c_keys c, c_groups = c_groups c\<rparr>"

definition sess_fromAPIClient :: "client_row \<Rightarrow> client_row" where
  "sess_fromAPIClient c = \<lparr>c_id = c_id c, c_name = c_name c, c_keys = c_keys c, c_groups = c_groups c\<rparr>"

definition sess_toAPIGroup :: "group_row \<Rightarrow> group_row" where
  "sess_toAPIGroup g = \<lparr>gr_id = gr_id g, gr_name = gr_name g, gr_clients = gr_clients g\<rparr>"

definition sess_fromAPIGroup :: "group_row \<Rightarrow> group_row" where
  "sess_fromAPIGroup g = \<lparr>gr_id = gr_id g, gr_name = gr_name g, gr_clients = gr_clients g\<rparr>"

definition sess_fromAPIGuestRow :: "guest_row \<Rightarrow> guest_row" where
  "sess_fromAPIGuestRow g =
     \<lparr>g_id = g_id g, g_type = g_type g, g_name = g_name g, g_status = g_status g, g_vmid = g_vmid g,
      g_instance = g_instance g\<rparr>"

definition sess_fromAPIAccessRuleRow :: "rule_row \<Rightarrow> rule_row" where
  "sess_fromAPIAccessRuleRow r = \<lparr>r_id = r_id r, r_type = r_type r, r_subject = r_subject r, r_target = r_target r\<rparr>"

text \<open>The two policy mappers of the session leave the node flag out.\<close>

definition sess_toAPIDefaultPolicy :: "default_policy \<Rightarrow> api_policy" where
  "sess_toAPIDefaultPolicy p =
     \<lparr>ap_clients = dp_clients p, ap_groups = dp_groups p, ap_node_access = None\<rparr>"

definition sess_fromAPIDefaultPolicy :: "api_policy \<Rightarrow> default_policy" where
  "sess_fromAPIDefaultPolicy p =
     \<lparr>dp_clients = ap_clients p, dp_groups = ap_groups p, dp_node_access = False\<rparr>"

lemma mappers_id [simp]:
  "toAPIInstance i = i" "fromAPIInstance i = i" "sess_toAPIInstance i = i" "sess_fromAPIInstance i = i"
  "toAPIClient cl = cl" "fromAPIClient cl = cl" "sess_toAPIClient cl = cl" "sess_fromAPIClient cl = cl"
  "toAPIGroup g = g" "fromAPIGroup g = g" "sess_toAPIGroup g = g" "sess_fromAPIGroup g = g"
  "toAPIGuestRow x = x" "sess_fromAPIGuestRow x = x"
  "toAPIAccessRuleRow r = r" "sess_fromAPIAccessRuleRow r = r"
  by (simp_all add: toAPIInstance_def fromAPIInstance_def sess_toAPIInstance_def sess_fromAPIInstance_def
      toAPIClient_def fromAPIClient_def sess_toAPIClient_def sess_fromAPIClient_def
      toAPIGroup_def fromAPIGroup_def sess_toAPIGroup_def sess_fromAPIGroup_def
      toAPIGuestRow_def sess_fromAPIGuestRow_def toAPIAccessRuleRow_def sess_fromAPIAccessRuleRow_def)

lemma mappers_map [simp]:
  "map toAPIInstance is = is" "map sess_fromAPIInstance is = is" "map toAPIClient cs = cs"
  "map sess_fromAPIClient cs = cs" "map toAPIGroup gs = gs" "map sess_fromAPIGroup gs = gs"
  "map toAPIGuestRow xs = xs" "map sess_fromAPIGuestRow xs = xs" "map toAPIAccessRuleRow rs = rs"
  "map sess_fromAPIAccessRuleRow rs = rs"
  by (simp_all add: map_idI)

section \<open>The repository over the API\<close>

text \<open>The operations the CLI performs on its repository, and their answers.\<close>

datatype repo_op =
    AddProxmoxInstanceOp instance_row | ListProxmoxInstancesOp | UpdateProxmoxInstanceOp instance_row
  | RemoveProxmoxInstanceOp int
  | AddClientOp client_row | ListClientsOp | RemoveClientOp int | GetClientByNameOp gostring
  | AddGroupOp group_row | ListGroupsOp | RemoveGroupOp int
  | ListGuestsOp
  | ListAccessRulesOp "json option option" | GrantOp rule_type int "int list" | RevokeOp rule_type int int
  | ListInstanceAccessRulesOp "json option option" | GrantInstanceOp rule_type int "int list"
  | RevokeInstanceOp rule_type int int
  | SetDefaultPolicyOp default_policy | GetDefaultPolicyOp
  | SetSettingOp gostring gostring | GetSettingOp gostring
  | AddAdminKeyOp gostring | ListAdminKeysOp | RemoveAdminKeyOp gostring
  | UpsertGuestOp guest_row | RemoveGuestsNotInOp int "int list"

datatype answer =
    Done | AnInstance instance_row | Instances "instance_row list" | AClient client_row | Clients "client_row list"
  | AGroup group_row | Groups "group_row list" | Guests "guest_row list" | Rules "rule_row list"
  | APolicy default_policy | AText gostring | Texts "gostring list" | ACount nat

definition first_client :: "client_row list \<Rightarrow> admin_error + answer" where
  "first_client list =
     (case list of [] \<Rightarrow> Inl (Said ''no such client'') | c # _ \<Rightarrow> Inr (AClient (sess_fromAPIClient c)))"

definition join_sum :: "'e + ('e + 'a) \<Rightarrow> 'e + 'a" where
  "join_sum r = (case r of Inl e \<Rightarrow> Inl e | Inr x \<Rightarrow> x)"

definition over :: "('a reply \<Rightarrow> admin_error + answer) \<Rightarrow> 'a reply \<times> db \<Rightarrow> (admin_error + answer) \<times> db" where
  "over f r = (f (fst r), snd r)"

definition done2xx :: "unit reply \<Rightarrow> admin_error + answer" where
  "done2xx r = map_sum id (\<lambda>_. Done) (any2xx r)"

definition remote_AddProxmoxInstance :: "handler \<Rightarrow> api_call \<Rightarrow> instance_row \<Rightarrow> db \<Rightarrow> (admin_error + answer) \<times> db" where
  "remote_AddProxmoxInstance h c i d =
     over (created (AnInstance \<circ> sess_fromAPIInstance)) (v1_AddInstance h c (Some (sess_toAPIInstance i)) d)"

definition remote_ListProxmoxInstances :: "handler \<Rightarrow> api_call \<Rightarrow> db \<Rightarrow> (admin_error + answer) \<times> db" where
  "remote_ListProxmoxInstances h c d =
     over (okay (Instances \<circ> map sess_fromAPIInstance)) (v1_ListInstances h c None d)"

definition remote_UpdateProxmoxInstance :: "handler \<Rightarrow> api_call \<Rightarrow> instance_row \<Rightarrow> db \<Rightarrow> (admin_error + answer) \<times> db" where
  "remote_UpdateProxmoxInstance h c i d =
     over (okay (AnInstance \<circ> sess_fromAPIInstance)) (v1_UpdateInstance h c (in_id i) (Some (sess_toAPIInstance i)) d)"

definition remote_RemoveProxmoxInstance :: "handler \<Rightarrow> api_call \<Rightarrow> int \<Rightarrow> db \<Rightarrow> (admin_error + answer) \<times> db" where
  "remote_RemoveProxmoxInstance h c i d =
     over done2xx (v1_RemoveInstance h c i d)"

definition remote_AddClient :: "handler \<Rightarrow> api_call \<Rightarrow> client_row \<Rightarrow> db \<Rightarrow> (admin_error + answer) \<times> db" where
  "remote_AddClient h c cl d =
     over (created (AClient \<circ> sess_fromAPIClient)) (v1_AddClient h c (Some (sess_toAPIClient cl)) d)"

definition remote_ListClients :: "handler \<Rightarrow> api_call \<Rightarrow> db \<Rightarrow> (admin_error + answer) \<times> db" where
  "remote_ListClients h c d =
     over (okay (Clients \<circ> map sess_fromAPIClient)) (v1_ListClients h c None None d)"

definition remote_RemoveClient :: "handler \<Rightarrow> api_call \<Rightarrow> int \<Rightarrow> db \<Rightarrow> (admin_error + answer) \<times> db" where
  "remote_RemoveClient h c i d =
     over done2xx (v1_RemoveClient h c i d)"

definition remote_GetClientByName :: "handler \<Rightarrow> api_call \<Rightarrow> gostring \<Rightarrow> db \<Rightarrow> (admin_error + answer) \<times> db" where
  "remote_GetClientByName h c n d =
     over (join_sum \<circ> okay first_client) (v1_ListClients h c (Some n) None d)"

definition remote_AddGroup :: "handler \<Rightarrow> api_call \<Rightarrow> group_row \<Rightarrow> db \<Rightarrow> (admin_error + answer) \<times> db" where
  "remote_AddGroup h c g d =
     over (created (AGroup \<circ> sess_fromAPIGroup)) (v1_AddGroup h c (Some (sess_toAPIGroup g)) d)"

definition remote_ListGroups :: "handler \<Rightarrow> api_call \<Rightarrow> db \<Rightarrow> (admin_error + answer) \<times> db" where
  "remote_ListGroups h c d =
     over (okay (Groups \<circ> map sess_fromAPIGroup)) (v1_ListGroups h c None d)"

definition remote_RemoveGroup :: "handler \<Rightarrow> api_call \<Rightarrow> int \<Rightarrow> db \<Rightarrow> (admin_error + answer) \<times> db" where
  "remote_RemoveGroup h c i d =
     over done2xx (v1_RemoveGroup h c i d)"

definition remote_ListGuests :: "handler \<Rightarrow> api_call \<Rightarrow> db \<Rightarrow> (admin_error + answer) \<times> db" where
  "remote_ListGuests h c d =
     over (okay (Guests \<circ> map sess_fromAPIGuestRow)) (v1_ListGuests h c None d)"

definition remote_ListAccessRules :: "handler \<Rightarrow> api_call \<Rightarrow> (json option option) \<Rightarrow> db \<Rightarrow> (admin_error + answer) \<times> db" where
  "remote_ListAccessRules h c raw d =
     over (okay (Rules \<circ> map sess_fromAPIAccessRuleRow)) (v1_ListAccessRules h c raw d)"

definition remote_Grant :: "handler \<Rightarrow> api_call \<Rightarrow> rule_type \<Rightarrow> int \<Rightarrow> (int list) \<Rightarrow> db \<Rightarrow> (admin_error + answer) \<times> db" where
  "remote_Grant h c ty s ts d =
     over done2xx (v1_GrantAccess h c (Some \<lparr>ac_kind = rule_type_name ty, ac_subject = s, ac_targets = ts\<rparr>) d)"

definition remote_Revoke :: "handler \<Rightarrow> api_call \<Rightarrow> rule_type \<Rightarrow> int \<Rightarrow> int \<Rightarrow> db \<Rightarrow> (admin_error + answer) \<times> db" where
  "remote_Revoke h c ty s t d =
     over done2xx (v1_RevokeAccess h c (Some \<lparr>ac_kind = rule_type_name ty, ac_subject = s, ac_targets = [t]\<rparr>) d)"

definition remote_ListInstanceAccessRules :: "handler \<Rightarrow> api_call \<Rightarrow> (json option option) \<Rightarrow> db \<Rightarrow> (admin_error + answer) \<times> db" where
  "remote_ListInstanceAccessRules h c raw d =
     over (okay (Rules \<circ> map sess_fromAPIAccessRuleRow)) (v1_ListInstanceAccessRules h c raw d)"

definition remote_GrantInstance :: "handler \<Rightarrow> api_call \<Rightarrow> rule_type \<Rightarrow> int \<Rightarrow> (int list) \<Rightarrow> db \<Rightarrow> (admin_error + answer) \<times> db" where
  "remote_GrantInstance h c ty s ts d =
     over done2xx (v1_GrantInstanceAccess h c (Some \<lparr>ac_kind = rule_type_name ty, ac_subject = s, ac_targets = ts\<rparr>) d)"

definition remote_RevokeInstance :: "handler \<Rightarrow> api_call \<Rightarrow> rule_type \<Rightarrow> int \<Rightarrow> int \<Rightarrow> db \<Rightarrow> (admin_error + answer) \<times> db" where
  "remote_RevokeInstance h c ty s t d =
     over done2xx (v1_RevokeInstanceAccess h c (Some \<lparr>ac_kind = rule_type_name ty, ac_subject = s, ac_targets = [t]\<rparr>) d)"

definition remote_SetDefaultPolicy :: "handler \<Rightarrow> api_call \<Rightarrow> default_policy \<Rightarrow> db \<Rightarrow> (admin_error + answer) \<times> db" where
  "remote_SetDefaultPolicy h c p d =
     over (okay (\<lambda>_. Done)) (v1_SetDefaultPolicy h c (Some (sess_toAPIDefaultPolicy p)) d)"

definition remote_GetDefaultPolicy :: "handler \<Rightarrow> api_call \<Rightarrow> db \<Rightarrow> (admin_error + answer) \<times> db" where
  "remote_GetDefaultPolicy h c d =
     over (okay (APolicy \<circ> sess_fromAPIDefaultPolicy)) (v1_GetDefaultPolicy h c d)"

definition remote_SetSetting :: "handler \<Rightarrow> api_call \<Rightarrow> gostring \<Rightarrow> gostring \<Rightarrow> db \<Rightarrow> (admin_error + answer) \<times> db" where
  "remote_SetSetting h c k v d =
     over (okay (\<lambda>_. Done)) (v1_SetSetting h c k (Some v) d)"

definition remote_GetSetting :: "handler \<Rightarrow> api_call \<Rightarrow> gostring \<Rightarrow> db \<Rightarrow> (admin_error + answer) \<times> db" where
  "remote_GetSetting h c k d =
     over (okay (AText \<circ> snd)) (v1_GetSetting h c k d)"

definition remote_AddAdminKey :: "handler \<Rightarrow> api_call \<Rightarrow> gostring \<Rightarrow> db \<Rightarrow> (admin_error + answer) \<times> db" where
  "remote_AddAdminKey h c k d =
     over done2xx (v1_AddAdminKey h c (Some k) d)"

definition remote_ListAdminKeys :: "handler \<Rightarrow> api_call \<Rightarrow> db \<Rightarrow> (admin_error + answer) \<times> db" where
  "remote_ListAdminKeys h c d =
     over (okay Texts) (v1_ListAdminKeys h c d)"

definition remote_RemoveAdminKey :: "handler \<Rightarrow> api_call \<Rightarrow> gostring \<Rightarrow> db \<Rightarrow> (admin_error + answer) \<times> db" where
  "remote_RemoveAdminKey h c k d =
     over done2xx (v1_RemoveAdminKey h c (Some k) d)"

definition unsupported :: "gostring \<Rightarrow> db \<Rightarrow> (admin_error + answer) \<times> db" where
  "unsupported m d = (Inl (Unsupported m), d)"

fun remote :: "handler \<Rightarrow> api_call \<Rightarrow> repo_op \<Rightarrow> db \<Rightarrow> (admin_error + answer) \<times> db" where
  "remote h c (AddProxmoxInstanceOp i) d = remote_AddProxmoxInstance h c i d"
| "remote h c ListProxmoxInstancesOp d = remote_ListProxmoxInstances h c d"
| "remote h c (UpdateProxmoxInstanceOp i) d = remote_UpdateProxmoxInstance h c i d"
| "remote h c (RemoveProxmoxInstanceOp i) d = remote_RemoveProxmoxInstance h c i d"
| "remote h c (AddClientOp cl) d = remote_AddClient h c cl d"
| "remote h c ListClientsOp d = remote_ListClients h c d"
| "remote h c (RemoveClientOp i) d = remote_RemoveClient h c i d"
| "remote h c (GetClientByNameOp n) d = remote_GetClientByName h c n d"
| "remote h c (AddGroupOp g) d = remote_AddGroup h c g d"
| "remote h c ListGroupsOp d = remote_ListGroups h c d"
| "remote h c (RemoveGroupOp i) d = remote_RemoveGroup h c i d"
| "remote h c ListGuestsOp d = remote_ListGuests h c d"
| "remote h c (ListAccessRulesOp raw) d = remote_ListAccessRules h c raw d"
| "remote h c (GrantOp ty s ts) d = remote_Grant h c ty s ts d"
| "remote h c (RevokeOp ty s t) d = remote_Revoke h c ty s t d"
| "remote h c (ListInstanceAccessRulesOp raw) d = remote_ListInstanceAccessRules h c raw d"
| "remote h c (GrantInstanceOp ty s ts) d = remote_GrantInstance h c ty s ts d"
| "remote h c (RevokeInstanceOp ty s t) d = remote_RevokeInstance h c ty s t d"
| "remote h c (SetDefaultPolicyOp p) d = remote_SetDefaultPolicy h c p d"
| "remote h c GetDefaultPolicyOp d = remote_GetDefaultPolicy h c d"
| "remote h c (SetSettingOp k v) d = remote_SetSetting h c k v d"
| "remote h c (GetSettingOp k) d = remote_GetSetting h c k d"
| "remote h c (AddAdminKeyOp k) d = remote_AddAdminKey h c k d"
| "remote h c ListAdminKeysOp d = remote_ListAdminKeys h c d"
| "remote h c (RemoveAdminKeyOp k) d = remote_RemoveAdminKey h c k d"
| "remote h c (UpsertGuestOp g) d = unsupported ''UpsertGuest'' d"
| "remote h c (RemoveGuestsNotInOp i keep) d = unsupported ''RemoveGuestsNotIn'' d"

lemmas remote_ops =
  remote_AddProxmoxInstance_def remote_ListProxmoxInstances_def remote_UpdateProxmoxInstance_def
  remote_RemoveProxmoxInstance_def remote_AddClient_def remote_ListClients_def
  remote_RemoveClient_def remote_GetClientByName_def remote_AddGroup_def remote_ListGroups_def
  remote_RemoveGroup_def remote_ListGuests_def remote_ListAccessRules_def remote_Grant_def
  remote_Revoke_def remote_ListInstanceAccessRules_def remote_GrantInstance_def
  remote_RevokeInstance_def remote_SetDefaultPolicy_def remote_GetDefaultPolicy_def
  remote_SetSetting_def remote_GetSetting_def remote_AddAdminKey_def remote_ListAdminKeys_def
  remote_RemoveAdminKey_def

section \<open>The database's own repository\<close>

definition grant_rule :: "rule_type \<Rightarrow> int \<Rightarrow> int list \<Rightarrow> db \<Rightarrow> db" where
  "grant_rule ty = (case ty of RuleClient \<Rightarrow> GrantClientAccess | RuleGroup \<Rightarrow> GrantGroupAccess)"

definition revoke_rule :: "rule_type \<Rightarrow> int \<Rightarrow> int \<Rightarrow> db \<Rightarrow> db" where
  "revoke_rule ty = (case ty of RuleClient \<Rightarrow> RevokeClientAccess | RuleGroup \<Rightarrow> RevokeGroupAccess)"

definition grant_instance_rule :: "rule_type \<Rightarrow> int \<Rightarrow> int list \<Rightarrow> db \<Rightarrow> db" where
  "grant_instance_rule ty = (case ty of RuleClient \<Rightarrow> GrantClientInstanceAccess | RuleGroup \<Rightarrow> GrantGroupInstanceAccess)"

definition revoke_instance_rule :: "rule_type \<Rightarrow> int \<Rightarrow> int \<Rightarrow> db \<Rightarrow> db" where
  "revoke_instance_rule ty = (case ty of RuleClient \<Rightarrow> RevokeClientInstanceAccess | RuleGroup \<Rightarrow> RevokeGroupInstanceAccess)"

definition answered :: "(db_error + 'a \<times> db) \<Rightarrow> ('a \<Rightarrow> answer) \<Rightarrow> db \<Rightarrow> (db_error + answer) \<times> db" where
  "answered r f d = (case r of Inl e \<Rightarrow> (Inl e, d) | Inr (x, d) \<Rightarrow> (Inr (f x), d))"

text \<open>
  What the operations promise: the repository's functions. A filter error is the only one that is
  not a database error; it is reported as no rows here.
\<close>

fun local :: "handler \<Rightarrow> repo_op \<Rightarrow> db \<Rightarrow> (db_error + answer) \<times> db" where
  "local h (AddProxmoxInstanceOp i) d = answered (AddProxmoxInstance (h_fold h) (h_url_unique h) i d) AnInstance d"
| "local h ListProxmoxInstancesOp d = (Inr (Instances (ListProxmoxInstances d)), d)"
| "local h (UpdateProxmoxInstanceOp i) d =
     answered (map_sum id (\<lambda>d. (normalise_instance (h_fold h) i, d)) (UpdateProxmoxInstance (h_fold h) (h_url_unique h) i d)) AnInstance d"
| "local h (RemoveProxmoxInstanceOp i) d = (Inr Done, RemoveProxmoxInstance i d)"
| "local h (AddClientOp cl) d = answered (AddClient (h_fold h) cl d) AClient d"
| "local h ListClientsOp d = (Inr (Clients (ListClients d)), d)"
| "local h (RemoveClientOp i) d = (Inr Done, RemoveClient i d)"
| "local h (GetClientByNameOp n) d = (map_sum id AClient (GetClientByName (h_fold h) n d), d)"
| "local h (AddGroupOp g) d = answered (AddGroup (h_fold h) g d) AGroup d"
| "local h ListGroupsOp d = (Inr (Groups (ListGroups d)), d)"
| "local h (RemoveGroupOp i) d = (Inr Done, RemoveGroup i d)"
| "local h ListGuestsOp d = (Inr (Guests (ListGuests d)), d)"
| "local h (ListAccessRulesOp raw) d = (map_sum (\<lambda>_. ErrNoRows) Rules (ListAccessRules h raw d), d)"
| "local h (GrantOp ty s ts) d = (Inr Done, grant_rule ty s ts d)"
| "local h (RevokeOp ty s t) d = (Inr Done, revoke_rule ty s t d)"
| "local h (ListInstanceAccessRulesOp raw) d = (map_sum (\<lambda>_. ErrNoRows) Rules (ListInstanceAccessRules h raw d), d)"
| "local h (GrantInstanceOp ty s ts) d = (Inr Done, grant_instance_rule ty s ts d)"
| "local h (RevokeInstanceOp ty s t) d = (Inr Done, revoke_instance_rule ty s t d)"
| "local h (SetDefaultPolicyOp p) d = (Inr Done, SetDefaultPolicy p d)"
| "local h GetDefaultPolicyOp d = (Inr (APolicy (GetDefaultPolicy d)), d)"
| "local h (SetSettingOp k v) d = (Inr Done, SetSetting k v d)"
| "local h (GetSettingOp k) d = (Inr (AText (GetSetting k d)), d)"
| "local h (AddAdminKeyOp k) d = (Inr Done, AddAdminKey k d)"
| "local h ListAdminKeysOp d = (Inr (Texts (ListAdminKeys d)), d)"
| "local h (RemoveAdminKeyOp k) d = (Inr Done, RemoveAdminKey k d)"
| "local h (UpsertGuestOp g) d = (Inr Done, snd (UpsertGuest g d))"
| "local h (RemoveGuestsNotInOp i keep) d = (Inr (ACount (fst (RemoveGuestsNotIn i keep d))), snd (RemoveGuestsNotIn i keep d))"

section \<open>The API implements the repository\<close>

text \<open>Adding an instance over the API also runs its first discovery pass.\<close>

definition first_pass :: "handler \<Rightarrow> (db_error + answer) \<times> db \<Rightarrow> (db_error + answer) \<times> db" where
  "first_pass h r =
     (case (fst r, h_discoverer h) of
        (Inr (AnInstance i), Some poll) \<Rightarrow> (fst r, snd (discover_row_of h poll i (snd r)))
      | _ \<Rightarrow> r)"

fun promised :: "handler \<Rightarrow> repo_op \<Rightarrow> db \<Rightarrow> (db_error + answer) \<times> db" where
  "promised h (AddProxmoxInstanceOp i) d = first_pass h (local h (AddProxmoxInstanceOp i) d)"
| "promised h op d = local h op d"

text \<open>What a request must satisfy to be served as the repository would: the row it changes
  exists, the node takes the console transport, the key is not the configured one, the
  policy's node flag is off; the writes of a discovery pass have no route.\<close>

fun served :: "handler \<Rightarrow> db \<Rightarrow> repo_op \<Rightarrow> bool" where
  "served h d (AddProxmoxInstanceOp i) = (termproxy_refusal h i = None)"
| "served h d (UpdateProxmoxInstanceOp i) = (findInstance (in_id i) d \<noteq> None \<and> termproxy_refusal h i = None)"
| "served h d (RemoveProxmoxInstanceOp i) = (findInstance i d \<noteq> None)"
| "served h d (RemoveClientOp i) = (findClient i d \<noteq> None)"
| "served h d (RemoveGroupOp i) = (findGroup i d \<noteq> None)"
| "served h d (SetDefaultPolicyOp p) = (\<not> dp_node_access p)"
| "served h d GetDefaultPolicyOp = (\<not> dp_node_access (GetDefaultPolicy d))"
| "served h d (RemoveAdminKeyOp k) = (h_protected h = [] \<or> trim_space k \<noteq> h_protected h)"
| "served h d (UpsertGuestOp g) = False"
| "served h d (RemoveGuestsNotInOp i keep) = False"
| "served h d op = True"

text \<open>The activity log is the API's own; everything else must agree.\<close>

definition forget_log :: "db \<Rightarrow> db" where
  "forget_log d = d\<lparr>d_activity := [], d_seq_activity := 0\<rparr>"

fun same_answer :: "admin_error + answer \<Rightarrow> db_error + answer \<Rightarrow> bool" where
  "same_answer (Inr a) (Inr b) = (a = b)"
| "same_answer (Inl e) (Inl e') = True"
| "same_answer _ _ = False"

lemma forget_record [simp]: "forget_log (recordAdmin h c ev ps d) = forget_log d"
  by (simp add: forget_log_def recordAdmin_def record_event_def AddActivityEvent_def Let_def)

lemma conflict_cases: "\<exists>msg. (conflict_or_500 h e :: 'a reply) = Conflict409 msg \<or> (conflict_or_500 h e :: 'a reply) = Error500 msg"
  by (simp add: conflict_or_500_def)

lemma conflict_answer [simp]:
  "created f (conflict_or_500 h e) = Inl (apiError (conflict_or_500 h e))"
  "okay g (conflict_or_500 h e) = Inl (apiError (conflict_or_500 h e))"
  using conflict_cases by (auto simp: created_def okay_def conflict_or_500_def)

lemma unfiltered [simp]: "filtered_list h f None fm rows = OK200 rows"
  by (simp add: filtered_list_def Match_def)

lemmas remote_defs = over_def done2xx_def any2xx_def created_def okay_def join_sum_def first_client_def answered_def

lemma remote_instances:
  assumes "is_admin h c d"
  shows "termproxy_refusal h i = None \<Longrightarrow>
      same_answer (fst (remote h c (AddProxmoxInstanceOp i) d)) (fst (promised h (AddProxmoxInstanceOp i) d)) \<and>
      forget_log (snd (remote h c (AddProxmoxInstanceOp i) d)) = forget_log (snd (promised h (AddProxmoxInstanceOp i) d))"
    "findInstance (in_id i) d \<noteq> None \<Longrightarrow> termproxy_refusal h i = None \<Longrightarrow>
      same_answer (fst (remote h c (UpdateProxmoxInstanceOp i) d)) (fst (promised h (UpdateProxmoxInstanceOp i) d)) \<and>
      forget_log (snd (remote h c (UpdateProxmoxInstanceOp i) d)) = forget_log (snd (promised h (UpdateProxmoxInstanceOp i) d))"
  by (auto simp: remote_AddProxmoxInstance_def remote_UpdateProxmoxInstance_def gated_admin [OF assms] v1_AddInstance_def v1_UpdateInstance_def with_body_def Let_def over_def answered_def first_pass_def
      created_def okay_def conflict_or_500_def split: sum.split option.split)

lemmas remote_simps =
  remote_ops v1_defs with_body_def Let_def over_def done2xx_def any2xx_def created_def okay_def join_sum_def first_client_def
  answered_def conflict_or_500_def query_reply_def grant_rule_def revoke_rule_def grant_instance_rule_def
  revoke_instance_rule_def sess_toAPIDefaultPolicy_def fromAPIDefaultPolicy_def toAPIDefaultPolicy_def
  sess_fromAPIDefaultPolicy_def

lemma remote_step:
  assumes "is_admin h c d" "served h d op"
  shows "same_answer (fst (remote h c op d)) (fst (promised h op d)) \<and>
         forget_log (snd (remote h c op d)) = forget_log (snd (promised h op d))"
proof -
  note gate = gated_admin [OF assms(1)]
  show ?thesis
  proof (cases op)
    case (AddProxmoxInstanceOp i)
    then show ?thesis using remote_instances(1) [OF assms(1)] assms(2) by simp
  next
    case (UpdateProxmoxInstanceOp i)
    then show ?thesis using remote_instances(2) [OF assms(1), of i] assms(2) by simp
  next
    case (ListAccessRulesOp raw)
    then show ?thesis by (cases "ListAccessRules h raw d") (simp_all add: remote_simps gate)
  next
    case (ListInstanceAccessRulesOp raw)
    then show ?thesis by (cases "ListInstanceAccessRules h raw d") (simp_all add: remote_simps gate)
  next
    case (GrantOp ty s ts)
    then show ?thesis by (cases ty) (simp_all add: remote_simps gate)
  next
    case (RevokeOp ty s t)
    then show ?thesis by (cases ty) (simp_all add: remote_simps gate)
  next
    case (GrantInstanceOp ty s ts)
    then show ?thesis by (cases ty) (simp_all add: remote_simps gate)
  next
    case (RevokeInstanceOp ty s t)
    then show ?thesis by (cases ty) (simp_all add: remote_simps gate)
  next
    case (SetDefaultPolicyOp p)
    then have "\<lparr>dp_clients = dp_clients p, dp_groups = dp_groups p, dp_node_access = False\<rparr> = p"
      using assms(2) by (cases p) simp
    then show ?thesis using SetDefaultPolicyOp by (simp add: remote_simps gate)
  qed (use assms in \<open>auto simp: remote_simps gate split: sum.split option.split\<close>)
qed

text \<open>Only the writes of a discovery pass have no route.\<close>

lemma not_unsupported:
  "apiError r \<noteq> Unsupported m" "created f r \<noteq> Inl (Unsupported m)" "okay f r \<noteq> Inl (Unsupported m)"
  "any2xx r \<noteq> Inl (Unsupported m)"
  by (cases r; simp add: said_def created_def okay_def any2xx_def)+

lemma not_unsupported_over:
  "fst (over (created f) r) \<noteq> Inl (Unsupported m)" "fst (over (okay g) r') \<noteq> Inl (Unsupported m)"
  "fst (over done2xx r'') \<noteq> Inl (Unsupported m)"
  "fst (over (join_sum \<circ> okay first_client) q) \<noteq> Inl (Unsupported m)"
proof -
  have "any2xx (fst r'') = Inl e \<Longrightarrow> e \<noteq> Unsupported m" for e using not_unsupported(4) by metis
  then show "fst (over done2xx r'') \<noteq> Inl (Unsupported m)"
    by (cases "any2xx (fst r'')") (auto simp: over_def done2xx_def)
  have "okay first_client (fst q) = Inl e \<Longrightarrow> e \<noteq> Unsupported m" for e using not_unsupported(3) by metis
  then show "fst (over (join_sum \<circ> okay first_client) q) \<noteq> Inl (Unsupported m)"
    by (cases "okay first_client (fst q)") (auto simp: over_def join_sum_def okay_def first_client_def split: reply.splits list.splits)
qed (simp_all add: over_def not_unsupported)

lemma remote_supported:
  assumes "\<And>g. op \<noteq> UpsertGuestOp g" "\<And>i keep. op \<noteq> RemoveGuestsNotInOp i keep"
  shows "fst (remote h c op d) \<noteq> Inl (Unsupported m)"
  using assms by (cases op) (auto simp: remote_ops not_unsupported_over)

text \<open>The repository's operations do not look at the log.\<close>

definition with_log :: "activity_event list \<Rightarrow> int \<Rightarrow> db \<Rightarrow> db" where
  "with_log a n d = d\<lparr>d_activity := a, d_seq_activity := n\<rparr>"

lemma upsert_log: "UpsertGuest g (with_log a n d) = map_prod id (with_log a n) (UpsertGuest g d)"
  by (simp add: UpsertGuest_def with_log_def Let_def split: option.split)

lemma prune_log: "RemoveGuestsNotIn i keep (with_log a n d) = map_prod id (with_log a n) (RemoveGuestsNotIn i keep d)"
  by (simp add: RemoveGuestsNotIn_eq stale_guests_def guests_of_def with_log_def)

lemma store_loop_log:
  "store_loop repo_upsert cancelled iid k gs acc (with_log a n d) =
   map_prod id (map_prod id (with_log a n)) (store_loop repo_upsert cancelled iid k gs acc d)"
  by (induction gs arbitrary: k acc d) (simp_all add: repo_upsert_def upsert_log split: prod.split)

lemma StoreGuests_log:
  "StoreGuests repo_upsert repo_prune cancelled inst gs (with_log a n d) =
   map_prod id (with_log a n) (StoreGuests repo_upsert repo_prune cancelled inst gs d)"
  by (simp add: StoreGuests_def store_loop_log repo_prune_def prune_log split_beta)

lemma discover_row_log:
  "discover_row_of h poll i (with_log a n d) = map_prod id (with_log a n) (discover_row_of h poll i d)"
  by (simp add: discover_row_of_def StoreGuests_log Let_def split_beta split: sum.split option.split)

lemma local_log: "local h op (with_log a n d) = map_prod id (with_log a n) (local h op d)"
proof (cases op)
  case (AddProxmoxInstanceOp i)
  then show ?thesis by (simp add: answered_def AddProxmoxInstance_def Let_def with_log_def)
next
  case (UpdateProxmoxInstanceOp i)
  have "UpdateProxmoxInstance U uq i (with_log a n d) = map_sum id (with_log a n) (UpdateProxmoxInstance U uq i d)" for U uq
    by (auto simp: UpdateProxmoxInstance_def Let_def with_log_def)
  then show ?thesis using UpdateProxmoxInstanceOp
    by (cases "UpdateProxmoxInstance (h_fold h) (h_url_unique h) i d") (simp_all add: answered_def)
next
  case (GrantOp ty s ts)
  then show ?thesis
    by (cases ty) (simp_all add: grant_rule_def grant_defs grantAccess_def with_log_def split: prod.split)
next
  case (GrantInstanceOp ty s ts)
  then show ?thesis
    by (cases ty) (simp_all add: grant_instance_rule_def grant_defs grantInstanceAccess_def with_log_def split: prod.split)
next
  case (RevokeOp ty s t)
  then show ?thesis
    by (cases ty) (simp_all add: revoke_rule_def RevokeClientAccess_def RevokeGroupAccess_def with_log_def)
next
  case (RevokeInstanceOp ty s t)
  then show ?thesis
    by (cases ty) (simp_all add: revoke_instance_rule_def grant_defs revokeInstanceAccess_def with_log_def)
qed (simp_all add: answered_def with_log_def ListProxmoxInstances_def RemoveProxmoxInstance_eq guests_of_def AddClient_def ListClients_def
    RemoveClient_def GetClientByName_def AddGroup_def ListGroups_def RemoveGroup_def ListGuests_def
    ListAccessRules_def ListInstanceAccessRules_def SetDefaultPolicy_def GetDefaultPolicy_def SetSetting_def
    GetSetting_def AddAdminKey_def ListAdminKeys_def RemoveAdminKey_def upsert_log [unfolded with_log_def]
    prune_log [unfolded with_log_def] Let_def split: option.split)

lemma promised_log: "promised h op (with_log a n d) = map_prod id (with_log a n) (promised h op d)"
  by (cases op)
     (simp_all add: local_log first_pass_def discover_row_log del: local.simps split: sum.split answer.split option.split)

lemma promised_forget:
  "promised h op (forget_log d) = map_prod id forget_log (promised h op d)"
proof -
  have "forget_log = with_log [] 0" by (simp add: fun_eq_iff with_log_def forget_log_def)
  then show ?thesis using promised_log [of h op "[]" 0 d] by simp
qed

section \<open>A session of operations\<close>

text \<open>A script of operations, each answered in turn; the last component is the database left.\<close>

fun run_ops_with :: "(repo_op \<Rightarrow> db \<Rightarrow> 'r \<times> db) \<Rightarrow> repo_op list \<Rightarrow> db \<Rightarrow> 'r list \<times> db" where
  "run_ops_with f [] d = ([], d)"
| "run_ops_with f (op # ops) d =
     (let (r, d) = f op d; (rs, d) = run_ops_with f ops d in (r # rs, d))"

text \<open>Every operation of the script is served, in the state the script has reached.\<close>

fun all_served :: "handler \<Rightarrow> repo_op list \<Rightarrow> db \<Rightarrow> bool" where
  "all_served h [] d = True"
| "all_served h (op # ops) d = (served h d op \<and> all_served h ops (snd (promised h op d)))"

lemma served_forget: "served h (forget_log d) op = served h d op"
  by (cases op) (simp_all add: findInstance_def ListProxmoxInstances_def findClient_def ListClients_def findGroup_def
      ListGroups_def GetDefaultPolicy_def forget_log_def)

lemma forget_eq_promised:
  assumes "forget_log d = forget_log d'"
  shows "fst (promised h op d) = fst (promised h op d') \<and>
         forget_log (snd (promised h op d)) = forget_log (snd (promised h op d')) \<and>
         served h d op = served h d' op"
proof -
  have "map_prod id forget_log (promised h op d) = map_prod id forget_log (promised h op d')"
    using promised_forget [of h op d] promised_forget [of h op d'] assms by simp
  moreover have "served h d op = served h d' op"
    using served_forget [of h d op] served_forget [of h d' op] assms by simp
  ultimately show ?thesis by (simp add: prod_eq_iff)
qed

lemma forget_log_sessions: "forget_log d = forget_log d' \<Longrightarrow> d_sessions d = d_sessions d'"
proof -
  assume "forget_log d = forget_log d'"
  from arg_cong [OF this, of d_sessions] show ?thesis by (simp add: forget_log_def)
qed

lemma is_admin_sessions: "d_sessions d = d_sessions d' \<Longrightarrow> is_admin h c d = is_admin h c d'"
  by (simp add: is_admin_def caller_def callerIdentity_def LookupAPISession_def split: option.split)

lemma guest_writes_sessions:
  "d_sessions (snd (UpsertGuest g d)) = d_sessions d" "d_sessions (snd (RemoveGuestsNotIn i keep d)) = d_sessions d"
  by (simp_all add: UpsertGuest_def RemoveGuestsNotIn_eq Let_def split: option.split)

lemma promised_sessions: "d_sessions (snd (promised h op d)) = d_sessions d"
proof (cases op)
  case (AddProxmoxInstanceOp i)
  have "quiet d (snd (promised h op d))"
    using AddProxmoxInstanceOp quiet_trans [OF quiet_instances(1) quiet.discover_row_related] quiet_instances(1)
    by (auto simp: first_pass_def answered_def split: sum.split option.split)
  then show ?thesis by (simp add: quiet_def)
next
  case (GrantOp ty s ts)
  then show ?thesis by (cases ty) (use quiet_access in \<open>auto simp: quiet_def grant_rule_def\<close>)
next
  case (RevokeOp ty s ts)
  then show ?thesis by (cases ty) (use quiet_access in \<open>auto simp: quiet_def revoke_rule_def\<close>)
next
  case (GrantInstanceOp ty s ts)
  then show ?thesis by (cases ty) (use quiet_access in \<open>auto simp: quiet_def grant_instance_rule_def\<close>)
next
  case (RevokeInstanceOp ty s ts)
  then show ?thesis by (cases ty) (use quiet_access in \<open>auto simp: quiet_def revoke_instance_rule_def\<close>)
next
  case (UpdateProxmoxInstanceOp i)
  then show ?thesis using quiet_instances(2) [of "h_fold h" "h_url_unique h" i d]
    by (cases "UpdateProxmoxInstance (h_fold h) (h_url_unique h) i d") (simp_all add: answered_def quiet_def)
next
  case (AddClientOp i)
  then show ?thesis using quiet_clients(1) by (auto simp: answered_def quiet_def split: sum.split)
next
  case (AddGroupOp i)
  then show ?thesis using quiet_groups(1) by (auto simp: answered_def quiet_def split: sum.split)
qed (use quiet_instances(3) quiet_clients(3) quiet_groups(3) quiet_misc in \<open>auto simp: quiet_def guest_writes_sessions\<close>)

text \<open>The administrator's CLI over the API does what it would do on the database: over an
  administrator's credential, a script of served operations gets the same answers, operation by
  operation, as the repository gives, and leaves the same tables; only the activity log is the API's.\<close>

theorem api_implements_repository:
  assumes "is_admin h c d" "all_served h ops d"
  shows "list_all2 same_answer (fst (run_ops_with (remote h c) ops d)) (fst (run_ops_with (promised h) ops d)) \<and>
         forget_log (snd (run_ops_with (remote h c) ops d)) = forget_log (snd (run_ops_with (promised h) ops d))"
proof -
  have "list_all2 same_answer (fst (run_ops_with (remote h c) ops d)) (fst (run_ops_with (promised h) ops d')) \<and>
      forget_log (snd (run_ops_with (remote h c) ops d)) = forget_log (snd (run_ops_with (promised h) ops d'))"
    if "forget_log d = forget_log d'" "is_admin h c d" "all_served h ops d'" for d d'
    using that
  proof (induction ops arbitrary: d d')
    case (Cons op ops)
    let ?r = "remote h c op d" and ?p = "promised h op d'"
    note eq = forget_eq_promised [OF Cons.prems(1), of h op]
    have step: "same_answer (fst ?r) (fst ?p)" "forget_log (snd ?r) = forget_log (snd ?p)"
      using remote_step [OF Cons.prems(2), of op] eq Cons.prems(3) by auto
    have "d_sessions (snd ?r) = d_sessions d"
      using forget_log_sessions [OF step(2)] forget_log_sessions [OF Cons.prems(1)] promised_sessions by simp
    then have "is_admin h c (snd ?r)" using is_admin_sessions Cons.prems(2) by blast
    from Cons.IH [OF step(2) this] Cons.prems(3) step(1) show ?case by (simp add: split_beta)
  qed simp
  from this [OF refl assms] show ?thesis .
qed

theorem api_implements_repository_witness:
  "list_all2 same_answer
     (fst (run_ops_with (remote demo_handler rest_call) [AddClientOp alice_client, ListClientsOp, GetClientByNameOp ''alice''] empty_db))
     [Inr (AClient (alice_client\<lparr>c_id := 1\<rparr>)), Inr (Clients [alice_client\<lparr>c_id := 1\<rparr>]), Inr (AClient (alice_client\<lparr>c_id := 1\<rparr>))]"
proof -
  let ?ops = "[AddClientOp alice_client, ListClientsOp, GetClientByNameOp ''alice'']"
  have "fst (run_ops_with (promised demo_handler) ?ops empty_db) =
      [Inr (AClient (alice_client\<lparr>c_id := 1\<rparr>)), Inr (Clients [alice_client\<lparr>c_id := 1\<rparr>]), Inr (AClient (alice_client\<lparr>c_id := 1\<rparr>))]"
    by code_simp
  then show ?thesis using conjunct1 [OF api_implements_repository [OF rest_is_admin, of ?ops empty_db]] by simp
qed

section \<open>The policy's node flag does not cross\<close>

text \<open>Whatever policy the CLI sends, the flag that extends the default policy to nodes is off
  afterwards: no operation of the administrator's repository can keep it on.\<close>

theorem remote_policy_closes_nodes:
  assumes "is_admin h c d"
  shows "GetDefaultPolicy (snd (remote h c (SetDefaultPolicyOp p) d)) = p\<lparr>dp_node_access := False\<rparr>"
  by (simp add: remote_simps gated_admin [OF assms] recordAdmin_def record_event_def AddActivityEvent_def
      GetDefaultPolicy_def SetDefaultPolicy_def)

theorem remote_policy_closes_nodes_witness:
  "GetDefaultPolicy (snd (remote demo_handler rest_call
     (SetDefaultPolicyOp \<lparr>dp_clients = [1], dp_groups = [], dp_node_access = True\<rparr>) empty_db)) =
   \<lparr>dp_clients = [1], dp_groups = [], dp_node_access = False\<rparr>"
  using remote_policy_closes_nodes [OF rest_is_admin, of "\<lparr>dp_clients = [1], dp_groups = [], dp_node_access = True\<rparr>" empty_db]
  by simp

end
