(* ===== verification/CliProgram.thy ===== *)
theory CliProgram
  imports AdminRepo Resolve
begin

text \<open>
  The administrator's commands are functions of the repository interface they are given
  (\<open>internal/cli/cli.go\<close>, \<open>Deps\<close>). Here a command is a value of \<open>prog\<close>: what it asks of the
  repository, what it prints, how it ends. \<open>run_prog\<close> runs one over any repository; the locale
  states when two repositories cannot be told apart by a command, and the repository over the API
  is shown to be such a substitute for the database's own.
\<close>

section \<open>Commands\<close>

text \<open>
  \<open>Ask\<close> ends the command with the error, worded by its function, when the operation fails;
  \<open>Try\<close> goes on without an answer. \<open>Say\<close> writes to the output, \<open>Warn\<close> to the error output.
  A command that returns may leave a guest to connect to.
\<close>

datatype prog =
    Return "(guest_row \<times> instance_row) option"
  | Fail gostring
  | Ask repo_op "gostring \<Rightarrow> gostring" "answer \<Rightarrow> prog"
  | Try repo_op "answer option \<Rightarrow> prog"
  | Say gostring prog
  | Warn gostring prog

datatype repo_result = Answered answer | Refused gostring | Panicked gostring

datatype outcome = Returned "(guest_row \<times> instance_row) option" | Failed gostring | Crashed gostring

text \<open>The outcome, the output, the error output, and the repository's state.\<close>

type_synonym 's run = "outcome \<times> gostring \<times> gostring \<times> 's"

definition printed :: "gostring \<Rightarrow> gostring \<Rightarrow> 's run \<Rightarrow> 's run" where
  "printed o1 e1 r = (case r of (out, o2, e2, s) \<Rightarrow> (out, o1 @ o2, e1 @ e2, s))"

primrec run_prog :: "prog \<Rightarrow> (repo_op \<Rightarrow> 's \<Rightarrow> repo_result \<times> 's) \<Rightarrow> 's \<Rightarrow> 's run" where
  "run_prog (Return x) f s = (Returned x, [], [], s)"
| "run_prog (Fail msg) f s = (Failed msg, [], [], s)"
| "run_prog (Ask op wrap k) f s =
     (case f op s of
        (Answered a, s') \<Rightarrow> run_prog (k a) f s'
      | (Refused msg, s') \<Rightarrow> (Failed (wrap msg), [], [], s')
      | (Panicked msg, s') \<Rightarrow> (Crashed msg, [], [], s'))"
| "run_prog (Try op k) f s =
     (case f op s of
        (Answered a, s') \<Rightarrow> run_prog (k (Some a)) f s'
      | (Refused msg, s') \<Rightarrow> run_prog (k None) f s'
      | (Panicked msg, s') \<Rightarrow> (Crashed msg, [], [], s'))"
| "run_prog (Say t p) f s = printed t [] (run_prog p f s)"
| "run_prog (Warn t p) f s = printed [] t (run_prog p f s)"

section \<open>Repositories\<close>

definition admin_error_text :: "admin_error \<Rightarrow> gostring" where
  "admin_error_text e =
     (case e of
        ErrUnauthorized \<Rightarrow> ''the API rejected this session's credential''
      | ErrNotAdmin \<Rightarrow> ''this operation requires the administrator''
      | Said msg \<Rightarrow> msg
      | UnexpectedStatus n \<Rightarrow> ''admin API: unexpected status '' @ itoa (int n)
      | Unsupported m \<Rightarrow> ''session: '' @ m @ '' is not available over the admin API; a session does not hold the database, and this method is not one the admin CLI uses'')"

definition api_repo :: "handler \<Rightarrow> api_call \<Rightarrow> repo_op \<Rightarrow> db \<Rightarrow> repo_result \<times> db" where
  "api_repo h c op d =
     (case remote h c op d of
        (Inr a, d') \<Rightarrow> (Answered a, d')
      | (Inl (Unsupported m), d') \<Rightarrow> (Panicked (admin_error_text (Unsupported m)), d')
      | (Inl e, d') \<Rightarrow> (Refused (admin_error_text e), d'))"

text \<open>The database's own repository; adding an instance brings its first pass with it, as on the API.\<close>

definition db_repo :: "handler \<Rightarrow> repo_op \<Rightarrow> db \<Rightarrow> repo_result \<times> db" where
  "db_repo h op d =
     (case promised h op d of
        (Inr a, d') \<Rightarrow> (Answered a, d')
      | (Inl e, d') \<Rightarrow> (Refused (db_error_text h e), d'))"

section \<open>When a command cannot tell two repositories apart\<close>

fun same_result :: "repo_result \<Rightarrow> repo_result \<Rightarrow> bool" where
  "same_result (Answered a) (Answered b) = (a = b)"
| "same_result (Refused x) (Refused y) = True"
| "same_result _ _ = False"

fun same_outcome :: "outcome \<Rightarrow> outcome \<Rightarrow> bool" where
  "same_outcome (Returned x) (Returned y) = (x = y)"
| "same_outcome (Failed x) (Failed y) = True"
| "same_outcome _ _ = False"

text \<open>Every operation the command comes to perform satisfies \<open>ok\<close> in the state it is performed in.\<close>

primrec prog_ok :: "prog \<Rightarrow> (repo_op \<Rightarrow> 's \<Rightarrow> bool) \<Rightarrow> (repo_op \<Rightarrow> 's \<Rightarrow> repo_result \<times> 's) \<Rightarrow> 's \<Rightarrow> bool" where
  "prog_ok (Return x) ok f s = True"
| "prog_ok (Fail msg) ok f s = True"
| "prog_ok (Ask op wrap k) ok f s =
     (ok op s \<and> (case f op s of (Answered a, s') \<Rightarrow> prog_ok (k a) ok f s' | _ \<Rightarrow> True))"
| "prog_ok (Try op k) ok f s =
     (ok op s \<and> (case f op s of
        (Answered a, s') \<Rightarrow> prog_ok (k (Some a)) ok f s'
      | (Refused msg, s') \<Rightarrow> prog_ok (k None) ok f s'
      | (Panicked msg, s') \<Rightarrow> True))"
| "prog_ok (Say t p) ok f s = prog_ok p ok f s"
| "prog_ok (Warn t p) ok f s = prog_ok p ok f s"

definition same_run :: "('s \<Rightarrow> 't \<Rightarrow> bool) \<Rightarrow> 's run \<Rightarrow> 't run \<Rightarrow> bool" where
  "same_run rel r r' =
     (case (r, r') of ((out, o1, e1, s), (out', o2, e2, t)) \<Rightarrow>
        same_outcome out out' \<and> o1 = o2 \<and> e1 = e2 \<and> rel s t)"

lemma same_run_printed: "same_run rel r r' \<Longrightarrow> same_run rel (printed x y r) (printed x y r')"
  by (auto simp: same_run_def printed_def)

lemma same_run_mono: "same_run rel r r' \<Longrightarrow> (\<And>s t. rel s t \<Longrightarrow> rel' s t) \<Longrightarrow> same_run rel' r r'"
  by (cases r; cases r') (auto simp: same_run_def)

locale repository_substitute =
  fixes sub :: "repo_op \<Rightarrow> 's \<Rightarrow> repo_result \<times> 's" and spec :: "repo_op \<Rightarrow> 't \<Rightarrow> repo_result \<times> 't"
    and rel :: "'s \<Rightarrow> 't \<Rightarrow> bool" and ok :: "repo_op \<Rightarrow> 't \<Rightarrow> bool"
  assumes step: "rel s t \<Longrightarrow> ok op t \<Longrightarrow>
    same_result (fst (sub op s)) (fst (spec op t)) \<and> rel (snd (sub op s)) (snd (spec op t))"
begin

lemma same_command:
  "rel s t \<Longrightarrow> prog_ok p ok spec t \<Longrightarrow> same_run rel (run_prog p sub s) (run_prog p spec t)"
proof (induction p arbitrary: s t)
  case (Ask op wrap k)
  obtain r s' where s': "sub op s = (r, s')" by fastforce
  obtain r' t' where t': "spec op t = (r', t')" by fastforce
  from Ask.prems step [OF Ask.prems(1), of op] s' t' have "same_result r r'" "rel s' t'" by auto
  then show ?case using Ask.prems Ask.IH s' t'
    by (cases r; cases r') (auto simp: same_run_def)
next
  case (Try op k)
  obtain r s' where s': "sub op s = (r, s')" by fastforce
  obtain r' t' where t': "spec op t = (r', t')" by fastforce
  from Try.prems step [OF Try.prems(1), of op] s' t' have "same_result r r'" "rel s' t'" by auto
  then show ?case using Try.prems Try.IH s' t'
    by (cases r; cases r') auto
next
  case (Say t p)
  then show ?case by (simp add: same_run_printed)
next
  case (Warn t p)
  then show ?case by (simp add: same_run_printed)
qed (simp_all add: same_run_def)

end

section \<open>The repository over the API is a substitute\<close>

definition over_api :: "handler \<Rightarrow> api_call \<Rightarrow> db \<Rightarrow> db \<Rightarrow> bool" where
  "over_api h c d d' \<longleftrightarrow> is_admin h c d \<and> forget_log d = forget_log d'"

definition served_op :: "handler \<Rightarrow> repo_op \<Rightarrow> db \<Rightarrow> bool" where
  "served_op h op d = served h d op"

interpretation api: repository_substitute "api_repo h c" "db_repo h" "over_api h c" "served_op h" for h c
proof
  fix s t op
  assume rel: "over_api h c s t" and ok: "served_op h op t"
  have eq: "forget_log s = forget_log t" and adm: "is_admin h c s" using rel by (auto simp: over_api_def)
  note p = forget_eq_promised [OF eq, of h op]
  have step: "same_answer (fst (remote h c op s)) (fst (promised h op t))"
    "forget_log (snd (remote h c op s)) = forget_log (snd (promised h op t))"
    using remote_step [OF adm, of op] p ok by (auto simp: served_op_def)
  have "op \<noteq> UpsertGuestOp g" "op \<noteq> RemoveGuestsNotInOp i keep" for g i keep
    using ok by (auto simp: served_op_def)
  then have supported: "fst (remote h c op s) \<noteq> Inl (Unsupported m)" for m
    by (rule remote_supported)
  have "d_sessions (snd (remote h c op s)) = d_sessions s"
    using forget_log_sessions [OF step(2)] forget_log_sessions [OF eq] promised_sessions by simp
  then have "is_admin h c (snd (remote h c op s))" using is_admin_sessions adm by blast
  moreover obtain r s' where r: "remote h c op s = (r, s')" by fastforce
  moreover obtain r' t' where r': "promised h op t = (r', t')" by fastforce
  ultimately show "same_result (fst (api_repo h c op s)) (fst (db_repo h op t)) \<and>
      over_api h c (snd (api_repo h c op s)) (snd (db_repo h op t))"
    using step supported
    by (cases r; cases r') (auto simp: api_repo_def db_repo_def over_api_def split: admin_error.splits)
qed

end
