(* ===== verification/Directory.thy ===== *)
theory Directory
  imports "HOL-Library.Word" SessionApi RepoInvariant
begin

text \<open>
  The directory sshd resolves logins through: \<open>internal/api/idlayout.go\<close>, \<open>loginname.go\<close>,
  \<open>types.go\<close> and the NSS half of \<open>server.go\<close>. Ids are Go's \<open>uint\<close>, 64-bit words that wrap.
  \<open>H\<close> is SHA-256 in hexadecimal, \<open>E\<close> and \<open>U\<close> the Unicode halves of \<open>strings.EqualFold\<close> and
  \<open>strings.ToLower\<close>. Errors of the database are not values of the repository's model, so the
  500 they give is missing; the 500 of an id out of range is there.
\<close>

section \<open>The id layout\<close>

type_synonym uid = "64 word"

record id_layout =
  il_admin_uid :: uid
  il_alias_uid :: uid
  il_admin_gid :: uid
  il_shared_gid :: uid
  il_uid_base :: uid
  il_gid_base :: uid
  il_max :: uid

definition DefaultIDLayout :: id_layout where
  "DefaultIDLayout =
     \<lparr>il_admin_uid = 19999, il_alias_uid = 19998, il_admin_gid = 19001, il_shared_gid = 19000,
      il_uid_base = 20000, il_gid_base = 40000, il_max = 65535\<rparr>"

definition EnvAdminUID :: gostring where "EnvAdminUID = ''PROXPASS_ADMIN_UID''"
definition EnvAliasUID :: gostring where "EnvAliasUID = ''PROXPASS_ALIAS_UID''"
definition EnvAdminGroupGID :: gostring where "EnvAdminGroupGID = ''PROXPASS_ADMIN_GID''"
definition EnvSharedGroupGID :: gostring where "EnvSharedGroupGID = ''PROXPASS_GID''"
definition EnvUIDBase :: gostring where "EnvUIDBase = ''PROXPASS_UID_BASE''"
definition EnvGIDBase :: gostring where "EnvGIDBase = ''PROXPASS_GID_BASE''"
definition EnvMaxID :: gostring where "EnvMaxID = ''PROXPASS_MAX_ID''"

datatype layout_error =
    NotUnsigned gostring gostring
  | ZeroMaxID
  | ExceedsMax gostring uid
  | InSystemRange gostring uid
  | NotBelowUIDBase gostring uid
  | SameUIDs
  | NotBelowGIDBase
  | SameGIDs
  | NoRoomForClients
  | NoRoomForGroups

definition bounded_fields :: "id_layout \<Rightarrow> (gostring \<times> uid) list" where
  "bounded_fields l =
     [(EnvAdminUID, il_admin_uid l), (EnvAliasUID, il_alias_uid l), (EnvAdminGroupGID, il_admin_gid l),
      (EnvSharedGroupGID, il_shared_gid l), (EnvUIDBase, il_uid_base l), (EnvGIDBase, il_gid_base l)]"

definition firstNonSystemID :: uid where "firstNonSystemID = 1000"
definition minRoom :: uid where "minRoom = 100"

definition Validate :: "id_layout \<Rightarrow> layout_error option" where
  "Validate l =
     (if il_max l = 0 then Some ZeroMaxID
      else case find (\<lambda>(env, v). v > il_max l) (bounded_fields l) of
        Some (env, v) \<Rightarrow> Some (ExceedsMax env v)
      | None \<Rightarrow>
     (case find (\<lambda>(env, v). v < firstNonSystemID) (bounded_fields l) of
        Some (env, v) \<Rightarrow> Some (InSystemRange env v)
      | None \<Rightarrow>
      if il_admin_uid l \<ge> il_uid_base l then Some (NotBelowUIDBase EnvAdminUID (il_admin_uid l))
      else if il_alias_uid l \<ge> il_uid_base l then Some (NotBelowUIDBase EnvAliasUID (il_alias_uid l))
      else if il_alias_uid l = il_admin_uid l then Some SameUIDs
      else if il_admin_gid l \<ge> il_gid_base l \<or> il_shared_gid l \<ge> il_gid_base l then Some NotBelowGIDBase
      else if il_admin_gid l = il_shared_gid l then Some SameGIDs
      else if il_uid_base l + minRoom > il_max l then Some NoRoomForClients
      else if il_gid_base l + minRoom > il_max l then Some NoRoomForGroups
      else None))"

text \<open>\<open>strconv.ParseUint\<close> in base 10 for 32 bits.\<close>

definition parse_uint32 :: "gostring \<Rightarrow> nat option" where
  "parse_uint32 s =
     (if s \<noteq> [] \<and> list_all is_digit s \<and> digits_value s < 2 ^ 32 then Some (digits_value s) else None)"

definition layout_fields :: "(gostring \<times> (uid \<Rightarrow> id_layout \<Rightarrow> id_layout)) list" where
  "layout_fields =
     [(EnvMaxID, \<lambda>v l. l\<lparr>il_max := v\<rparr>), (EnvAdminUID, \<lambda>v l. l\<lparr>il_admin_uid := v\<rparr>),
      (EnvAliasUID, \<lambda>v l. l\<lparr>il_alias_uid := v\<rparr>), (EnvAdminGroupGID, \<lambda>v l. l\<lparr>il_admin_gid := v\<rparr>),
      (EnvSharedGroupGID, \<lambda>v l. l\<lparr>il_shared_gid := v\<rparr>), (EnvUIDBase, \<lambda>v l. l\<lparr>il_uid_base := v\<rparr>),
      (EnvGIDBase, \<lambda>v l. l\<lparr>il_gid_base := v\<rparr>)]"

fun load_fields ::
  "(gostring \<Rightarrow> gostring option) \<Rightarrow> (gostring \<times> (uid \<Rightarrow> id_layout \<Rightarrow> id_layout)) list \<Rightarrow> id_layout \<Rightarrow>
   layout_error + id_layout" where
  "load_fields lookup [] l = Inr l"
| "load_fields lookup ((env, set_field) # fs) l =
     (case lookup env of
        None \<Rightarrow> load_fields lookup fs l
      | Some raw \<Rightarrow>
          if raw = '''' then load_fields lookup fs l
          else case parse_uint32 raw of
                 None \<Rightarrow> Inl (NotUnsigned env raw)
               | Some v \<Rightarrow> load_fields lookup fs (set_field (of_nat v) l))"

definition LoadIDLayout :: "(gostring \<Rightarrow> gostring option) \<Rightarrow> layout_error + id_layout" where
  "LoadIDLayout lookup =
     (case load_fields lookup layout_fields DefaultIDLayout of
        Inl e \<Rightarrow> Inl e
      | Inr l \<Rightarrow> (case Validate l of Some e \<Rightarrow> Inl e | None \<Rightarrow> Inr l))"

definition InRange :: "id_layout \<Rightarrow> uid \<Rightarrow> bool" where
  "InRange l i \<longleftrightarrow> i \<le> il_max l"

definition UIDFor :: "id_layout \<Rightarrow> int \<Rightarrow> uid" where
  "UIDFor l rowID = word_of_int rowID + il_uid_base l"

definition GIDFor :: "id_layout \<Rightarrow> int \<Rightarrow> uid" where
  "GIDFor l rowID = word_of_int rowID + il_gid_base l"

section \<open>Login names\<close>

definition MaxLoginNameLen :: nat where "MaxLoginNameLen = 256"

definition contains_any :: "gostring \<Rightarrow> gostring \<Rightarrow> bool" where
  "contains_any s chars = list_ex (\<lambda>c. c \<in> set chars) s"

definition ValidLoginName :: "gostring \<Rightarrow> bool" where
  "ValidLoginName name =
     (if name = '''' \<or> length name > MaxLoginNameLen then False
      else if contains_any name [CHR '':'', CHR 0x0A, CHR 0x0D, CHR 0x00] then False
      else if contains_any name ''?#/%'' \<or> contains_any name [CHR '' '', CHR 0x09] then False
      else if name = ''.'' \<or> name = ''..'' then False
      else \<not> has_prefix ''-'' name)"

section \<open>Entries\<close>

record nss_user =
  us_user :: gostring
  us_passwd :: gostring
  us_name :: gostring
  us_dir :: gostring
  us_shell :: gostring
  us_uid :: uid
  us_gid :: uid
  us_keys :: "gostring list"

record nss_group =
  ng_name :: gostring
  ng_passwd :: gostring
  ng_gid :: uid
  ng_members :: "gostring list"

definition LoginShell :: gostring where "LoginShell = ''/bin/sh''"
definition HomeDir :: gostring where "HomeDir = ''/var/empty/proxpass''"
definition shadowPasswd :: gostring where "shadowPasswd = ''x''"
definition AliasUser :: gostring where "AliasUser = ''proxpass-login''"
definition SharedGroup :: gostring where "SharedGroup = ''proxpass''"
definition AdminGroup :: gostring where "AdminGroup = ''proxpass-admin''"

definition aliasUser :: "id_layout \<Rightarrow> gostring \<Rightarrow> nss_user" where
  "aliasUser l name =
     \<lparr>us_user = name, us_passwd = shadowPasswd, us_name = ''proxpass login'', us_dir = HomeDir,
      us_shell = LoginShell, us_uid = il_alias_uid l, us_gid = il_shared_gid l, us_keys = []\<rparr>"

definition adminUserAs :: "id_layout \<Rightarrow> gostring \<Rightarrow> nss_user" where
  "adminUserAs l name =
     \<lparr>us_user = name, us_passwd = shadowPasswd, us_name = ''proxpass administrator'', us_dir = HomeDir,
      us_shell = LoginShell, us_uid = il_admin_uid l, us_gid = il_admin_gid l, us_keys = []\<rparr>"

definition adminUser :: "id_layout \<Rightarrow> nss_user" where
  "adminUser l = adminUserAs l AdminUser"

definition UserFor :: "id_layout \<Rightarrow> client_row \<Rightarrow> nss_user" where
  "UserFor l c =
     \<lparr>us_user = c_name c, us_passwd = shadowPasswd, us_name = ''proxpass client '' @ c_name c,
      us_dir = HomeDir, us_shell = LoginShell, us_uid = UIDFor l (c_id c), us_gid = il_shared_gid l,
      us_keys = []\<rparr>"

definition GroupFor :: "id_layout \<Rightarrow> group_row \<Rightarrow> gostring list \<Rightarrow> nss_group" where
  "GroupFor l g members =
     \<lparr>ng_name = gr_name g, ng_passwd = shadowPasswd, ng_gid = GIDFor l (gr_id g), ng_members = members\<rparr>"

section \<open>The handlers\<close>

definition not_found :: "'a reply" where "not_found = NotFound404 ''404 page not found''"
definition internal_error :: "'a reply" where "internal_error = Error500 ''internal error''"

definition user_name_path :: gostring where "user_name_path = ''/user/name/''"
definition user_uid_path :: gostring where "user_uid_path = ''/user/uid/''"
definition group_name_path :: gostring where "group_name_path = ''/group/name/''"
definition group_gid_path :: gostring where "group_gid_path = ''/group/gid/''"

definition writeAdminAlias :: "id_layout \<Rightarrow> gostring \<Rightarrow> nss_user reply" where
  "writeAdminAlias l name = (if \<not> ValidLoginName name then not_found else OK200 (aliasUser l name))"

definition handleUserByName :: "(bytes \<Rightarrow> bytes) \<Rightarrow> id_layout \<Rightarrow> gostring \<Rightarrow> db \<Rightarrow> nss_user reply" where
  "handleUserByName U l path d =
     (let name = trim_prefix user_name_path path in
      if name = '''' then not_found
      else if NamesEqual U name AdminUser then OK200 (adminUserAs l name)
      else case GetClientByName U name d of
             Inl _ \<Rightarrow> writeAdminAlias l name
           | Inr client \<Rightarrow>
               let user = UserFor l client in
               if \<not> InRange l (us_uid user) then internal_error else OK200 user)"

definition handleUserByUID :: "id_layout \<Rightarrow> gostring \<Rightarrow> db \<Rightarrow> nss_user reply" where
  "handleUserByUID l path d =
     (case parse_uint32 (trim_prefix user_uid_path path) of
        None \<Rightarrow> not_found
      | Some uid \<Rightarrow>
          if uid = unat (il_alias_uid l) then OK200 (aliasUser l AliasUser)
          else if uid = unat (il_admin_uid l) then OK200 (adminUser l)
          else if uid < unat (il_uid_base l) then not_found
          else case find (\<lambda>c. unat (us_uid (UserFor l c)) = uid) (ListClients d) of
                 Some c \<Rightarrow> OK200 (UserFor l c)
               | None \<Rightarrow> not_found)"

definition handleUsers :: "id_layout \<Rightarrow> db \<Rightarrow> nss_user list reply" where
  "handleUsers l d =
     OK200 (adminUser l # filter (\<lambda>u. InRange l (us_uid u)) (map (UserFor l) (ListClients d)))"

text \<open>A group's members: the names of the clients it lists that exist.\<close>

definition allGroups :: "id_layout \<Rightarrow> db \<Rightarrow> nss_group list" where
  "allGroups l d =
     (let clients = ListClients d;
          byID = (\<lambda>i. map_of (rev (map (\<lambda>c. (c_id c, c_name c)) clients)) i);
          shared = \<lparr>ng_name = SharedGroup, ng_passwd = shadowPasswd, ng_gid = il_shared_gid l,
                    ng_members = map c_name clients\<rparr>;
          adminGrp = \<lparr>ng_name = AdminGroup, ng_passwd = shadowPasswd, ng_gid = il_admin_gid l,
                      ng_members = [AdminUser]\<rparr>
      in adminGrp # shared #
         map (\<lambda>g. GroupFor l g (List.map_filter byID (gr_clients g))) (ListGroups d))"

definition handleGroupByName :: "(bytes \<Rightarrow> bytes) \<Rightarrow> id_layout \<Rightarrow> gostring \<Rightarrow> db \<Rightarrow> nss_group reply" where
  "handleGroupByName U l path d =
     (let name = trim_prefix group_name_path path in
      if name = '''' then not_found
      else case find (\<lambda>g. NamesEqual U (ng_name g) name) (allGroups l d) of
             Some g \<Rightarrow> OK200 g
           | None \<Rightarrow> not_found)"

definition handleGroupByGID :: "id_layout \<Rightarrow> gostring \<Rightarrow> db \<Rightarrow> nss_group reply" where
  "handleGroupByGID l path d =
     (case parse_uint32 (trim_prefix group_gid_path path) of
        None \<Rightarrow> not_found
      | Some gid \<Rightarrow>
          (case find (\<lambda>g. unat (ng_gid g) = gid) (allGroups l d) of
             Some g \<Rightarrow> OK200 g
           | None \<Rightarrow> not_found))"

section \<open>The token and the routes\<close>

datatype nss_body = NssUser nss_user | NssUsers "nss_user list" | NssGroup nss_group | NssGroups "nss_group list"

definition WithNSSToken :: "(gostring \<Rightarrow> gostring) \<Rightarrow> gostring \<Rightarrow> gostring" where
  "WithNSSToken H token = (if token = '''' then '''' else H token)"

definition nssAuth ::
  "(gostring \<Rightarrow> gostring) \<Rightarrow> (bytes \<Rightarrow> bytes \<Rightarrow> bool) \<Rightarrow> gostring \<Rightarrow> gostring \<Rightarrow> 'a reply \<Rightarrow> 'a reply" where
  "nssAuth H E hash header served =
     (if hash = '''' then Unauthorized401 ''unauthorized''
      else case withBearerToken E header of
             None \<Rightarrow> Unauthorized401 ''unauthorized''
           | Some token \<Rightarrow> if H token \<noteq> hash then Unauthorized401 ''unauthorized'' else served)"

text \<open>The six routes; a path that matches none of them is not the directory's.\<close>

definition nss_route :: "(bytes \<Rightarrow> bytes) \<Rightarrow> id_layout \<Rightarrow> gostring \<Rightarrow> db \<Rightarrow> nss_body reply option" where
  "nss_route U l path d =
     (if has_prefix user_name_path path then Some (map_reply NssUser (handleUserByName U l path d))
      else if has_prefix user_uid_path path then Some (map_reply NssUser (handleUserByUID l path d))
      else if path = ''/users'' then Some (map_reply NssUsers (handleUsers l d))
      else if has_prefix group_name_path path then Some (map_reply NssGroup (handleGroupByName U l path d))
      else if has_prefix group_gid_path path then Some (map_reply NssGroup (handleGroupByGID l path d))
      else if path = ''/groups'' then Some (OK200 (NssGroups (allGroups l d)))
      else None)"

definition nss_serve ::
  "(gostring \<Rightarrow> gostring) \<Rightarrow> (bytes \<Rightarrow> bytes \<Rightarrow> bool) \<Rightarrow> (bytes \<Rightarrow> bytes) \<Rightarrow> gostring \<Rightarrow> id_layout \<Rightarrow>
   gostring \<Rightarrow> gostring \<Rightarrow> db \<Rightarrow> nss_body reply option" where
  "nss_serve H E U hash l header path d = map_option (nssAuth H E hash header) (nss_route U l path d)"

section \<open>What a loaded layout guarantees\<close>

lemma valid_layout:
  assumes "Validate l = None"
  shows "il_admin_uid l < il_uid_base l" "il_alias_uid l < il_uid_base l" "il_alias_uid l \<noteq> il_admin_uid l"
    "il_admin_gid l < il_gid_base l" "il_shared_gid l < il_gid_base l" "il_admin_gid l \<noteq> il_shared_gid l"
    "il_uid_base l \<le> il_max l" "il_gid_base l \<le> il_max l"
  using assms
  by (auto simp: Validate_def bounded_fields_def not_le not_less split: if_splits option.splits)

lemma fixed_uids:
  assumes "Validate l = None"
  shows "unat (il_admin_uid l) < unat (il_uid_base l)" "unat (il_alias_uid l) < unat (il_uid_base l)"
    "unat (il_alias_uid l) \<noteq> unat (il_admin_uid l)"
  using valid_layout(1,2) [OF assms] valid_layout(3) [OF assms, unfolded word_unat_eq_iff]
  by (simp_all only: word_less_nat_alt not_False_eq_True)

lemma parse_uint32_bound: "parse_uint32 s = Some v \<Longrightarrow> v < 2 ^ 32"
  by (auto simp: parse_uint32_def split: if_splits)

definition small_max :: "id_layout \<Rightarrow> bool" where
  "small_max l \<longleftrightarrow> unat (il_max l) < 2 ^ 32"

lemma small_of_nat: "v < 2 ^ 32 \<Longrightarrow> unat (of_nat v :: uid) < 2 ^ 32"
  by (simp add: unat_of_nat)

definition keeps_small :: "(uid \<Rightarrow> id_layout \<Rightarrow> id_layout) \<Rightarrow> bool" where
  "keeps_small set_field \<longleftrightarrow> (\<forall>v l. unat v < 2 ^ 32 \<longrightarrow> small_max l \<longrightarrow> small_max (set_field v l))"

lemma load_fields_small:
  assumes "load_fields lookup fs l = Inr l'" "small_max l" "list_all (\<lambda>(env, set_field). keeps_small set_field) fs"
  shows "small_max l'"
  using assms
proof (induction lookup fs l rule: load_fields.induct)
  case (2 lookup env set_field fs l)
  have "small_max (set_field (of_nat v) l)" if "parse_uint32 raw = Some v" for raw v
    using 2(5,6) small_of_nat [OF parse_uint32_bound [OF that]] by (simp add: keeps_small_def)
  then show ?case using 2 by (auto split: option.splits if_splits)
qed simp

lemma loaded_layout:
  assumes "LoadIDLayout lookup = Inr l"
  shows "Validate l = None" "small_max l"
proof -
  show "Validate l = None" using assms by (auto simp: LoadIDLayout_def split: sum.splits option.splits)
  have "load_fields lookup layout_fields DefaultIDLayout = Inr l"
    using assms by (auto simp: LoadIDLayout_def split: sum.splits option.splits)
  moreover have "small_max DefaultIDLayout" by (simp add: small_max_def DefaultIDLayout_def)
  ultimately show "small_max l"
    by (rule load_fields_small) (simp add: layout_fields_def keeps_small_def small_max_def)
qed

lemma uid_base_small: "Validate l = None \<Longrightarrow> small_max l \<Longrightarrow> unat (il_uid_base l) < 2 ^ 32"
  using valid_layout(7) [of l] by (simp add: small_max_def word_le_nat_alt)

lemma unat_row: "0 \<le> i \<Longrightarrow> i < 2 ^ 63 \<Longrightarrow> unat (word_of_int i :: uid) = nat i"
  by (simp add: unat_eq_nat_uint uint_word_of_int_eq take_bit_eq_mod)

text \<open>The uid of a row does not wrap.\<close>

lemma unat_UIDFor:
  assumes "Validate l = None" "small_max l" "0 \<le> i" "i < 2 ^ 63"
  shows "unat (UIDFor l i) = unat (il_uid_base l) + nat i"
proof -
  have "nat i + unat (il_uid_base l) < 2 ^ 64"
    using uid_base_small [OF assms(1,2)] assms(3,4) by simp
  then show ?thesis
    using unat_row [OF assms(3,4)] by (simp add: UIDFor_def unat_word_ariths)
qed

section \<open>A uid identifies the account\<close>

text \<open>What a login name stands for.\<close>

datatype account = Administrator | NoAccount | ClientAccount int

definition account_of :: "(bytes \<Rightarrow> bytes) \<Rightarrow> db \<Rightarrow> gostring \<Rightarrow> account" where
  "account_of U d name =
     (if NamesEqual U name AdminUser then Administrator
      else case GetClientByName U name d of Inl _ \<Rightarrow> NoAccount | Inr c \<Rightarrow> ClientAccount (c_id c))"

text \<open>Row ids are positive and fit an int64, as both databases assign them.\<close>

definition rowids_ok :: "db \<Rightarrow> bool" where
  "rowids_ok d = list_all (\<lambda>c. 0 < c_id c \<and> c_id c < 2 ^ 63) (d_clients d)"

lemma trim_prefix_append [simp]: "trim_prefix p (p @ s) = s"
  by (simp add: trim_prefix_def has_prefix_def)

lemma client_by_name: "GetClientByName U name d = Inr c \<Longrightarrow> c \<in> set (d_clients d)"
  by (auto simp: GetClientByName_def dest: find_in split: option.splits)

text \<open>The entry a name is served as, by its account.\<close>

lemma served_user:
  assumes "handleUserByName U l (user_name_path @ name) d = OK200 u"
  shows "account_of U d name = Administrator \<and> u = adminUserAs l name \<or>
    account_of U d name = NoAccount \<and> u = aliasUser l name \<and> ValidLoginName name \<or>
    (\<exists>c \<in> set (d_clients d). account_of U d name = ClientAccount (c_id c) \<and> u = UserFor l c \<and> InRange l (us_uid u))"
  using assms client_by_name [of U name d]
  by (auto simp: handleUserByName_def account_of_def writeAdminAlias_def not_found_def internal_error_def Let_def
      split: if_splits sum.splits)

lemma uid_of_account:
  assumes "Validate l = None" "small_max l" "rowids_ok d"
    "handleUserByName U l (user_name_path @ name) d = OK200 u"
  shows "unat (us_uid u) =
    (case account_of U d name of
       Administrator \<Rightarrow> unat (il_admin_uid l) | NoAccount \<Rightarrow> unat (il_alias_uid l)
     | ClientAccount i \<Rightarrow> unat (il_uid_base l) + nat i)"
    "account_of U d name = ClientAccount i \<Longrightarrow> 0 < i"
  using served_user [OF assms(4)] assms(3) unat_UIDFor [OF assms(1,2)]
  by (auto simp: adminUserAs_def aliasUser_def UserFor_def rowids_ok_def list_all_iff)

text \<open>C19: Under every layout the server starts with, two login names that resolve get the same uid
  exactly when they stand for the same account: the administrator, the same client, or none at all;
  and only the administrator's name gets the administrator's group.\<close>

theorem uid_identifies_account:
  assumes "LoadIDLayout env = Inr l" "rowids_ok d"
    "handleUserByName U l (user_name_path @ name) d = OK200 u"
    "handleUserByName U l (user_name_path @ name') d = OK200 u'"
  shows "(us_uid u = us_uid u' \<longleftrightarrow> account_of U d name = account_of U d name') \<and>
         (us_gid u = il_admin_gid l \<longleftrightarrow> account_of U d name = Administrator)"
proof -
  note ok = loaded_layout [OF assms(1)]
  note v = valid_layout [OF ok(1)]
  note below = fixed_uids [OF ok(1)]
  have "us_uid u = us_uid u' \<longleftrightarrow> unat (us_uid u) = unat (us_uid u')" by (rule word_unat_eq_iff)
  also have "\<dots> \<longleftrightarrow> account_of U d name = account_of U d name'"
    using uid_of_account [OF ok assms(2,3)] uid_of_account [OF ok assms(2,4)] below
    by (auto split: account.splits)
  finally show ?thesis using served_user [OF assms(3)] v(6)
    by (auto simp: adminUserAs_def aliasUser_def UserFor_def)
qed

section \<open>A uid leads back to its account\<close>

lemma parse_own_digits: "n < 2 ^ 32 \<Longrightarrow> parse_uint32 (nat_digits n) = Some n"
  by (simp add: parse_uint32_def nat_digits_all_digits)

lemma user_uid: "us_uid (UserFor l c) = UIDFor l (c_id c)"
  by (simp add: UserFor_def)

lemma uid_in_range:
  assumes "Validate l = None" "small_max l" "handleUserByName U l (user_name_path @ name) d = OK200 u"
  shows "unat (us_uid u) < 2 ^ 32"
proof -
  have "us_uid u \<le> il_max l"
    using served_user [OF assms(3)] valid_layout(1,2,7) [OF assms(1)]
    by (auto simp: adminUserAs_def aliasUser_def InRange_def)
  then show ?thesis using assms(2) by (simp add: small_max_def word_le_nat_alt)
qed

text \<open>C20: The uid a login name is served with resolves: to the very entry of the client the name
  belongs to, to the administrator's entry for the administrator, to the shared login entry for a
  name that is no account.\<close>

theorem uid_resolves_back:
  assumes "LoadIDLayout env = Inr l" "db_inv d" "rowids_ok d"
    "handleUserByName U l (user_name_path @ name) d = OK200 u"
  shows "handleUserByUID l (user_uid_path @ nat_digits (unat (us_uid u))) d =
    OK200 (case account_of U d name of
             Administrator \<Rightarrow> adminUser l | NoAccount \<Rightarrow> aliasUser l AliasUser | ClientAccount _ \<Rightarrow> u)"
proof -
  note ok = loaded_layout [OF assms(1)]
  note v = valid_layout [OF ok(1)]
  note below = fixed_uids [OF ok(1)]
  note parsed = parse_own_digits [OF uid_in_range [OF ok assms(4)]]
  note uid = uid_of_account [OF ok assms(3,4)]
  have by_uid: "handleUserByUID l (user_uid_path @ nat_digits (unat (us_uid u))) d =
    (if unat (us_uid u) = unat (il_alias_uid l) then OK200 (aliasUser l AliasUser)
     else if unat (us_uid u) = unat (il_admin_uid l) then OK200 (adminUser l)
     else if unat (us_uid u) < unat (il_uid_base l) then not_found
     else case find (\<lambda>c. unat (us_uid (UserFor l c)) = unat (us_uid u)) (ListClients d) of
            Some c \<Rightarrow> OK200 (UserFor l c) | None \<Rightarrow> not_found)"
    by (simp add: handleUserByUID_def parsed)
  show ?thesis
  proof (cases "account_of U d name")
    case (ClientAccount i)
    then obtain c where c: "c \<in> set (d_clients d)" "i = c_id c" "u = UserFor l c"
      using served_user [OF assms(4)] by auto
    have same: "c' = c" if "c' \<in> set (d_clients d)" "unat (us_uid (UserFor l c')) = unat (us_uid u)" for c'
    proof -
      have ids: "unat (UIDFor l (c_id x)) = unat (il_uid_base l) + nat (c_id x)" if "x \<in> set (d_clients d)" for x
        using that assms(3) by (intro unat_UIDFor [OF ok]) (auto simp: rowids_ok_def list_all_iff)
      have "nat (c_id c') = nat (c_id c)"
        using that(2) ids [OF that(1)] ids [OF c(1)] by (simp add: c(3) user_uid)
      then have "c_id c' = c_id c" using that(1) c(1) assms(3) by (auto simp: rowids_ok_def list_all_iff)
      then show ?thesis
        using distinct_map_eq [of c_id "d_clients d"] that(1) c(1) assms(2) by (simp add: db_inv_def table_ok_def)
    qed
    have "find (\<lambda>c'. unat (us_uid (UserFor l c')) = unat (us_uid u)) (ListClients d) = Some c"
      unfolding ListClients_def by (rule find_unique [OF c(1)]) (use c(3) same in auto)
    moreover have "unat (us_uid u) \<noteq> unat (il_alias_uid l)" "unat (us_uid u) \<noteq> unat (il_admin_uid l)"
      "\<not> unat (us_uid u) < unat (il_uid_base l)"
      using uid(1) below by (simp_all add: ClientAccount)
    ultimately show ?thesis by (simp add: by_uid ClientAccount flip: c(3))
  next
    case Administrator
    then have "unat (us_uid u) = unat (il_admin_uid l)" using uid(1) by simp
    then show ?thesis unfolding by_uid using below Administrator by simp
  next
    case NoAccount
    then have "unat (us_uid u) = unat (il_alias_uid l)" using uid(1) by simp
    then show ?thesis unfolding by_uid using NoAccount by simp
  qed
qed

section \<open>The directory is closed without its token\<close>

text \<open>The directory answers only the token it was given: without one configured, or for a
  request whose bearer token does not hash to the configured token's hash, every route of the
  directory gives the same 401, whatever the path asks and the tables hold.\<close>

theorem nss_routes_need_token:
  assumes "token = '''' \<or> (\<forall>t. withBearerToken E header = Some t \<longrightarrow> H t \<noteq> H token)"
    "nss_route U l path d \<noteq> None"
  shows "nss_serve H E U (WithNSSToken H token) l header path d = Some (Unauthorized401 ''unauthorized'')"
  using assms
  by (auto simp: nss_serve_def WithNSSToken_def nssAuth_def split: option.split)

section \<open>A small directory\<close>

definition alice_db :: db where
  "alice_db = empty_db\<lparr>d_clients := [\<lparr>c_id = 1, c_name = ''alice'', c_keys = [], c_groups = []\<rparr>], d_seq_client := 2\<rparr>"

lemma default_loads: "LoadIDLayout (\<lambda>_. None) = Inr DefaultIDLayout"
  by code_simp

lemma alice_ok: "rowids_ok alice_db" "db_inv alice_db"
  by (simp_all add: rowids_ok_def alice_db_def db_inv_def empty_db_def table_ok_def)

lemma alice_served:
  "handleUserByName id DefaultIDLayout (user_name_path @ ''Alice'') alice_db =
     OK200 (UserFor DefaultIDLayout \<lparr>c_id = 1, c_name = ''alice'', c_keys = [], c_groups = []\<rparr>)"
  "handleUserByName id DefaultIDLayout (user_name_path @ ''web@rome'') alice_db = OK200 (aliasUser DefaultIDLayout ''web@rome'')"
  by code_simp+

theorem uid_identifies_account_witness:
  "us_uid (UserFor DefaultIDLayout \<lparr>c_id = 1, c_name = ''alice'', c_keys = [], c_groups = []\<rparr>) \<noteq>
   us_uid (aliasUser DefaultIDLayout ''web@rome'')"
proof -
  have "account_of id alice_db ''Alice'' \<noteq> account_of id alice_db ''web@rome''" by code_simp
  then show ?thesis
    using conjunct1 [OF uid_identifies_account [OF default_loads alice_ok(1) alice_served]] by simp
qed

theorem uid_resolves_back_witness:
  "handleUserByUID DefaultIDLayout (user_uid_path @ ''20001'') alice_db =
     OK200 (UserFor DefaultIDLayout \<lparr>c_id = 1, c_name = ''alice'', c_keys = [], c_groups = []\<rparr>)"
proof -
  have "account_of id alice_db ''Alice'' = ClientAccount 1" by code_simp
  moreover have "us_uid (UserFor DefaultIDLayout \<lparr>c_id = 1, c_name = ''alice'', c_keys = [], c_groups = []\<rparr>) = 20001"
    by (simp add: UserFor_def UIDFor_def DefaultIDLayout_def)
  moreover have "nat_digits 20001 = ''20001''" by (simp add: nat_digits.simps digit_char_def)
  ultimately show ?thesis
    using uid_resolves_back [OF default_loads alice_ok(2,1) alice_served(1)] by simp
qed

theorem nss_routes_need_token_witness:
  "nss_serve id (=) id (WithNSSToken id ''secret'') DefaultIDLayout ''Bearer wrong'' ''/users'' alice_db =
     Some (Unauthorized401 ''unauthorized'')"
proof -
  have "withBearerToken (=) ''Bearer wrong'' = Some ''wrong''" by code_simp
  moreover have "nss_route id DefaultIDLayout ''/users'' alice_db \<noteq> None" by code_simp
  ultimately show ?thesis
    using nss_routes_need_token [of "''secret''" "(=)" "''Bearer wrong''" id id DefaultIDLayout "''/users''" alice_db] by simp
qed

end
