(* ===== verification/CliCommands.thy ===== *)
theory CliCommands
  imports CliProgram Directory
begin

text \<open>
  The administrator's commands: \<open>internal/cli/policy.go\<close>, \<open>access.go\<close>, \<open>client.go\<close>,
  \<open>group.go\<close>, \<open>adminkey.go\<close>, \<open>guest.go\<close>, \<open>discover.go\<close>, \<open>names.go\<close> and \<open>keys.go\<close>. A
  command is a function of its flags; the command-line library that reads them, the JSON encoder,
  the quoting of \<open>%q\<close> and the parser of \<open>authorized_keys\<close> entries are arguments.
\<close>

record cli_env =
  ce_fold :: "bytes \<Rightarrow> bytes"
  ce_quote :: "gostring \<Rightarrow> gostring"
  ce_json :: "answer list \<Rightarrow> gostring"
  ce_parse_key :: "gostring \<Rightarrow> gostring + nat \<times> gostring list"

section \<open>Printing\<close>

definition newline :: gostring where "newline = [CHR 0x0A]"

text \<open>\<open>%-ns\<close>: padded on the right to a number of runes.\<close>

definition pad :: "nat \<Rightarrow> gostring \<Rightarrow> gostring" where
  "pad n s = s @ replicate (n - length (runes s)) CHR '' ''"

definition say_line :: "gostring \<Rightarrow> prog \<Rightarrow> prog" where
  "say_line t p = Say (t @ newline) p"

definition say_lines :: "gostring list \<Rightarrow> prog \<Rightarrow> prog" where
  "say_lines ts p = foldr say_line ts p"

definition by_id_text :: "int \<Rightarrow> gostring" where
  "by_id_text i = ''(id:'' @ itoa i @ '')''"

text \<open>A map filled from a list, its last entry for a key winning, read with \<open>""\<close> for a missing key.\<close>

definition name_of :: "(int \<times> gostring) list \<Rightarrow> int \<Rightarrow> gostring" where
  "name_of kvs i = (case map_of (rev kvs) i of None \<Rightarrow> '''' | Some n \<Rightarrow> n)"

definition name_or_id :: "(int \<times> gostring) list \<Rightarrow> int \<Rightarrow> gostring" where
  "name_or_id kvs i = (if name_of kvs i = '''' then by_id_text i else name_of kvs i)"

definition client_names :: "client_row list \<Rightarrow> (int \<times> gostring) list" where
  "client_names cs = map (\<lambda>c. (c_id c, c_name c)) cs"

definition group_names :: "group_row list \<Rightarrow> (int \<times> gostring) list" where
  "group_names gs = map (\<lambda>g. (gr_id g, gr_name g)) gs"

definition instance_names :: "instance_row list \<Rightarrow> (int \<times> gostring) list" where
  "instance_names is = map (\<lambda>i. (in_id i, in_name i)) is"

section \<open>Asking the repository\<close>

text \<open>The value of an answer of the expected kind.\<close>

fun as_clients :: "answer \<Rightarrow> client_row list" where
  "as_clients (Clients cs) = cs" | "as_clients _ = []"

fun as_groups :: "answer \<Rightarrow> group_row list" where
  "as_groups (Groups gs) = gs" | "as_groups _ = []"

fun as_guests :: "answer \<Rightarrow> guest_row list" where
  "as_guests (Guests gs) = gs" | "as_guests _ = []"

fun as_instances :: "answer \<Rightarrow> instance_row list" where
  "as_instances (Instances is) = is" | "as_instances _ = []"

fun as_rules :: "answer \<Rightarrow> rule_row list" where
  "as_rules (Rules rs) = rs" | "as_rules _ = []"

fun as_policy :: "answer \<Rightarrow> default_policy" where
  "as_policy (APolicy p) = p" | "as_policy _ = no_policy"

fun as_texts :: "answer \<Rightarrow> gostring list" where
  "as_texts (Texts ts) = ts" | "as_texts _ = []"

fun client_answer_id :: "answer \<Rightarrow> int" where
  "client_answer_id (AClient c) = c_id c" | "client_answer_id _ = 0"

definition ask_clients :: "(client_row list \<Rightarrow> prog) \<Rightarrow> prog" where
  "ask_clients k = Ask ListClientsOp id (k \<circ> as_clients)"

definition ask_groups :: "(group_row list \<Rightarrow> prog) \<Rightarrow> prog" where
  "ask_groups k = Ask ListGroupsOp id (k \<circ> as_groups)"

definition ask_guests :: "(guest_row list \<Rightarrow> prog) \<Rightarrow> prog" where
  "ask_guests k = Ask ListGuestsOp id (k \<circ> as_guests)"

definition ask_instances :: "(instance_row list \<Rightarrow> prog) \<Rightarrow> prog" where
  "ask_instances k = Ask ListProxmoxInstancesOp id (k \<circ> as_instances)"

text \<open>\<open>rows, _ := deps.Repo.List...\<close>: a failure leaves the list empty.\<close>

definition or_empty :: "(answer \<Rightarrow> 'r list) \<Rightarrow> answer option \<Rightarrow> 'r list" where
  "or_empty f a = (case a of None \<Rightarrow> [] | Some a \<Rightarrow> f a)"

definition try_clients :: "(client_row list \<Rightarrow> prog) \<Rightarrow> prog" where
  "try_clients k = Try ListClientsOp (k \<circ> or_empty as_clients)"

definition try_groups :: "(group_row list \<Rightarrow> prog) \<Rightarrow> prog" where
  "try_groups k = Try ListGroupsOp (k \<circ> or_empty as_groups)"

definition try_guests :: "(guest_row list \<Rightarrow> prog) \<Rightarrow> prog" where
  "try_guests k = Try ListGuestsOp (k \<circ> or_empty as_guests)"

definition try_instances :: "(instance_row list \<Rightarrow> prog) \<Rightarrow> prog" where
  "try_instances k = Try ListProxmoxInstancesOp (k \<circ> or_empty as_instances)"

definition finish :: prog where "finish = Return None"

definition perform :: "repo_op \<Rightarrow> prog \<Rightarrow> prog" where
  "perform op p = Ask op id (\<lambda>_. p)"

definition not_found_text :: "cli_env \<Rightarrow> gostring \<Rightarrow> gostring \<Rightarrow> gostring" where
  "not_found_text env kind name = kind @ '' '' @ ce_quote env name @ '' not found''"

definition one_subject :: gostring where
  "one_subject = ''specify exactly one of --client or --group''"

definition is_json :: "gostring \<Rightarrow> bool" where "is_json fmt = (fmt = ''json'')"

section \<open>The default policy\<close>

definition appendUnique :: "int list \<Rightarrow> int \<Rightarrow> int list" where
  "appendUnique ids i = (if i \<in> set ids then ids else ids @ [i])"

definition removeInt64 :: "int list \<Rightarrow> int \<Rightarrow> int list" where
  "removeInt64 ids i = filter (\<lambda>x. x \<noteq> i) ids"

definition resolveSubject :: "cli_env \<Rightarrow> gostring \<Rightarrow> gostring \<Rightarrow> (rule_type \<Rightarrow> int \<Rightarrow> prog) \<Rightarrow> prog" where
  "resolveSubject env clientName groupName k =
     (if clientName \<noteq> ''''
      then Ask (GetClientByNameOp clientName) (\<lambda>_. not_found_text env ''client'' clientName)
             (\<lambda>a. k RuleClient (client_answer_id a))
      else ask_groups (\<lambda>groups.
             case find (\<lambda>g. NamesEqual (ce_fold env) (gr_name g) groupName) groups of
               Some g \<Rightarrow> k RuleGroup (gr_id g)
             | None \<Rightarrow> Fail (not_found_text env ''group'' groupName)))"

definition policy_ls :: "cli_env \<Rightarrow> gostring \<Rightarrow> prog" where
  "policy_ls env fmt =
     Ask GetDefaultPolicyOp id (\<lambda>a.
       let policy = as_policy a in
       if is_json fmt then Say (ce_json env [APolicy policy]) finish
       else if dp_clients policy = [] \<and> dp_groups policy = []
       then say_line ''Default policy: deny all (no entries).'' finish
       else try_clients (\<lambda>clients. try_groups (\<lambda>groups.
              say_lines (map (\<lambda>i. ''client  '' @ name_or_id (client_names clients) i) (dp_clients policy) @
                         map (\<lambda>i. ''group   '' @ name_or_id (group_names groups) i) (dp_groups policy)) finish)))"

definition policy_add :: "cli_env \<Rightarrow> gostring \<Rightarrow> gostring \<Rightarrow> prog" where
  "policy_add env clientName groupName =
     (if (clientName = '''') = (groupName = '''') then Fail one_subject
      else Ask GetDefaultPolicyOp id (\<lambda>a.
        let policy = as_policy a in
        resolveSubject env clientName groupName (\<lambda>ty subj.
          if ty = RuleClient
          then say_line (''Client '' @ ce_quote env clientName @ '' added to default policy.'')
                 (perform (SetDefaultPolicyOp (policy\<lparr>dp_clients := appendUnique (dp_clients policy) subj\<rparr>)) finish)
          else say_line (''Group '' @ ce_quote env groupName @ '' added to default policy.'')
                 (perform (SetDefaultPolicyOp (policy\<lparr>dp_groups := appendUnique (dp_groups policy) subj\<rparr>)) finish))))"

definition policy_rm :: "cli_env \<Rightarrow> gostring \<Rightarrow> gostring \<Rightarrow> prog" where
  "policy_rm env clientName groupName =
     (if (clientName = '''') = (groupName = '''') then Fail one_subject
      else Ask GetDefaultPolicyOp id (\<lambda>a.
        let policy = as_policy a in
        resolveSubject env clientName groupName (\<lambda>ty subj.
          if ty = RuleClient
          then say_line (''Client '' @ ce_quote env clientName @ '' removed from default policy.'')
                 (perform (SetDefaultPolicyOp (policy\<lparr>dp_clients := removeInt64 (dp_clients policy) subj\<rparr>)) finish)
          else say_line (''Group '' @ ce_quote env groupName @ '' removed from default policy.'')
                 (perform (SetDefaultPolicyOp (policy\<lparr>dp_groups := removeInt64 (dp_groups policy) subj\<rparr>)) finish))))"

section \<open>Access rules\<close>

definition rule_line :: "gostring \<Rightarrow> gostring \<Rightarrow> gostring \<Rightarrow> gostring \<Rightarrow> gostring" where
  "rule_line ty subj kind target = pad 8 ty @ '' '' @ pad 20 subj @ '' '' @ pad 8 kind @ '' '' @ pad 30 target"

definition guest_names :: "guest_row list \<Rightarrow> (int \<times> gostring) list" where
  "guest_names gs = map (\<lambda>g. (g_id g, g_name g @ '' ('' @ g_type g @ itoa (g_vmid g) @ '')'')) gs"

definition subject_of :: "client_row list \<Rightarrow> group_row list \<Rightarrow> rule_row \<Rightarrow> gostring" where
  "subject_of clients groups r =
     (case r_type r of
        RuleClient \<Rightarrow> name_or_id (client_names clients) (r_subject r)
      | RuleGroup \<Rightarrow> name_or_id (group_names groups) (r_subject r))"

definition listAccessRules :: "cli_env \<Rightarrow> gostring \<Rightarrow> prog" where
  "listAccessRules env fmt =
     Ask (ListAccessRulesOp None) id (\<lambda>a. Ask (ListInstanceAccessRulesOp None) id (\<lambda>b.
       let rules = as_rules a; instRules = as_rules b in
       if is_json fmt then Say (ce_json env [Rules rules, Rules instRules]) finish
       else if rules = [] \<and> instRules = [] then say_line ''No access rules configured.'' finish
       else try_clients (\<lambda>clients. try_groups (\<lambda>groups. try_guests (\<lambda>guests. try_instances (\<lambda>instances.
         say_lines
           (rule_line ''TYPE'' ''SUBJECT'' ''KIND'' ''TARGET'' #
            map (\<lambda>r. rule_line (rule_type_name (r_type r)) (subject_of clients groups r) ''guest''
                       (name_or_id (guest_names guests) (r_target r))) rules @
            map (\<lambda>r. rule_line (rule_type_name (r_type r)) (subject_of clients groups r) ''node''
                       (name_or_id (instance_names instances) (r_target r))) instRules) finish))))))"

definition resolve_error_text :: "cli_env \<Rightarrow> resolve_error \<Rightarrow> gostring" where
  "resolve_error_text env e =
     (case e of
        InstanceNotFound n \<Rightarrow> not_found_text env ''instance'' n
      | ErrGuestNotFound n \<Rightarrow> ''guest not found: '' @ ce_quote env n
      | Ambiguous n hints \<Rightarrow>
          ce_quote env n @ '' matches '' @ itoa (int (length hints)) @ '' guests: '' @ go_join '', '' hints
      | GuestInstanceMissing n \<Rightarrow> ''proxmox instance for guest '' @ ce_quote env n @ '' not found'')"

definition resolve_target ::
  "cli_env \<Rightarrow> guest_row list \<Rightarrow> instance_row list \<Rightarrow> gostring \<Rightarrow> resolve_error + guest_row \<times> instance_row" where
  "resolve_target env guests instances ident =
     (let (instName, identifier) = ParseGuestTarget ident (Some (InstanceLookup (ce_fold env) instances))
      in ResolveGuestAndInstance (ce_fold env) identifier instName guests instances)"

text \<open>The loops of the two resolvers: the first failure ends the command.\<close>

fun resolve_each ::
  "(gostring \<Rightarrow> gostring + int \<times> gostring) \<Rightarrow> gostring list \<Rightarrow> gostring + (int \<times> gostring) list" where
  "resolve_each f [] = Inr []"
| "resolve_each f (x # xs) =
     (case f x of
        Inl e \<Rightarrow> Inl e
      | Inr y \<Rightarrow> map_sum id (\<lambda>ys. y # ys) (resolve_each f xs))"

definition guest_target ::
  "cli_env \<Rightarrow> guest_row list \<Rightarrow> instance_row list \<Rightarrow> gostring \<Rightarrow> gostring + int \<times> gostring" where
  "guest_target env guests instances ident =
     map_sum (resolve_error_text env) (\<lambda>(g, i). (g_id g, g_name g)) (resolve_target env guests instances ident)"

definition instance_target :: "cli_env \<Rightarrow> instance_row list \<Rightarrow> gostring \<Rightarrow> gostring + int \<times> gostring" where
  "instance_target env instances name =
     (case find (\<lambda>i. NamesEqual (ce_fold env) (in_name i) name) instances of
        Some i \<Rightarrow> Inr (in_id i, in_name i)
      | None \<Rightarrow> Inl (not_found_text env ''instance'' name))"

definition resolveGuestIdentifiers ::
  "cli_env \<Rightarrow> gostring list \<Rightarrow> ((int \<times> gostring) list \<Rightarrow> prog) \<Rightarrow> prog" where
  "resolveGuestIdentifiers env idents k =
     ask_guests (\<lambda>guests. ask_instances (\<lambda>instances.
       case resolve_each (guest_target env guests instances) idents of Inl e \<Rightarrow> Fail e | Inr ts \<Rightarrow> k ts))"

definition resolveInstanceNames ::
  "cli_env \<Rightarrow> gostring list \<Rightarrow> ((int \<times> gostring) list \<Rightarrow> prog) \<Rightarrow> prog" where
  "resolveInstanceNames env names k =
     ask_instances (\<lambda>instances.
       case resolve_each (instance_target env instances) names of Inl e \<Rightarrow> Fail e | Inr ts \<Rightarrow> k ts)"

definition targetsFrom ::
  "cli_env \<Rightarrow> gostring list \<Rightarrow> gostring list \<Rightarrow> ((int \<times> gostring) list \<Rightarrow> (int \<times> gostring) list \<Rightarrow> prog) \<Rightarrow> prog" where
  "targetsFrom env guestIdents instIdents k =
     (if guestIdents = [] \<and> instIdents = [] then Fail ''specify at least one --guest or --instance''
      else let nodes = (\<lambda>gs. if instIdents = [] then k gs [] else resolveInstanceNames env instIdents (k gs))
           in if guestIdents = [] then nodes [] else resolveGuestIdentifiers env guestIdents nodes)"

definition findGroupByName :: "cli_env \<Rightarrow> gostring \<Rightarrow> (group_row \<Rightarrow> prog) \<Rightarrow> prog" where
  "findGroupByName env name k =
     ask_groups (\<lambda>groups.
       case find (\<lambda>g. NamesEqual (ce_fold env) (gr_name g) name) groups of
         Some g \<Rightarrow> k g
       | None \<Rightarrow> Fail (not_found_text env ''group'' name))"

definition subjectFrom ::
  "cli_env \<Rightarrow> gostring \<Rightarrow> gostring \<Rightarrow> (int \<Rightarrow> rule_type \<Rightarrow> gostring \<Rightarrow> prog) \<Rightarrow> prog" where
  "subjectFrom env clientName groupName k =
     (if (clientName = '''') = (groupName = '''') then Fail one_subject
      else if clientName \<noteq> ''''
      then Ask (GetClientByNameOp clientName) (\<lambda>e. ''client '' @ ce_quote env clientName @ '': '' @ e)
             (\<lambda>a. k (client_answer_id a) RuleClient clientName)
      else findGroupByName env groupName (\<lambda>g. k (gr_id g) RuleGroup groupName))"

definition access_line :: "cli_env \<Rightarrow> gostring \<Rightarrow> rule_type \<Rightarrow> gostring \<Rightarrow> gostring \<Rightarrow> gostring \<Rightarrow> gostring" where
  "access_line env verb ty subj target name =
     verb @ '' '' @ rule_type_name ty @ '' '' @ ce_quote env subj @ '' access to '' @ target @ name @ ''.''"

definition grantAccess_cmd ::
  "cli_env \<Rightarrow> gostring \<Rightarrow> gostring \<Rightarrow> gostring list \<Rightarrow> gostring list \<Rightarrow> prog" where
  "grantAccess_cmd env clientName groupName guestIdents instIdents =
     subjectFrom env clientName groupName (\<lambda>subj ty name.
     targetsFrom env guestIdents instIdents (\<lambda>guests nodes.
       let grant_nodes =
             (if nodes = [] then finish
              else perform (GrantInstanceOp ty subj (map fst nodes))
                     (say_lines (map (access_line env ''Granted'' ty name ''node '' \<circ> snd) nodes) finish))
       in if guests = [] then grant_nodes
          else perform (GrantOp ty subj (map fst guests))
                 (say_lines (map (access_line env ''Granted'' ty name '''' \<circ> snd) guests) grant_nodes)))"

definition revoke_each :: "(int \<Rightarrow> repo_op) \<Rightarrow> (gostring \<Rightarrow> gostring) \<Rightarrow> (int \<times> gostring) list \<Rightarrow> prog \<Rightarrow> prog" where
  "revoke_each op line ts p = foldr (\<lambda>(i, name) p. perform (op i) (say_line (line name) p)) ts p"

definition revokeAccess_cmd ::
  "cli_env \<Rightarrow> gostring \<Rightarrow> gostring \<Rightarrow> gostring list \<Rightarrow> gostring list \<Rightarrow> prog" where
  "revokeAccess_cmd env clientName groupName guestIdents instIdents =
     subjectFrom env clientName groupName (\<lambda>subj ty name.
     targetsFrom env guestIdents instIdents (\<lambda>guests nodes.
       revoke_each (RevokeOp ty subj) (access_line env ''Revoked'' ty name '''') guests
         (revoke_each (RevokeInstanceOp ty subj) (access_line env ''Revoked'' ty name ''node '') nodes finish)))"

section \<open>Names and keys\<close>

definition ReservedAdminName :: gostring where "ReservedAdminName = ''admin''"

definition ValidateClientName :: "cli_env \<Rightarrow> gostring \<Rightarrow> gostring option" where
  "ValidateClientName env name =
     (if name = '''' then Some ''client name must not be empty''
      else if NamesEqual (ce_fold env) name ReservedAdminName
      then Some (''client name '' @ ce_quote env name @ '' is reserved for administrators'')
      else if length name > MaxLoginNameLen then Some ''client name must be at most 256 characters''
      else if \<not> ValidLoginName name
      then Some (''client name '' @ ce_quote env name @
                 '' is invalid: use letters, digits, '' @ [CHR 0x27, CHR ''_'', CHR 0x27] @ '' and '' @
                 [CHR 0x27, CHR ''-'', CHR 0x27] @ '', starting with a letter'')
      else None)"

definition ValidatePublicKey :: "cli_env \<Rightarrow> gostring \<Rightarrow> gostring + gostring" where
  "ValidatePublicKey env raw =
     (let key = trim_space raw in
      if key = '''' then Inl ''public key must not be empty''
      else if contains_any key [CHR 0x0A, CHR 0x0D] then Inl ''public key must be a single line; pass one --key per key''
      else if CHR 0x00 \<in> set key then Inl ''public key must not contain NUL''
      else case ce_parse_key env key of
             Inl e \<Rightarrow> Inl (''invalid public key: '' @ e)
           | Inr (rest, options) \<Rightarrow>
               if rest > 0
               then Inl (''public key must be a single entry; '' @ itoa (int rest) @ '' trailing bytes found'')
               else if options \<noteq> []
               then Inl (''authorized_keys options are not allowed on a proxpass key (found '' @
                         ce_quote env (go_join '','' options) @ '')'')
               else Inr key)"

section \<open>Clients\<close>

text \<open>The keys of \<open>client add\<close>: blank ones are skipped, the first bad one ends the command.\<close>

fun valid_keys :: "cli_env \<Rightarrow> gostring list \<Rightarrow> gostring + gostring list" where
  "valid_keys env [] = Inr []"
| "valid_keys env (k # ks) =
     (if trim_space k = '''' then valid_keys env ks
      else case ValidatePublicKey env k of
             Inl e \<Rightarrow> Inl (''invalid --key: '' @ e)
           | Inr v \<Rightarrow> map_sum id (\<lambda>vs. v # vs) (valid_keys env ks))"

definition count_text :: "'a list \<Rightarrow> gostring" where "count_text xs = itoa (int (length xs))"

definition client_ls :: "cli_env \<Rightarrow> gostring \<Rightarrow> prog" where
  "client_ls env fmt =
     ask_clients (\<lambda>clients.
       if is_json fmt then Say (ce_json env [Clients clients]) finish
       else if clients = [] then say_line ''No clients configured.'' finish
       else say_lines (map (\<lambda>c. pad 20 (c_name c) @ ''  '' @ count_text (c_keys c) @ '' key(s)  '' @
                                count_text (c_groups c) @ '' group(s)'') clients) finish)"

definition client_add :: "cli_env \<Rightarrow> gostring \<Rightarrow> gostring list \<Rightarrow> prog" where
  "client_add env name keys =
     (case ValidateClientName env name of
        Some e \<Rightarrow> Fail e
      | None \<Rightarrow>
          if keys = [] then Fail ''at least one --key is required''
          else case valid_keys env keys of
                 Inl e \<Rightarrow> Fail e
               | Inr trimmed \<Rightarrow>
                   if trimmed = [] then Fail ''at least one non-empty --key is required''
                   else perform (AddClientOp \<lparr>c_id = 0, c_name = name, c_keys = trimmed, c_groups = []\<rparr>)
                          (say_line (''Client '' @ ce_quote env name @ '' added with '' @ count_text trimmed @ '' key(s).'') finish))"

definition client_rm :: "cli_env \<Rightarrow> gostring \<Rightarrow> prog" where
  "client_rm env name =
     ask_clients (\<lambda>clients.
       case find (\<lambda>c. NamesEqual (ce_fold env) (c_name c) name) clients of
         Some c \<Rightarrow> perform (RemoveClientOp (c_id c)) (say_line (''Client '' @ ce_quote env (c_name c) @ '' removed.'') finish)
       | None \<Rightarrow> Fail (not_found_text env ''client'' name))"

text \<open>The rows named on the command line, by their folded names; a later row shadows an earlier one.\<close>

fun named_rows :: "cli_env \<Rightarrow> gostring \<Rightarrow> ('r \<Rightarrow> gostring) \<Rightarrow> 'r list \<Rightarrow> gostring list \<Rightarrow> gostring + 'r list" where
  "named_rows env kind f rows [] = Inr []"
| "named_rows env kind f rows (n # ns) =
     (case map_of (rev (map (\<lambda>r. (FoldName (ce_fold env) (f r), r)) rows)) (FoldName (ce_fold env) n) of
        None \<Rightarrow> Inl (not_found_text env kind n)
      | Some r \<Rightarrow> map_sum id (\<lambda>rs. r # rs) (named_rows env kind f rows ns))"

text \<open>The blocks of an inspection, with an empty line between two of them.\<close>

fun blocks :: "gostring list list \<Rightarrow> gostring list" where
  "blocks [] = []"
| "blocks [b] = b"
| "blocks (b # bs) = b @ [] # blocks bs"

definition key_lines :: "gostring list \<Rightarrow> gostring list" where
  "key_lines keys = map (\<lambda>(j, k). ''  Key '' @ itoa (int (j + 1)) @ '': '' @ k) (enumerate 0 keys)"

definition client_block :: "group_row list \<Rightarrow> client_row \<Rightarrow> gostring list" where
  "client_block groups c =
     [''Name:    '' @ c_name c, ''Keys:    '' @ count_text (c_keys c)] @ key_lines (c_keys c) @
     (if c_groups c = [] then []
      else [''Groups:  '' @ go_join '', '' (map (name_or_id (group_names groups)) (c_groups c))])"

definition client_inspect :: "cli_env \<Rightarrow> gostring \<Rightarrow> gostring list \<Rightarrow> prog" where
  "client_inspect env fmt names =
     (if names = [] then Fail ''usage: client inspect <name> [<name> ...]''
      else ask_clients (\<lambda>clients. try_groups (\<lambda>groups.
        case named_rows env ''client'' c_name clients names of
          Inl e \<Rightarrow> Fail e
        | Inr found \<Rightarrow>
            if is_json fmt then Say (ce_json env [Clients found]) finish
            else say_lines (blocks (map (client_block groups) found)) finish)))"

section \<open>Groups\<close>

definition member_names :: "client_row list \<Rightarrow> group_row \<Rightarrow> gostring list" where
  "member_names clients g = List.map_filter (map_of (rev (client_names clients))) (gr_clients g)"

definition group_ls :: "cli_env \<Rightarrow> gostring \<Rightarrow> prog" where
  "group_ls env fmt =
     ask_groups (\<lambda>groups.
       if is_json fmt then Say (ce_json env [Groups groups]) finish
       else if groups = [] then say_line ''No groups configured.'' finish
       else try_clients (\<lambda>clients.
         say_lines (map (\<lambda>g.
           let members = member_names clients g in
           pad 20 (gr_name g) @ ''  members: '' @
           (if members = [] then ''(none)'' else ''['' @ go_join '' '' members @ '']'')) groups) finish))"

definition member_target :: "cli_env \<Rightarrow> client_row list \<Rightarrow> gostring \<Rightarrow> gostring + int \<times> gostring" where
  "member_target env clients m =
     (case map_of (rev (map (\<lambda>c. (FoldName (ce_fold env) (c_name c), c_id c)) clients)) (FoldName (ce_fold env) m) of
        None \<Rightarrow> Inl (not_found_text env ''client'' m)
      | Some i \<Rightarrow> Inr (i, m))"

definition group_add :: "cli_env \<Rightarrow> gostring \<Rightarrow> gostring list \<Rightarrow> prog" where
  "group_add env name memberNames =
     (let store = (\<lambda>clientIDs.
            perform (AddGroupOp \<lparr>gr_id = 0, gr_name = name, gr_clients = clientIDs\<rparr>)
              (say_line (''Group '' @ ce_quote env name @ '' added with '' @ count_text clientIDs @ '' member(s).'') finish))
      in if memberNames = [] then store []
         else ask_clients (\<lambda>clients.
           case resolve_each (member_target env clients) memberNames of
             Inl e \<Rightarrow> Fail e
           | Inr ms \<Rightarrow> store (map fst ms)))"

definition group_rm :: "cli_env \<Rightarrow> gostring \<Rightarrow> prog" where
  "group_rm env name =
     ask_groups (\<lambda>groups.
       case find (\<lambda>g. NamesEqual (ce_fold env) (gr_name g) name) groups of
         Some g \<Rightarrow> perform (RemoveGroupOp (gr_id g)) (say_line (''Group '' @ ce_quote env (gr_name g) @ '' removed.'') finish)
       | None \<Rightarrow> Fail (not_found_text env ''group'' name))"

definition group_block :: "client_row list \<Rightarrow> group_row \<Rightarrow> gostring list" where
  "group_block clients g =
     [''Name:     '' @ gr_name g, ''Members:  '' @ count_text (gr_clients g)] @
     map (\<lambda>i. ''  - '' @ name_or_id (client_names clients) i) (gr_clients g)"

definition group_inspect :: "cli_env \<Rightarrow> gostring \<Rightarrow> gostring list \<Rightarrow> prog" where
  "group_inspect env fmt names =
     (if names = [] then Fail ''usage: group inspect <name> [<name> ...]''
      else ask_groups (\<lambda>groups. try_clients (\<lambda>clients.
        case named_rows env ''group'' gr_name groups names of
          Inl e \<Rightarrow> Fail e
        | Inr found \<Rightarrow>
            if is_json fmt then Say (ce_json env [Groups found]) finish
            else say_lines (blocks (map (group_block clients) found)) finish)))"

section \<open>Admin keys\<close>

definition truncateKey :: "gostring \<Rightarrow> gostring" where
  "truncateKey k = (if length k > 60 then take 60 k @ ''...'' else k)"

definition admin_key_ls :: "cli_env \<Rightarrow> gostring \<Rightarrow> prog" where
  "admin_key_ls env fmt =
     Ask ListAdminKeysOp id (\<lambda>a.
       let keys = as_texts a in
       if is_json fmt then Say (ce_json env [Texts keys]) finish
       else if keys = [] then say_line ''No admin keys configured.'' finish
       else say_lines (map (\<lambda>(i, k). itoa (int (i + 1)) @ '': '' @ truncateKey k) (enumerate 0 keys)) finish)"

text \<open>The keys are stored one by one; the first that fails ends the command, and those before it stay.\<close>

fun forEachKey :: "gostring \<Rightarrow> (gostring \<Rightarrow> gostring + repo_op) \<Rightarrow> gostring list \<Rightarrow> prog" where
  "forEachKey verb f [] = finish"
| "forEachKey verb f (k # ks) =
     (let k = trim_space k in
      if k = '''' then forEachKey verb f ks
      else case f k of
             Inl e \<Rightarrow> Fail e
           | Inr op \<Rightarrow> perform op (say_line (''Admin key '' @ verb @ '': '' @ truncateKey k) (forEachKey verb f ks)))"

definition admin_key_add :: "cli_env \<Rightarrow> gostring list \<Rightarrow> prog" where
  "admin_key_add env keys =
     forEachKey ''added'' (\<lambda>k. map_sum (\<lambda>e. ''invalid --key: '' @ e) AddAdminKeyOp (ValidatePublicKey env k)) keys"

definition admin_key_rm :: "gostring list \<Rightarrow> prog" where
  "admin_key_rm keys = forEachKey ''removed'' (\<lambda>k. Inr (RemoveAdminKeyOp k)) keys"

section \<open>Guests\<close>

definition guest_ls :: "cli_env \<Rightarrow> gostring \<Rightarrow> prog" where
  "guest_ls env fmt =
     ask_guests (\<lambda>guests.
       if is_json fmt then Say (ce_json env [Guests guests]) finish
       else if guests = [] then say_line ''No guests discovered.'' finish
       else say_line (pad 6 ''TYPE'' @ '' '' @ pad 6 ''VMID'' @ '' '' @ pad 24 ''NAME'' @ '' '' @ pad 10 ''STATUS'' @ '' INSTANCE'')
         (try_instances (\<lambda>instances.
           say_lines (map (\<lambda>g. pad 6 (g_type g) @ '' '' @ pad 6 (itoa (g_vmid g)) @ '' '' @ pad 24 (g_name g) @ '' '' @
             pad 10 (g_status g) @ '' '' @ name_or_id (instance_names instances) (g_instance g)) guests) finish)))"

definition guest_usage :: gostring where
  "guest_usage =
     ''usage: guest connect <identifier>[@<instance>]'' @ newline @ newline @
     ''identifier can be a VMID (e.g. 100), type+VMID (e.g. ct100), or name (e.g. webserver).'' @ newline @
     ''if multiple guests match, qualify it with the instance (e.g. ct101@rome)''"

definition guest_connect :: "cli_env \<Rightarrow> gostring list \<Rightarrow> prog" where
  "guest_connect env args =
     (case args of
        [] \<Rightarrow> Fail guest_usage
      | target # _ \<Rightarrow>
          ask_guests (\<lambda>guests. ask_instances (\<lambda>instances.
            case resolve_target env guests instances target of
              Inl e \<Rightarrow> Fail (resolve_error_text env e)
            | Inr (g, i) \<Rightarrow> Return (Some (g, i)))))"

definition guest_block :: "instance_row list \<Rightarrow> guest_row \<Rightarrow> gostring list" where
  "guest_block instances g =
     [''Name:       '' @ g_name g, ''Type:       '' @ g_type g, ''VMID:       '' @ itoa (g_vmid g),
      ''Status:     '' @ g_status g, ''Instance:   '' @ name_or_id (instance_names instances) (g_instance g)]"

fun resolved_guests ::
  "cli_env \<Rightarrow> guest_row list \<Rightarrow> instance_row list \<Rightarrow> gostring list \<Rightarrow> gostring + guest_row list" where
  "resolved_guests env guests instances [] = Inr []"
| "resolved_guests env guests instances (x # xs) =
     (case resolve_target env guests instances x of
        Inl e \<Rightarrow> Inl (resolve_error_text env e)
      | Inr (g, _) \<Rightarrow> map_sum id (\<lambda>gs. g # gs) (resolved_guests env guests instances xs))"

definition guest_inspect :: "cli_env \<Rightarrow> gostring \<Rightarrow> gostring list \<Rightarrow> prog" where
  "guest_inspect env fmt idents =
     (if idents = [] then Fail ''usage: guest inspect <identifier> [<identifier> ...]''
      else ask_guests (\<lambda>guests. try_instances (\<lambda>instances.
        case resolved_guests env guests instances idents of
          Inl e \<Rightarrow> Fail e
        | Inr found \<Rightarrow>
            if is_json fmt then Say (ce_json env [Guests found]) finish
            else say_lines (blocks (map (guest_block instances) found)) finish)))"

section \<open>Discovery\<close>

text \<open>
  \<open>StoreGuests\<close> over the command's repository: the first failed write is remembered, the guest
  counts as live, and what is not live is pruned at the end. The context is not cancelled here.
\<close>

fun store_each ::
  "instance_row \<Rightarrow> guest_row list \<Rightarrow> nat \<Rightarrow> int list \<Rightarrow> bool \<Rightarrow> (nat \<Rightarrow> int list \<Rightarrow> bool \<Rightarrow> prog) \<Rightarrow> prog" where
  "store_each inst [] stored live failed k = k stored live failed"
| "store_each inst (g # gs) stored live failed k =
     (if g_status g \<noteq> StatusRunning then store_each inst gs stored live failed k
      else Try (UpsertGuestOp (g\<lparr>g_instance := in_id inst\<rparr>)) (\<lambda>a.
        case a of
          None \<Rightarrow> store_each inst gs stored (live @ [g_vmid g]) True k
        | Some _ \<Rightarrow> store_each inst gs (stored + 1) (live @ [g_vmid g]) failed k))"

fun as_count :: "answer \<Rightarrow> nat" where
  "as_count (ACount n) = n" | "as_count _ = 0"

definition store_guests ::
  "instance_row \<Rightarrow> guest_row list \<Rightarrow> (nat \<Rightarrow> nat \<Rightarrow> bool \<Rightarrow> prog) \<Rightarrow> prog" where
  "store_guests inst gs k =
     store_each inst gs 0 [] False (\<lambda>stored live failed.
       Try (RemoveGuestsNotInOp (in_id inst) live) (\<lambda>a.
         case a of None \<Rightarrow> k stored 0 True | Some a \<Rightarrow> k stored (as_count a) failed))"

text \<open>\<open>poll\<close> is the discoverer: an error, or the guests of the instance.\<close>

fun discover_each ::
  "cli_env \<Rightarrow> (instance_row \<Rightarrow> gostring + guest_row list) \<Rightarrow> gostring \<Rightarrow> instance_row list \<Rightarrow> nat \<Rightarrow> prog" where
  "discover_each env poll oops [] n = say_line (''Total: '' @ itoa (int n) @ '' guests.'') finish"
| "discover_each env poll oops (inst # insts) n =
     (case poll inst of
        Inl e \<Rightarrow> Warn (''Instance '' @ ce_quote env (in_name inst) @ '': '' @ e @ newline)
                   (discover_each env poll oops insts n)
      | Inr guests \<Rightarrow>
          store_guests inst guests (\<lambda>stored removed failed.
            let next = say_line (''Instance '' @ ce_quote env (in_name inst) @ '': '' @ itoa (int stored) @
                         '' running guest(s) of '' @ count_text guests @ '' discovered, '' @
                         itoa (int removed) @ '' stale removed.'')
                         (discover_each env poll oops insts (n + stored))
            in if failed then Warn (''Instance '' @ ce_quote env (in_name inst) @ '': '' @ oops @ newline) next
               else next))"

text \<open>\<open>oops\<close> stands for the text of the store's error, which the model does not carry.\<close>

definition discover_cmd :: "cli_env \<Rightarrow> (instance_row \<Rightarrow> gostring + guest_row list) option \<Rightarrow> gostring \<Rightarrow> prog" where
  "discover_cmd env discoverer oops =
     (case discoverer of
        None \<Rightarrow> Fail ''discovery not configured''
      | Some poll \<Rightarrow>
          ask_instances (\<lambda>instances.
            if instances = [] then say_line ''No instances configured.'' finish
            else discover_each env poll oops instances 0))"

end
