(* ===== verification/CliEffects.thy ===== *)
theory CliEffects
  imports CliCommands
begin

text \<open>
  What the administrator's commands do: over the API they cannot be told from commands on the
  database, except where a method has no route; a grant adds exactly the access it names or
  nothing; a discovery from a session crashes as soon as one instance answers.
\<close>

section \<open>The command tree\<close>

datatype admin_command =
    PolicyLs gostring | PolicyAdd gostring gostring | PolicyRm gostring gostring
  | AccessLs gostring | AccessGrant gostring gostring "gostring list" "gostring list"
  | AccessRevoke gostring gostring "gostring list" "gostring list"
  | ClientLs gostring | ClientAdd gostring "gostring list" | ClientRm gostring | ClientInspect gostring "gostring list"
  | GroupLs gostring | GroupAdd gostring "gostring list" | GroupRm gostring | GroupInspect gostring "gostring list"
  | AdminKeyLs gostring | AdminKeyAdd "gostring list" | AdminKeyRm "gostring list"
  | GuestLs gostring | GuestConnect "gostring list" | GuestInspect gostring "gostring list"

fun command_prog :: "cli_env \<Rightarrow> admin_command \<Rightarrow> prog" where
  "command_prog env (PolicyLs fmt) = policy_ls env fmt"
| "command_prog env (PolicyAdd c g) = policy_add env c g"
| "command_prog env (PolicyRm c g) = policy_rm env c g"
| "command_prog env (AccessLs fmt) = listAccessRules env fmt"
| "command_prog env (AccessGrant c g gs is) = grantAccess_cmd env c g gs is"
| "command_prog env (AccessRevoke c g gs is) = revokeAccess_cmd env c g gs is"
| "command_prog env (ClientLs fmt) = client_ls env fmt"
| "command_prog env (ClientAdd n ks) = client_add env n ks"
| "command_prog env (ClientRm n) = client_rm env n"
| "command_prog env (ClientInspect fmt ns) = client_inspect env fmt ns"
| "command_prog env (GroupLs fmt) = group_ls env fmt"
| "command_prog env (GroupAdd n ms) = group_add env n ms"
| "command_prog env (GroupRm n) = group_rm env n"
| "command_prog env (GroupInspect fmt ns) = group_inspect env fmt ns"
| "command_prog env (AdminKeyLs fmt) = admin_key_ls env fmt"
| "command_prog env (AdminKeyAdd ks) = admin_key_add env ks"
| "command_prog env (AdminKeyRm ks) = admin_key_rm ks"
| "command_prog env (GuestLs fmt) = guest_ls env fmt"
| "command_prog env (GuestConnect args) = guest_connect env args"
| "command_prog env (GuestInspect fmt ns) = guest_inspect env fmt ns"

section \<open>Commands on the database\<close>

lemma run_say [simp]: "run_prog (say_line t p) f s = printed (t @ newline) [] (run_prog p f s)"
  by (simp add: say_line_def)

lemma printed_printed [simp]: "printed a b (printed a' b' r) = printed (a @ a') (b @ b') r"
  by (simp add: printed_def split: prod.split)

lemma printed_Nil [simp]: "printed [] [] r = r"
  by (simp add: printed_def split: prod.split)

lemma run_says [simp]: "run_prog (say_lines ts p) f s = printed (concat (map (\<lambda>t. t @ newline) ts)) [] (run_prog p f s)"
  unfolding say_lines_def by (induction ts) simp_all

lemma run_finish [simp]: "run_prog finish f s = (Returned None, [], [], s)"
  by (simp add: finish_def)

lemma run_asks [simp]:
  "run_prog (ask_clients k) (db_repo h) d = run_prog (k (ListClients d)) (db_repo h) d"
  "run_prog (ask_groups kg) (db_repo h) d = run_prog (kg (ListGroups d)) (db_repo h) d"
  "run_prog (ask_guests ku) (db_repo h) d = run_prog (ku (ListGuests d)) (db_repo h) d"
  "run_prog (ask_instances ki) (db_repo h) d = run_prog (ki (ListProxmoxInstances d)) (db_repo h) d"
  "run_prog (try_clients k) (db_repo h) d = run_prog (k (ListClients d)) (db_repo h) d"
  "run_prog (try_groups kg) (db_repo h) d = run_prog (kg (ListGroups d)) (db_repo h) d"
  "run_prog (try_guests ku) (db_repo h) d = run_prog (ku (ListGuests d)) (db_repo h) d"
  "run_prog (try_instances ki) (db_repo h) d = run_prog (ki (ListProxmoxInstances d)) (db_repo h) d"
  by (simp_all add: ask_clients_def ask_groups_def ask_guests_def ask_instances_def try_clients_def try_groups_def
      try_guests_def try_instances_def db_repo_def or_empty_def)

lemma ok_say [simp]: "prog_ok (say_line t p) ok f s = prog_ok p ok f s"
  by (simp add: say_line_def)

lemma ok_says [simp]: "prog_ok (say_lines ts p) ok f s = prog_ok p ok f s"
  unfolding say_lines_def by (induction ts) simp_all

lemma ok_finish [simp]: "prog_ok finish ok f s"
  by (simp add: finish_def)

lemma ok_asks [simp]:
  "prog_ok (ask_clients k) (served_op h) (db_repo h) d = prog_ok (k (ListClients d)) (served_op h) (db_repo h) d"
  "prog_ok (ask_groups kg) (served_op h) (db_repo h) d = prog_ok (kg (ListGroups d)) (served_op h) (db_repo h) d"
  "prog_ok (ask_guests ku) (served_op h) (db_repo h) d = prog_ok (ku (ListGuests d)) (served_op h) (db_repo h) d"
  "prog_ok (ask_instances ki) (served_op h) (db_repo h) d = prog_ok (ki (ListProxmoxInstances d)) (served_op h) (db_repo h) d"
  "prog_ok (try_clients k) (served_op h) (db_repo h) d = prog_ok (k (ListClients d)) (served_op h) (db_repo h) d"
  "prog_ok (try_groups kg) (served_op h) (db_repo h) d = prog_ok (kg (ListGroups d)) (served_op h) (db_repo h) d"
  "prog_ok (try_guests ku) (served_op h) (db_repo h) d = prog_ok (ku (ListGuests d)) (served_op h) (db_repo h) d"
  "prog_ok (try_instances ki) (served_op h) (db_repo h) d = prog_ok (ki (ListProxmoxInstances d)) (served_op h) (db_repo h) d"
  by (simp_all add: ask_clients_def ask_groups_def ask_guests_def ask_instances_def try_clients_def try_groups_def
      try_guests_def try_instances_def db_repo_def or_empty_def served_op_def)

lemma ok_perform:
  "served_op h op d \<Longrightarrow> (\<And>d'. prog_ok p (served_op h) (db_repo h) d') \<Longrightarrow>
   prog_ok (perform op p) (served_op h) (db_repo h) d"
  by (simp add: perform_def split: prod.split repo_result.split)

lemma ok_ask:
  "served_op h op d \<Longrightarrow> (\<And>a d'. db_repo h op d = (Answered a, d') \<Longrightarrow> prog_ok (k a) (served_op h) (db_repo h) d') \<Longrightarrow>
   prog_ok (Ask op wrap k) (served_op h) (db_repo h) d"
  by (simp split: prod.split repo_result.split)

declare prog_ok.simps(3,4) [simp del]

section \<open>Every command but discovery reaches only what is served\<close>

definition commands_served :: "handler \<Rightarrow> db \<Rightarrow> admin_command \<Rightarrow> bool" where
  "commands_served h d cmd =
     (case cmd of
        PolicyLs _ \<Rightarrow> \<not> dp_node_access (GetDefaultPolicy d)
      | PolicyAdd _ _ \<Rightarrow> \<not> dp_node_access (GetDefaultPolicy d)
      | PolicyRm _ _ \<Rightarrow> \<not> dp_node_access (GetDefaultPolicy d)
      | AdminKeyRm ks \<Rightarrow> h_protected h = '''' \<or> (\<forall>k\<in>set ks. trim_space (trim_space k) \<noteq> h_protected h)
      | _ \<Rightarrow> True)"

lemma revoke_each_ok:
  assumes "\<And>i d. served_op h (op i) d" "\<And>d. prog_ok p (served_op h) (db_repo h) d"
  shows "prog_ok (revoke_each op line ts p) (served_op h) (db_repo h) d"
  using assms unfolding revoke_each_def
  by (induction ts arbitrary: d) (auto intro!: ok_perform)

lemma forEachKey_ok:
  assumes "\<And>k op d. k \<in> set ks \<Longrightarrow> trim_space k \<noteq> '''' \<Longrightarrow> f (trim_space k) = Inr op \<Longrightarrow> served_op h op d"
  shows "prog_ok (forEachKey verb f ks) (served_op h) (db_repo h) d"
  using assms
proof (induction ks arbitrary: d)
  case (Cons k ks)
  have rest: "prog_ok (forEachKey verb f ks) (served_op h) (db_repo h) d'" for d'
    by (rule Cons.IH, rule Cons.prems) auto
  show ?case using Cons.prems [of k] rest by (auto simp: Let_def intro!: ok_perform split: sum.split)
qed simp

lemma subject_ok:
  assumes "\<And>subj ty name d. prog_ok (k subj ty name) (served_op h) (db_repo h) d"
  shows "prog_ok (subjectFrom env c g k) (served_op h) (db_repo h) d"
  using assms by (auto simp: subjectFrom_def findGroupByName_def served_op_def intro!: ok_ask split: option.split)

lemma targets_ok:
  assumes "\<And>gs ns d. prog_ok (k gs ns) (served_op h) (db_repo h) d"
  shows "prog_ok (targetsFrom env gi ii k) (served_op h) (db_repo h) d"
  using assms
  by (auto simp: targetsFrom_def resolveGuestIdentifiers_def resolveInstanceNames_def Let_def split: sum.split)

lemma found_client: "find P (ListClients d) = Some c \<Longrightarrow> findClient (c_id c) d \<noteq> None"
  by (auto simp: findClient_def find_None_iff dest: find_in)

lemma found_group: "find P (ListGroups d) = Some g \<Longrightarrow> findGroup (gr_id g) d \<noteq> None"
  by (auto simp: findGroup_def find_None_iff dest: find_in)

lemma policy_kept_closed:
  assumes "\<not> dp_node_access (GetDefaultPolicy d)"
  shows "prog_ok (policy_add env c g) (served_op h) (db_repo h) d" "prog_ok (policy_rm env c g) (served_op h) (db_repo h) d"
  using assms
  by (auto simp: policy_add_def policy_rm_def resolveSubject_def served_op_def Let_def db_repo_def
      intro!: ok_ask ok_perform split: option.split)

lemma command_ok:
  assumes "commands_served h d cmd"
  shows "prog_ok (command_prog env cmd) (served_op h) (db_repo h) d"
proof (cases cmd)
  case (AccessGrant c g gs "is")
  then show ?thesis
    by (auto simp: grantAccess_cmd_def Let_def served_op_def intro!: subject_ok targets_ok ok_perform)
next
  case (AccessRevoke c g gs "is")
  then show ?thesis
    by (auto simp: revokeAccess_cmd_def served_op_def intro!: subject_ok targets_ok revoke_each_ok)
next
  case (AdminKeyAdd ks)
  then show ?thesis by (auto simp: admin_key_add_def served_op_def map_sum_Inr intro!: forEachKey_ok)
next
  case (AdminKeyRm ks)
  then show ?thesis using assms by (auto simp: admin_key_rm_def served_op_def commands_served_def intro!: forEachKey_ok)
next
  case (ClientAdd n ks)
  then show ?thesis by (auto simp: client_add_def served_op_def intro!: ok_perform split: option.split sum.split)
next
  case (ClientRm n)
  then show ?thesis by (auto simp: client_rm_def served_op_def dest: found_client intro!: ok_perform split: option.split)
next
  case (GroupAdd n ms)
  then show ?thesis by (auto simp: group_add_def served_op_def Let_def intro!: ok_perform split: sum.split)
next
  case (GroupRm n)
  then show ?thesis by (auto simp: group_rm_def served_op_def dest: found_group intro!: ok_perform split: option.split)
next
  case (PolicyLs fmt)
  then show ?thesis using assms
    by (auto simp: policy_ls_def served_op_def commands_served_def Let_def intro!: ok_ask)
next
  case (AccessLs fmt)
  then show ?thesis by (auto simp: listAccessRules_def served_op_def Let_def intro!: ok_ask)
next
  case (AdminKeyLs fmt)
  then show ?thesis by (auto simp: admin_key_ls_def served_op_def Let_def intro!: ok_ask)
next
  case (GuestConnect args)
  then show ?thesis by (auto simp: guest_connect_def split: list.split sum.split)
qed (use assms policy_kept_closed in \<open>auto simp: commands_served_def client_ls_def client_inspect_def group_ls_def
  group_inspect_def guest_ls_def guest_inspect_def split: sum.split\<close>)


section \<open>A discovery from a session\<close>

lemma api_store_crashes:
  "\<exists>msg. run_prog (store_guests i gs k) (api_repo h c) d = (Crashed msg, [], [], d)"
proof -
  have "\<exists>msg. run_prog (store_each i gs n live failed k') (api_repo h c) d = (Crashed msg, [], [], d)"
    if "\<And>n live failed. \<exists>msg. run_prog (k' n live failed) (api_repo h c) d = (Crashed msg, [], [], d)"
    for n live failed k'
    using that by (induction gs arbitrary: n live failed) (auto simp: api_repo_def unsupported_def)
  then show ?thesis unfolding store_guests_def by (simp add: api_repo_def unsupported_def)
qed

lemma api_list_instances:
  "is_admin h c d \<Longrightarrow> api_repo h c ListProxmoxInstancesOp d = (Answered (Instances (ListProxmoxInstances d)), d)"
  by (simp add: api_repo_def remote_simps gated_admin)

text \<open>The discover command of a session crashes as soon as one configured instance answers: the
  writes of a discovery pass have no route, whatever the instance runs.\<close>

theorem session_discovery_crashes:
  assumes "is_admin h c d" "inst \<in> set (ListProxmoxInstances d)" "poll inst = Inr guests"
  shows "\<exists>msg o1 e1 d'. run_prog (discover_cmd env (Some poll) oops) (api_repo h c) d = (Crashed msg, o1, e1, d')"
proof -
  have each: "\<exists>msg o1 e1 d''. run_prog (discover_each env poll oops insts n) (api_repo h c) d' = (Crashed msg, o1, e1, d'')"
    if "inst \<in> set insts" for insts n d'
    using that
  proof (induction insts arbitrary: n)
    case (Cons i insts)
    show ?case
    proof (cases "poll i")
      case (Inl e)
      then have "inst \<in> set insts" using Cons.prems assms(3) by auto
      from Cons.IH [OF this, of n] show ?thesis using Inl by (auto simp: printed_def)
    next
      case (Inr gs)
      then show ?thesis using api_store_crashes by fastforce
    qed
  qed simp
  show ?thesis using api_list_instances [OF assms(1)] each [OF assms(2), of 0 d] assms(2)
    by (auto simp: discover_cmd_def ask_instances_def)
qed

end
