(* ===== verification/AuthorizedKeys.thy ===== *)
theory AuthorizedKeys
  imports Tokens Directory
begin

text \<open>
  \<open>internal/session/token.go\<close> and \<open>authorizedkeys.go\<close>: what sshd is told when a login name asks for
  its keys. Every key of the deployment is offered for every name; each line carries a token minted
  for the identity that owns the key. The random bytes and the clock are functions of the number of
  the token; \<open>H\<close> is SHA-256 in hexadecimal.
\<close>

section \<open>Tokens\<close>

definition TokenEnv :: gostring where "TokenEnv = ''PROXPASS_SESSION_TOKEN''"
definition TokenTTL :: time where "TokenTTL = 60"

definition b64_alphabet :: gostring where
  "b64_alphabet = ''ABCDEFGHIJKLMNOPQRSTUVWXYZabcdefghijklmnopqrstuvwxyz0123456789-_''"

definition b64_char :: "nat \<Rightarrow> char" where "b64_char n = b64_alphabet ! (n mod 64)"

text \<open>\<open>base64.RawURLEncoding\<close>.\<close>

fun b64url :: "bytes \<Rightarrow> gostring" where
  "b64url [] = []"
| "b64url [a] = [b64_char (code a div 4), b64_char ((code a mod 4) * 16)]"
| "b64url [a, b] =
     [b64_char (code a div 4), b64_char ((code a mod 4) * 16 + code b div 16), b64_char ((code b mod 16) * 4)]"
| "b64url (a # b # c # rest) =
     b64_char (code a div 4) # b64_char ((code a mod 4) * 16 + code b div 16) #
     b64_char ((code b mod 16) * 4 + code c div 64) # b64_char (code c mod 64) # b64url rest"

text \<open>\<open>buf\<close> is what \<open>rand.Read\<close> filled the buffer with, \<open>None\<close> its failure.\<close>

definition NewToken :: "(gostring \<Rightarrow> gostring) \<Rightarrow> bytes option \<Rightarrow> (gostring \<times> gostring) option" where
  "NewToken H buf = map_option (\<lambda>b. (b64url b, H (b64url b))) buf"

definition ValidTokenValue :: "gostring \<Rightarrow> bool" where
  "ValidTokenValue token =
     (if token = '''' then False
      else \<not> contains_any token [CHR 0x22, CHR 0x5C, CHR 0x0A, CHR 0x0D, CHR '' '', CHR 0x09])"

section \<open>The minter\<close>

datatype mint_error = NoRandom | NotOptionSafe | MintFailed db_error

record minter =
  mi_drawn :: nat
  mi_db :: db
  mi_err :: "mint_error option"

definition minter_record :: "mint_error \<Rightarrow> minter \<Rightarrow> minter" where
  "minter_record e m = (if mi_err m = None then m\<lparr>mi_err := Some e\<rparr> else m)"

text \<open>The option is quoted by \<open>%q\<close>, which leaves an option-safe token of the alphabet as it is.\<close>

definition key_line :: "gostring \<Rightarrow> gostring \<Rightarrow> gostring" where
  "key_line token key = ''environment='' @ [CHR 0x22] @ TokenEnv @ ''='' @ token @ [CHR 0x22] @ '' '' @ key"

definition lineFor ::
  "(gostring \<Rightarrow> gostring) \<Rightarrow> (nat \<Rightarrow> bytes option) \<Rightarrow> (nat \<Rightarrow> time) \<Rightarrow> gostring \<Rightarrow> identity \<Rightarrow> minter \<Rightarrow>
   gostring \<times> minter" where
  "lineFor H draw clock key identity m =
     (let n = mi_drawn m; m = m\<lparr>mi_drawn := Suc n\<rparr> in
      case NewToken H (draw n) of
        None \<Rightarrow> (key, minter_record NoRandom m)
      | Some (token, hash) \<Rightarrow>
          if \<not> ValidTokenValue token then (key, minter_record NotOptionSafe m)
          else (case MintSessionToken hash identity (clock n) (clock n + TokenTTL) (mi_db m) of
                  Inl e \<Rightarrow> (key, minter_record (MintFailed e) m)
                | Inr d \<Rightarrow> (key_line token key, m\<lparr>mi_db := d\<rparr>)))"

fun writeKeys ::
  "(gostring \<Rightarrow> gostring) \<Rightarrow> (nat \<Rightarrow> bytes option) \<Rightarrow> (nat \<Rightarrow> time) \<Rightarrow> gostring list \<Rightarrow> identity \<Rightarrow> minter \<Rightarrow>
   gostring list \<times> minter" where
  "writeKeys H draw clock [] identity m = ([], m)"
| "writeKeys H draw clock (k # ks) identity m =
     (let k = trim_space k in
      if k = '''' then writeKeys H draw clock ks identity m
      else if contains_any k [CHR 0x0A, CHR 0x0D] then writeKeys H draw clock ks identity m
      else let (line, m) = lineFor H draw clock k identity m;
               (lines, m) = writeKeys H draw clock ks identity m
           in (line # lines, m))"

fun write_clients ::
  "(gostring \<Rightarrow> gostring) \<Rightarrow> (nat \<Rightarrow> bytes option) \<Rightarrow> (nat \<Rightarrow> time) \<Rightarrow> gostring \<Rightarrow> client_row list \<Rightarrow> minter \<Rightarrow>
   gostring list \<times> minter" where
  "write_clients H draw clock user [] m = ([], m)"
| "write_clients H draw clock user (c # cs) m =
     (let (lines, m) = writeKeys H draw clock (c_keys c)
            \<lparr>id_login = user, id_name = c_name c, id_admin = False, id_client = c_id c\<rparr> m;
          (rest, m) = write_clients H draw clock user cs m
      in (lines @ rest, m))"

text \<open>The lines, the error reported at the end, and the database after the minting.\<close>

definition WriteAuthorizedKeys ::
  "(gostring \<Rightarrow> gostring) \<Rightarrow> (nat \<Rightarrow> bytes option) \<Rightarrow> (nat \<Rightarrow> time) \<Rightarrow> gostring \<Rightarrow> gostring \<Rightarrow> db \<Rightarrow>
   gostring list \<times> mint_error option \<times> db" where
  "WriteAuthorizedKeys H draw clock user flagAdminKey d =
     (let user = trim_space user in
      if user = '''' then ([], None, d)
      else if \<not> ValidLoginName user then ([], None, d)
      else let admin = \<lparr>id_login = user, id_name = AdminUser, id_admin = True, id_client = 0\<rparr>;
               m = \<lparr>mi_drawn = 0, mi_db = d, mi_err = None\<rparr>;
               (flag, m) = writeKeys H draw clock [flagAdminKey] admin m;
               (admins, m) = writeKeys H draw clock (ListAdminKeys d) admin m;
               (clients, m) = write_clients H draw clock user (ListClients d) m
           in (flag @ admins @ clients, mi_err m, mi_db m))"

section \<open>What is offered\<close>

text \<open>The keys that get a line, with the identity each belongs to.\<close>

definition offered_of :: "identity \<Rightarrow> gostring list \<Rightarrow> (gostring \<times> identity) list" where
  "offered_of identity keys =
     map (\<lambda>k. (k, identity))
       (filter (\<lambda>k. k \<noteq> '''' \<and> \<not> contains_any k [CHR 0x0A, CHR 0x0D]) (map trim_space keys))"

definition client_identity :: "gostring \<Rightarrow> client_row \<Rightarrow> identity" where
  "client_identity user c = \<lparr>id_login = user, id_name = c_name c, id_admin = False, id_client = c_id c\<rparr>"

definition admin_identity :: "gostring \<Rightarrow> identity" where
  "admin_identity user = \<lparr>id_login = user, id_name = AdminUser, id_admin = True, id_client = 0\<rparr>"

definition offered :: "gostring \<Rightarrow> gostring \<Rightarrow> db \<Rightarrow> (gostring \<times> identity) list" where
  "offered user flagAdminKey d =
     (if user = '''' \<or> \<not> ValidLoginName user then []
      else offered_of (admin_identity user) [flagAdminKey] @ offered_of (admin_identity user) (ListAdminKeys d) @
           concat (map (\<lambda>c. offered_of (client_identity user c) (c_keys c)) (ListClients d)))"

text \<open>A run of the minter that reported nothing: the tokens it minted, one for each key.\<close>

fun minted ::
  "(gostring \<Rightarrow> gostring) \<Rightarrow> (nat \<Rightarrow> bytes option) \<Rightarrow> (nat \<Rightarrow> time) \<Rightarrow> (gostring \<times> identity) list \<Rightarrow> minter \<Rightarrow>
   gostring list \<times> minter" where
  "minted H draw clock [] m = ([], m)"
| "minted H draw clock ((k, ident) # ks) m =
     (let (line, m) = lineFor H draw clock k ident m; (lines, m) = minted H draw clock ks m
      in (line # lines, m))"

lemma minted_append:
  "minted H draw clock (xs @ ys) m =
   (let (a, m) = minted H draw clock xs m; (b, m) = minted H draw clock ys m in (a @ b, m))"
  by (induction xs arbitrary: m) (auto simp: split_beta Let_def)

lemma writeKeys_minted: "writeKeys H draw clock ks ident m = minted H draw clock (offered_of ident ks) m"
  by (induction ks arbitrary: m) (simp_all add: offered_of_def Let_def split_beta)

lemma write_clients_minted:
  "write_clients H draw clock user cs m =
   minted H draw clock (concat (map (\<lambda>c. offered_of (client_identity user c) (c_keys c)) cs)) m"
  by (induction cs arbitrary: m) (simp_all add: writeKeys_minted minted_append client_identity_def)

lemma WriteAuthorizedKeys_minted:
  "WriteAuthorizedKeys H draw clock user flag d =
   (let (lines, m) = minted H draw clock (offered (trim_space user) flag d) \<lparr>mi_drawn = 0, mi_db = d, mi_err = None\<rparr>
    in (lines, mi_err m, mi_db m))"
  by (simp add: WriteAuthorizedKeys_def offered_def writeKeys_minted write_clients_minted minted_append
      admin_identity_def split_beta Let_def)

section \<open>Every offered key signs in\<close>

lemma lineFor_err: "mi_err m \<noteq> None \<Longrightarrow> mi_err (snd (lineFor H draw clock k i m)) \<noteq> None"
  by (auto simp: lineFor_def minter_record_def Let_def split: option.split sum.split)

lemma minted_err: "mi_err m \<noteq> None \<Longrightarrow> mi_err (snd (minted H draw clock ks m)) \<noteq> None"
proof (induction ks arbitrary: m)
  case (Cons x ks)
  then show ?case by (cases x) (simp add: split_beta Let_def lineFor_err del: not_None_eq)
qed simp

text \<open>A line without an error: the token is live in the table for its identity, and the tokens
  minted before stay live.\<close>

lemma lineFor_minted:
  assumes "lineFor H draw clock k i m = (line, m')" "mi_err m' = None"
    "clock (mi_drawn m) \<le> t" "t < clock (mi_drawn m) + TokenTTL"
  shows "\<exists>tok. line = key_line tok k \<and> live_in (d_tokens (mi_db m')) (H tok) t = Some i \<and>
    (\<forall>h. live_in (d_tokens (mi_db m)) h t \<noteq> None \<longrightarrow>
         live_in (d_tokens (mi_db m')) h t = live_in (d_tokens (mi_db m)) h t)"
proof -
  let ?n = "mi_drawn m"
  obtain tok d where tok: "NewToken H (draw ?n) = Some (tok, H tok)" "line = key_line tok k"
    "MintSessionToken (H tok) i (clock ?n) (clock ?n + TokenTTL) (mi_db m) = Inr d" "mi_db m' = d"
    using assms(1,2)
    by (auto simp: lineFor_def minter_record_def NewToken_def Let_def split: option.splits if_splits sum.splits)
  obtain ts where ts: "insertToken (d_tokens (mi_db m)) (H tok) i (clock ?n) (clock ?n + TokenTTL) = Inr ts"
    "d_tokens d = ts"
    using tok(3) by (auto simp: MintSessionToken_def map_sum_Inr)
  have fresh: "live_in (d_tokens (mi_db m)) (H tok) t = None"
    using ts(1) assms(3)
    by (force simp: insertToken_def live_in_def token_live_def Let_def find_None_iff split: if_splits)
  show ?thesis
    using tok(2,4) ts(2) live_in_insert [OF ts(1) assms(3)] assms(4) fresh by auto
qed

lemma minted_live:
  assumes "minted H draw clock ks m = (lines, m')" "mi_err m' = None"
    "\<And>i. clock i \<le> t \<and> t < clock i + TokenTTL"
  shows "\<exists>toks. lines = map2 key_line toks (map fst ks) \<and> length toks = length ks \<and>
    list_all2 (\<lambda>tok i. live_in (d_tokens (mi_db m')) (H tok) t = Some i) toks (map snd ks) \<and>
    (\<forall>h. live_in (d_tokens (mi_db m)) h t \<noteq> None \<longrightarrow>
         live_in (d_tokens (mi_db m')) h t = live_in (d_tokens (mi_db m)) h t)"
  using assms(1,2)
proof (induction ks arbitrary: m lines)
  case (Cons x ks)
  obtain k i where x: "x = (k, i)" by fastforce
  obtain line m1 where l: "lineFor H draw clock k i m = (line, m1)" by fastforce
  obtain rest where r: "minted H draw clock ks m1 = (rest, m')" "lines = line # rest"
    using Cons.prems(1) x l by (cases "minted H draw clock ks m1") simp
  have e: "mi_err m1 = None" using minted_err [of m1 H draw clock ks] Cons.prems(2) r(1) by (cases "mi_err m1") auto
  from lineFor_minted [OF l e] assms(3) obtain tok where tok: "line = key_line tok k"
    "live_in (d_tokens (mi_db m1)) (H tok) t = Some i"
    "\<And>h. live_in (d_tokens (mi_db m)) h t \<noteq> None \<Longrightarrow> live_in (d_tokens (mi_db m1)) h t = live_in (d_tokens (mi_db m)) h t"
    by metis
  from Cons.IH [OF r(1) Cons.prems(2)] obtain toks where toks: "rest = map2 key_line toks (map fst ks)"
    "length toks = length ks"
    "list_all2 (\<lambda>tok i. live_in (d_tokens (mi_db m')) (H tok) t = Some i) toks (map snd ks)"
    "\<And>h. live_in (d_tokens (mi_db m1)) h t \<noteq> None \<Longrightarrow> live_in (d_tokens (mi_db m')) h t = live_in (d_tokens (mi_db m1)) h t"
    by metis
  have "live_in (d_tokens (mi_db m')) (H tok) t = Some i" using toks(4) [of "H tok"] tok(2) by simp
  moreover have "live_in (d_tokens (mi_db m')) h t = live_in (d_tokens (mi_db m)) h t"
    if "live_in (d_tokens (mi_db m)) h t \<noteq> None" for h
    using toks(4) [of h] tok(3) [OF that] that by simp
  ultimately show ?case using toks(1,2,3) tok(1) r(2) x by (intro exI [of _ "tok # toks"]) auto
qed simp

text \<open>C12: Every key of the deployment signs its owner in, under whatever login name asks: when the
  minting reports nothing, the output has one line for each key on offer, in order, and within the
  token's minute the token of each line redeems to the identity that owns the line's key.\<close>

theorem offered_keys_sign_in:
  assumes "WriteAuthorizedKeys H draw clock user flagAdminKey d = (lines, None, d')"
    "\<And>i. clock i \<le> t \<and> t < clock i + TokenTTL"
  shows "\<exists>toks. lines = map2 key_line toks (map fst (offered (trim_space user) flagAdminKey d)) \<and>
    list_all2 (\<lambda>tok ident. fst (RedeemSessionToken (H tok) t d') = Inr ident)
      toks (map snd (offered (trim_space user) flagAdminKey d))"
proof -
  obtain m' where m: "minted H draw clock (offered (trim_space user) flagAdminKey d)
      \<lparr>mi_drawn = 0, mi_db = d, mi_err = None\<rparr> = (lines, m')" "mi_err m' = None" "mi_db m' = d'"
    using assms(1)
    by (cases "minted H draw clock (offered (trim_space user) flagAdminKey d) \<lparr>mi_drawn = 0, mi_db = d, mi_err = None\<rparr>")
       (simp add: WriteAuthorizedKeys_minted)
  from minted_live [OF m(1,2) assms(2)] m(3) obtain toks where
    "lines = map2 key_line toks (map fst (offered (trim_space user) flagAdminKey d))"
    "list_all2 (\<lambda>tok i. live_in (d_tokens d') (H tok) t = Some i) toks
       (map snd (offered (trim_space user) flagAdminKey d))"
    by blast
  moreover have "live_in (d_tokens d') (H tok) t = Some i \<Longrightarrow> fst (RedeemSessionToken (H tok) t d') = Inr i" for tok i
    by (simp add: redeem_live)
  ultimately show ?thesis by (blast intro: list_all2_mono)
qed

definition key_db :: db where
  "key_db = empty_db\<lparr>d_clients := [\<lparr>c_id = 1, c_name = ''alice'', c_keys = [''ssh-ed25519 AAAA ''], c_groups = []\<rparr>]\<rparr>"

theorem offered_keys_sign_in_witness:
  "\<exists>tok. fst (WriteAuthorizedKeys id (\<lambda>_. Some ''k'') (\<lambda>_. 100) ''web'' '''' key_db) = [key_line tok ''ssh-ed25519 AAAA''] \<and>
     fst (RedeemSessionToken tok 120 (snd (snd (WriteAuthorizedKeys id (\<lambda>_. Some ''k'') (\<lambda>_. 100) ''web'' '''' key_db)))) =
       Inr \<lparr>id_login = ''web'', id_name = ''alice'', id_admin = False, id_client = 1\<rparr>"
proof -
  let ?r = "WriteAuthorizedKeys id (\<lambda>_. Some ''k'') (\<lambda>_. 100) ''web'' '''' key_db"
  have offer: "offered (trim_space ''web'') '''' key_db =
    [(''ssh-ed25519 AAAA'', \<lparr>id_login = ''web'', id_name = ''alice'', id_admin = False, id_client = 1\<rparr>)]"
    by code_simp
  have "fst (snd ?r) = None" by code_simp
  then have "?r = (fst ?r, None, snd (snd ?r))" by (metis prod.collapse)
  from offered_keys_sign_in [OF this, of 120] show ?thesis
    by (auto simp: offer TokenTTL_def list_all2_Cons2)
qed

section \<open>Tokens fit the option\<close>

lemma b64_char_in: "b64_char n \<in> set b64_alphabet"
proof -
  have "length b64_alphabet = 64" by code_simp
  then show ?thesis by (simp add: b64_char_def)
qed

lemma b64url_chars: "set (b64url bs) \<subseteq> set b64_alphabet"
  by (induction bs rule: b64url.induct) (simp_all add: b64_char_in)

lemma b64_alphabet_safe: "\<not> contains_any b64_alphabet [CHR 0x22, CHR 0x5C, CHR 0x0A, CHR 0x0D, CHR '' '', CHR 0x09]"
  by code_simp

text \<open>A token drawn from any bytes is safe in the option, so that error is never reported.\<close>

lemma token_option_safe: "bs \<noteq> [] \<Longrightarrow> ValidTokenValue (b64url bs)"
  using b64url_chars [of bs] b64_alphabet_safe
  by (cases bs rule: b64url.cases) (auto simp: ValidTokenValue_def contains_any_def list_ex_iff)

end
