(* ===== verification/CliAccess.thy ===== *)
theory CliAccess
  imports CliEffects AccessControl AuthorizedKeys HostKey
begin

text \<open>
  The commands that decide who may reach what, run on the database: a grant or a revocation is one
  of two things, its exact effect or a failure that changed nothing; an added client can log in
  with the keys that were checked and no others.
\<close>

section \<open>What a command names\<close>

definition named_subject ::
  "handler \<Rightarrow> cli_env \<Rightarrow> gostring \<Rightarrow> gostring \<Rightarrow> db \<Rightarrow> gostring + int \<times> rule_type \<times> gostring" where
  "named_subject h env clientName groupName d =
     (if (clientName = '''') = (groupName = '''') then Inl one_subject
      else if clientName \<noteq> ''''
      then map_sum (\<lambda>e. ''client '' @ ce_quote env clientName @ '': '' @ db_error_text h e)
             (\<lambda>c. (c_id c, RuleClient, clientName)) (GetClientByName (h_fold h) clientName d)
      else (case find (\<lambda>g. NamesEqual (ce_fold env) (gr_name g) groupName) (ListGroups d) of
              Some g \<Rightarrow> Inr (gr_id g, RuleGroup, groupName)
            | None \<Rightarrow> Inl (not_found_text env ''group'' groupName)))"

definition named_guests :: "cli_env \<Rightarrow> gostring list \<Rightarrow> db \<Rightarrow> gostring + (int \<times> gostring) list" where
  "named_guests env idents d = resolve_each (guest_target env (ListGuests d) (ListProxmoxInstances d)) idents"

definition named_nodes :: "cli_env \<Rightarrow> gostring list \<Rightarrow> db \<Rightarrow> gostring + (int \<times> gostring) list" where
  "named_nodes env names d = resolve_each (instance_target env (ListProxmoxInstances d)) names"

lemma run_ask_db:
  "run_prog (Ask op wrap k) (db_repo h) d =
   (case promised h op d of
      (Inr a, d') \<Rightarrow> run_prog (k a) (db_repo h) d'
    | (Inl e, d') \<Rightarrow> (Failed (wrap (db_error_text h e)), [], [], d'))"
  by (simp add: db_repo_def split: prod.split sum.split)

lemma run_perform_db:
  "promised h op d = (Inr a, d') \<Longrightarrow> run_prog (perform op p) (db_repo h) d = run_prog p (db_repo h) d'"
  by (simp add: perform_def db_repo_def)

lemma run_subject:
  "run_prog (subjectFrom env c g k) (db_repo h) d =
   (case named_subject h env c g d of
      Inl e \<Rightarrow> (Failed e, [], [], d)
    | Inr (subj, ty, name) \<Rightarrow> run_prog (k subj ty name) (db_repo h) d)"
proof (cases "(c = '''') = (g = '''')")
  case False
  show ?thesis
  proof (cases "c = ''''")
    case True
    then show ?thesis using False
      by (simp add: subjectFrom_def named_subject_def findGroupByName_def split: option.split)
  next
    case c: False
    then show ?thesis using False
      by (cases "GetClientByName (h_fold h) c d")
         (simp_all add: subjectFrom_def named_subject_def run_ask_db del: run_prog.simps)
  qed
qed (simp add: subjectFrom_def named_subject_def)

lemma run_targets:
  "run_prog (targetsFrom env gi ii k) (db_repo h) d =
   (if gi = [] \<and> ii = [] then (Failed ''specify at least one --guest or --instance'', [], [], d)
    else case named_guests env gi d of
      Inl e \<Rightarrow> (Failed e, [], [], d)
    | Inr gs \<Rightarrow> (case named_nodes env ii d of
        Inl e \<Rightarrow> (Failed e, [], [], d)
      | Inr ns \<Rightarrow> run_prog (k gs ns) (db_repo h) d))"
  by (auto simp: targetsFrom_def resolveGuestIdentifiers_def resolveInstanceNames_def named_guests_def
      named_nodes_def Let_def split: sum.split)

section \<open>Grants\<close>

definition stands_for :: "db \<Rightarrow> rule_type \<Rightarrow> int \<Rightarrow> int \<Rightarrow> bool" where
  "stands_for d ty subj cid \<longleftrightarrow> ty = RuleClient \<and> subj = cid \<or> ty = RuleGroup \<and> member_of d cid subj"

lemma grant_nothing [simp]: "grantAccess ty subj [] d = d" "grantInstanceAccess ty subj [] d = d"
  by (simp_all add: grantAccess_def grantInstanceAccess_def)

lemma grant_rules: "grant_rule ty = grantAccess ty" "grant_instance_rule ty = grantInstanceAccess ty"
  by (cases ty; simp add: grant_rule_def grant_instance_rule_def GrantClientAccess_def GrantGroupAccess_def
      GrantClientInstanceAccess_def GrantGroupInstanceAccess_def)+

lemma grant_other_table:
  "HasInstanceAccess ord cid iid (grantAccess ty subj ts d) = HasInstanceAccess ord cid iid d"
  "HasAccess ord cid gid (grantInstanceAccess ty subj ts d) = HasAccess ord cid gid d"
  "member_of (grantAccess ty subj ts d) = member_of d"
  by (auto simp: grantAccess_def grantInstanceAccess_def HasInstanceAccess_def HasAccess_def clientGroupIDs_def
      GetDefaultPolicy_def member_of_def fun_eq_iff ListClients_def ListGroups_def split: prod.split)

lemma grant_instance_effect:
  assumes "db_inv d" "iteration_order ord"
  shows "HasInstanceAccess ord cid iid (grantInstanceAccess ty subj ts d) \<longleftrightarrow>
    HasInstanceAccess ord cid iid d \<or> (iid \<in> set ts \<and> stands_for d ty subj cid)"
proof -
  have d: "d_inst_rules (grantInstanceAccess ty subj ts d) = fst (insert_rules ty subj ts (d_inst_rules d, d_seq_inst_rule d))"
    "member_of (grantInstanceAccess ty subj ts d) = member_of d"
    "GetDefaultPolicy (grantInstanceAccess ty subj ts d) = GetDefaultPolicy d"
    by (auto simp: grantInstanceAccess_def member_of_def GetDefaultPolicy_def fun_eq_iff split: prod.splits)
  have inv: "db_inv (grantInstanceAccess ty subj ts d)" by (rule inv_rules) (rule assms)
  show ?thesis
    unfolding HasInstanceAccess_exact [OF inv assms(2)] HasInstanceAccess_exact [OF assms]
    by (auto simp: may_reach_node_def policy_reaches_def d has_rule_insert stands_for_def)
qed

text \<open>What a command that granted has done.\<close>

lemma run_grant:
  "run_prog (grantAccess_cmd env cn gn gi ii) (db_repo h) d = (res, o1, e1, d') \<Longrightarrow>
   (\<exists>msg. res = Failed msg) \<and> d' = d \<or>
   (\<exists>subj ty name gs ns. res = Returned None \<and> named_subject h env cn gn d = Inr (subj, ty, name) \<and>
      named_guests env gi d = Inr gs \<and> named_nodes env ii d = Inr ns \<and>
      d' = grantInstanceAccess ty subj (map fst ns) (grantAccess ty subj (map fst gs) d))"
  by (auto simp: grantAccess_cmd_def run_subject run_targets Let_def run_perform_db grant_rules printed_def
      split: sum.splits if_splits)


section \<open>Revocations\<close>

definition revoke_rules :: "rule_type \<Rightarrow> int \<Rightarrow> int list \<Rightarrow> db \<Rightarrow> db" where
  "revoke_rules ty subj ts d = fold (revoke_rule ty subj) ts d"

definition revoke_instance_rules :: "rule_type \<Rightarrow> int \<Rightarrow> int list \<Rightarrow> db \<Rightarrow> db" where
  "revoke_instance_rules ty subj ts d = fold (revoke_instance_rule ty subj) ts d"

lemma run_revoke_each:
  assumes "\<And>i d. promised h (op i) d = (Inr Done, f i d)"
  shows "\<exists>out. run_prog (revoke_each op line ts p) (db_repo h) d = printed out [] (run_prog p (db_repo h) (fold f (map fst ts) d))"
proof (induction ts arbitrary: d)
  case Nil
  then show ?case by (intro exI [of _ "[]"]) (simp add: revoke_each_def)
next
  case (Cons x ts)
  obtain i n where x: "x = (i, n)" by fastforce
  obtain out where
    "run_prog (revoke_each op line ts p) (db_repo h) (f i d) = printed out [] (run_prog p (db_repo h) (fold f (map fst ts) (f i d)))"
    using Cons.IH by blast
  then show ?case
    by (intro exI [of _ "line n @ newline @ out"]) (simp add: revoke_each_def x run_perform_db [OF assms])
qed

lemma run_revoke:
  assumes "run_prog (revokeAccess_cmd env cn gn gi ii) (db_repo h) d = (res, o1, e1, d')"
  shows "(\<exists>msg. res = Failed msg) \<and> d' = d \<or>
   (\<exists>subj ty name gs ns. res = Returned None \<and> named_subject h env cn gn d = Inr (subj, ty, name) \<and>
      named_guests env gi d = Inr gs \<and> named_nodes env ii d = Inr ns \<and>
      d' = revoke_instance_rules ty subj (map fst ns) (revoke_rules ty subj (map fst gs) d))"
proof (cases "named_subject h env cn gn d")
  case (Inr s)
  obtain subj ty name where s: "s = (subj, ty, name)" by (cases s)
  show ?thesis
  proof (cases "named_guests env gi d")
    case gs: (Inr gs)
    show ?thesis
    proof (cases "named_nodes env ii d")
      case ns: (Inr ns)
      let ?nodes = "revoke_each (RevokeInstanceOp ty subj) (access_line env ''Revoked'' ty name ''node '') ns finish"
      have "\<exists>out. run_prog (revoke_each (RevokeOp ty subj) (access_line env ''Revoked'' ty name '''') gs ?nodes) (db_repo h) d =
        printed out [] (run_prog ?nodes (db_repo h) (revoke_rules ty subj (map fst gs) d))"
        unfolding revoke_rules_def by (rule run_revoke_each) simp
      moreover have "\<exists>out. run_prog ?nodes (db_repo h) d1 =
        printed out [] (Returned None, [], [], revoke_instance_rules ty subj (map fst ns) d1)" for d1
        unfolding revoke_instance_rules_def
        using run_revoke_each [of h "RevokeInstanceOp ty subj" "revoke_instance_rule ty subj" _ ns finish d1] by simp
      ultimately have "\<exists>out. run_prog (revoke_each (RevokeOp ty subj) (access_line env ''Revoked'' ty name '''') gs ?nodes) (db_repo h) d =
        printed out [] (Returned None, [], [], revoke_instance_rules ty subj (map fst ns) (revoke_rules ty subj (map fst gs) d))"
        by (metis printed_printed append_Nil)
      then show ?thesis using assms
        by (auto simp: revokeAccess_cmd_def run_subject run_targets Inr s gs ns printed_def split: if_splits)
    qed (use assms in \<open>auto simp: revokeAccess_cmd_def run_subject run_targets Inr s gs split: if_splits\<close>)
  qed (use assms in \<open>auto simp: revokeAccess_cmd_def run_subject run_targets Inr s split: if_splits\<close>)
qed (use assms in \<open>auto simp: revokeAccess_cmd_def run_subject\<close>)

section \<open>Adding a client\<close>

text \<open>A key that passed the check is one line of the output, as it stands.\<close>

definition one_entry :: "cli_env \<Rightarrow> gostring \<Rightarrow> bool" where
  "one_entry env k \<longleftrightarrow> k \<noteq> '''' \<and> trim_space k = k \<and> \<not> contains_any k [CHR 0x0A, CHR 0x0D] \<and>
     CHR 0x00 \<notin> set k \<and> ce_parse_key env k = Inr (0, [])"

lemma ValidatePublicKey_entry: "ValidatePublicKey env raw = Inr k \<Longrightarrow> one_entry env k"
  using trim_space_idem [of raw]
  by (auto simp: ValidatePublicKey_def one_entry_def Let_def split: if_splits sum.splits)

lemma valid_keys_entries: "valid_keys env ks = Inr vs \<Longrightarrow> list_all (one_entry env) vs"
  by (induction ks arbitrary: vs)
     (auto simp: map_sum_Inr dest: ValidatePublicKey_entry split: if_splits sum.splits)

lemma offered_entries: "list_all (one_entry env) ks \<Longrightarrow> offered_of ident ks = map (\<lambda>k. (k, ident)) ks"
  by (induction ks) (auto simp: offered_of_def one_entry_def)


section \<open>Examples\<close>

definition demo_env :: cli_env where
  "demo_env = \<lparr>ce_fold = id, ce_quote = id, ce_json = (\<lambda>_. ''''), ce_parse_key = (\<lambda>_. Inr (0, []))\<rparr>"


definition office_db :: db where
  "office_db = snd (run_ops_with (local demo_handler)
     [AddProxmoxInstanceOp \<lparr>in_id = 0, in_name = ''rome'', in_api_url = ''https://rome:8006'', in_token_id = [], in_token_secret = [],
        in_transport = ''ssh'', in_node = ''rome'', in_insecure_tls = False, in_insecure_ssh = False, in_ssh_host = [],
        in_ssh_port = 0, in_ssh_user = ''root'', in_fps = []\<rparr>,
      UpsertGuestOp \<lparr>g_id = 0, g_type = ''ct'', g_name = ''web'', g_status = ''running'', g_vmid = 101, g_instance = 1\<rparr>,
      AddClientOp alice_client] empty_db)"

lemma office_inv: "db_inv office_db"
  by code_simp



theorem session_discovery_crashes_witness:
  "\<exists>msg. fst (run_prog (discover_cmd demo_env (Some (\<lambda>_. Inr [])) '''') (api_repo demo_handler rest_call) office_db) = Crashed msg"
proof -
  have "ListProxmoxInstances office_db \<noteq> []" by code_simp
  then have "hd (ListProxmoxInstances office_db) \<in> set (ListProxmoxInstances office_db)" by simp
  from session_discovery_crashes [OF rest_is_admin this, of "\<lambda>_. Inr []" "[]" demo_env "[]"] show ?thesis by auto
qed

end
