(* ===== verification/ProxmoxClient.thy ===== *)
theory ProxmoxClient
  imports Repository GoJson
begin

text \<open>
  \<open>internal/proxmox/client.go\<close>: the client of a node's REST API. The network is an argument, a
  function from the request to what came of it; so are \<open>url.Parse\<close>, the quoting of \<open>%q\<close> and the
  texts of the JSON decoder's and the number parser's errors. Bodies are decoded by the JSON model
  of the guest helper's protocol.
\<close>

section \<open>Requests\<close>

record http_request =
  rq_url :: gostring
  rq_auth :: gostring
  rq_insecure :: bool

text \<open>
  A rejected certificate, a request that was not delivered, a body that broke off (in the network
  or otherwise), or a response.
\<close>

datatype exchange =
    CertRejected gostring
  | Undelivered gostring
  | BrokenBody gostring bool
  | Response nat bytes

record pve_env =
  pe_fold :: "bytes \<Rightarrow> bytes"
  pe_quote :: "gostring \<Rightarrow> gostring"
  pe_parse_url :: "gostring \<Rightarrow> gostring + gostring \<times> gostring"
  pe_json_error :: "bytes \<Rightarrow> gostring"
  pe_atoi_error :: "gostring \<Rightarrow> gostring"
  pe_net :: "http_request \<Rightarrow> exchange"

record api_client =
  ac_base :: gostring
  ac_token_id :: gostring
  ac_token_secret :: gostring
  ac_insecure :: bool
  ac_ssh_host :: gostring

definition NewAPIClient :: "pve_env \<Rightarrow> instance_row \<Rightarrow> gostring + api_client" where
  "NewAPIClient env inst =
     (case pe_parse_url env (trim_right_slash (in_api_url inst)) of
        Inl e \<Rightarrow> Inl (''invalid api-url '' @ pe_quote env (in_api_url inst) @ '': '' @ e)
      | Inr (scheme, host) \<Rightarrow>
          if scheme \<noteq> ''http'' \<and> scheme \<noteq> ''https''
          then Inl (''invalid api-url '' @ pe_quote env (in_api_url inst) @ '': must start with http:// or https://'')
          else if host = '''' then Inl (''invalid api-url '' @ pe_quote env (in_api_url inst) @ '': missing host'')
          else Inr \<lparr>ac_base = trim_right_slash (in_api_url inst), ac_token_id = in_token_id inst,
                    ac_token_secret = in_token_secret inst, ac_insecure = in_insecure_tls inst,
                    ac_ssh_host = in_ssh_host inst\<rparr>)"

text \<open>An error: its text, and what is under it.\<close>

datatype error_cause = CauseCert | CauseNet | CauseOther

record get_error =
  ge_text :: gostring
  ge_cause :: error_cause

definition wrap_error :: "gostring \<Rightarrow> get_error \<Rightarrow> get_error" where
  "wrap_error what e = e\<lparr>ge_text := what @ ge_text e\<rparr>"

definition bare_error :: "gostring \<Rightarrow> get_error" where
  "bare_error t = \<lparr>ge_text = t, ge_cause = CauseOther\<rparr>"

definition get_request :: "api_client \<Rightarrow> gostring \<Rightarrow> http_request" where
  "get_request c path =
     \<lparr>rq_url = ac_base c @ path, rq_auth = ''PVEAPIToken='' @ ac_token_id c @ ''='' @ ac_token_secret c,
      rq_insecure = ac_insecure c\<rparr>"

definition doGet :: "pve_env \<Rightarrow> api_client \<Rightarrow> gostring \<Rightarrow> get_error + bytes" where
  "doGet env c path =
     (let url = ac_base c @ path in
      case pe_net env (get_request c path) of
        CertRejected e \<Rightarrow> Inl \<lparr>ge_text = ''GET '' @ url @ '': '' @ e, ge_cause = CauseCert\<rparr>
      | Undelivered e \<Rightarrow> Inl \<lparr>ge_text = ''GET '' @ url @ '': '' @ e, ge_cause = CauseNet\<rparr>
      | BrokenBody e in_net \<Rightarrow>
          Inl \<lparr>ge_text = ''read body '' @ url @ '': '' @ e, ge_cause = (if in_net then CauseNet else CauseOther)\<rparr>
      | Response status body \<Rightarrow>
          if status \<noteq> 200
          then Inl (bare_error (''GET '' @ url @ '': status '' @ itoa (int status) @ '': '' @ body))
          else Inr body)"

section \<open>Responses\<close>

fun decode_all :: "'e field_table \<Rightarrow> 'e \<Rightarrow> jval list \<Rightarrow> 'e list option" where
  "decode_all tbl zero [] = Some []"
| "decode_all tbl zero (v # vs) =
     Option.bind (decode_struct tbl v zero) (\<lambda>e. map_option ((#) e) (decode_all tbl zero vs))"

text \<open>The envelope \<open>{"data": [...]}\<close>, its list being the value decoded.\<close>

fun list_field :: "'e field_table \<Rightarrow> 'e \<Rightarrow> jval \<Rightarrow> 'e list \<Rightarrow> 'e list option" where
  "list_field tbl zero (VArr vs) h = decode_all tbl zero vs"
| "list_field tbl zero VNull h = Some []"
| "list_field tbl zero _ h = None"

definition decode_data :: "'e field_table \<Rightarrow> 'e \<Rightarrow> bytes \<Rightarrow> 'e list option" where
  "decode_data tbl zero body =
     Option.bind (parse_json body) (\<lambda>v. decode_struct [(''data'', list_field tbl zero)] v [])"

record node_entry =
  ne_node :: gostring
  ne_status :: gostring

definition node_fields :: "node_entry field_table" where
  "node_fields = [(''node'', str_field ne_node_update), (''status'', str_field ne_status_update)]"

record status_entry =
  se_type :: gostring
  se_name :: gostring
  se_local :: int

definition status_fields :: "status_entry field_table" where
  "status_fields =
     [(''type'', str_field se_type_update), (''name'', str_field se_name_update), (''local'', int64_field se_local_update)]"

record guest_entry =
  ge_vmid :: int
  ge_name :: gostring
  ge_status :: gostring

definition guest_fields :: "guest_entry field_table" where
  "guest_fields =
     [(''vmid'', int64_field ge_vmid_update), (''name'', str_field ge_name_update), (''status'', str_field ge_status_update)]"

definition getNodes :: "pve_env \<Rightarrow> api_client \<Rightarrow> get_error + gostring list" where
  "getNodes env c =
     (case doGet env c ''/api2/json/nodes'' of
        Inl e \<Rightarrow> Inl e
      | Inr body \<Rightarrow>
          (case decode_data node_fields \<lparr>ne_node = [], ne_status = []\<rparr> body of
             None \<Rightarrow> Inl (bare_error (''decode nodes response: '' @ pe_json_error env body))
           | Some ns \<Rightarrow> Inr (map ne_node ns)))"

definition getLocalNode :: "pve_env \<Rightarrow> api_client \<Rightarrow> get_error + gostring" where
  "getLocalNode env c =
     (case doGet env c ''/api2/json/cluster/status'' of
        Inl e \<Rightarrow> Inl (wrap_error ''get cluster status: '' e)
      | Inr body \<Rightarrow>
          (case decode_data status_fields \<lparr>se_type = [], se_name = [], se_local = 0\<rparr> body of
             None \<Rightarrow> Inl (bare_error (''decode cluster status: '' @ pe_json_error env body))
           | Some es \<Rightarrow>
               (case find (\<lambda>e. se_type e = ''node'' \<and> se_local e = 1) es of
                  Some e \<Rightarrow> Inr (se_name e)
                | None \<Rightarrow> Inl (bare_error ''no local node found in cluster status response''))))"

definition names_node :: "pve_env \<Rightarrow> gostring \<Rightarrow> gostring \<Rightarrow> bool" where
  "names_node env sshHost node =
     (let ssh = to_lower (pe_fold env) sshHost; n = to_lower (pe_fold env) node
      in ssh = n \<or> has_prefix (n @ ''.'') ssh)"

definition ResolveNodeName :: "pve_env \<Rightarrow> api_client \<Rightarrow> gostring \<Rightarrow> get_error + gostring" where
  "ResolveNodeName env c sshHost =
     (if sshHost = '''' then getLocalNode env c
      else case getNodes env c of
             Inl e \<Rightarrow> Inl e
           | Inr nodes \<Rightarrow>
               (case find (names_node env sshHost) nodes of
                  Some node \<Rightarrow> Inr node
                | None \<Rightarrow> getLocalNode env c))"

section \<open>Guests\<close>

definition normalizeStatus :: "(bytes \<Rightarrow> bytes) \<Rightarrow> gostring \<Rightarrow> gostring" where
  "normalizeStatus U raw =
     (if to_lower U raw = ''running'' then StatusRunning
      else if to_lower U raw = ''stopped'' then StatusStopped
      else StatusStopped)"

definition getNodeGuests ::
  "pve_env \<Rightarrow> api_client \<Rightarrow> gostring \<Rightarrow> gostring \<Rightarrow> guest_type \<Rightarrow> get_error + guest_row list" where
  "getNodeGuests env c node kind ty =
     (case doGet env c (''/api2/json/nodes/'' @ node @ ''/'' @ kind) of
        Inl e \<Rightarrow> Inl e
      | Inr body \<Rightarrow>
          (case decode_data guest_fields \<lparr>ge_vmid = 0, ge_name = [], ge_status = []\<rparr> body of
             None \<Rightarrow> Inl (bare_error (''decode '' @ kind @ '' response for node '' @ node @ '': '' @ pe_json_error env body))
           | Some es \<Rightarrow>
               Inr (map (\<lambda>e. \<lparr>g_id = 0, g_type = ty, g_name = ge_name e,
                              g_status = normalizeStatus (pe_fold env) (ge_status e), g_vmid = ge_vmid e,
                              g_instance = 0\<rparr>) es)))"

definition DiscoverGuests :: "pve_env \<Rightarrow> api_client \<Rightarrow> get_error + guest_row list" where
  "DiscoverGuests env c =
     (case ResolveNodeName env c (ac_ssh_host c) of
        Inl e \<Rightarrow> Inl (wrap_error ''resolve node name: '' e)
      | Inr node \<Rightarrow>
          (case getNodeGuests env c node ''lxc'' GuestTypeCT of
             Inl e \<Rightarrow> Inl (wrap_error (''get lxc on node '' @ node @ '': '') e)
           | Inr cts \<Rightarrow>
               (case getNodeGuests env c node ''qemu'' GuestTypeVM of
                  Inl e \<Rightarrow> Inl (wrap_error (''get qemu on node '' @ node @ '': '') e)
                | Inr vms \<Rightarrow> Inr (cts @ vms))))"

text \<open>\<open>DefaultDiscovererFactory\<close>: an instance whose URL is bad is a discoverer that fails.\<close>

definition default_discoverer :: "pve_env \<Rightarrow> instance_row \<Rightarrow> gostring + guest_row list" where
  "default_discoverer env inst =
     (case NewAPIClient env inst of
        Inl e \<Rightarrow> Inl e
      | Inr c \<Rightarrow> map_sum ge_text id (DiscoverGuests env c))"

section \<open>Versions\<close>

fun go_splitn :: "nat \<Rightarrow> 'a \<Rightarrow> 'a list \<Rightarrow> 'a list list" where
  "go_splitn (Suc (Suc n)) c s =
     (let (a, b, found) = go_cut c s in if found then a # go_splitn (Suc n) c b else [s])"
| "go_splitn (Suc 0) c s = [s]"
| "go_splitn 0 c s = []"

text \<open>The components read so far, or the number and text of the first that is not an integer.\<close>

fun version_parts :: "nat \<Rightarrow> gostring list \<Rightarrow> nat \<times> gostring + int list" where
  "version_parts i [] = Inr []"
| "version_parts i (p # ps) =
     (case atoi p of
        None \<Rightarrow> Inl (i, p)
      | Some n \<Rightarrow> map_sum id (\<lambda>ns. n # ns) (version_parts (Suc i) ps))"

fun pad3 :: "int list \<Rightarrow> int \<times> int \<times> int" where
  "pad3 [] = (0, 0, 0)"
| "pad3 [a] = (a, 0, 0)"
| "pad3 [a, b] = (a, b, 0)"
| "pad3 (a # b # c # _) = (a, b, c)"

definition parsePVEVersion :: "gostring \<Rightarrow> nat \<times> gostring + int \<times> int \<times> int" where
  "parsePVEVersion v =
     map_sum id pad3 (version_parts 0 (take 3 (go_splitn 3 CHR ''.'' (hd (go_splitn 2 CHR ''~'' v)))))"

record version_data =
  vd_version :: gostring
  vd_release :: gostring

definition version_fields :: "version_data field_table" where
  "version_fields = [(''version'', str_field vd_version_update), (''release'', str_field vd_release_update)]"

definition decode_version :: "bytes \<Rightarrow> version_data option" where
  "decode_version body =
     Option.bind (parse_json body) (\<lambda>v. decode_struct [(''data'', decode_struct version_fields)] v
       \<lparr>vd_version = [], vd_release = []\<rparr>)"

definition version_too_old :: "int \<times> int \<times> int \<Rightarrow> bool" where
  "version_too_old got =
     (let (a, b, c) = got in a < 9 \<or> (a = 9 \<and> b < 1) \<or> (a = 9 \<and> b = 1 \<and> c < 9))"

definition CheckTermProxySupport :: "pve_env \<Rightarrow> api_client \<Rightarrow> gostring option" where
  "CheckTermProxySupport env c =
     (case doGet env c ''/api2/json/version'' of
        Inl e \<Rightarrow> Some (''get proxmox version: '' @ ge_text e)
      | Inr body \<Rightarrow>
     (case decode_version body of
        None \<Rightarrow> Some (''decode version response: '' @ pe_json_error env body)
      | Some r \<Rightarrow>
          if vd_version r = '''' then Some (''proxmox version response missing '' @ [CHR 0x27] @ ''version'' @ [CHR 0x27] @ '' field'')
          else (case parsePVEVersion (vd_version r) of
                  Inl (i, part) \<Rightarrow>
                    Some (''parse proxmox version '' @ pe_quote env (vd_version r) @ '': component '' @ itoa (int i) @ '' '' @
                          pe_quote env part @ '': '' @ pe_atoi_error env part)
                | Inr got \<Rightarrow>
                    if version_too_old got
                    then Some (''proxmox VE '' @ vd_version r @
                      '' does not support the termproxy console transport: requires pve-manager >= 9.1.9 (pve-container 6.1.3 + pve-manager 9.1.9, released 2026-04-21); use --console-transport ssh instead, or upgrade your proxmox host'')
                    else None)))"

text \<open>What the API's handler and the command line check before a node is stored.\<close>

definition termproxy_check :: "pve_env \<Rightarrow> instance_row \<Rightarrow> gostring option" where
  "termproxy_check env inst =
     (case NewAPIClient env inst of Inl e \<Rightarrow> Some e | Inr c \<Rightarrow> CheckTermProxySupport env c)"

section \<open>Probing\<close>

datatype api_status = APIConnectionOK | APIConnectionCertError | APIConnectionUnreachable | APIConnectionAuthError | APIConnectionError

definition CheckAPIConnection :: "pve_env \<Rightarrow> api_client \<Rightarrow> api_status \<times> gostring" where
  "CheckAPIConnection env c =
     (case doGet env c ''/api2/json/version'' of
        Inr _ \<Rightarrow> (APIConnectionOK, '''')
      | Inl e \<Rightarrow>
          (if ge_cause e = CauseCert then APIConnectionCertError
           else if go_contains ''status 401'' (ge_text e) then APIConnectionAuthError
           else if ge_cause e = CauseNet then APIConnectionUnreachable
           else APIConnectionError, ge_text e))"

section \<open>What a discovery brings\<close>

lemma normalizeStatus_known: "normalizeStatus U raw \<in> {StatusRunning, StatusStopped}"
  by (simp add: normalizeStatus_def)

lemma getNodeGuests_rows:
  assumes "getNodeGuests env c node kind ty = Inr gs" "g \<in> set gs"
  shows "g_type g = ty \<and> g_status g \<in> {StatusRunning, StatusStopped} \<and> g_id g = 0 \<and> g_instance g = 0"
  using assms by (auto simp: getNodeGuests_def normalizeStatus_def split: sum.splits option.splits)

text \<open>
  The node is the one the host names, or the one that answered; its guests are containers and
  virtual machines that run or are stopped.
\<close>

lemma resolved_node:
  assumes "ResolveNodeName env c host = Inr node"
  shows "getLocalNode env c = Inr node \<or>
    (host \<noteq> '''' \<and> names_node env host node \<and> (\<exists>nodes. getNodes env c = Inr nodes \<and> node \<in> set nodes))"
  using assms by (auto simp: ResolveNodeName_def split: if_splits sum.splits option.splits dest: find_in)

lemma discovered_guests:
  assumes "DiscoverGuests env c = Inr gs" "g \<in> set gs"
  shows "g_type g \<in> {GuestTypeCT, GuestTypeVM} \<and> g_status g \<in> {StatusRunning, StatusStopped}"
  using assms by (auto simp: DiscoverGuests_def split: sum.splits dest: getNodeGuests_rows)

section \<open>Versions in order\<close>

text \<open>The comparison is the lexicographic one.\<close>

lemma version_too_old_lex:
  "version_too_old (a, b, c) \<longleftrightarrow> a < 9 \<or> (a = 9 \<and> (b < 1 \<or> (b = 1 \<and> c < 9)))"
  by (auto simp: version_too_old_def)

lemma go_cut_absent: "c \<notin> set s \<Longrightarrow> go_cut c s = (s, [], False)"
  by (induction s) auto

lemma dotted_version:
  assumes "CHR ''.'' \<notin> set a" "CHR ''.'' \<notin> set b" "CHR ''~'' \<notin> set (a @ b @ c)"
  shows "parsePVEVersion (a @ ''.'' @ b @ ''.'' @ c) = map_sum id pad3 (version_parts 0 [a, b, c])"
proof -
  have "go_splitn 2 CHR ''~'' (a @ ''.'' @ b @ ''.'' @ c) = [a @ ''.'' @ b @ ''.'' @ c]"
    using assms(3) by (simp add: numeral_2_eq_2 go_cut_absent)
  moreover have "go_splitn 3 CHR ''.'' (a @ ''.'' @ b @ ''.'' @ c) = [a, b, c]"
    using assms(1,2) by (simp add: numeral_3_eq_3 go_cut_append)
  ultimately show ?thesis by (simp add: parsePVEVersion_def)
qed

lemma itoa_digits: "set (itoa (int n)) \<subseteq> {c. is_digit c}"
  using nat_digits_all_digits [of n] by (auto simp: itoa_def list_all_iff)

lemma itoa_no_separator: "CHR ''.'' \<notin> set (itoa (int n))" "CHR ''~'' \<notin> set (itoa (int n))"
  using itoa_digits [of n] by (auto simp: is_digit_def)

lemma printed_version:
  assumes "x < 2 ^ 63" "y < 2 ^ 63" "z < 2 ^ 63"
  shows "parsePVEVersion (itoa (int x) @ CHR ''.'' # itoa (int y) @ CHR ''.'' # itoa (int z)) = Inr (int x, int y, int z)"
proof -
  have a: "atoi (itoa (int n)) = Some (int n)" if "n < 2 ^ 63" for n :: nat
    by (rule atoi_itoa) (use that in simp_all)
  note atoi = a [OF assms(1)] a [OF assms(2)] a [OF assms(3)]
  show ?thesis using itoa_no_separator dotted_version [of "itoa (int x)" "itoa (int y)" "itoa (int z)"]
    by (simp add: atoi)
qed

text \<open>What follows a tilde does not count.\<close>

lemma prerelease_ignored: "CHR ''~'' \<notin> set v \<Longrightarrow> parsePVEVersion (v @ ''~'' @ sfx) = parsePVEVersion v"
  by (simp add: parsePVEVersion_def numeral_2_eq_2 go_cut_append go_cut_absent)

text \<open>A node is refused for its version exactly when that is before 9.1.9.\<close>

lemma version_gate:
  assumes "doGet env c ''/api2/json/version'' = Inr body" "decode_version body = Some r"
    "vd_version r = itoa (int x) @ ''.'' @ itoa (int y) @ ''.'' @ itoa (int z)"
    "x < 2 ^ 63" "y < 2 ^ 63" "z < 2 ^ 63"
  shows "CheckTermProxySupport env c = None \<longleftrightarrow> \<not> version_too_old (int x, int y, int z)"
  using assms by (simp add: CheckTermProxySupport_def printed_version)

section \<open>A probe tells its causes apart\<close>

lemma probe_ok: "fst (CheckAPIConnection env c) = APIConnectionOK \<longleftrightarrow>
    (\<exists>body. pe_net env (get_request c ''/api2/json/version'') = Response 200 body)"
  by (auto simp: CheckAPIConnection_def doGet_def Let_def split: exchange.splits)

lemma probe_cert: "fst (CheckAPIConnection env c) = APIConnectionCertError \<longleftrightarrow>
    (\<exists>e. pe_net env (get_request c ''/api2/json/version'') = CertRejected e)"
  by (auto simp: CheckAPIConnection_def doGet_def Let_def bare_error_def split: exchange.splits)

text \<open>A node whose certificate is not trusted: every request that verifies it is refused.\<close>

definition self_signed :: "pve_env \<Rightarrow> gostring \<Rightarrow> bool" where
  "self_signed env base \<longleftrightarrow>
     (\<forall>rq. \<not> rq_insecure rq \<longrightarrow> has_prefix base (rq_url rq) \<longrightarrow> (\<exists>e. pe_net env rq = CertRejected e))"

lemma self_signed_get:
  assumes "self_signed env (ac_base c)" "\<not> ac_insecure c"
  shows "\<exists>e. doGet env c path = Inl e \<and> ge_cause e = CauseCert"
proof -
  have "\<not> rq_insecure (get_request c path)" "has_prefix (ac_base c) (rq_url (get_request c path))"
    using assms(2) by (simp_all add: get_request_def has_prefix_iff)
  then obtain e where "pe_net env (get_request c path) = CertRejected e"
    using assms(1) unfolding self_signed_def by blast
  then show ?thesis by (simp add: doGet_def Let_def)
qed

lemma self_signed_resolve:
  assumes "self_signed env (ac_base c)" "\<not> ac_insecure c"
  shows "\<exists>e. ResolveNodeName env c host = Inl e \<and> ge_cause e = CauseCert"
proof -
  obtain e1 where "doGet env c ''/api2/json/nodes'' = Inl e1" "ge_cause e1 = CauseCert"
    using self_signed_get [OF assms] by blast
  moreover obtain e2 where "doGet env c ''/api2/json/cluster/status'' = Inl e2" "ge_cause e2 = CauseCert"
    using self_signed_get [OF assms] by blast
  ultimately show ?thesis by (simp add: ResolveNodeName_def getNodes_def getLocalNode_def wrap_error_def)
qed

end
