(* ===== verification/CliInstance.thy ===== *)
theory CliInstance
  imports CliAccess ProxmoxClient
begin

text \<open>
  The commands over Proxmox instances: \<open>internal/cli/instance.go\<close>, \<open>instanceupdate.go\<close>,
  \<open>sshaccess.go\<close> and \<open>helpers.go\<close>. They ask the repository, and the node itself through the
  client of \<open>ProxmoxClient\<close>; the deployment's SSH key is a service of the server and an argument
  here.
\<close>

section \<open>Hosts and ports\<close>

text \<open>\<open>net.SplitHostPort\<close>: the last colon parts them, brackets hold an address with colons.\<close>

definition split_host_port :: "gostring \<Rightarrow> (gostring \<times> gostring) option" where
  "split_host_port s =
     (case last_index CHR '':'' s of
        None \<Rightarrow> None
      | Some i \<Rightarrow>
          if hd s = CHR ''[''
          then (case go_cut CHR '']'' s of (before, rest, found) \<Rightarrow>
                  if \<not> found \<or> length before + 1 \<noteq> i \<or> CHR ''['' \<in> set (drop 1 s) \<or> CHR '']'' \<in> set rest then None
                  else Some (drop 1 before, drop (i + 1) s))
          else if CHR '':'' \<in> set (take i s) \<or> CHR ''['' \<in> set s \<or> CHR '']'' \<in> set s then None
          else Some (take i s, drop (i + 1) s))"

definition parseHostPort :: "(gostring \<Rightarrow> gostring) \<Rightarrow> gostring \<Rightarrow> int \<Rightarrow> gostring + gostring \<times> int" where
  "parseHostPort q hostport defaultPort =
     (case split_host_port hostport of
        None \<Rightarrow> Inr (hostport, defaultPort)
      | Some (host, portStr) \<Rightarrow>
          (case atoi portStr of
             None \<Rightarrow> Inl (''invalid port '' @ q portStr)
           | Some port \<Rightarrow> Inr (host, port)))"

definition parseExplicitSSHHost :: "(gostring \<Rightarrow> gostring) \<Rightarrow> gostring \<Rightarrow> gostring + gostring \<times> int" where
  "parseExplicitSSHHost q explicitSSHHost =
     (if explicitSSHHost = '''' then Inr ('''', 0)
      else map_sum (\<lambda>e. ''invalid --ssh-host: '' @ e) id (parseHostPort q explicitSSHHost 22))"

definition validateAPIURL :: "pve_env \<Rightarrow> gostring \<Rightarrow> gostring option" where
  "validateAPIURL env rawURL =
     (let about = ''--url '' @ pe_quote env rawURL @ '': ''
      in case pe_parse_url env (trim_right_slash rawURL) of
           Inl e \<Rightarrow> Some (about @ e)
         | Inr (scheme, host) \<Rightarrow>
             if scheme \<noteq> ''http'' \<and> scheme \<noteq> ''https'' then Some (about @ ''must start with http:// or https://'')
             else if host = '''' then Some (about @ ''missing host'')
             else None)"

section \<open>The environment\<close>

datatype ssh_answer = Reachable | NoFingerprint gostring | Unreachable gostring

record instance_env =
  ie_cli :: cli_env
  ie_pve :: pve_env
  ie_public_key :: "gostring + gostring \<times> gostring"
  ie_ssh_access :: "instance_row \<Rightarrow> ssh_answer"
  ie_discoverer :: "(instance_row \<Rightarrow> gostring + guest_row list) option"
  ie_store_text :: gostring
  ie_fp_error :: "gostring list \<Rightarrow> gostring"

definition authorizedKeysPath :: gostring where "authorizedKeysPath = ''~/.ssh/authorized_keys''"

definition quote_mark :: gostring where "quote_mark = [CHR 0x27]"

definition reportSSHKey :: "instance_env \<Rightarrow> instance_row \<Rightarrow> prog \<Rightarrow> prog" where
  "reportSSHKey env inst k =
     (case ie_public_key env of
        Inl e \<Rightarrow> say_line (''SSH Key:          '' @ e) k
      | Inr (pub, path) \<Rightarrow>
          if pub = '''' then say_line (''SSH Key:          none at '' @ path) k
          else say_line (''SSH Key:          '' @ path) (Say (''SSH Public Key:   '' @ pub)
                 (case ie_ssh_access env inst of
                    Reachable \<Rightarrow> say_line ''SSH Access:       ok'' k
                  | NoFingerprint e \<Rightarrow>
                      say_line (''SSH Access:       UNAVAILABLE: '' @ e)
                        (say_line (''                  install the public key above in '' @ authorizedKeysPath @
                                   '' on '' @ in_ssh_host inst) k)
                  | Unreachable e \<Rightarrow>
                      say_line (''SSH Access:       UNAVAILABLE: '' @ e)
                        (say_line (''                  install the public key above in '' @ authorizedKeysPath @
                                   '' on '' @ in_ssh_host inst) k))))"

definition warnMissingSSHHost :: "instance_env \<Rightarrow> instance_row \<Rightarrow> prog \<Rightarrow> prog" where
  "warnMissingSSHHost env inst k =
     (if in_ssh_host inst \<noteq> '''' then k
      else Warn (''Warning: instance '' @ ce_quote (ie_cli env) (in_name inst) @
                 '' has no SSH host, so node shell, SFTP and file transfer are unavailable (the '' @
                 in_transport inst @ '' console still works).'' @ newline @
                 ''Set one with: instance update --name '' @ in_name inst @ '' --ssh-host <host>'' @ newline)
             (case ie_public_key env of
                Inl e \<Rightarrow> k
              | Inr (pub, path) \<Rightarrow>
                  if pub = '''' then k
                  else Warn (''Then add proxpass'' @ quote_mark @ ''s public key to '' @ authorizedKeysPath @
                             '' on the node:'' @ newline @ pub) k))"

definition probeSSHAccessBeforeAdd :: "instance_env \<Rightarrow> instance_row \<Rightarrow> gostring \<Rightarrow> prog \<Rightarrow> prog" where
  "probeSSHAccessBeforeAdd env inst instName k =
     (case ie_ssh_access env inst of
        Reachable \<Rightarrow> k
      | NoFingerprint e \<Rightarrow> Fail e
      | Unreachable e \<Rightarrow>
          (case ie_public_key env of
             Inl pe \<Rightarrow> Fail (''deriving the public key: '' @ pe)
           | Inr (pub, path) \<Rightarrow>
               Warn (''Warning: '' @ in_ssh_host inst @ '' is not reachable over SSH yet: '' @ e @ newline @
                     ''Add this key to '' @ authorizedKeysPath @ '' on '' @ in_ssh_host inst @
                     '', then run `instance inspect '' @ instName @ quote_mark @ '' to re-check:'' @ newline @ pub) k))"

section \<open>Listing and inspecting\<close>

definition configuredTLS :: "(bytes \<Rightarrow> bytes) \<Rightarrow> instance_row \<Rightarrow> gostring" where
  "configuredTLS U inst =
     (if \<not> has_prefix ''https://'' (to_lower U (in_api_url inst)) then ''off (http)''
      else if in_insecure_tls inst then ''insecure'' else ''verified'')"

definition configuredSSH :: "instance_row \<Rightarrow> gostring" where
  "configuredSSH inst =
     (if in_ssh_host inst = '''' then ''SSH: not configured''
      else let verify = (if in_insecure_ssh inst then ''insecure''
                         else if in_fps inst \<noteq> [] then ''pinned'' else ''sshfp'')
           in ''SSH: '' @ in_ssh_host inst @ '':'' @ itoa (in_ssh_port inst) @ '' ('' @ verify @ '')'')"

definition listInstances :: "instance_env \<Rightarrow> gostring \<Rightarrow> prog" where
  "listInstances env fmt =
     ask_instances (\<lambda>instances.
       if is_json fmt then Say (ce_json (ie_cli env) [Instances instances]) finish
       else if instances = [] then say_line ''No instances configured.'' finish
       else say_lines (map (\<lambda>inst. pad 20 (in_name inst) @ ''  API: '' @ in_api_url inst @ ''  TLS: '' @
              configuredTLS (ce_fold (ie_cli env)) inst @ ''  node: '' @ in_node inst @ ''  '' @ configuredSSH inst)
              instances) finish)"

definition tlsStatus :: "bool \<Rightarrow> gostring" where
  "tlsStatus insecure = (if insecure then ''insecure (certificate verification disabled)'' else ''verified'')"

definition sshHostKeyStatus :: "bool \<Rightarrow> gostring list \<Rightarrow> gostring" where
  "sshHostKeyStatus insecure fingerprints =
     (if insecure then ''insecure (host-key verification disabled)''
      else if fingerprints = [] then ''(none pinned; verified via DNS SSHFP)''
      else go_join '', '' fingerprints)"

definition probeTLS :: "instance_env \<Rightarrow> instance_row \<Rightarrow> gostring" where
  "probeTLS env inst =
     (if \<not> has_prefix ''https://'' (to_lower (ce_fold (ie_cli env)) (in_api_url inst)) then ''not in use (http API URL)''
      else case NewAPIClient (ie_pve env) inst of
          Inl e \<Rightarrow> ''FAILED: '' @ e
        | Inr c \<Rightarrow>
            (case CheckAPIConnection (ie_pve env) c of (status, e) \<Rightarrow>
              (case status of
                 APIConnectionOK \<Rightarrow> ''ok''
               | APIConnectionCertError \<Rightarrow>
                   ''FAILED: certificate not trusted (add with --insecure-tls or install a trusted certificate): '' @ e
               | APIConnectionAuthError \<Rightarrow> ''TLS ok, but the API token was rejected: '' @ e
               | APIConnectionUnreachable \<Rightarrow> ''host unreachable: '' @ e
               | APIConnectionError \<Rightarrow> ''FAILED: '' @ e)))"

definition inspectInstance :: "instance_env \<Rightarrow> instance_row \<Rightarrow> prog \<Rightarrow> prog" where
  "inspectInstance env inst k =
     say_lines [''Name:             '' @ in_name inst,
                ''API URL:          '' @ in_api_url inst,
                ''TLS:              '' @ tlsStatus (in_insecure_tls inst),
                ''TLS Connection:   '' @ probeTLS env inst,
                ''API Token ID:     '' @ in_token_id inst,
                ''API Token Secret: '' @ in_token_secret inst,
                ''Connection Type:  '' @ in_transport inst,
                ''Node:             '' @ in_node inst]
       (if in_ssh_host inst = ''''
        then say_line (''SSH:              not configured (set one with `instance update --ssh-host'' @ quote_mark @ '')'') k
        else say_lines [''SSH Host:         '' @ in_ssh_host inst,
                        ''SSH Port:         '' @ itoa (in_ssh_port inst),
                        ''SSH User:         '' @ in_ssh_user inst,
                        ''SSH Host Key:     '' @ sshHostKeyStatus (in_insecure_ssh inst) (in_fps inst)]
               (reportSSHKey env inst k))"

text \<open>The instance of a folded name is the last one listed under it.\<close>

fun instances_named ::
  "cli_env \<Rightarrow> instance_row list \<Rightarrow> gostring list \<Rightarrow> gostring + instance_row list" where
  "instances_named env instances [] = Inr []"
| "instances_named env instances (n # ns) =
     (case find (\<lambda>i. FoldName (ce_fold env) (in_name i) = FoldName (ce_fold env) n) (rev instances) of
        None \<Rightarrow> Inl (not_found_text env ''instance'' n)
      | Some i \<Rightarrow> map_sum id (\<lambda>is. i # is) (instances_named env instances ns))"

fun inspect_each :: "instance_env \<Rightarrow> instance_row list \<Rightarrow> prog" where
  "inspect_each env [] = finish"
| "inspect_each env [i] = inspectInstance env i finish"
| "inspect_each env (i # is) = inspectInstance env i (say_line [] (inspect_each env is))"

definition instance_inspect :: "instance_env \<Rightarrow> gostring \<Rightarrow> gostring list \<Rightarrow> prog" where
  "instance_inspect env fmt names =
     (if names = [] then Fail ''usage: instance inspect <name> [<name> ...]''
      else ask_instances (\<lambda>instances.
        case instances_named (ie_cli env) instances names of
          Inl e \<Rightarrow> Fail e
        | Inr found \<Rightarrow>
            if is_json fmt then Say (ce_json (ie_cli env) [Instances found]) finish
            else inspect_each env found))"

definition instance_rm :: "cli_env \<Rightarrow> gostring \<Rightarrow> prog" where
  "instance_rm env name =
     ask_instances (\<lambda>instances.
       case find (\<lambda>i. NamesEqual (ce_fold env) (in_name i) name) instances of
         Some inst \<Rightarrow>
           perform (RemoveProxmoxInstanceOp (in_id inst))
             (say_line (''Instance '' @ ce_quote env (in_name inst) @ '' removed.'') finish)
       | None \<Rightarrow> Fail (not_found_text env ''instance'' name))"

section \<open>Adding\<close>

text \<open>The client that probes a node is built of the URL, the token and the host alone.\<close>

definition probe_instance :: "gostring \<Rightarrow> gostring \<Rightarrow> gostring \<Rightarrow> gostring \<Rightarrow> instance_row" where
  "probe_instance apiURL tokenID tokenSecret sshHost =
     \<lparr>in_id = 0, in_name = '''', in_api_url = apiURL, in_token_id = tokenID, in_token_secret = tokenSecret,
      in_transport = '''', in_node = '''', in_insecure_tls = False, in_insecure_ssh = False,
      in_ssh_host = sshHost, in_ssh_port = 0, in_ssh_user = '''', in_fps = []\<rparr>"

definition checkTermProxyVersion :: "pve_env \<Rightarrow> gostring \<Rightarrow> gostring \<Rightarrow> gostring \<Rightarrow> gostring option" where
  "checkTermProxyVersion env apiURL tokenID tokenSecret =
     (case NewAPIClient env (probe_instance apiURL tokenID tokenSecret '''') of
        Inl e \<Rightarrow> Some e
      | Inr c \<Rightarrow> CheckTermProxySupport env c)"

definition resolveInstanceNode ::
  "pve_env \<Rightarrow> gostring \<Rightarrow> gostring \<Rightarrow> gostring \<Rightarrow> gostring \<Rightarrow> gostring + gostring" where
  "resolveInstanceNode env apiURL tokenID tokenSecret sshHost =
     (case NewAPIClient env (probe_instance apiURL tokenID tokenSecret sshHost) of
        Inl e \<Rightarrow> Inl e
      | Inr c \<Rightarrow> map_sum ge_text id (ResolveNodeName env c sshHost))"

record add_flags =
  fl_name :: gostring
  fl_url :: gostring
  fl_token_id :: gostring
  fl_token_secret :: gostring
  fl_insecure_tls :: bool
  fl_insecure_ssh :: bool
  fl_insecure :: bool
  fl_fingerprints :: "gostring list"
  fl_transport :: gostring
  fl_ssh_host :: gostring
  fl_ssh_user :: gostring

definition transport_refusal :: "cli_env \<Rightarrow> gostring \<Rightarrow> gostring option" where
  "transport_refusal env transport =
     (if transport \<noteq> ''termproxy'' \<and> transport \<noteq> ''ssh''
      then Some (''--console-transport must be '' @ ce_quote env ''termproxy'' @ '' or '' @ ce_quote env ''ssh'')
      else None)"

text \<open>The first discovery: the row is found again by its name, for its id.\<close>

definition first_discovery :: "instance_env \<Rightarrow> gostring \<Rightarrow> prog" where
  "first_discovery env name =
     (case ie_discoverer env of
        None \<Rightarrow> finish
      | Some poll \<Rightarrow>
          Try ListProxmoxInstancesOp (\<lambda>a. case a of
            None \<Rightarrow> finish
          | Some a \<Rightarrow>
              (case find (\<lambda>i. in_name i = name) (as_instances a) of
                 None \<Rightarrow> finish
               | Some i \<Rightarrow>
                   (case poll i of
                      Inl e \<Rightarrow> Warn (''Discovery failed: '' @ e @ newline) finish
                    | Inr guests \<Rightarrow>
                        store_guests i guests (\<lambda>stored removed failed.
                          let line = say_line (''Discovered '' @ itoa (int (length guests)) @ '' guests, '' @
                                               itoa (int stored) @ '' running.'') finish
                          in if failed then Warn (''Storing guests: '' @ ie_store_text env @ newline) line
                             else line)))))"

definition added_instance :: "add_flags \<Rightarrow> gostring \<Rightarrow> gostring \<times> int \<Rightarrow> gostring list \<Rightarrow> instance_row" where
  "added_instance f node host_port fps =
     \<lparr>in_id = 0, in_name = (if fl_name f = '''' then node else fl_name f), in_api_url = fl_url f,
      in_token_id = fl_token_id f, in_token_secret = fl_token_secret f, in_transport = fl_transport f,
      in_node = node, in_insecure_tls = (fl_insecure f \<or> fl_insecure_tls f),
      in_insecure_ssh = (fl_insecure f \<or> fl_insecure_ssh f), in_ssh_host = fst host_port,
      in_ssh_port = snd host_port, in_ssh_user = fl_ssh_user f, in_fps = fps\<rparr>"

fun as_instance :: "answer \<Rightarrow> instance_row option" where
  "as_instance (AnInstance i) = Some i" | "as_instance _ = None"

text \<open>What the flags and the node say: the row to store, or why there is none.\<close>

definition instance_to_add :: "instance_env \<Rightarrow> add_flags \<Rightarrow> gostring + instance_row" where
  "instance_to_add env f =
     (let q = ce_quote (ie_cli env) in
      case parseExplicitSSHHost q (fl_ssh_host f) of
        Inl e \<Rightarrow> Inl e
      | Inr host_port \<Rightarrow>
      (case NormalizeFingerprints (fl_fingerprints f) of
        None \<Rightarrow> Inl (ie_fp_error env (fl_fingerprints f))
      | Some fps \<Rightarrow>
      (case resolveInstanceNode (ie_pve env) (fl_url f) (fl_token_id f) (fl_token_secret f) (fst host_port) of
        Inl e \<Rightarrow> Inl (''resolving node name for '' @ fl_url f @ '': '' @ e)
      | Inr node \<Rightarrow>
      (case (if fl_transport f = ''termproxy''
             then checkTermProxyVersion (ie_pve env) (fl_url f) (fl_token_id f) (fl_token_secret f) else None) of
        Some e \<Rightarrow> Inl e
      | None \<Rightarrow> Inr (added_instance f node host_port fps)))))"

definition addInstance :: "instance_env \<Rightarrow> add_flags \<Rightarrow> prog" where
  "addInstance env f =
     (case instance_to_add env f of
        Inl e \<Rightarrow> Fail e
      | Inr inst \<Rightarrow>
          let store = Ask (AddProxmoxInstanceOp inst) id (\<lambda>a.
                let inst = (case as_instance a of Some i \<Rightarrow> i | None \<Rightarrow> inst)
                in say_line (''Instance '' @ ce_quote (ie_cli env) (in_name inst) @ '' added (connection: '' @
                             in_transport inst @ '', node: '' @ in_node inst @ '').'')
                     (warnMissingSSHHost env inst (first_discovery env (in_name inst))))
          in if in_transport inst = ''ssh'' \<and> in_ssh_host inst \<noteq> ''''
             then probeSSHAccessBeforeAdd env inst (in_name inst) store
             else store)"

definition instance_add :: "instance_env \<Rightarrow> add_flags \<Rightarrow> prog" where
  "instance_add env f =
     (case transport_refusal (ie_cli env) (fl_transport f) of
        Some e \<Rightarrow> Fail e
      | None \<Rightarrow>
     (case validateAPIURL (ie_pve env) (fl_url f) of
        Some e \<Rightarrow> Fail e
      | None \<Rightarrow>
     (case (if fl_ssh_host f = '''' then Inr ('''', 0)
            else parseHostPort (ce_quote (ie_cli env)) (fl_ssh_host f) 22) of
        Inl e \<Rightarrow> Fail (''invalid --ssh-host: '' @ e)
      | Inr _ \<Rightarrow> addInstance env f)))"

section \<open>Updating\<close>

text \<open>A flag that was not given is \<open>None\<close>.\<close>

record update_flags =
  uf_rename :: "gostring option"
  uf_url :: "gostring option"
  uf_token_id :: "gostring option"
  uf_token_secret :: "gostring option"
  uf_insecure :: "bool option"
  uf_insecure_tls :: "bool option"
  uf_insecure_ssh :: "bool option"
  uf_fingerprints :: "gostring list option"
  uf_transport :: "gostring option"
  uf_ssh_host :: "gostring option"
  uf_ssh_user :: "gostring option"

text \<open>One flag's step: a value that is refused ends the command.\<close>

definition apply_flag ::
  "'v option \<Rightarrow> ('v \<Rightarrow> instance_row \<Rightarrow> gostring + instance_row) \<Rightarrow> gostring + instance_row \<Rightarrow> gostring + instance_row" where
  "apply_flag flag step r = (case r of Inl e \<Rightarrow> Inl e | Inr i \<Rightarrow> (case flag of None \<Rightarrow> Inr i | Some v \<Rightarrow> step v i))"

definition set_fingerprints :: "instance_env \<Rightarrow> gostring list \<Rightarrow> instance_row \<Rightarrow> gostring + instance_row" where
  "set_fingerprints env raw i =
     (case NormalizeFingerprints raw of
        None \<Rightarrow> Inl (ie_fp_error env raw)
      | Some fps \<Rightarrow> Inr (i\<lparr>in_fps := fps\<rparr>))"

definition set_ssh_host :: "instance_env \<Rightarrow> gostring \<Rightarrow> instance_row \<Rightarrow> gostring + instance_row" where
  "set_ssh_host env v i =
     (case parseHostPort (ce_quote (ie_cli env)) v 22 of
        Inl e \<Rightarrow> Inl (''invalid --ssh-host: '' @ e)
      | Inr (host, port) \<Rightarrow> Inr (i\<lparr>in_ssh_host := host, in_ssh_port := port\<rparr>))"

definition applyInstanceFlags :: "instance_env \<Rightarrow> update_flags \<Rightarrow> instance_row \<Rightarrow> gostring + instance_row" where
  "applyInstanceFlags env u inst =
     (apply_flag (uf_ssh_user u) (\<lambda>v i. if v = '''' then Inl ''--ssh-user cannot be empty'' else Inr (i\<lparr>in_ssh_user := v\<rparr>)) \<circ>
      apply_flag (uf_ssh_host u) (set_ssh_host env) \<circ>
      apply_flag (uf_transport u) (\<lambda>v i. case transport_refusal (ie_cli env) v of Some e \<Rightarrow> Inl e | None \<Rightarrow> Inr (i\<lparr>in_transport := v\<rparr>)) \<circ>
      apply_flag (uf_fingerprints u) (set_fingerprints env) \<circ>
      apply_flag (uf_insecure_ssh u) (\<lambda>v i. Inr (i\<lparr>in_insecure_ssh := v\<rparr>)) \<circ>
      apply_flag (uf_insecure_tls u) (\<lambda>v i. Inr (i\<lparr>in_insecure_tls := v\<rparr>)) \<circ>
      apply_flag (uf_insecure u) (\<lambda>v i. Inr (i\<lparr>in_insecure_tls := v, in_insecure_ssh := v\<rparr>)) \<circ>
      apply_flag (uf_token_secret u) (\<lambda>v i. Inr (i\<lparr>in_token_secret := v\<rparr>)) \<circ>
      apply_flag (uf_token_id u) (\<lambda>v i. Inr (i\<lparr>in_token_id := v\<rparr>)) \<circ>
      apply_flag (uf_url u) (\<lambda>v i. case validateAPIURL (ie_pve env) v of Some e \<Rightarrow> Inl e | None \<Rightarrow> Inr (i\<lparr>in_api_url := v\<rparr>)) \<circ>
      apply_flag (uf_rename u) (\<lambda>v i. if v = '''' then Inl ''--rename cannot be empty'' else Inr (i\<lparr>in_name := v\<rparr>)))
     (Inr inst)"

definition findInstanceByName :: "cli_env \<Rightarrow> gostring \<Rightarrow> (instance_row \<Rightarrow> prog) \<Rightarrow> prog" where
  "findInstanceByName env name k =
     ask_instances (\<lambda>instances.
       case find (\<lambda>i. NamesEqual (ce_fold env) (in_name i) name) instances of
         Some inst \<Rightarrow> k inst
       | None \<Rightarrow> Fail (not_found_text env ''instance'' name))"

definition hostChanged :: "update_flags \<Rightarrow> bool" where
  "hostChanged u = (uf_url u \<noteq> None \<or> uf_ssh_host u \<noteq> None)"

definition instance_to_update :: "instance_env \<Rightarrow> update_flags \<Rightarrow> instance_row \<Rightarrow> gostring + instance_row" where
  "instance_to_update env u inst =
     (case applyInstanceFlags env u inst of
        Inl e \<Rightarrow> Inl e
      | Inr i \<Rightarrow>
          if hostChanged u
          then (case resolveInstanceNode (ie_pve env) (in_api_url i) (in_token_id i) (in_token_secret i) (in_ssh_host i) of
                  Inl e \<Rightarrow> Inl (''resolving node name for '' @ in_api_url i @ '': '' @ e)
                | Inr node \<Rightarrow> Inr (i\<lparr>in_node := node\<rparr>))
          else Inr i)"

definition runInstanceUpdate :: "instance_env \<Rightarrow> gostring \<Rightarrow> update_flags \<Rightarrow> prog" where
  "runInstanceUpdate env name u =
     findInstanceByName (ie_cli env) name (\<lambda>inst.
       case instance_to_update env u inst of
         Inl e \<Rightarrow> Fail e
       | Inr i \<Rightarrow>
           Ask (UpdateProxmoxInstanceOp i) id (\<lambda>a.
             let i = (case as_instance a of Some j \<Rightarrow> j | None \<Rightarrow> i)
             in say_line (''Instance '' @ ce_quote (ie_cli env) (in_name i) @ '' updated.'')
                  (if in_ssh_host i = '''' then warnMissingSSHHost env i finish
                   else reportSSHKey env i finish)))"

end
