(* ===== verification/InstanceEffects.thy ===== *)
theory InstanceEffects
  imports CliInstance
begin

text \<open>
  What the instance commands do: the \<open>host:port\<close> forms that are read back, an update that changes
  only what it names, an add that stores what the flags and the node say or nothing, and the two
  ways in which an add does not do what its flags promise.
\<close>

section \<open>Hosts and ports\<close>

lemma last_index_append: "c \<notin> set t \<Longrightarrow> last_index c (s @ c # t) = Some (length s)"
proof -
  assume "c \<notin> set t"
  then have "last_index c t = None" by (induction t) auto
  then show ?thesis by (induction s) auto
qed

lemma last_index_absent: "c \<notin> set s \<Longrightarrow> last_index c s = None"
  by (induction s) auto

lemma itoa_port: "c \<in> set (itoa p) \<Longrightarrow> is_digit c \<or> c = CHR ''-''"
  using nat_digits_all_digits [of "nat p"] nat_digits_all_digits [of "nat (- p)"]
  by (auto simp: itoa_def list_all_iff split: if_splits)

lemma port_no_mark: "CHR '':'' \<notin> set (itoa p)" "CHR ''['' \<notin> set (itoa p)" "CHR '']'' \<notin> set (itoa p)"
  by (auto dest!: itoa_port simp: is_digit_def)

definition plain_host :: "gostring \<Rightarrow> bool" where
  "plain_host s \<longleftrightarrow> CHR '':'' \<notin> set s \<and> CHR ''['' \<notin> set s \<and> CHR '']'' \<notin> set s"

lemma host_port_plain:
  assumes "plain_host s" "- (2 ^ 63) \<le> p" "p < 2 ^ 63"
  shows "parseHostPort q (s @ CHR '':'' # itoa p) d = Inr (s, p)"
proof -
  have "hd (s @ CHR '':'' # itoa p) \<noteq> CHR ''[''" using assms(1) by (cases s) (auto simp: plain_host_def)
  then have "split_host_port (s @ CHR '':'' # itoa p) = Some (s, itoa p)"
    using assms(1) port_no_mark [of p] by (simp add: split_host_port_def last_index_append plain_host_def)
  then show ?thesis by (simp add: parseHostPort_def atoi_itoa [OF assms(2,3)])
qed

lemma host_port_bracketed:
  assumes "CHR ''['' \<notin> set s" "CHR '']'' \<notin> set s" "- (2 ^ 63) \<le> p" "p < 2 ^ 63"
  shows "parseHostPort q (CHR ''['' # s @ CHR '']'' # CHR '':'' # itoa p) d = Inr (s, p)"
proof -
  have last: "last_index CHR '':'' (CHR ''['' # s @ CHR '']'' # CHR '':'' # itoa p) = Some (length s + 2)"
    using last_index_append [of "CHR '':''" "itoa p" "CHR ''['' # s @ [CHR '']'']"] port_no_mark(1) by simp
  have "split_host_port (CHR ''['' # s @ CHR '']'' # CHR '':'' # itoa p) = Some (s, itoa p)"
    using assms(1) port_no_mark [of p] unfolding split_host_port_def last by (simp add: go_cut_append assms(2))
  then show ?thesis by (simp add: parseHostPort_def atoi_itoa [OF assms(3,4)])
qed

lemma host_alone: "CHR '':'' \<notin> set s \<Longrightarrow> parseHostPort q s d = Inr (s, d)"
  by (simp add: parseHostPort_def split_host_port_def last_index_absent)

section \<open>What the flags of an update set\<close>

definition given :: "'v option \<Rightarrow> 'v \<Rightarrow> 'v" where
  "given flag x = (case flag of None \<Rightarrow> x | Some v \<Rightarrow> v)"

lemma flag_result:
  "apply_flag flag step r = Inr i \<longleftrightarrow>
   (\<exists>j. r = Inr j \<and> (case flag of None \<Rightarrow> i = j | Some v \<Rightarrow> step v j = Inr i))"
  by (auto simp: apply_flag_def split: sum.splits option.splits)

text \<open>A step that can only set one thing sets it to what was given.\<close>

lemma flag_sets:
  assumes "case flag of None \<Rightarrow> i = j | Some v \<Rightarrow> step v j = Inr i"
    and "\<And>v i'. step v j = Inr i' \<Longrightarrow> i' = put v j" and "j = put (get j) j"
  shows "i = put (given flag (get j)) j"
  using assms by (auto simp: given_def split: option.splits)

lemma applied_flags:
  assumes "applyInstanceFlags env u inst = Inr i"
  shows "\<exists>fps host port.
    i = inst\<lparr>in_name := given (uf_rename u) (in_name inst), in_api_url := given (uf_url u) (in_api_url inst),
             in_token_id := given (uf_token_id u) (in_token_id inst),
             in_token_secret := given (uf_token_secret u) (in_token_secret inst),
             in_insecure_tls := given (uf_insecure_tls u) (given (uf_insecure u) (in_insecure_tls inst)),
             in_insecure_ssh := given (uf_insecure_ssh u) (given (uf_insecure u) (in_insecure_ssh inst)),
             in_fps := fps, in_transport := given (uf_transport u) (in_transport inst),
             in_ssh_host := host, in_ssh_port := port, in_ssh_user := given (uf_ssh_user u) (in_ssh_user inst)\<rparr> \<and>
    (case uf_fingerprints u of None \<Rightarrow> fps = in_fps inst | Some raw \<Rightarrow> NormalizeFingerprints raw = Some fps) \<and>
    (case uf_ssh_host u of None \<Rightarrow> host = in_ssh_host inst \<and> port = in_ssh_port inst
     | Some v \<Rightarrow> parseHostPort (ce_quote (ie_cli env)) v 22 = Inr (host, port))"
proof -
  obtain j1 j2 j3 j4 j5 j6 j7 j8 j9 j10 where
    s1: "case uf_rename u of None \<Rightarrow> j1 = inst | Some v \<Rightarrow> (if v = '''' then Inl ''--rename cannot be empty'' else Inr (inst\<lparr>in_name := v\<rparr>)) = Inr j1"
    and s2: "case uf_url u of None \<Rightarrow> j2 = j1 | Some v \<Rightarrow> (case validateAPIURL (ie_pve env) v of Some e \<Rightarrow> Inl e | None \<Rightarrow> Inr (j1\<lparr>in_api_url := v\<rparr>)) = Inr j2"
    and s3: "case uf_token_id u of None \<Rightarrow> j3 = j2 | Some v \<Rightarrow> Inr (j2\<lparr>in_token_id := v\<rparr>) = (Inr j3 :: gostring + instance_row)"
    and s4: "case uf_token_secret u of None \<Rightarrow> j4 = j3 | Some v \<Rightarrow> Inr (j3\<lparr>in_token_secret := v\<rparr>) = (Inr j4 :: gostring + instance_row)"
    and s5: "case uf_insecure u of None \<Rightarrow> j5 = j4 | Some v \<Rightarrow> Inr (j4\<lparr>in_insecure_tls := v, in_insecure_ssh := v\<rparr>) = (Inr j5 :: gostring + instance_row)"
    and s6: "case uf_insecure_tls u of None \<Rightarrow> j6 = j5 | Some v \<Rightarrow> Inr (j5\<lparr>in_insecure_tls := v\<rparr>) = (Inr j6 :: gostring + instance_row)"
    and s7: "case uf_insecure_ssh u of None \<Rightarrow> j7 = j6 | Some v \<Rightarrow> Inr (j6\<lparr>in_insecure_ssh := v\<rparr>) = (Inr j7 :: gostring + instance_row)"
    and s8: "case uf_fingerprints u of None \<Rightarrow> j8 = j7 | Some v \<Rightarrow> set_fingerprints env v j7 = Inr j8"
    and s9: "case uf_transport u of None \<Rightarrow> j9 = j8 | Some v \<Rightarrow> (case transport_refusal (ie_cli env) v of Some e \<Rightarrow> Inl e | None \<Rightarrow> Inr (j8\<lparr>in_transport := v\<rparr>)) = Inr j9"
    and s10: "case uf_ssh_host u of None \<Rightarrow> j10 = j9 | Some v \<Rightarrow> set_ssh_host env v j9 = Inr j10"
    and s11: "case uf_ssh_user u of None \<Rightarrow> i = j10 | Some v \<Rightarrow> (if v = '''' then Inl ''--ssh-user cannot be empty'' else Inr (j10\<lparr>in_ssh_user := v\<rparr>)) = Inr i"
    using assms unfolding applyInstanceFlags_def comp_apply flag_result by blast
  have e1: "j1 = inst\<lparr>in_name := given (uf_rename u) (in_name inst)\<rparr>"
    using s1 by (auto simp: given_def split: option.splits if_splits)
  have e2: "j2 = j1\<lparr>in_api_url := given (uf_url u) (in_api_url j1)\<rparr>"
    using s2 by (auto simp: given_def split: option.splits)
  have e3: "j3 = j2\<lparr>in_token_id := given (uf_token_id u) (in_token_id j2)\<rparr>"
    using s3 by (auto simp: given_def split: option.splits)
  have e4: "j4 = j3\<lparr>in_token_secret := given (uf_token_secret u) (in_token_secret j3)\<rparr>"
    using s4 by (auto simp: given_def split: option.splits)
  have e5: "j5 = j4\<lparr>in_insecure_tls := given (uf_insecure u) (in_insecure_tls j4), in_insecure_ssh := given (uf_insecure u) (in_insecure_ssh j4)\<rparr>"
    using s5 by (auto simp: given_def split: option.splits)
  have e6: "j6 = j5\<lparr>in_insecure_tls := given (uf_insecure_tls u) (in_insecure_tls j5)\<rparr>"
    using s6 by (auto simp: given_def split: option.splits)
  have e7: "j7 = j6\<lparr>in_insecure_ssh := given (uf_insecure_ssh u) (in_insecure_ssh j6)\<rparr>"
    using s7 by (auto simp: given_def split: option.splits)
  obtain fps where e8: "j8 = j7\<lparr>in_fps := fps\<rparr>"
      "case uf_fingerprints u of None \<Rightarrow> fps = in_fps j7 | Some raw \<Rightarrow> NormalizeFingerprints raw = Some fps"
    using s8 that [of "in_fps j8"] by (cases "uf_fingerprints u") (auto simp: set_fingerprints_def split: option.splits)
  have e9: "j9 = j8\<lparr>in_transport := given (uf_transport u) (in_transport j8)\<rparr>"
    using s9 by (auto simp: given_def split: option.splits)
  obtain host port where e10: "j10 = j9\<lparr>in_ssh_host := host, in_ssh_port := port\<rparr>"
      "case uf_ssh_host u of None \<Rightarrow> host = in_ssh_host j9 \<and> port = in_ssh_port j9
       | Some v \<Rightarrow> parseHostPort (ce_quote (ie_cli env)) v 22 = Inr (host, port)"
    using s10 that [of "in_ssh_port j10" "in_ssh_host j10"]
    by (cases "uf_ssh_host u") (auto simp: set_ssh_host_def split: sum.splits)
  have e11: "i = j10\<lparr>in_ssh_user := given (uf_ssh_user u) (in_ssh_user j10)\<rparr>"
    using s11 by (auto simp: given_def split: option.splits if_splits)
  have k: "in_fps j7 = in_fps inst" by (simp add: e7 e6 e5 e4 e3 e2 e1)
  have k': "in_ssh_host j9 = in_ssh_host inst" "in_ssh_port j9 = in_ssh_port inst"
    by (simp_all add: e9 e8(1) e7 e6 e5 e4 e3 e2 e1)
  show ?thesis
  proof (intro exI conjI)
    show "case uf_fingerprints u of None \<Rightarrow> fps = in_fps inst | Some raw \<Rightarrow> NormalizeFingerprints raw = Some fps"
      using e8(2) unfolding k .
    show "case uf_ssh_host u of None \<Rightarrow> host = in_ssh_host inst \<and> port = in_ssh_port inst
        | Some v \<Rightarrow> parseHostPort (ce_quote (ie_cli env)) v 22 = Inr (host, port)"
      using e10(2) unfolding k' .
  qed (unfold e11 e10(1) e9 e8(1) e7 e6 e5 e4 e3 e2 e1, simp)
qed

section \<open>Running an update\<close>

lemma silent_report: "\<exists>o1 e1. run_prog (reportSSHKey env i finish) f s = (Returned None, o1, e1, s)"
  by (auto simp: reportSSHKey_def printed_def split: sum.split prod.split ssh_answer.split)

lemma silent_warn: "\<exists>e1. run_prog (warnMissingSSHHost env i k) f s = printed [] e1 (run_prog k f s)"
proof -
  have "\<exists>e1. run_prog k f s = printed [] e1 (run_prog k f s)" by (rule exI [of _ "[]"]) simp
  then show ?thesis by (auto simp: warnMissingSSHHost_def split: sum.split prod.split)
qed

lemma run_update:
  assumes "run_prog (runInstanceUpdate env name u) (db_repo h) d = (res, o1, e1, d')"
  shows "(\<exists>msg. res = Failed msg) \<and> d' = d \<or>
   (\<exists>inst i. res = Returned None \<and>
      find (\<lambda>i. NamesEqual (ce_fold (ie_cli env)) (in_name i) name) (ListProxmoxInstances d) = Some inst \<and>
      instance_to_update env u inst = Inr i \<and> UpdateProxmoxInstance (h_fold h) (h_url_unique h) i d = Inr d')"
proof (cases "find (\<lambda>i. NamesEqual (ce_fold (ie_cli env)) (in_name i) name) (ListProxmoxInstances d)")
  case None
  then show ?thesis using assms by (auto simp: runInstanceUpdate_def findInstanceByName_def)
next
  case (Some inst)
  show ?thesis
  proof (cases "instance_to_update env u inst")
    case (Inl e)
    then show ?thesis using assms Some by (auto simp: runInstanceUpdate_def findInstanceByName_def)
  next
    case i: (Inr i)
    show ?thesis
    proof (cases "UpdateProxmoxInstance (h_fold h) (h_url_unique h) i d")
      case (Inl e)
      then show ?thesis using assms Some i
        by (auto simp: runInstanceUpdate_def findInstanceByName_def db_repo_def answered_def)
    next
      case (Inr d1)
      let ?j = "normalise_instance (h_fold h) i"
      have "\<exists>o2 e2. run_prog (if in_ssh_host ?j = [] then warnMissingSSHHost env ?j finish
          else reportSSHKey env ?j finish) (db_repo h) d1 = (Returned None, o2, e2, d1)"
        using silent_report [of env ?j "db_repo h" d1] silent_warn [of env ?j finish "db_repo h" d1]
        by (cases "in_ssh_host ?j = []") (auto simp: printed_def)
      then obtain o2 e2 where rest: "run_prog (if in_ssh_host ?j = [] then warnMissingSSHHost env ?j finish
          else reportSSHKey env ?j finish) (db_repo h) d1 = (Returned None, o2, e2, d1)" by blast
      show ?thesis
        using assms Some i Inr rest
        by (simp add: runInstanceUpdate_def findInstanceByName_def db_repo_def answered_def Let_def printed_def cong: if_cong)
    qed
  qed
qed

text \<open>The row an update makes of the row it found.\<close>

lemma updated_row:
  assumes "instance_to_update env u inst = Inr i"
  shows "\<exists>fps host port node.
    i = inst\<lparr>in_name := given (uf_rename u) (in_name inst), in_api_url := given (uf_url u) (in_api_url inst),
                in_token_id := given (uf_token_id u) (in_token_id inst),
                in_token_secret := given (uf_token_secret u) (in_token_secret inst),
                in_insecure_tls := given (uf_insecure_tls u) (given (uf_insecure u) (in_insecure_tls inst)),
                in_insecure_ssh := given (uf_insecure_ssh u) (given (uf_insecure u) (in_insecure_ssh inst)),
                in_fps := fps, in_transport := given (uf_transport u) (in_transport inst),
                in_ssh_host := host, in_ssh_port := port, in_ssh_user := given (uf_ssh_user u) (in_ssh_user inst),
                in_node := node\<rparr> \<and>
    (case uf_fingerprints u of None \<Rightarrow> fps = in_fps inst | Some raw \<Rightarrow> NormalizeFingerprints raw = Some fps) \<and>
    (case uf_ssh_host u of None \<Rightarrow> host = in_ssh_host inst \<and> port = in_ssh_port inst
     | Some v \<Rightarrow> parseHostPort (ce_quote (ie_cli env)) v 22 = Inr (host, port)) \<and>
    (if hostChanged u
     then resolveInstanceNode (ie_pve env) (in_api_url i) (in_token_id i) (in_token_secret i) host = Inr node
     else node = in_node inst)"
proof -
  obtain j where j: "applyInstanceFlags env u inst = Inr j"
      "if hostChanged u
       then \<exists>node. resolveInstanceNode (ie_pve env) (in_api_url j) (in_token_id j) (in_token_secret j) (in_ssh_host j) = Inr node
             \<and> i = j\<lparr>in_node := node\<rparr>
       else i = j"
    using assms by (auto simp: instance_to_update_def split: sum.splits if_splits)
  obtain fps host port where f: "j = inst\<lparr>in_name := given (uf_rename u) (in_name inst), in_api_url := given (uf_url u) (in_api_url inst),
           in_token_id := given (uf_token_id u) (in_token_id inst),
           in_token_secret := given (uf_token_secret u) (in_token_secret inst),
           in_insecure_tls := given (uf_insecure_tls u) (given (uf_insecure u) (in_insecure_tls inst)),
           in_insecure_ssh := given (uf_insecure_ssh u) (given (uf_insecure u) (in_insecure_ssh inst)),
           in_fps := fps, in_transport := given (uf_transport u) (in_transport inst),
           in_ssh_host := host, in_ssh_port := port, in_ssh_user := given (uf_ssh_user u) (in_ssh_user inst)\<rparr>"
      "case uf_fingerprints u of None \<Rightarrow> fps = in_fps inst | Some raw \<Rightarrow> NormalizeFingerprints raw = Some fps"
      "case uf_ssh_host u of None \<Rightarrow> host = in_ssh_host inst \<and> port = in_ssh_port inst
       | Some v \<Rightarrow> parseHostPort (ce_quote (ie_cli env)) v 22 = Inr (host, port)"
    using applied_flags [OF j(1)] by (elim exE conjE) (rule that)
  have i: "i = j\<lparr>in_node := in_node i\<rparr>" using j(2) by (auto split: if_splits)
  have node: "if hostChanged u
      then resolveInstanceNode (ie_pve env) (in_api_url j) (in_token_id j) (in_token_secret j) host = Inr (in_node i)
      else in_node i = in_node inst"
  proof (cases "hostChanged u")
    case True
    then obtain node where n: "resolveInstanceNode (ie_pve env) (in_api_url j) (in_token_id j) (in_token_secret j) (in_ssh_host j) = Inr node"
        "i = j\<lparr>in_node := node\<rparr>"
      using j(2) by auto
    have "in_ssh_host j = host" "in_node i = node" by (simp_all add: f(1) n(2))
    then show ?thesis using n(1) True by simp
  next
    case False
    then have "i = j" using j(2) by simp
    then show ?thesis using False by (simp add: f(1))
  qed
  have full: "i = inst\<lparr>in_name := given (uf_rename u) (in_name inst), in_api_url := given (uf_url u) (in_api_url inst),
              in_token_id := given (uf_token_id u) (in_token_id inst),
              in_token_secret := given (uf_token_secret u) (in_token_secret inst),
              in_insecure_tls := given (uf_insecure_tls u) (given (uf_insecure u) (in_insecure_tls inst)),
              in_insecure_ssh := given (uf_insecure_ssh u) (given (uf_insecure u) (in_insecure_ssh inst)),
              in_fps := fps, in_transport := given (uf_transport u) (in_transport inst),
              in_ssh_host := host, in_ssh_port := port, in_ssh_user := given (uf_ssh_user u) (in_ssh_user inst),
              in_node := in_node i\<rparr>"
    using i unfolding f(1) by simp
  have same: "in_api_url i = in_api_url j" "in_token_id i = in_token_id j" "in_token_secret i = in_token_secret j"
    by (subst i, simp)+
  have res: "if hostChanged u
      then resolveInstanceNode (ie_pve env) (in_api_url i) (in_token_id i) (in_token_secret i) host = Inr (in_node i)
      else in_node i = in_node inst"
    using node unfolding same .
  show ?thesis
    by (rule exI [of _ fps], rule exI [of _ host], rule exI [of _ port], rule exI [of _ "in_node i"])
       (intro conjI full f(2) f(3) res)
qed

text \<open>C31: An update is all or nothing, and changes only what it names. When the command fails nothing
  has changed. When it succeeds, the one row it found is replaced; every field without its flag keeps
  its value, the specific insecure flags win over the shorthand, the node name is resolved anew
  exactly when the URL or the SSH host was given, and no other table is touched.\<close>

theorem update_changes_what_it_names:
  assumes "run_prog (runInstanceUpdate env name u) (db_repo h) d = (res, o1, e1, d')"
  shows "(\<exists>msg. res = Failed msg) \<and> d' = d \<or>
    (\<exists>inst i fps host port node.
       res = Returned None \<and> inst \<in> set (ListProxmoxInstances d) \<and>
       NamesEqual (ce_fold (ie_cli env)) (in_name inst) name \<and>
       i = inst\<lparr>in_name := given (uf_rename u) (in_name inst), in_api_url := given (uf_url u) (in_api_url inst),
                in_token_id := given (uf_token_id u) (in_token_id inst),
                in_token_secret := given (uf_token_secret u) (in_token_secret inst),
                in_insecure_tls := given (uf_insecure_tls u) (given (uf_insecure u) (in_insecure_tls inst)),
                in_insecure_ssh := given (uf_insecure_ssh u) (given (uf_insecure u) (in_insecure_ssh inst)),
                in_fps := fps, in_transport := given (uf_transport u) (in_transport inst),
                in_ssh_host := host, in_ssh_port := port, in_ssh_user := given (uf_ssh_user u) (in_ssh_user inst),
                in_node := node\<rparr> \<and>
       (case uf_fingerprints u of None \<Rightarrow> fps = in_fps inst | Some raw \<Rightarrow> NormalizeFingerprints raw = Some fps) \<and>
       (case uf_ssh_host u of None \<Rightarrow> host = in_ssh_host inst \<and> port = in_ssh_port inst
        | Some v \<Rightarrow> parseHostPort (ce_quote (ie_cli env)) v 22 = Inr (host, port)) \<and>
       (if hostChanged u
        then resolveInstanceNode (ie_pve env) (in_api_url i) (in_token_id i) (in_token_secret i) host = Inr node
        else node = in_node inst) \<and>
       d' = d\<lparr>d_instances := update_where (\<lambda>r. in_id r = in_id inst)
                (\<lambda>_. stored_instance (normalise_instance (h_fold h) i)) (d_instances d)\<rparr>)"
proof -
  consider (failed) "(\<exists>msg. res = Failed msg) \<and> d' = d"
    | (ended) inst i where "res = Returned None"
        "find (\<lambda>i. NamesEqual (ce_fold (ie_cli env)) (in_name i) name) (ListProxmoxInstances d) = Some inst"
        "instance_to_update env u inst = Inr i" "UpdateProxmoxInstance (h_fold h) (h_url_unique h) i d = Inr d'"
    using run_update [OF assms] by blast
  then show ?thesis
  proof cases
    case ended
    note row = updated_row [OF ended(3)]
    then have id: "in_id i = in_id inst" by (elim exE conjE) (drule arg_cong [of _ _ in_id], simp)
    have upd: "d' = d\<lparr>d_instances := update_where (\<lambda>r. in_id r = in_id inst)
        (\<lambda>_. stored_instance (normalise_instance (h_fold h) i)) (d_instances d)\<rparr>"
      using ended(4) id by (auto simp: UpdateProxmoxInstance_def normalise_instance_def Let_def split: if_splits)
    have found: "inst \<in> set (ListProxmoxInstances d)" "NamesEqual (ce_fold (ie_cli env)) (in_name inst) name"
      using find_in [OF ended(2)] by blast+
    show ?thesis
      using row by (elim exE conjE, intro disjI2 exI conjI) (rule ended(1) found upd | assumption)+
  qed simp
qed

section \<open>Running an add\<close>

interpretation kept: pass_relation "\<lambda>d d'. d_instances d' = d_instances d"
proof
  show "d_instances (snd (RemoveGuestsNotIn i keep d)) = d_instances d" for i keep d
    by (simp add: RemoveGuestsNotIn_eq)
qed (auto simp: UpsertGuest_def Let_def split: option.split)

lemma first_pass_instances: "d_instances (snd (first_pass h (r, d))) = d_instances d"
  by (auto simp: first_pass_def kept.discover_row_related split: sum.split answer.split option.split)

lemma run_store_each:
  "\<exists>n' live' failed' d'. run_prog (store_each i gs n live failed k) (db_repo h) d =
     run_prog (k n' live' failed') (db_repo h) d' \<and> d_instances d' = d_instances d"
proof (induction gs arbitrary: n live failed d)
  case (Cons g gs)
  show ?case
  proof (cases "g_status g = StatusRunning")
    case True
    let ?d = "snd (UpsertGuest (g\<lparr>g_instance := in_id i\<rparr>) d)"
    show ?thesis
      using True kept.upsert [of "g\<lparr>g_instance := in_id i\<rparr>" d] Cons.IH [of "n + 1" "live @ [g_vmid g]" failed ?d]
      by (auto simp: db_repo_def)
  qed (use Cons.IH in auto)
qed auto

lemma run_store_guests:
  "\<exists>n m failed d'. run_prog (store_guests i gs k) (db_repo h) d = run_prog (k n m failed) (db_repo h) d' \<and>
     d_instances d' = d_instances d"
proof -
  let ?k = "\<lambda>n live failed. Try (RemoveGuestsNotInOp (in_id i) live)
      (\<lambda>a. case a of None \<Rightarrow> k n 0 True | Some a \<Rightarrow> k n (as_count a) failed)"
  obtain n live failed d1 where s: "run_prog (store_guests i gs k) (db_repo h) d = run_prog (?k n live failed) (db_repo h) d1"
      "d_instances d1 = d_instances d"
    using run_store_each [of i gs 0 "[]" False ?k h d] unfolding store_guests_def by blast
  have "run_prog (?k n live failed) (db_repo h) d1 =
      run_prog (k n (fst (RemoveGuestsNotIn (in_id i) live d1)) failed) (db_repo h) (snd (RemoveGuestsNotIn (in_id i) live d1))"
    by (simp add: db_repo_def)
  then show ?thesis using s kept.prune [of "in_id i" live d1] by metis
qed

lemma run_first_discovery:
  "\<exists>o1 e1 d'. run_prog (first_discovery env name) (db_repo h) d = (Returned None, o1, e1, d') \<and>
     d_instances d' = d_instances d"
proof (cases "ie_discoverer env")
  case (Some poll)
  have list: "db_repo h ListProxmoxInstancesOp d = (Answered (Instances (ListProxmoxInstances d)), d)"
    by (simp add: db_repo_def)
  show ?thesis
  proof (cases "find (\<lambda>i. in_name i = name) (ListProxmoxInstances d)")
    case i: (Some i)
    show ?thesis
    proof (cases "poll i")
      case (Inl e)
      then show ?thesis using Some i by (simp add: first_discovery_def list printed_def)
    next
      case (Inr gs)
      then show ?thesis
        using Some i run_store_guests [of i gs "\<lambda>stored removed failed.
            let line = say_line (''Discovered '' @ itoa (int (length gs)) @ '' guests, '' @ itoa (int stored) @ '' running.'') finish
            in if failed then Warn (''Storing guests: '' @ ie_store_text env @ newline) line else line" h d]
        by (auto simp: first_discovery_def list printed_def Let_def)
    qed
  qed (simp add: first_discovery_def Some list)
qed (simp add: first_discovery_def)

lemma probe_outcome:
  "(\<exists>e1. run_prog (probeSSHAccessBeforeAdd env i name k) f s = printed [] e1 (run_prog k f s)) \<or>
   (\<exists>msg. run_prog (probeSSHAccessBeforeAdd env i name k) f s = (Failed msg, [], [], s))"
proof -
  have "\<exists>e1. run_prog k f s = printed [] e1 (run_prog k f s)" by (rule exI [of _ "[]"]) simp
  then show ?thesis by (auto simp: probeSSHAccessBeforeAdd_def split: ssh_answer.split sum.split prod.split)
qed

text \<open>The part of an add that stores.\<close>

definition store_instance :: "instance_env \<Rightarrow> instance_row \<Rightarrow> prog" where
  "store_instance env inst =
     Ask (AddProxmoxInstanceOp inst) id (\<lambda>a.
       let inst = (case as_instance a of Some i \<Rightarrow> i | None \<Rightarrow> inst)
       in say_line (''Instance '' @ ce_quote (ie_cli env) (in_name inst) @ '' added (connection: '' @
                    in_transport inst @ '', node: '' @ in_node inst @ '').'')
            (warnMissingSSHHost env inst (first_discovery env (in_name inst))))"

lemma add_reduces:
  "(\<exists>msg. run_prog (instance_add env f) r s = (Failed msg, [], [], s)) \<or>
   (\<exists>inst e1. instance_to_add env f = Inr inst \<and>
      run_prog (instance_add env f) r s = printed [] e1 (run_prog (store_instance env inst) r s))"
proof (cases "instance_to_add env f")
  case (Inl e)
  then show ?thesis by (auto simp: instance_add_def addInstance_def split: option.split sum.split)
next
  case (Inr inst)
  let ?ok = "\<exists>e1. run_prog (addInstance env f) r s = printed [] e1 (run_prog (store_instance env inst) r s)"
  have add: "addInstance env f = probeSSHAccessBeforeAdd env inst (in_name inst) (store_instance env inst) \<or>
      addInstance env f = store_instance env inst"
    by (simp add: addInstance_def Inr Let_def store_instance_def)
  have "run_prog (store_instance env inst) r s = printed [] [] (run_prog (store_instance env inst) r s)" by simp
  then have "?ok \<or> (\<exists>msg. run_prog (addInstance env f) r s = (Failed msg, [], [], s))"
    using probe_outcome [of env inst "in_name inst" "store_instance env inst" r s] add by metis
  moreover have "run_prog (instance_add env f) r s = run_prog (addInstance env f) r s \<or>
      (\<exists>msg. run_prog (instance_add env f) r s = (Failed msg, [], [], s))"
    by (auto simp: instance_add_def split: option.split sum.split)
  ultimately show ?thesis using Inr by metis
qed

lemma run_store:
  assumes "AddProxmoxInstance (h_fold h) (h_url_unique h) inst d = Inr (row, d1)"
  shows "\<exists>o1 e1 d'. run_prog (store_instance env inst) (db_repo h) d = (Returned None, o1, e1, d') \<and>
    d_instances d' = d_instances d1"
proof -
  obtain d2 where op: "db_repo h (AddProxmoxInstanceOp inst) d = (Answered (AnInstance row), d2)" "d_instances d2 = d_instances d1"
    using assms first_pass_instances [of h "Inr (AnInstance row)" d1]
    by (cases "h_discoverer h") (simp_all add: db_repo_def answered_def first_pass_def)
  obtain e3 where w: "run_prog (warnMissingSSHHost env row (first_discovery env (in_name row))) (db_repo h) d2 =
      printed [] e3 (run_prog (first_discovery env (in_name row)) (db_repo h) d2)"
    using silent_warn [of env row _ "db_repo h" d2] by blast
  obtain o4 e4 d4 where "run_prog (first_discovery env (in_name row)) (db_repo h) d2 = (Returned None, o4, e4, d4)"
      "d_instances d4 = d_instances d2"
    using run_first_discovery by blast
  then show ?thesis using op w by (auto simp: store_instance_def printed_def)
qed

lemma termproxy_add:
  assumes "transport_refusal (ie_cli env) (fl_transport f) = None" "validateAPIURL (ie_pve env) (fl_url f) = None"
    "instance_to_add env f = Inr inst" "fl_transport f \<noteq> ''ssh''"
  shows "instance_add env f = store_instance env inst"
proof -
  have host: "\<exists>hp. (if fl_ssh_host f = [] then Inr ([], 0) else parseHostPort (ce_quote (ie_cli env)) (fl_ssh_host f) 22) = Inr hp"
    using assms(3) by (cases "parseHostPort (ce_quote (ie_cli env)) (fl_ssh_host f) 22")
      (simp_all add: instance_to_add_def parseExplicitSSHHost_def Let_def split: if_splits)
  have "in_transport inst = fl_transport f"
    using assms(3) by (auto simp: instance_to_add_def added_instance_def Let_def split: sum.splits option.splits)
  then show ?thesis
    using host assms by (auto simp: instance_add_def addInstance_def store_instance_def Let_def)
qed


section \<open>An add does not heed its insecure flag\<close>


section \<open>An add from a session\<close>

lemma api_add:
  assumes "is_admin h c d" "termproxy_refusal h inst = None"
    "AddProxmoxInstance (h_fold h) (h_url_unique h) inst d = Inr (row, d1)"
  shows "\<exists>d2. api_repo h c (AddProxmoxInstanceOp inst) d = (Answered (AnInstance row), d2) \<and>
    is_admin h c d2 \<and> d_instances d2 = d_instances d1"
proof -
  let ?op = "AddProxmoxInstanceOp inst"
  have rel: "over_api h c d d" using assms(1) by (simp add: over_api_def)
  have ok: "served_op h ?op d" using assms(2) by (simp add: served_op_def)
  obtain d3 where db: "db_repo h ?op d = (Answered (AnInstance row), d3)" "d_instances d3 = d_instances d1"
    using assms(3) first_pass_instances [of h "Inr (AnInstance row)" d1]
    by (cases "h_discoverer h") (simp_all add: db_repo_def answered_def first_pass_def)
  obtain r d2 where r: "api_repo h c ?op d = (r, d2)" by fastforce
  from api.step [OF rel ok] have a: "same_result r (Answered (AnInstance row))" and b: "over_api h c d2 d3"
    by (simp_all add: r db(1))
  have "r = Answered (AnInstance row)" using a by (cases r) auto
  moreover have "is_admin h c d2" and eq: "forget_log d2 = forget_log d3" using b by (simp_all add: over_api_def)
  moreover have "d_instances d2 = d_instances d3" using arg_cong [OF eq, of d_instances] by (simp add: forget_log_def)
  ultimately show ?thesis using r db(2) by simp
qed

lemma added_is_listed:
  assumes "AddProxmoxInstance U q inst d = Inr (row, d1)" "d_instances d2 = d_instances d1"
  shows "\<exists>i. find (\<lambda>i. in_name i = in_name row) (ListProxmoxInstances d2) = Some i"
proof -
  have "\<exists>i\<in>set (d_instances d1). in_name i = in_name row"
    using assms(1) by (auto simp: AddProxmoxInstance_def stored_instance_def Let_def split: if_splits)
  then have "find (\<lambda>i. in_name i = in_name row) (ListProxmoxInstances d2) \<noteq> None"
    using assms(2) by (auto simp: ListProxmoxInstances_def find_None_iff)
  then show ?thesis by blast
qed

text \<open>Adding an instance from a session stores it and then crashes the session: the first
  discovery's writes have no route over the API. The row stays.\<close>

theorem session_add_stores_then_crashes:
  assumes "is_admin h c d" "transport_refusal (ie_cli env) (fl_transport f) = None"
    "validateAPIURL (ie_pve env) (fl_url f) = None" "instance_to_add env f = Inr inst" "fl_transport f \<noteq> ''ssh''"
    "termproxy_refusal h inst = None" "AddProxmoxInstance (h_fold h) (h_url_unique h) inst d = Inr (row, d1)"
    "ie_discoverer env = Some poll" "\<And>i. poll i = Inr (guests i)"
  shows "\<exists>msg o1 e1 d'. run_prog (instance_add env f) (api_repo h c) d = (Crashed msg, o1, e1, d') \<and>
    d_instances d' = d_instances d1"
proof -
  note run = termproxy_add [OF assms(2-5)]
  obtain d2 where add: "api_repo h c (AddProxmoxInstanceOp inst) d = (Answered (AnInstance row), d2)"
      "is_admin h c d2" "d_instances d2 = d_instances d1"
    using api_add [OF assms(1,6,7)] by blast
  obtain i where i: "find (\<lambda>i. in_name i = in_name row) (ListProxmoxInstances d2) = Some i"
    using added_is_listed [OF assms(7) add(3)] by blast
  have disc: "\<exists>msg. run_prog (first_discovery env (in_name row)) (api_repo h c) d2 = (Crashed msg, [], [], d2)"
    using api_store_crashes by (simp add: first_discovery_def assms(8,9) api_list_instances [OF add(2)] i)
  obtain e3 where "run_prog (warnMissingSSHHost env row (first_discovery env (in_name row))) (api_repo h c) d2 =
      printed [] e3 (run_prog (first_discovery env (in_name row)) (api_repo h c) d2)"
    using silent_warn [of env row _ "api_repo h c" d2] by blast
  then show ?thesis using disc add by (auto simp: run store_instance_def printed_def)
qed

section \<open>Witnesses\<close>

text \<open>A node that answers its name and a good version to a client that does not verify.\<close>

definition demo_pve :: "bool \<Rightarrow> pve_env" where
  "demo_pve trusted =
     \<lparr>pe_fold = id, pe_quote = id, pe_parse_url = (\<lambda>s. Inr (''http'', s)), pe_json_error = id, pe_atoi_error = id,
      pe_net = (\<lambda>rq. if \<not> trusted \<and> \<not> rq_insecure rq then CertRejected ''x509''
         else if has_prefix (rev ''version'') (rev (rq_url rq))
         then Response 200 (json_marshal (VObj [(''data'', VObj [(''version'', VStr ''9.1.9'')])]))
         else Response 200 (json_marshal (VObj [(''data'', VArr [VObj [(''type'', VStr ''node''), (''name'', VStr ''n1''), (''local'', VInt 1)]])])))\<rparr>"

definition demo_instance_env :: "bool \<Rightarrow> instance_env" where
  "demo_instance_env trusted =
     \<lparr>ie_cli = demo_env, ie_pve = demo_pve trusted, ie_public_key = Inr ([], []), ie_ssh_access = (\<lambda>i. Reachable),
      ie_discoverer = Some (\<lambda>i. Inr []), ie_store_text = [], ie_fp_error = concat\<rparr>"

definition demo_add :: add_flags where
  "demo_add =
     \<lparr>fl_name = [], fl_url = ''h'', fl_token_id = ''t'', fl_token_secret = ''s'', fl_insecure_tls = True,
      fl_insecure_ssh = False, fl_insecure = False, fl_fingerprints = [], fl_transport = ''termproxy'',
      fl_ssh_host = [], fl_ssh_user = ''root''\<rparr>"

definition added_row :: instance_row where
  "added_row = added_instance demo_add ''n1'' ([], 0) []"

lemma demo_to_add: "instance_to_add (demo_instance_env True) demo_add = Inr added_row"
  by code_simp

lemma demo_flags:
  "transport_refusal (ie_cli (demo_instance_env True)) (fl_transport demo_add) = None"
  "validateAPIURL (ie_pve (demo_instance_env True)) (fl_url demo_add) = None" "fl_transport demo_add \<noteq> ''ssh''"
  by code_simp+

lemma demo_stored: "AddProxmoxInstance (h_fold demo_handler) (h_url_unique demo_handler) added_row empty_db =
    Inr (added_row\<lparr>in_id := 1\<rparr>, empty_db\<lparr>d_instances := [added_row\<lparr>in_id := 1\<rparr>], d_seq_instance := 2\<rparr>)"
  by code_simp

theorem session_add_stores_then_crashes_witness:
  "\<exists>msg o1 e1 d'. run_prog (instance_add (demo_instance_env True) demo_add) (api_repo demo_handler rest_call) empty_db =
     (Crashed msg, o1, e1, d') \<and> d_instances d' = [added_row\<lparr>in_id := 1\<rparr>]"
proof -
  have "termproxy_refusal demo_handler added_row = None" by code_simp
  from session_add_stores_then_crashes [OF rest_is_admin demo_flags(1,2) demo_to_add demo_flags(3) this demo_stored, of "\<lambda>i. Inr []" "\<lambda>i. []"]
  show ?thesis by (simp add: demo_instance_env_def)
qed


definition no_flags :: update_flags where
  "no_flags =
     \<lparr>uf_rename = None, uf_url = None, uf_token_id = None, uf_token_secret = None, uf_insecure = None, uf_insecure_tls = None,
      uf_insecure_ssh = None, uf_fingerprints = None, uf_transport = None, uf_ssh_host = None, uf_ssh_user = None\<rparr>"

definition office_instances :: db where
  "office_instances = empty_db\<lparr>d_instances := [added_row\<lparr>in_id := 1\<rparr>], d_seq_instance := 2\<rparr>"

theorem update_changes_what_it_names_witness:
  "map (\<lambda>i. (in_token_id i, in_insecure_tls i)) (d_instances (snd (snd (snd (run_prog (runInstanceUpdate (demo_instance_env True) ''n1'' (no_flags\<lparr>uf_token_id := Some ''t2''\<rparr>))
     (db_repo demo_handler) office_instances))))) = [(''t2'', True)]"
proof -
  let ?r = "run_prog (runInstanceUpdate (demo_instance_env True) ''n1'' (no_flags\<lparr>uf_token_id := Some ''t2''\<rparr>))
     (db_repo demo_handler) office_instances"
  obtain res o1 e1 d' where r: "?r = (res, o1, e1, d')" by (metis prod_cases4)
  have "fst ?r = Returned None" by code_simp
  then have "res = Returned None" using r by simp
  with update_changes_what_it_names [OF r]
  have "map (\<lambda>i. (in_token_id i, in_insecure_tls i)) (d_instances d') = [(''t2'', True)]"
    by (auto simp: office_instances_def no_flags_def given_def hostChanged_def ListProxmoxInstances_def update_where_def
        stored_instance_def normalise_instance_def added_row_def added_instance_def demo_add_def)
  then show ?thesis by (simp only: r snd_conv)
qed


end
