(* ===== verification/SftpServer.thy ===== *)
theory SftpServer
  imports HelperClient "HOL-Library.Word"
begin

text \<open>
  \<open>internal/sftpserver/server.go\<close>: the SFTP handler. \<open>github.com/pkg/sftp\<close> decodes the packets and
  calls it; what it is called with is an argument. The guest's file system is the interface \<open>FS\<close>, a
  record of operations here; the locale \<open>regular_file\<close> states what one of its files is, and the
  helper's client is shown to provide it.
\<close>

section \<open>The interface\<close>

text \<open>
  The answers of a file system of type \<open>'w\<close> with errors \<open>'e\<close> and entries \<open>'i\<close>. A ranged read hands at
  most so many bytes to its writer; it may not end, so it is optional.
\<close>

record ('w, 'e, 'i) guest_fs =
  gf_stat :: "gostring \<Rightarrow> 'w \<Rightarrow> 'w \<times> ('e + 'i)"
  gf_list :: "gostring \<Rightarrow> 'w \<Rightarrow> 'w \<times> ('e + 'i list)"
  gf_read :: "gostring \<Rightarrow> int \<Rightarrow> int \<Rightarrow> nat \<Rightarrow> 'w \<Rightarrow> ('w \<times> bytes \<times> 'e option) option"
  gf_write :: "gostring \<Rightarrow> (bytes \<times> read_status) list \<Rightarrow> 'w \<Rightarrow> 'w \<times> 'e option"
  gf_write_at :: "gostring \<Rightarrow> int \<Rightarrow> (bytes \<times> read_status) list \<Rightarrow> 'w \<Rightarrow> 'w \<times> 'e option"
  gf_mkdir :: "gostring \<Rightarrow> 'w \<Rightarrow> 'w \<times> 'e option"
  gf_remove :: "gostring \<Rightarrow> 'w \<Rightarrow> 'w \<times> 'e option"
  gf_rmdir :: "gostring \<Rightarrow> 'w \<Rightarrow> 'w \<times> 'e option"
  gf_rename :: "gostring \<Rightarrow> gostring \<Rightarrow> 'w \<Rightarrow> 'w \<times> 'e option"
  gf_symlink :: "gostring \<Rightarrow> gostring \<Rightarrow> 'w \<Rightarrow> 'w \<times> 'e option"
  gf_readlink :: "gostring \<Rightarrow> 'w \<Rightarrow> 'w \<times> ('e + gostring)"
  gf_chmod :: "gostring \<Rightarrow> int \<Rightarrow> 'w \<Rightarrow> 'w \<times> 'e option"
  gf_chown :: "gostring \<Rightarrow> int \<Rightarrow> int \<Rightarrow> 'w \<Rightarrow> 'w \<times> 'e option"
  gf_chtimes :: "gostring \<Rightarrow> int \<Rightarrow> int \<Rightarrow> 'w \<Rightarrow> 'w \<times> 'e option"
  gf_truncate :: "gostring \<Rightarrow> int \<Rightarrow> 'w \<Rightarrow> 'w \<times> 'e option"
  gf_is :: "'e \<Rightarrow> sentinel \<Rightarrow> bool"
  gf_not_running :: "'e \<Rightarrow> bool"

text \<open>What the client is told.\<close>

datatype 'e sftp_error =
    NoSuchFile
  | PermissionDenied
  | ContainerNotRunning
  | OtherError 'e
  | OpUnsupported gostring
  | SizeOutOfRange nat

definition sftp_translate :: "('w, 'e, 'i) guest_fs \<Rightarrow> 'e \<Rightarrow> 'e sftp_error" where
  "sftp_translate fs e =
     (if gf_is fs e FsNotExist then NoSuchFile
      else if gf_is fs e FsPermission then PermissionDenied
      else if gf_not_running fs e then ContainerNotRunning
      else OtherError e)"

section \<open>Reading and writing\<close>

text \<open>A slice's reader: blocks of the caller's buffer, then the end.\<close>

function slice_reads :: "bytes \<Rightarrow> (bytes \<times> read_status) list" where
  "slice_reads p =
     (if p = [] then [([], AtEOF)]
      else (take (nat chunkSize) p, MoreToCome) # slice_reads (drop (nat chunkSize) p))"
  by auto
termination by (relation "measure length") (auto simp: chunkSize_def)

declare slice_reads.simps [simp del]

definition Fileread :: "('w, 'e, 'i) guest_fs \<Rightarrow> gostring \<Rightarrow> 'w \<Rightarrow> 'w \<times> 'e sftp_error option" where
  "Fileread fs path w =
     (case gf_stat fs path w of
        (w, Inl e) \<Rightarrow> (w, Some (sftp_translate fs e))
      | (w, Inr _) \<Rightarrow> (w, None))"

definition Filewrite :: "('w, 'e, 'i) guest_fs \<Rightarrow> gostring \<Rightarrow> 'w \<Rightarrow> 'w \<times> 'e sftp_error option" where
  "Filewrite fs path w =
     (case gf_write fs path [] w of (w, e) \<Rightarrow> (w, map_option (sftp_translate fs) e))"

datatype 'e read_end = ReadFull | ReadEOF | ReadFailed "'e sftp_error"

text \<open>The bytes that arrived in the client's buffer, and how the read ended.\<close>

definition ReadAt :: "('w, 'e, 'i) guest_fs \<Rightarrow> gostring \<Rightarrow> nat \<Rightarrow> int \<Rightarrow> 'w \<Rightarrow> ('w \<times> bytes \<times> 'e read_end) option" where
  "ReadAt fs path cap off w =
     (case gf_read fs path off (int cap) cap w of
        None \<Rightarrow> None
      | Some (w, got, Some e) \<Rightarrow> Some (w, got, ReadFailed (sftp_translate fs e))
      | Some (w, got, None) \<Rightarrow> Some (w, got, if length got < cap then ReadEOF else ReadFull))"

definition WriteAt :: "('w, 'e, 'i) guest_fs \<Rightarrow> gostring \<Rightarrow> bytes \<Rightarrow> int \<Rightarrow> 'w \<Rightarrow> 'w \<times> nat \<times> 'e sftp_error option" where
  "WriteAt fs path p off w =
     (case gf_write_at fs path off (slice_reads p) w of
        (w, Some e) \<Rightarrow> (w, 0, Some (sftp_translate fs e))
      | (w, None) \<Rightarrow> (w, length p, None))"

section \<open>Commands\<close>

text \<open>The attributes the client sent, each only if its flag is set; the size is 64 bits on the wire.\<close>

record sftp_attrs =
  sa_size :: "64 word option"
  sa_perm :: "int option"
  sa_owner :: "(nat \<times> nat) option"
  sa_times :: "(int \<times> int) option"

definition attr_step ::
  "('w \<Rightarrow> 'w \<times> 'e sftp_error option) option \<Rightarrow> 'w \<times> 'e sftp_error option \<Rightarrow> 'w \<times> 'e sftp_error option" where
  "attr_step f r = (case r of (w, Some e) \<Rightarrow> (w, Some e) | (w, None) \<Rightarrow> (case f of None \<Rightarrow> (w, None) | Some g \<Rightarrow> g w))"

lemma attr_step_some: "attr_step (Some f) (w, None) = f w"
  by (simp add: attr_step_def)

definition translated :: "('w, 'e, 'i) guest_fs \<Rightarrow> 'w \<times> 'e option \<Rightarrow> 'w \<times> 'e sftp_error option" where
  "translated fs r = (fst r, map_option (sftp_translate fs) (snd r))"

definition setstat :: "('w, 'e, 'i) guest_fs \<Rightarrow> gostring \<Rightarrow> sftp_attrs \<Rightarrow> 'w \<Rightarrow> 'w \<times> 'e sftp_error option" where
  "setstat fs path a w =
     (attr_step (map_option (\<lambda>(at, mt). translated fs \<circ> gf_chtimes fs path at mt) (sa_times a)) \<circ>
      attr_step (map_option (\<lambda>(u, g). translated fs \<circ> gf_chown fs path (int u) (int g)) (sa_owner a)) \<circ>
      attr_step (map_option (\<lambda>m. translated fs \<circ> gf_chmod fs path (perm_bits m)) (sa_perm a)) \<circ>
      attr_step (map_option (\<lambda>n w. if unat n > 2 ^ 63 - 1 then (w, Some (SizeOutOfRange (unat n)))
                                   else translated fs (gf_truncate fs path (int (unat n)) w)) (sa_size a)))
     (w, None)"

record sftp_command =
  sc_method :: gostring
  sc_path :: gostring
  sc_target :: gostring
  sc_attrs :: sftp_attrs

definition Filecmd :: "('w, 'e, 'i) guest_fs \<Rightarrow> sftp_command \<Rightarrow> 'w \<Rightarrow> 'w \<times> 'e sftp_error option" where
  "Filecmd fs r w =
     (let m = sc_method r in
      if m = ''Setstat'' then setstat fs (sc_path r) (sc_attrs r) w
      else if m = ''Rename'' \<or> m = ''PosixRename'' then translated fs (gf_rename fs (sc_path r) (sc_target r) w)
      else if m = ''Rmdir'' then translated fs (gf_rmdir fs (sc_path r) w)
      else if m = ''Remove'' then translated fs (gf_remove fs (sc_path r) w)
      else if m = ''Mkdir'' then translated fs (gf_mkdir fs (sc_path r) w)
      else if m = ''Symlink'' then translated fs (gf_symlink fs (sc_path r) (sc_target r) w)
      else if m = ''Link'' then (w, Some (OpUnsupported ''hard links''))
      else (w, Some (OpUnsupported m)))"

section \<open>Listings\<close>

text \<open>The answer to Readlink is one entry whose name is the target.\<close>

datatype 'i listed = ListedEntry 'i | LinkTarget gostring

definition Filelist ::
  "('w, 'e, 'i) guest_fs \<Rightarrow> gostring \<Rightarrow> gostring \<Rightarrow> 'w \<Rightarrow> 'w \<times> ('e sftp_error + 'i listed list)" where
  "Filelist fs m path w =
     (if m = ''List'' then
        (case gf_list fs path w of
           (w, Inl e) \<Rightarrow> (w, Inl (sftp_translate fs e))
         | (w, Inr is) \<Rightarrow> (w, Inr (map ListedEntry is)))
      else if m = ''Stat'' \<or> m = ''Lstat'' then
        (case gf_stat fs path w of
           (w, Inl e) \<Rightarrow> (w, Inl (sftp_translate fs e))
         | (w, Inr i) \<Rightarrow> (w, Inr [ListedEntry i]))
      else if m = ''Readlink'' then
        (case gf_readlink fs path w of
           (w, Inl e) \<Rightarrow> (w, Inl (sftp_translate fs e))
         | (w, Inr t) \<Rightarrow> (w, Inr [LinkTarget t]))
      else (w, Inl (OpUnsupported m)))"

text \<open>Up to \<open>cap\<close> entries from an offset, and whether that was the end.\<close>

definition ListAt :: "'a list \<Rightarrow> nat \<Rightarrow> nat \<Rightarrow> 'a list \<times> bool" where
  "ListAt l cap off =
     (if off \<ge> length l then ([], True)
      else let out = take cap (drop off l) in (out, off + length out \<ge> length l))"

text \<open>Paging through a listing, each page starting where the one before ended.\<close>

fun pages :: "'a list \<Rightarrow> nat list \<Rightarrow> nat \<Rightarrow> 'a list" where
  "pages l [] off = []"
| "pages l (cap # caps) off =
     (let (out, eof) = ListAt l cap off in if eof then out else out @ pages l caps (off + length out))"

lemma pages_cover:
  assumes "length l \<le> off + sum_list caps" "off < length l"
  shows "pages l caps off = drop off l"
  using assms
proof (induction caps arbitrary: off)
  case (Cons cap caps)
  have split: "take cap (drop off l) @ drop (off + cap) l = drop off l"
    by (metis add.commute append_take_drop_id drop_drop)
  show ?case
  proof (cases "length l \<le> off + length (take cap (drop off l))")
    case True
    then show ?thesis using Cons.prems by (simp add: ListAt_def Let_def min_def split: if_splits)
  next
    case False
    then have "length (take cap (drop off l)) = cap" by (simp add: min_def split: if_splits)
    then show ?thesis using False Cons.prems Cons.IH [of "off + cap"] split
      by (simp add: ListAt_def Let_def)
  qed
qed simp

section \<open>Overlaid chunks\<close>

lemma overlay_length: "b \<noteq> [] \<Longrightarrow> length (overlay d off b) = max (length d) (off + length b)"
  by (simp add: overlay_def)

lemma overlay_nth:
  assumes "i < length (overlay d off b)"
  shows "overlay d off b ! i =
    (if off \<le> i \<and> i < off + length b then b ! (i - off) else if i < length d then d ! i else CHR 0x00)"
proof (cases "b = []")
  case False
  then show ?thesis using assms by (auto simp: overlay_def nth_append min_def)
qed (use assms in \<open>auto simp: overlay_def\<close>)

text \<open>A chunk is a part of the file; the chunks are all of it, in any order.\<close>

definition part_of :: "bytes \<Rightarrow> nat \<times> bytes \<Rightarrow> bool" where
  "part_of file c = (case c of (off, b) \<Rightarrow> off + length b \<le> length file \<and> b = take (length b) (drop off file))"

definition parts_cover :: "bytes \<Rightarrow> (nat \<times> bytes) list \<Rightarrow> bool" where
  "parts_cover file cs \<longleftrightarrow>
     list_all (part_of file) cs \<and> (\<forall>i<length file. list_ex (\<lambda>(off, b). off \<le> i \<and> i < off + length b) cs)"

definition written :: "bytes \<Rightarrow> (nat \<times> bytes) list \<Rightarrow> bytes" where
  "written d cs = foldl (\<lambda>d (off, b). overlay d off b) d cs"

definition agrees_on :: "bytes \<Rightarrow> nat set \<Rightarrow> bytes \<Rightarrow> bool" where
  "agrees_on file I d \<longleftrightarrow> length d \<le> length file \<and> (\<forall>i\<in>I. i < length d \<and> d ! i = file ! i)"

lemma agrees_overlay:
  assumes "agrees_on file I d" "part_of file (off, b)"
  shows "agrees_on file (I \<union> {off..<off + length b}) (overlay d off b)"
proof (cases "b = []")
  case False
  have b: "off + length b \<le> length file" "\<And>i. i < length b \<Longrightarrow> b ! i = file ! (off + i)"
    using assms(2) by (auto simp: part_of_def) (metis add_leD1 nth_drop nth_take)
  have len: "length (overlay d off b) = max (length d) (off + length b)" by (rule overlay_length [OF False])
  show ?thesis unfolding agrees_on_def
  proof (intro conjI ballI)
    show "length (overlay d off b) \<le> length file" using assms(1) b(1) by (simp add: agrees_on_def len)
    fix i assume i: "i \<in> I \<union> {off..<off + length b}"
    then show l: "i < length (overlay d off b)" using assms(1) by (auto simp: agrees_on_def len)
    show "overlay d off b ! i = file ! i"
      unfolding overlay_nth [OF l] using i assms(1) b(2) [of "i - off"] by (auto simp: agrees_on_def)
  qed
qed (use assms in \<open>simp add: overlay_def\<close>)

lemma written_agrees:
  "agrees_on file I d \<Longrightarrow> list_all (part_of file) cs \<Longrightarrow>
   agrees_on file (I \<union> (\<Union>(off, b)\<in>set cs. {off..<off + length b})) (written d cs)"
proof (induction cs arbitrary: I d)
  case (Cons c cs)
  obtain off b where c: "c = (off, b)" by (cases c)
  have "agrees_on file (I \<union> {off..<off + length b}) (overlay d off b)"
    using agrees_overlay Cons.prems c by simp
  from Cons.IH [OF this] Cons.prems(2) show ?case by (simp add: c written_def Un_assoc)
qed (simp add: written_def)

lemma written_parts:
  assumes "parts_cover file cs"
  shows "written [] cs = file"
proof -
  have "agrees_on file {} []" by (simp add: agrees_on_def)
  from written_agrees [OF this] assms
  have a: "agrees_on file (\<Union>(off, b)\<in>set cs. {off..<off + length b}) (written [] cs)"
    by (simp add: parts_cover_def)
  have all: "i < length (written [] cs) \<and> written [] cs ! i = file ! i" if "i < length file" for i
    using a that assms by (fastforce simp: agrees_on_def parts_cover_def list_ex_iff)
  then have "length file \<le> length (written [] cs)" by (metis less_irrefl not_le)
  then show ?thesis using a all by (intro nth_equalityI) (auto simp: agrees_on_def)
qed

section \<open>One regular file\<close>

text \<open>The client's writes, as they come; the first failure ends the transfer.\<close>

definition put_chunks ::
  "('w, 'e, 'i) guest_fs \<Rightarrow> gostring \<Rightarrow> (nat \<times> bytes) list \<Rightarrow> 'w \<Rightarrow> 'w \<times> 'e sftp_error option" where
  "put_chunks fs path cs w =
     foldl (\<lambda>r (off, b). attr_step (Some (\<lambda>w. case WriteAt fs path b (int off) w of (w, n, e) \<Rightarrow> (w, e))) r) (w, None) cs"

text \<open>
  What a transfer relies on: while the file system is in a \<open>good\<close> state, opening for writing leaves
  the file empty, a write at an offset overlays the content, a read returns the range.
\<close>

locale regular_file =
  fixes fs :: "('w, 'e, 'i) guest_fs" and path :: gostring
    and good :: "'w \<Rightarrow> bool" and content :: "'w \<Rightarrow> bytes option"
  assumes stat_ok: "good w \<Longrightarrow> content w = Some d \<Longrightarrow>
      \<exists>w' i. gf_stat fs path w = (w', Inr i) \<and> good w' \<and> content w' = Some d"
    and truncates: "good w \<Longrightarrow> \<exists>w'. gf_write fs path [] w = (w', None) \<and> good w' \<and> content w' = Some []"
    and overlays: "good w \<Longrightarrow> content w = Some d \<Longrightarrow> off + length b < 2 ^ 63 \<Longrightarrow>
      \<exists>w'. gf_write_at fs path (int off) (slice_reads b) w = (w', None) \<and> good w' \<and> content w' = Some (overlay d off b)"
    and reads: "good w \<Longrightarrow> content w = Some d \<Longrightarrow> length d < 2 ^ 63 \<Longrightarrow> off < 2 ^ 63 \<Longrightarrow>
      \<exists>w'. gf_read fs path (int off) (int cap) cap w = Some (w', take cap (drop off d), None) \<and>
           good w' \<and> content w' = Some d"
begin

lemma chunk_written:
  assumes "good w" "content w = Some d" "off + length b < 2 ^ 63"
  shows "\<exists>w'. WriteAt fs path b (int off) w = (w', length b, None) \<and> good w' \<and> content w' = Some (overlay d off b)"
  using overlays [OF assms] by (auto simp: WriteAt_def)

lemma chunks_written:
  "good w \<Longrightarrow> content w = Some d \<Longrightarrow> list_all (\<lambda>(off, b). off + length b < 2 ^ 63) cs \<Longrightarrow>
   \<exists>w'. put_chunks fs path cs w = (w', None) \<and> good w' \<and> content w' = Some (written d cs)"
proof (induction cs arbitrary: w d)
  case (Cons c cs)
  obtain off b where c: "c = (off, b)" by (cases c)
  obtain w1 where w1: "WriteAt fs path b (int off) w = (w1, length b, None)" "good w1" "content w1 = Some (overlay d off b)"
    using chunk_written [OF Cons.prems(1,2)] Cons.prems(3) c by auto
  from Cons.IH [OF w1(2,3)] Cons.prems(3) show ?case
    by (simp add: put_chunks_def written_def c w1(1) attr_step_some)
qed (simp add: put_chunks_def written_def)

lemma opened_for_writing:
  "good w \<Longrightarrow> \<exists>w'. Filewrite fs path w = (w', None) \<and> good w' \<and> content w' = Some []"
  using truncates [of w] by (auto simp: Filewrite_def)

lemma uploaded:
  assumes "good w" "parts_cover file cs" "length file < 2 ^ 63"
  shows "\<exists>w1 w2. Filewrite fs path w = (w1, None) \<and> put_chunks fs path cs w1 = (w2, None) \<and> good w2 \<and> content w2 = Some file"
proof -
  obtain w1 where w1: "Filewrite fs path w = (w1, None)" "good w1" "content w1 = Some []"
    using opened_for_writing [OF assms(1)] by auto
  have "list_all (\<lambda>(off, b). off + length b < 2 ^ 63) cs"
    using assms(2,3) by (auto simp: parts_cover_def part_of_def list_all_iff)
  from chunks_written [OF w1(2,3) this] written_parts [OF assms(2)] w1 show ?thesis by auto
qed

lemma opened_for_reading:
  "good w \<Longrightarrow> content w = Some d \<Longrightarrow> \<exists>w'. Fileread fs path w = (w', None) \<and> good w' \<and> content w' = Some d"
  using stat_ok [of w d] by (auto simp: Fileread_def)

lemma downloaded:
  assumes "good w" "content w = Some d" "length d < 2 ^ 63" "off < 2 ^ 63"
  shows "\<exists>w'. ReadAt fs path cap (int off) w =
      Some (w', take cap (drop off d), if off + cap \<le> length d \<or> cap = 0 then ReadFull else ReadEOF) \<and>
    good w' \<and> content w' = Some d"
  using reads [OF assms, of cap] by (auto simp: ReadAt_def)

end

section \<open>The helper's file system\<close>

text \<open>The writer of a ranged read takes at most the buffer.\<close>

definition fill :: "nat \<Rightarrow> bytes \<Rightarrow> bytes \<Rightarrow> bytes option" where
  "fill cap out b = (if length out + length b \<le> cap then Some (out @ b) else None)"

text \<open>What a failing writer has taken by then is the whole buffer.\<close>

definition helper_fs :: "'w peer \<Rightarrow> ('w client, client_error, entry) guest_fs" where
  "helper_fs peer =
     \<lparr>gf_stat = client_Stat peer, gf_list = client_List peer,
      gf_read = (\<lambda>path off len cap c. map_option (\<lambda>(c, out, e). (c, out, e)) (ReadRangeTo peer (fill cap) path off len [] c)),
      gf_write = WriteFrom peer, gf_write_at = WriteAtFrom peer,
      gf_mkdir = client_Mkdir peer, gf_remove = client_Remove peer, gf_rmdir = client_Rmdir peer,
      gf_rename = client_Rename peer, gf_symlink = client_Symlink peer, gf_readlink = client_Readlink peer,
      gf_chmod = client_Chmod peer, gf_chown = client_Chown peer, gf_chtimes = client_Chtimes peer,
      gf_truncate = client_Truncate peer, gf_is = client_error_is, gf_not_running = (\<lambda>e. False)\<rparr>"

lemma read_fill:
  "ReadRangeTo peer wr p off len out c = Some y \<Longrightarrow> wr = collect \<Longrightarrow>
   (\<exists>ext. fst (snd y) = out @ ext) \<and>
   (length (fst (snd y)) \<le> cap \<longrightarrow> ReadRangeTo peer (fill cap) p off len out c = Some y)"
proof (induct rule: ReadRangeTo.raw_induct [rotated, consumes 1, case_names step])
  case (step rec peer wr p off len out c y)
  show ?case
  proof (cases "len = 0")
    case True
    then show ?thesis using step by (auto simp: ReadRangeTo.simps)
  next
    case False
    define want where "want = (if len > 0 \<and> len < chunkSize then len else chunkSize)"
    obtain c1 r where call: "call peer ((on_path OpRead p)\<lparr>q_offset := off, q_length := want\<rparr>) [] c = (c1, r)"
      by (cases "call peer ((on_path OpRead p)\<lparr>q_offset := off, q_length := want\<rparr>) [] c")
    show ?thesis
    proof (cases r)
      case (Inl e)
      then show ?thesis using step(2,3) False call
        by (subst ReadRangeTo.simps) (auto simp: Let_def simp flip: want_def)
    next
      case (Inr rd)
      obtain resp data where rd: "rd = (resp, data)" by (cases rd)
      have wrote: "(if data = [] then Some out else wr out data) = Some (out @ data)" using step(3) by simp
      have filled: "length (out @ data) \<le> cap \<Longrightarrow> (if data = [] then Some out else fill cap out data) = Some (out @ data)"
        by (simp add: fill_def)
      let ?len = "if len > 0 then len - int (length data) else len"
      have body: "(if int (length data) < want then Some (c1, out @ data, None)
          else rec peer wr p (off + int (length data)) ?len (out @ data) c1) = Some y"
        using step(2) False call Inr rd wrote by (simp add: Let_def flip: want_def)
      have unf: "length (out @ data) \<le> cap \<Longrightarrow> ReadRangeTo peer (fill cap) p off len out c =
          (if int (length data) < want then Some (c1, out @ data, None)
           else ReadRangeTo peer (fill cap) p (off + int (length data)) ?len (out @ data) c1)"
        using False call Inr rd filled by (subst ReadRangeTo.simps) (simp add: Let_def flip: want_def)
      show ?thesis
      proof (cases "int (length data) < want")
        case True
        then show ?thesis using body unf by auto
      next
        case more: False
        then have "rec peer wr p (off + int (length data)) ?len (out @ data) c1 = Some y" using body by simp
        from step(1) [OF this step(3)] show ?thesis using more unf by auto
      qed
    qed
  qed
qed

text \<open>What a file is on the node: its metadata can be read and sent, and it reads and writes as
  POSIX says.\<close>

definition posix_file :: "'fs os \<Rightarrow> ('fs \<Rightarrow> bytes option) \<Rightarrow> gostring \<Rightarrow> bool" where
  "posix_file os content p \<longleftrightarrow>
     writable_file os content p \<and>
     (\<forall>fs d. content fs = Some d \<longrightarrow> readable_file os fs p d \<and>
        (\<exists>fi. os_lstat os fs p = Inr fi \<and> sendable_entry (entryOf fi) \<and> length (fi_name fi) \<le> 4096))"

definition helper_good :: "'fs os \<Rightarrow> ('fs \<Rightarrow> bytes option) \<Rightarrow> gostring \<Rightarrow> 'fs session client \<Rightarrow> bool" where
  "helper_good os content p c \<longleftrightarrow> in_step c \<and> sendable_path p \<and> posix_file os content p"

lemma overlay_twice: "overlay (overlay d off a) (off + length a) b = overlay d off (a @ b)"
proof (cases "a = [] \<or> b = []")
  case False
  then have l: "length (overlay (overlay d off a) (off + length a) b) = length (overlay d off (a @ b))"
    by (simp add: overlay_length)
  show ?thesis
  proof (rule nth_equalityI [OF l])
    fix i assume i: "i < length (overlay (overlay d off a) (off + length a) b)"
    then have "i < max (length d) (off + length a + length b)" using False by (simp add: overlay_length)
    then show "overlay (overlay d off a) (off + length a) b ! i = overlay d off (a @ b) ! i"
      using i l False by (auto simp: overlay_nth overlay_length nth_append)
  qed
qed (auto simp: overlay_def)

lemma write_slices:
  assumes "writable_file os content p" "sendable_path p"
  shows "in_step c \<Longrightarrow> content (s_fs (c_peer c)) = Some d \<Longrightarrow> off + length b < 2 ^ 63 \<Longrightarrow>
    \<exists>c'. WriteAtFrom (helper_peer os) p (int off) (slice_reads b) c = (c', None) \<and> in_step c' \<and>
      content (s_fs (c_peer c')) = Some (overlay d off b)"
proof (induction b arbitrary: c d off rule: slice_reads.induct)
  case (1 b)
  show ?case
  proof (cases "b = []")
    case True
    then show ?thesis using 1 by (simp add: slice_reads.simps [of "[]"] overlay_def)
  next
    case False
    let ?h = "take (nat chunkSize) b" let ?t = "drop (nat chunkSize) b"
    have h: "?h \<noteq> []" "length ?h \<le> MaxPayload" using False by (simp_all add: chunkSize_def MaxPayload_def)
    have req: "(on_path OpWrite p)\<lparr>q_offset := int off\<rparr> = (on_path OpWrite p)\<lparr>q_offset := int off, q_trunc := False\<rparr>"
      by (simp add: on_path_def zero_request_def)
    have "int off < 2 ^ 63" using 1(4) by simp
    moreover have "0 \<le> int off" by simp
    moreover have old: "(if False then [] else case content (s_fs (c_peer c)) of None \<Rightarrow> [] | Some d \<Rightarrow> d) = d"
      using 1(3) by simp
    ultimately have "\<exists>c' r. call (helper_peer os) ((on_path OpWrite p)\<lparr>q_offset := int off, q_trunc := False\<rparr>) ?h c = (c', Inr r) \<and>
        in_step c' \<and> content (s_fs (c_peer c')) = Some (overlay d (nat (int off)) ?h)"
      using call_write [where content = "\<lambda>_. content", OF 1(2) assms _ _ h(2) old] by blast
    then obtain c1 r where w: "call (helper_peer os) ((on_path OpWrite p)\<lparr>q_offset := int off, q_trunc := False\<rparr>) ?h c = (c1, Inr r)"
        and c1: "in_step c1" "content (s_fs (c_peer c1)) = Some (overlay d off ?h)"
      unfolding nat_int by blast
    have w: "call (helper_peer os) ((on_path OpWrite p)\<lparr>q_offset := int off\<rparr>) ?h c = (c1, Inr r)"
      by (subst req) (rule w)
    have "off + length ?h + length ?t < 2 ^ 63" using 1(4) by (simp add: min_def split: if_splits)
    from 1(1) [OF False c1 this] show ?thesis
      using w h(1) False overlay_twice [of d off ?h ?t]
      by (subst slice_reads.simps) (simp add: add.assoc)
  qed
qed

lemma entry_fits:
  assumes "sendable_entry e" "length (e_name e) \<le> 4096"
  shows "fits (response_json (zero_response\<lparr>p_entries := [e], p_len := 0\<rparr>))"
proof -
  have u: "in_uint32 i \<Longrightarrow> in_int64 i" for i by (simp add: in_uint32_def in_int64_def)
  have i: "in_int64 (e_size e)" "in_int64 (e_mode e)" "in_int64 (e_uid e)" "in_int64 (e_gid e)" "in_int64 (e_mtime e)"
    using assms(1) u by (auto simp: sendable_entry_def)
  have j: "length (json_marshal (entry_json e)) \<le> weight (case entry_json e of VObj m \<Rightarrow> m | _ \<Rightarrow> []) + 2"
    unfolding entry_json_def jval.case by (rule obj_length)
  have cons: "weight (x # xs) = weight [x] + weight xs" for x xs by (simp add: weight_def)
  have nil: "weight [] = 0" by (simp add: weight_def)
  have len: "length (json_marshal (entry_json e)) \<le> 25000"
    using j [unfolded entry_json_def jval.case cons [of _ "_ # _"]] assms(2)
      weight_str [of False "''name''" "e_name e"] weight_int [OF i(1), of False "''size''"] weight_int [OF i(2), of False "''mode''"]
      weight_int [OF i(3), of False "''uid''"] weight_int [OF i(4), of False "''gid''"] weight_int [OF i(5), of False "''mtime''"]
    unfolding entry_json_def omit_def by (simp del: json_marshal.simps add: nil)
  have "length (json_marshal (response_json (zero_response\<lparr>p_entries := [e], p_len := 0\<rparr>))) \<le>
      weight [(''entries'', VArr [entry_json e])] + 2"
    using obj_length [of "[(''entries'', VArr [entry_json e])]"]
    by (simp add: response_json_def zero_response_def omit_def del: json_marshal.simps)
  also have "weight [(''entries'', VArr [entry_json e])] \<le> 26000"
    using len json_string_length [of "''entries''"] by (simp add: weight_def marshal_member_def)
  finally show ?thesis by (simp add: fits_def MaxFrame_def)
qed

lemma call_stat:
  assumes "in_step c" "sendable_path p" "os_lstat os (s_fs (c_peer c)) p = Inr fi"
    "sendable_entry (entryOf fi)" "length (fi_name fi) \<le> 4096"
  shows "client_Stat (helper_peer os) p c = (c, Inr (entryOf fi))"
proof -
  have op: "is_ascii OpStat" "length OpStat \<le> 8" by (simp_all add: OpStat_def is_ascii_def)
  have z: "in_int64 0" by (simp add: in_int64_def)
  have eq: "(on_path OpStat p)\<lparr>q_len := int (length [])\<rparr> =
      (on_path OpStat p)\<lparr>q_offset := 0, q_length := 0, q_len := 0, q_trunc := False\<rparr>"
    by (simp add: on_path_def zero_request_def)
  have send: "sendable_request ((on_path OpStat p)\<lparr>q_len := int (length [])\<rparr>)"
      "fits (request_json ((on_path OpStat p)\<lparr>q_len := int (length [])\<rparr>))"
    unfolding eq by (rule on_path_sendable [OF assms(2) op z z z])+
  let ?resp = "zero_response\<lparr>p_entries := [entryOf fi]\<rparr>"
  have disp: "helper_dispatch os ((on_path OpStat p)\<lparr>q_len := int (length [])\<rparr>) [] (c_peer c) = (c_peer c, ?resp, [])"
    using assms(3) by (simp add: helper_dispatch_def on_path_def zero_request_def helper_ops)
  have sr: "sendable_response ?resp"
    using zero_response_sendable assms(4) by (simp add: sendable_response_def zero_response_def)
  have fr: "fits (response_json (?resp\<lparr>p_len := int (length ([] :: bytes))\<rparr>))"
    using entry_fits [OF assms(4)] assms(5) by (simp add: entryOf_def)
  have "q_op (on_path OpStat p) \<noteq> OpQuit" by (simp add: on_path_def helper_ops)
  from call_helper(1) [OF assms(1) send(1) _ send(2) this disp sr _ fr]
  have "call (helper_peer os) (on_path OpStat p) [] c =
      (c\<lparr>c_peer := c_peer c\<rparr>, Inr (?resp\<lparr>p_len := int (length ([] :: bytes))\<rparr>, []))"
    by (simp add: zero_response_def)
  then show ?thesis by (cases c) (simp add: client_Stat_def)
qed

interpretation helper_file: regular_file "helper_fs (helper_peer os)" p "helper_good os content p"
    "\<lambda>c. content (s_fs (c_peer c))" for os :: "'fs os" and p content
proof
  fix c :: "'fs session client" and d
  assume g: "helper_good os content p c" and d: "content (s_fs (c_peer c)) = Some d"
  then obtain fi where "os_lstat os (s_fs (c_peer c)) p = Inr fi" "sendable_entry (entryOf fi)" "length (fi_name fi) \<le> 4096"
    by (auto simp: helper_good_def posix_file_def)
  from call_stat [OF _ _ this] g d
  show "\<exists>c' i. gf_stat (helper_fs (helper_peer os)) p c = (c', Inr i) \<and> helper_good os content p c' \<and>
      content (s_fs (c_peer c')) = Some d"
    by (simp add: helper_fs_def helper_good_def)
next
  fix c :: "'fs session client"
  assume g: "helper_good os content p c"
  then have h: "in_step c" "writable_file os content p" "sendable_path p" by (auto simp: helper_good_def posix_file_def)
  have req: "(on_path OpWrite p)\<lparr>q_trunc := True\<rparr> = (on_path OpWrite p)\<lparr>q_offset := 0, q_trunc := True\<rparr>"
    by (simp add: on_path_def zero_request_def)
  from call_write [where content = "\<lambda>_. content" and t = True and off = 0 and d = "[]" and b = "[]", OF h]
  show "\<exists>c'. gf_write (helper_fs (helper_peer os)) p [] c = (c', None) \<and> helper_good os content p c' \<and>
      content (s_fs (c_peer c')) = Some []"
    using g by (auto simp: helper_fs_def WriteFrom_def req overlay_start helper_good_def)
next
  fix c :: "'fs session client" and d off b
  assume g: "helper_good os content p c" and d: "content (s_fs (c_peer c)) = Some d" and "off + length (b :: bytes) < 2 ^ 63"
  then show "\<exists>c'. gf_write_at (helper_fs (helper_peer os)) p (int off) (slice_reads b) c = (c', None) \<and>
      helper_good os content p c' \<and> content (s_fs (c_peer c')) = Some (overlay d off b)"
    using write_slices [of os content p c d off b] by (auto simp: helper_fs_def helper_good_def posix_file_def)
next
  fix c :: "'fs session client" and d off cap
  assume g: "helper_good os content p c" and d: "content (s_fs (c_peer c)) = Some d"
    and "length d < 2 ^ 63" "off < (2 :: nat) ^ 63"
  then have "ReadRangeTo (helper_peer os) collect p (int off) (int cap) [] c = Some (c, [] @ file_range d (int off) (int cap), None)"
    by (intro read_range_loop) (auto simp: helper_good_def posix_file_def)
  from read_fill [OF this refl, of cap]
  show "\<exists>c'. gf_read (helper_fs (helper_peer os)) p (int off) (int cap) cap c = Some (c', take cap (drop off d), None) \<and>
      helper_good os content p c' \<and> content (s_fs (c_peer c')) = Some d"
    using g d by (simp add: helper_fs_def file_range_def)
qed

section \<open>Transfers through the helper\<close>

text \<open>C28: An upload whose chunks arrive in any order, even overlapping or twice, stores exactly the
  file, whatever was there before; and a download of what was stored gives, for every buffer and
  offset, exactly that part of the file, with the end reported exactly when the buffer was not
  filled.\<close>

theorem sftp_transfer_exact:
  assumes "helper_good os content p c" "parts_cover file cs" "length file < 2 ^ 63"
  shows "\<exists>c1 c2 c3.
    Filewrite (helper_fs (helper_peer os)) p c = (c1, None) \<and>
    put_chunks (helper_fs (helper_peer os)) p cs c1 = (c2, None) \<and>
    content (s_fs (c_peer c2)) = Some file \<and>
    Fileread (helper_fs (helper_peer os)) p c2 = (c3, None) \<and>
    (\<forall>off cap. off < 2 ^ 63 \<longrightarrow>
      (\<exists>c4. ReadAt (helper_fs (helper_peer os)) p cap (int off) c3 =
         Some (c4, take cap (drop off file), if off + cap \<le> length file \<or> cap = 0 then ReadFull else ReadEOF)))"
proof -
  obtain c1 c2 where up: "Filewrite (helper_fs (helper_peer os)) p c = (c1, None)"
      "put_chunks (helper_fs (helper_peer os)) p cs c1 = (c2, None)" "helper_good os content p c2"
      "content (s_fs (c_peer c2)) = Some file"
    using helper_file.uploaded [OF assms] by blast
  obtain c3 where "Fileread (helper_fs (helper_peer os)) p c2 = (c3, None)" "helper_good os content p c3"
      "content (s_fs (c_peer c3)) = Some file"
    using helper_file.opened_for_reading [OF up(3,4)] by blast
  with up helper_file.downloaded [OF this(2,3) assms(3)] show ?thesis by blast
qed

text \<open>Opening for writing always empties the file, so an upload resumed at an offset loses what
  was uploaded before: the file is left with zero bytes up to the offset.\<close>

theorem resumed_upload_loses_start:
  assumes "helper_good os content p c" "content (s_fs (c_peer c)) = Some before"
    "b \<noteq> []" "off + length b < 2 ^ 63"
  shows "\<exists>c1 c2. Filewrite (helper_fs (helper_peer os)) p c = (c1, None) \<and>
    WriteAt (helper_fs (helper_peer os)) p b (int off) c1 = (c2, length b, None) \<and>
    content (s_fs (c_peer c2)) = Some (replicate off (CHR 0x00) @ b)"
proof -
  obtain c1 where c1: "Filewrite (helper_fs (helper_peer os)) p c = (c1, None)" "helper_good os content p c1"
      "content (s_fs (c_peer c1)) = Some []"
    using helper_file.opened_for_writing [OF assms(1)] by blast
  from helper_file.chunk_written [OF c1(2,3) assms(4)] c1(1) assms(3) show ?thesis
    by (auto simp: overlay_def)
qed

section \<open>Witnesses\<close>

definition file_os :: "bytes option os" where
  "file_os = demo_os\<lparr>os_lstat := (\<lambda>fs p. Inr \<lparr>fi_name = ''f'', fi_size = 0, fi_mode = 0, fi_mtime = 0, fi_owner = None\<rparr>)\<rparr>"

lemma file_os_good: "helper_good file_os id ''/tmp/f'' (demo_client before)"
proof -
  have "posix_file file_os (id :: bytes option \<Rightarrow> bytes option) ''/tmp/f''"
    using ascii_valid_utf8 [of "''f''"]
    by (auto simp: posix_file_def writable_file_def readable_file_def file_os_def demo_os_def sendable_entry_def entryOf_def
        in_int64_def in_uint32_def is_ascii_def)
  then show ?thesis using demo_in_step demo_path by (simp add: helper_good_def)
qed

theorem sftp_transfer_exact_witness:
  "\<exists>c1 c2. Filewrite (helper_fs (helper_peer file_os)) ''/tmp/f'' (demo_client (Some ''old'')) = (c1, None) \<and>
    put_chunks (helper_fs (helper_peer file_os)) ''/tmp/f'' [(3, ''de''), (0, ''abc'')] c1 = (c2, None) \<and>
    s_fs (c_peer c2) = Some ''abcde''"
proof -
  have "parts_cover ''abcde'' [(3, ''de''), (0, ''abc'')]"
    by (auto simp: parts_cover_def part_of_def)
  from sftp_transfer_exact [OF file_os_good this, of "Some ''old''"] show ?thesis by auto
qed

theorem resumed_upload_loses_start_witness:
  "\<exists>c1 c2. Filewrite (helper_fs (helper_peer file_os)) ''/tmp/f'' (demo_client (Some ''ab'')) = (c1, None) \<and>
    WriteAt (helper_fs (helper_peer file_os)) ''/tmp/f'' ''cd'' (int 2) c1 = (c2, length ''cd'', None) \<and>
    id (s_fs (c_peer c2)) = Some (replicate 2 (CHR 0x00) @ ''cd'')"
  by (rule resumed_upload_loses_start [OF file_os_good, where before = "''ab''"]) (simp_all add: demo_client_def)

end
