(* ===== verification/GoUrl.thy ===== *)
theory GoUrl
  imports GoText
begin

text \<open>
  What the code uses of Go's \<open>net/url\<close> and \<open>net\<close>: escaping for a query, a path and a host,
  \<open>Values.Encode\<close>, \<open>URL.String\<close> for a URL built from its parts, and \<open>JoinHostPort\<close>.
\<close>

section \<open>Escaping\<close>

datatype encoding = EncodeQuery | EncodePath | EncodeHost

definition url_unreserved :: "char \<Rightarrow> bool" where
  "url_unreserved c \<longleftrightarrow>
     is_digit c \<or> (65 \<le> code c \<and> code c \<le> 90) \<or> (97 \<le> code c \<and> code c \<le> 122) \<or> c \<in> set ''-_.~''"

definition url_plain :: "encoding \<Rightarrow> char \<Rightarrow> bool" where
  "url_plain m c \<longleftrightarrow> url_unreserved c \<or>
     (case m of
        EncodeQuery \<Rightarrow> False
      | EncodePath \<Rightarrow> c \<in> set ''$&+,/:;=@''
      | EncodeHost \<Rightarrow> c \<in> set ''!$&()*+,;=:[]<>'' \<or> c = CHR 0x27 \<or> c = CHR 0x22)"

definition hex_upper :: "nat \<Rightarrow> char" where
  "hex_upper d = ''0123456789ABCDEF'' ! d"

definition url_byte :: "encoding \<Rightarrow> char \<Rightarrow> bytes" where
  "url_byte m c =
     (if url_plain m c then [c]
      else if c = CHR '' '' \<and> m = EncodeQuery then ''+''
      else [CHR ''%'', hex_upper (code c div 16), hex_upper (code c mod 16)])"

definition url_escape :: "encoding \<Rightarrow> bytes \<Rightarrow> bytes" where
  "url_escape m s = concat (map (url_byte m) s)"

text \<open>\<open>Values.Encode\<close> of keys that are in order, one value each.\<close>

definition encode_values :: "(gostring \<times> gostring) list \<Rightarrow> bytes" where
  "encode_values kvs =
     go_join ''&'' (map (\<lambda>(k, v). url_escape EncodeQuery k @ ''='' @ url_escape EncodeQuery v) kvs)"

text \<open>\<open>URL.String\<close> of a URL with a scheme, a rooted path and no user, fragment or raw path.\<close>

definition url_string :: "gostring \<Rightarrow> gostring \<Rightarrow> gostring \<Rightarrow> bytes \<Rightarrow> bytes" where
  "url_string scheme host path query =
     scheme @ ''://'' @ url_escape EncodeHost host @ url_escape EncodePath path @
     (if query \<noteq> [] then ''?'' @ query else [])"

definition join_host_port :: "gostring \<Rightarrow> gostring \<Rightarrow> gostring" where
  "join_host_port host port =
     (if CHR '':'' \<in> set host then ''['' @ host @ '']:'' @ port else host @ '':'' @ port)"

section \<open>Unescaping a query\<close>

definition unhex :: "char \<Rightarrow> nat option" where
  "unhex c =
     (if is_digit c then Some (code c - 48)
      else if 65 \<le> code c \<and> code c \<le> 70 then Some (code c - 55)
      else if 97 \<le> code c \<and> code c \<le> 102 then Some (code c - 87)
      else None)"

text \<open>What the other end reads back.\<close>

fun query_unescape :: "bytes \<Rightarrow> bytes option" where
  "query_unescape [] = Some []"
| "query_unescape (c # s) =
     (if c = CHR ''%'' then
        (case s of
           a # b # r \<Rightarrow>
             (case (unhex a, unhex b) of
                (Some h, Some l) \<Rightarrow> map_option ((#) (char_of (16 * h + l))) (query_unescape r)
              | _ \<Rightarrow> None)
         | _ \<Rightarrow> None)
      else map_option ((#) (if c = CHR ''+'' then CHR '' '' else c)) (query_unescape s))"

lemma hex_upper_nth: "d < 16 \<Longrightarrow> unhex (hex_upper d) = Some d"
proof -
  have "\<forall>d\<in>set [0..<16]. unhex (hex_upper d) = Some d" by code_simp
  then show "d < 16 \<Longrightarrow> unhex (hex_upper d) = Some d" by simp
qed

lemma code_split: "char_of (16 * (code c div 16) + code c mod 16) = c"
  by (simp add: mult_div_mod_eq)

lemma code_halves: "code c div 16 < 16" "code c mod 16 < 16"
  using nat_of_char_less_256 [of c] by (simp_all add: less_mult_imp_div_less)

lemma query_byte: "query_unescape (url_byte EncodeQuery c @ r) = map_option ((#) c) (query_unescape r)"
proof -
  have "c \<noteq> CHR ''%''" "c \<noteq> CHR ''+''" if "url_plain EncodeQuery c"
    using that by (auto simp: url_plain_def url_unreserved_def is_digit_def)
  then show ?thesis
    by (auto simp: url_byte_def hex_upper_nth code_halves code_split)
qed

lemma query_roundtrip: "query_unescape (url_escape EncodeQuery s) = Some s"
  by (induction s) (simp_all add: url_escape_def query_byte)

text \<open>Nothing in an escaped value ends it.\<close>

lemma hex_upper_plain: "d < 16 \<Longrightarrow> url_unreserved (hex_upper d)"
proof -
  have "\<forall>d\<in>set [0..<16]. url_unreserved (hex_upper d)" by code_simp
  then show "d < 16 \<Longrightarrow> url_unreserved (hex_upper d)" by simp
qed

lemma escaped_query_bytes: "set (url_escape EncodeQuery s) \<subseteq> {c. url_unreserved c} \<union> {CHR ''%'', CHR ''+''}"
  by (auto simp: url_escape_def url_byte_def url_plain_def hex_upper_plain code_halves split: if_splits)

lemma escaped_no_separator: "CHR ''&'' \<notin> set (url_escape EncodeQuery s)" "CHR ''='' \<notin> set (url_escape EncodeQuery s)"
  using escaped_query_bytes [of s] by (auto simp: url_unreserved_def is_digit_def)

text \<open>A path does not reach the query.\<close>

lemma escaped_path_no_query: "CHR ''?'' \<notin> set (url_escape EncodePath s)" "CHR ''#'' \<notin> set (url_escape EncodePath s)"
proof -
  have "\<not> url_unreserved CHR ''?''" "\<not> url_unreserved CHR ''#''"
    by (simp_all add: url_unreserved_def is_digit_def)
  then have "CHR ''?'' \<noteq> hex_upper d" "CHR ''#'' \<noteq> hex_upper d" if "d < 16" for d
    using hex_upper_plain [OF that] by auto
  then show "CHR ''?'' \<notin> set (url_escape EncodePath s)" "CHR ''#'' \<notin> set (url_escape EncodePath s)"
    using code_halves
    by (auto simp: url_escape_def url_byte_def url_plain_def url_unreserved_def is_digit_def split: if_splits)
qed

lemma unreserved_plain: "list_all url_unreserved s \<Longrightarrow> url_escape m s = s"
  by (induction s) (auto simp: url_escape_def url_byte_def url_plain_def)

lemma digits_unreserved: "list_all is_digit ds \<Longrightarrow> list_all url_unreserved ds"
  by (auto simp: list_all_iff url_unreserved_def)

lemma itoa_unreserved: "list_all url_unreserved (itoa n)"
  using digits_unreserved [OF nat_digits_all_digits] by (simp add: itoa_def url_unreserved_def)

end
