(* ===== verification/TermProxy.thy ===== *)
theory TermProxy
  imports EscapeKey StatusBar ProxmoxClient GoUrl
begin

text \<open>
  \<open>internal/console/console.go\<close>, \<open>internal/console/termproxy.go\<close> and
  \<open>internal/proxmox/termproxy.go\<close>: a guest console over Proxmox's websocket. \<open>open_termproxy\<close> is
  \<open>connectTermProxy\<close> up to its bridge (ticket, URL, dial, authentication, handshake, first size);
  the bridge's three loops are \<open>tp_step\<close>, one event of any of them at a time. What the network
  answers is an argument of the first and an event of the second. \<open>decode_frames\<close> is the other
  end: the stream of frames as the source's comment describes it.
\<close>

section \<open>The terminal\<close>

record session_term = term_view +
  st_term :: gostring

definition defaultTerm :: gostring where "defaultTerm = ''xterm-256color''"
definition defaultWidth :: int where "defaultWidth = 80"
definition defaultHeight :: int where "defaultHeight = 24"

text \<open>A missing stream is the process's own, so there always is an output.\<close>

definition normalize_term :: "session_term \<Rightarrow> session_term" where
  "normalize_term t =
     t\<lparr>st_term := (if st_term t = '''' then defaultTerm else st_term t),
       tv_width := (if tv_width t \<le> 0 then defaultWidth else tv_width t),
       tv_height := (if tv_height t \<le> 0 then defaultHeight else tv_height t),
       tv_has_out := True\<rparr>"

datatype ui_writer = UIDiscard | UIPlain | UICRLF

definition uiWriter :: "bool \<Rightarrow> bool \<Rightarrow> ui_writer" where
  "uiWriter present raw = (if \<not> present then UIDiscard else if \<not> raw then UIPlain else UICRLF)"

definition guestConsoleCmd :: "(gostring \<Rightarrow> gostring) \<Rightarrow> guest_row \<Rightarrow> gostring + gostring" where
  "guestConsoleCmd quote g =
     (if g_type g = GuestTypeCT then Inr (''pct enter '' @ itoa (g_vmid g))
      else if g_type g = GuestTypeVM then Inr (''qm terminal '' @ itoa (g_vmid g))
      else Inl (''unknown guest type '' @ quote (g_type g)))"

section \<open>The ticket\<close>

record ticket_data =
  td_ticket :: gostring
  td_port :: gostring
  td_user :: gostring

definition ticket_fields :: "ticket_data field_table" where
  "ticket_fields =
     [(''ticket'', str_field td_ticket_update), (''port'', str_field td_port_update), (''user'', str_field td_user_update)]"

record proxy_ticket =
  pt_ticket :: gostring
  pt_port :: int
  pt_user :: gostring

definition decode_ticket :: "bytes \<Rightarrow> ticket_data option" where
  "decode_ticket body =
     Option.bind (parse_json body) (\<lambda>v. decode_struct [(''data'', decode_struct ticket_fields)] v
       \<lparr>td_ticket = [], td_port = [], td_user = []\<rparr>)"

definition parseTermProxyTicket :: "('e) pve_env_scheme \<Rightarrow> bytes \<Rightarrow> gostring + proxy_ticket" where
  "parseTermProxyTicket env body =
     (case decode_ticket body of
        None \<Rightarrow> Inl (''decode termproxy response: '' @ pe_json_error env body)
      | Some d \<Rightarrow>
          (case atoi (td_port d) of
             None \<Rightarrow> Inl (''decode termproxy port '' @ pe_quote env (td_port d) @ '': '' @ pe_atoi_error env (td_port d))
           | Some port \<Rightarrow> Inr \<lparr>pt_ticket = td_ticket d, pt_port = port, pt_user = td_user d\<rparr>))"

definition termProxyPath :: "gostring \<Rightarrow> guest_row \<Rightarrow> gostring" where
  "termProxyPath node g =
     (let kind = (if g_type g = GuestTypeCT then ''lxc'' else if g_type g = GuestTypeVM then ''qemu'' else ''qemu'')
      in ''/api2/json/nodes/'' @ node @ ''/'' @ kind @ ''/'' @ itoa (g_vmid g) @ ''/termproxy'')"

text \<open>The websocket as the library opens it, and how a read on it fails.\<close>

record ws_request =
  wr_url :: bytes
  wr_auth :: gostring
  wr_insecure :: bool

datatype ws_error = WsClose int gostring | WsEOF | WsCanceled | WsFault gostring

text \<open>What an open connection does during the setup: a failure of a write, or the first message.\<close>

record ws_conn =
  wc_auth :: "gostring option"
  wc_first :: "ws_error + bytes"
  wc_early :: "gostring option"
  wc_size :: "gostring option"

record console_env = pve_env +
  ce_post :: "http_request \<Rightarrow> exchange"
  ce_dial :: "ws_request \<Rightarrow> gostring + ws_conn"
  ce_ws_error :: "ws_error \<Rightarrow> gostring"
  ce_nobar :: gostring

definition doPost :: "console_env \<Rightarrow> api_client \<Rightarrow> gostring \<Rightarrow> gostring + bytes" where
  "doPost env c path =
     (let url = ac_base c @ path in
      case ce_post env (get_request c path) of
        CertRejected e \<Rightarrow> Inl (''POST '' @ url @ '': '' @ e)
      | Undelivered e \<Rightarrow> Inl (''POST '' @ url @ '': '' @ e)
      | BrokenBody e in_net \<Rightarrow> Inl (''read body '' @ url @ '': '' @ e)
      | Response status body \<Rightarrow>
          if status \<noteq> 200
          then Inl (''POST '' @ url @ '': status '' @ itoa (int status) @ '': '' @ body)
          else Inr body)"

definition CreateTermProxyTicket ::
  "console_env \<Rightarrow> api_client \<Rightarrow> gostring \<Rightarrow> guest_row \<Rightarrow> gostring + proxy_ticket" where
  "CreateTermProxyTicket env c node g =
     (case doPost env c (termProxyPath node g) of
        Inl e \<Rightarrow> Inl e
      | Inr body \<Rightarrow> parseTermProxyTicket env body)"

section \<open>The URL\<close>

definition console_kind :: "(gostring \<Rightarrow> gostring) \<Rightarrow> guest_row \<Rightarrow> gostring + gostring" where
  "console_kind quote g =
     (if g_type g = GuestTypeCT then Inr ''lxc''
      else if g_type g = GuestTypeVM then Inr ''qemu''
      else Inl (''unknown guest type '' @ quote (g_type g)))"

definition buildVNCWebSocketURL ::
  "gostring \<times> gostring \<Rightarrow> gostring \<Rightarrow> gostring \<Rightarrow> int \<Rightarrow> proxy_ticket \<Rightarrow> bytes" where
  "buildVNCWebSocketURL api node kind vmid t =
     url_string (if fst api = ''https'' then ''wss'' else ''ws'') (snd api)
       (''/api2/json/nodes/'' @ node @ ''/'' @ kind @ ''/'' @ itoa vmid @ ''/vncwebsocket'')
       (encode_values [(''port'', itoa (pt_port t)), (''vncticket'', pt_ticket t)])"

section \<open>Frames\<close>

definition input_frame :: "bytes \<Rightarrow> bytes" where
  "input_frame p = ''0:'' @ itoa (int (length p)) @ '':'' @ p"

definition resize_frame :: "int \<Rightarrow> int \<Rightarrow> bytes" where
  "resize_frame cols rows = ''1:'' @ itoa cols @ '':'' @ itoa rows @ '':''"

definition keepalive_frame :: bytes where "keepalive_frame = ''2''"

section \<open>Opening\<close>

record bridge =
  br_bar :: "status_bar option"
  br_reader :: escape_reader
  br_resizes :: bool
  br_input :: bool
  br_open :: bool
  br_running :: bool

text \<open>The deferred end of the bar.\<close>

definition stop_bar :: "status_bar option \<Rightarrow> status_bar option \<times> bytes list" where
  "stop_bar bar =
     (case bar of None \<Rightarrow> (None, []) | Some b \<Rightarrow> (let (b, out) = bar_Stop b in (Some b, out)))"

definition handshake_ok :: "bytes \<Rightarrow> bool" where
  "handshake_ok p \<longleftrightarrow> \<not> (length p < 2 \<or> p ! 0 \<noteq> CHR ''O'' \<or> p ! 1 \<noteq> CHR ''K'')"

text \<open>The result, the messages sent and what the terminal was shown, in order.\<close>

definition start_bridge ::
  "console_env \<Rightarrow> session_term \<Rightarrow> instance_row \<Rightarrow> proxy_ticket \<Rightarrow> gostring \<Rightarrow> ws_conn \<Rightarrow>
   (gostring + bridge) \<times> bytes list \<times> bytes list" where
  "start_bridge env t inst tk label c =
     (let authLine = in_token_id inst @ '':'' @ pt_ticket tk @ [CHR 0x0A] in
      case wc_auth c of
        Some e \<Rightarrow> (Inl (''send auth line: '' @ e), [], [])
      | None \<Rightarrow>
     (case wc_first c of
        Inl (WsClose cd reason) \<Rightarrow>
          (Inl (''termproxy closed during handshake: code='' @ itoa cd @ '' reason='' @ pe_quote env reason), [authLine], [])
      | Inl e \<Rightarrow> (Inl (''read termproxy handshake: '' @ ce_ws_error env e), [authLine], [])
      | Inr hs \<Rightarrow>
          if \<not> handshake_ok hs
          then (Inl (''unexpected termproxy handshake response: '' @ pe_quote env hs), [authLine], [])
          else if length hs > 2 \<and> wc_early c \<noteq> None
          then (Inl (''write initial terminal data: '' @ the (wc_early c)), [authLine], [])
          else
            let early = (if length hs > 2 then [drop 2 hs] else []);
                (bar, out, rows) = startBar (pe_fold env) (ce_nobar env) (term_view.truncate t) label EscapeHint;
                out = (if bar \<noteq> None then out else clearScreenNoBar (term_view.truncate t))
            in (case wc_size c of
                  Some e \<Rightarrow>
                    (Inl (''send initial resize: '' @ e), [authLine], early @ out @ snd (stop_bar bar))
                | None \<Rightarrow>
                    (Inr \<lparr>br_bar = bar, br_reader = new_escape_reader, br_resizes = True, br_input = True,
                          br_open = True, br_running = True\<rparr>,
                     [authLine, resize_frame (tv_width t) rows], early @ out))))"

definition open_termproxy ::
  "console_env \<Rightarrow> session_term \<Rightarrow> guest_row \<Rightarrow> instance_row \<Rightarrow> gostring \<Rightarrow>
   (gostring + bridge) \<times> bytes list \<times> bytes list" where
  "open_termproxy env tm g inst label =
     (let t = normalize_term tm; refuse = (\<lambda>e. (Inl e, [], [])) in
      case NewAPIClient (pve_env.truncate env) inst of
        Inl e \<Rightarrow> refuse (''build api client: '' @ e)
      | Inr c \<Rightarrow>
     (case CreateTermProxyTicket env c (in_node inst) g of
        Inl e \<Rightarrow> refuse (''create termproxy ticket: '' @ e)
      | Inr tk \<Rightarrow>
     (case pe_parse_url env (in_api_url inst) of
        Inl e \<Rightarrow> refuse (''parse api url: '' @ e)
      | Inr api \<Rightarrow>
     (case console_kind (pe_quote env) g of
        Inl e \<Rightarrow> refuse e
      | Inr kind \<Rightarrow>
          let url = buildVNCWebSocketURL api (in_node inst) kind (g_vmid g) tk in
          (case ce_dial env \<lparr>wr_url = url,
                  wr_auth = ''PVEAPIToken='' @ in_token_id inst @ ''='' @ in_token_secret inst,
                  wr_insecure = in_insecure_tls inst\<rparr> of
             Inl e \<Rightarrow> refuse (''dial termproxy websocket '' @ url @ '': '' @ e)
           | Inr conn \<Rightarrow> start_bridge env t inst tk label conn)))))"

section \<open>The bridge\<close>

text \<open>
  One thing that happens to a bridge: the keepalive timer, a resize, the end of the resizes, a
  return of a read of the terminal (its bytes and error, and whether the message it made could be
  sent), a message of the guest with how much of it the terminal took, the end of the messages.
\<close>

datatype tp_event =
    Tick
  | Resized int int
  | ResizesClosed
  | Typed bytes "read_error option" bool
  | Shown bytes nat
  | Ended ws_error

definition br_send :: "bridge \<Rightarrow> bytes list \<Rightarrow> bytes list" where
  "br_send br fs = (if br_open br then fs else [])"

definition br_end :: "bridge \<Rightarrow> bridge \<times> bytes list" where
  "br_end br = (let (bar, out) = stop_bar (br_bar br) in (br\<lparr>br_bar := bar, br_running := False\<rparr>, out))"

definition br_typed :: "bridge \<Rightarrow> bytes \<Rightarrow> read_error option \<Rightarrow> bool \<Rightarrow> bridge \<times> bytes list" where
  "br_typed br p err sent =
     (let (e, q, err', fired) = escape_read (br_reader br) (p, err);
          br = br\<lparr>br_reader := e\<rparr>;
          msg = (if q \<noteq> [] then [input_frame q] else [])
      in if q \<noteq> [] \<and> \<not> sent then (br\<lparr>br_input := False\<rparr>, [])
         else if err' \<noteq> None then (br\<lparr>br_input := False, br_open := False\<rparr>, br_send br msg)
         else (br, br_send br msg))"

definition tp_step :: "(nat \<Rightarrow> bool) \<Rightarrow> time \<Rightarrow> tp_event \<Rightarrow> bridge \<Rightarrow> bridge \<times> bytes list \<times> bytes list" where
  "tp_step zw now ev br =
     (if \<not> br_running br then (br, [], [])
      else case ev of
        Tick \<Rightarrow> (br, br_send br [keepalive_frame], [])
      | Resized w h \<Rightarrow>
          if \<not> br_resizes br then (br, [], [])
          else (case br_bar br of
                  None \<Rightarrow> (br, br_send br [resize_frame w h], [])
                | Some b \<Rightarrow>
                    (let (b, out, rows) = bar_Resize now b w h
                     in (br\<lparr>br_bar := Some b\<rparr>, br_send br [resize_frame w rows], out)))
      | ResizesClosed \<Rightarrow> (br\<lparr>br_resizes := False\<rparr>, [], [])
      | Typed p err sent \<Rightarrow>
          if \<not> br_input br then (br, [], [])
          else (let (br, msgs) = br_typed br p err sent in (br, msgs, []))
      | Shown p n \<Rightarrow>
          (let (br, out) =
             (case br_bar br of
                None \<Rightarrow> (br, if n > 0 then [take n p] else [])
              | Some b \<Rightarrow> (let (b, out) = barWriter_Write zw now b p n in (br\<lparr>br_bar := Some b\<rparr>, out)))
           in if n < length p then (let (br, out') = br_end br in (br, [], out @ out')) else (br, [], out))
      | Ended e \<Rightarrow> (let (br, out) = br_end br in (br, [], out)))"

definition isNormalClose :: "ws_error \<Rightarrow> bool" where
  "isNormalClose e =
     (case e of
        WsClose cd reason \<Rightarrow> cd = 1000 \<or> cd = 1001
      | WsCanceled \<Rightarrow> True
      | WsEOF \<Rightarrow> True
      | WsFault reason \<Rightarrow> False)"

fun tp_run :: "(nat \<Rightarrow> bool) \<Rightarrow> (time \<times> tp_event) list \<Rightarrow> bridge \<Rightarrow> bridge \<times> bytes list \<times> bytes list" where
  "tp_run zw [] br = (br, [], [])"
| "tp_run zw ((now, ev) # evs) br =
     (let (br, ms, out) = tp_step zw now ev br; (br, ms', out') = tp_run zw evs br
      in (br, ms @ ms', out @ out'))"

section \<open>The other end\<close>

datatype frame = Data bytes | Size int int | Ping

fun frame_bytes :: "frame \<Rightarrow> bytes" where
  "frame_bytes (Data p) = input_frame p"
| "frame_bytes (Size w h) = resize_frame w h"
| "frame_bytes Ping = keepalive_frame"

definition decode_number :: "bytes \<Rightarrow> (nat \<times> bytes) option" where
  "decode_number s =
     (let (ds, r, found) = go_cut CHR '':'' s
      in if found \<and> ds \<noteq> [] \<and> list_all is_digit ds then Some (digits_value ds, r) else None)"

lemma go_cut_shorter: "go_cut c s = (a, b, True) \<Longrightarrow> length b < length s"
  by (induction s arbitrary: a) (auto split: if_splits prod.splits)

lemma decode_number_shorter [simp, termination_simp]: "decode_number s = Some (n, r) \<Longrightarrow> length r < length s"
  by (auto simp: decode_number_def go_cut_shorter split: prod.splits if_splits)

function (sequential) decode_frames :: "bytes \<Rightarrow> frame list option" where
  "decode_frames [] = Some []"
| "decode_frames (c # s) =
     (if c = CHR ''2'' then map_option ((#) Ping) (decode_frames s)
      else if s = [] \<or> hd s \<noteq> CHR '':'' then None
      else case decode_number (tl s) of
        None \<Rightarrow> None
      | Some (n, r) \<Rightarrow>
          if c = CHR ''0'' then
            (if length r < n then None else map_option ((#) (Data (take n r))) (decode_frames (drop n r)))
          else if c = CHR ''1'' then
            (case decode_number r of
               None \<Rightarrow> None
             | Some (m, r') \<Rightarrow> map_option ((#) (Size (int n) (int m))) (decode_frames r'))
          else None)"
  by pat_completeness auto
termination
proof (relation "measure length")
  fix c :: char and s x n r
  assume s: "\<not> (s = [] \<or> hd s \<noteq> CHR '':'')" "decode_number (tl s) = Some x" "(n, r) = x"
  from s have r: "length r < length s" using decode_number_shorter [of "tl s" n r] by (cases s) auto
  then show "(drop n r, c # s) \<in> measure length" by simp
  fix x2 m r'
  assume "decode_number r = Some x2" "(m, r') = x2"
  then show "(r', c # s) \<in> measure length" using r decode_number_shorter [of r m r'] by simp
qed auto

declare decode_frames.simps(2) [simp del]

end
