(* ===== verification/SshConsole.thy ===== *)
theory SshConsole
  imports TermProxy
begin

text \<open>
  \<open>internal/console/ssh.go\<close>, \<open>guestexec.go\<close>, \<open>transfer.go\<close> and \<open>stream.go\<close>: consoles and
  commands over an SSH connection to a node. \<open>open_ssh\<close> is \<open>runSSHConsole\<close> up to the start of the
  remote end, \<open>ssh_step\<close> its loops and \<open>ssh_result\<close> its end. The SSH library is an argument: what
  each of its calls returns.
\<close>

section \<open>Connecting\<close>

text \<open>What is dialed: the address, the user, the key and what the host key is checked against.\<close>

record ssh_dial =
  dl_addr :: gostring
  dl_user :: gostring
  dl_key :: bytes
  dl_host :: gostring
  dl_fps :: "gostring list"
  dl_insecure :: bool
  dl_timeout :: time

definition sshDialTimeout :: time where "sshDialTimeout = 10 * 1000000000"

definition node_dial :: "instance_row \<Rightarrow> bytes \<Rightarrow> ssh_dial" where
  "node_dial inst key =
     \<lparr>dl_addr = join_host_port (in_ssh_host inst) (itoa (in_ssh_port inst)), dl_user = in_ssh_user inst, dl_key = key,
      dl_host = in_ssh_host inst, dl_fps = in_fps inst, dl_insecure = in_insecure_ssh inst, dl_timeout = sshDialTimeout\<rparr>"

definition loadInstanceKey :: "(gostring \<Rightarrow> gostring) \<Rightarrow> gostring \<Rightarrow> instance_row \<Rightarrow> gostring \<Rightarrow> gostring + bytes" where
  "loadInstanceKey quote keyPath inst sshKey =
     (if sshKey = ''''
      then Inl (''no ssh key for instance '' @ quote (in_name inst) @ '': proxpass generates one at '' @ keyPath @
                '' on startup, so either this deployment predates that or the file was removed'')
      else Inr sshKey)"

text \<open>What the calls on an open connection return.\<close>

record ssh_calls =
  sc_session :: "gostring option"
  sc_pty :: "gostring option"
  sc_stdin :: "gostring option"
  sc_stdout :: "gostring option"
  sc_stderr :: "gostring option"
  sc_start :: "gostring option"

record ssh_env =
  sv_fold :: "bytes \<Rightarrow> bytes"
  sv_quote :: "gostring \<Rightarrow> gostring"
  sv_key_path :: gostring
  sv_nobar :: gostring
  sv_parse_key :: "bytes \<Rightarrow> gostring option"
  sv_dial :: "ssh_dial \<Rightarrow> gostring + ssh_calls"

datatype ssh_request =
    ReqPty gostring int int
  | ReqShell
  | ReqExec gostring
  | ReqSubsystem gostring
  | WindowChange int int
  | Stdin bytes
  | StdinEOF
  | SigTerm
  | CloseChannel

definition startRemote :: "ssh_env \<Rightarrow> ssh_calls \<Rightarrow> gostring \<Rightarrow> gostring option \<times> ssh_request" where
  "startRemote env c cmd =
     (if cmd = ''''
      then (map_option (\<lambda>e. ''starting remote shell: '' @ e) (sc_start c), ReqShell)
      else (map_option (\<lambda>e. ''starting command '' @ sv_quote env cmd @ '': '' @ e) (sc_start c), ReqExec cmd))"

text \<open>The loops' state: the bar, the reader, and which loops still run.\<close>

record ssh_console =
  sk_bar :: "status_bar option"
  sk_reader :: escape_reader
  sk_resizes :: bool
  sk_input :: bool
  sk_output :: bool
  sk_escaped :: bool
  sk_running :: bool

definition start_console ::
  "ssh_env \<Rightarrow> session_term \<Rightarrow> gostring \<Rightarrow> gostring \<Rightarrow> ssh_calls \<Rightarrow>
   (gostring + ssh_console) \<times> ssh_request list \<times> bytes list" where
  "start_console env t label cmd c =
     (case sc_session c of
        Some e \<Rightarrow> (Inl (''opening remote session: '' @ e), [], [])
      | None \<Rightarrow>
          let (bar, out, rows) = startBar (sv_fold env) (sv_nobar env) (term_view.truncate t) label EscapeHint;
              out = (if bar \<noteq> None then out else clearScreenNoBar (term_view.truncate t));
              pty = ReqPty (st_term t) rows (tv_width t);
              fail = (\<lambda>e reqs. (Inl e, reqs, out @ snd (stop_bar bar)))
          in (case sc_pty c of
                Some e \<Rightarrow> fail (''requesting remote pty: '' @ e) [pty]
              | None \<Rightarrow>
             (case sc_stdin c of
                Some e \<Rightarrow> fail (''stdin pipe: '' @ e) [pty]
              | None \<Rightarrow>
             (case sc_stdout c of
                Some e \<Rightarrow> fail (''stdout pipe: '' @ e) [pty]
              | None \<Rightarrow>
             (case sc_stderr c of
                Some e \<Rightarrow> fail (''stderr pipe: '' @ e) [pty]
              | None \<Rightarrow>
             (case startRemote env c cmd of
                (Some e, req) \<Rightarrow> fail e [pty, req]
              | (None, req) \<Rightarrow>
                  (Inr \<lparr>sk_bar = bar, sk_reader = new_escape_reader, sk_resizes = True, sk_input = True, sk_output = True,
                        sk_escaped = False, sk_running = True\<rparr>, [pty, req], out)))))))"

definition open_ssh ::
  "ssh_env \<Rightarrow> session_term \<Rightarrow> instance_row \<Rightarrow> gostring \<Rightarrow> gostring \<Rightarrow> gostring \<Rightarrow>
   (gostring + ssh_console) \<times> ssh_request list \<times> bytes list" where
  "open_ssh env tm inst sshKey label cmd =
     (let t = normalize_term tm; refuse = (\<lambda>e. (Inl e, [], [])) in
      case loadInstanceKey (sv_quote env) (sv_key_path env) inst sshKey of
        Inl e \<Rightarrow> refuse e
      | Inr key \<Rightarrow>
     (case sv_parse_key env key of
        Some e \<Rightarrow> refuse (''parsing proxmox key: '' @ e)
      | None \<Rightarrow>
          let d = node_dial inst key in
          (case sv_dial env d of
             Inl e \<Rightarrow> refuse (''dialing proxmox '' @ dl_addr d @ '': '' @ e)
           | Inr c \<Rightarrow> start_console env t label cmd c)))"

definition connectSSH ::
  "ssh_env \<Rightarrow> session_term \<Rightarrow> guest_row \<Rightarrow> instance_row \<Rightarrow> gostring \<Rightarrow> gostring \<Rightarrow>
   (gostring + ssh_console) \<times> ssh_request list \<times> bytes list" where
  "connectSSH env tm g inst sshKey label =
     (case guestConsoleCmd (sv_quote env) g of
        Inl e \<Rightarrow> (Inl e, [], [])
      | Inr cmd \<Rightarrow> open_ssh env tm inst sshKey label cmd)"

definition connectNodeSSH ::
  "ssh_env \<Rightarrow> session_term \<Rightarrow> instance_row \<Rightarrow> gostring \<Rightarrow> gostring \<Rightarrow>
   (gostring + ssh_console) \<times> ssh_request list \<times> bytes list" where
  "connectNodeSSH env tm inst sshKey label = open_ssh env tm inst sshKey label ''''"

section \<open>The session\<close>

text \<open>
  A resize, the end of the resizes, a read of the terminal (with whether the remote took it), a
  piece of the remote's output (with how much of it the terminal took) or of its errors, and the
  end: what waiting for the remote returned, once its output has been copied.
\<close>

datatype wait_error = WaitExit int | WaitNoStatus | WaitFault gostring

datatype ssh_event =
    SResized int int
  | SResizesClosed
  | STyped bytes "read_error option" bool
  | SOut bytes nat
  | SErr bytes
  | SDone "wait_error option"

definition ssh_typed :: "ssh_console \<Rightarrow> bytes \<Rightarrow> read_error option \<Rightarrow> bool \<Rightarrow> ssh_console \<times> ssh_request list" where
  "ssh_typed s p err sent =
     (let (e, q, err', fired) = escape_read (sk_reader s) (p, err);
          s = s\<lparr>sk_reader := e\<rparr>;
          msg = (if q \<noteq> [] then [Stdin q] else [])
      in if q \<noteq> [] \<and> \<not> sent then (s\<lparr>sk_input := False\<rparr>, [StdinEOF])
         else if err' \<noteq> None
         then (s\<lparr>sk_input := False, sk_escaped := sk_escaped s \<or> fired\<rparr>,
               msg @ [StdinEOF] @ (if fired then [SigTerm, CloseChannel] else []))
         else (s, msg))"

definition ssh_step ::
  "(nat \<Rightarrow> bool) \<Rightarrow> time \<Rightarrow> ssh_event \<Rightarrow> ssh_console \<Rightarrow> ssh_console \<times> ssh_request list \<times> bytes list" where
  "ssh_step zw now ev s =
     (if \<not> sk_running s then (s, [], [])
      else case ev of
        SResized w h \<Rightarrow>
          if \<not> sk_resizes s then (s, [], [])
          else (case sk_bar s of
                  None \<Rightarrow> (s, [WindowChange h w], [])
                | Some b \<Rightarrow>
                    (let (b, out, rows) = bar_Resize now b w h in (s\<lparr>sk_bar := Some b\<rparr>, [WindowChange rows w], out)))
      | SResizesClosed \<Rightarrow> (s\<lparr>sk_resizes := False\<rparr>, [], [])
      | STyped p err sent \<Rightarrow>
          if \<not> sk_input s then (s, [], [])
          else (let (s, reqs) = ssh_typed s p err sent in (s, reqs, []))
      | SOut p n \<Rightarrow>
          if \<not> sk_output s then (s, [], [])
          else
            (let s = s\<lparr>sk_output := n = length p\<rparr> in
             case sk_bar s of
               None \<Rightarrow> (s, [], if n > 0 then [take n p] else [])
             | Some b \<Rightarrow> (let (b, out) = barWriter_Write zw now b p n in (s\<lparr>sk_bar := Some b\<rparr>, [], out)))
      | SErr p \<Rightarrow> (s, [], [p])
      | SDone e \<Rightarrow> (let (bar, out) = stop_bar (sk_bar s) in 
          (s\<lparr>sk_bar := bar, sk_running := False\<rparr>, if sk_input s then [StdinEOF] else [], out)))"

fun ssh_run :: "(nat \<Rightarrow> bool) \<Rightarrow> (time \<times> ssh_event) list \<Rightarrow> ssh_console \<Rightarrow> ssh_console \<times> ssh_request list \<times> bytes list" where
  "ssh_run zw [] s = (s, [], [])"
| "ssh_run zw ((now, ev) # evs) s =
     (let (s, rs, out) = ssh_step zw now ev s; (s, rs', out') = ssh_run zw evs s
      in (s, rs @ rs', out @ out'))"

text \<open>The error returned, if any.\<close>

definition ssh_result :: "ssh_console \<Rightarrow> wait_error option \<Rightarrow> wait_error option" where
  "ssh_result s e =
     (if sk_escaped s then None
      else case e of
        None \<Rightarrow> None
      | Some (WaitExit st) \<Rightarrow> None
      | Some WaitNoStatus \<Rightarrow> None
      | Some (WaitFault w) \<Rightarrow> Some (WaitFault w))"

text \<open>\<open>DefaultProxier.Connect\<close> and \<open>ConnectNode\<close>: the transport of a guest, never of a node.\<close>

definition ConsoleTransportTermProxy :: gostring where "ConsoleTransportTermProxy = ''termproxy''"

definition proxier_label :: "gostring \<Rightarrow> guest_row \<Rightarrow> instance_row \<Rightarrow> gostring" where
  "proxier_label publicEndpoint g inst = barLabel (g_name g) (g_type g) (g_vmid g) (in_name inst) publicEndpoint"

datatype console = OverWebsocket bridge | OverSSH ssh_console

definition Connect ::
  "ssh_env \<Rightarrow> console_env \<Rightarrow> gostring \<Rightarrow> session_term \<Rightarrow> guest_row \<Rightarrow> instance_row \<Rightarrow> gostring \<Rightarrow> gostring + console" where
  "Connect sv ce publicEndpoint tm g inst sshKey =
     (let label = proxier_label publicEndpoint g inst in
      if in_transport inst = ConsoleTransportTermProxy
      then map_sum id OverWebsocket (fst (open_termproxy ce tm g inst label))
      else map_sum id OverSSH (fst (connectSSH sv tm g inst sshKey label)))"

definition ConnectNode ::
  "ssh_env \<Rightarrow> gostring \<Rightarrow> session_term \<Rightarrow> instance_row \<Rightarrow> gostring \<Rightarrow> gostring + console" where
  "ConnectNode sv publicEndpoint tm inst sshKey =
     map_sum id OverSSH (fst (connectNodeSSH sv tm inst sshKey (nodeBarLabel (in_name inst) publicEndpoint)))"

section \<open>Commands on a node\<close>

text \<open>\<open>NodeRunner\<close> of \<open>transfer.go\<close>: a connection, until it is closed.\<close>

record node_runner =
  nr_open :: bool

definition closed_text :: gostring where
  "closed_text = ''connection to the proxmox host is closed''"

definition DialNode :: "ssh_env \<Rightarrow> instance_row \<Rightarrow> bytes \<Rightarrow> gostring + node_runner" where
  "DialNode env inst sshKey =
     (case sv_parse_key env sshKey of
        Some e \<Rightarrow> Inl (''parsing proxmox key: '' @ e)
      | None \<Rightarrow>
          let d = node_dial inst sshKey in
          (case sv_dial env d of
             Inl e \<Rightarrow> Inl (''dialing proxmox '' @ dl_addr d @ '': '' @ e)
           | Inr c \<Rightarrow> Inr \<lparr>nr_open = True\<rparr>))"

definition runner_Close :: "node_runner \<Rightarrow> gostring option \<Rightarrow> node_runner \<times> gostring option" where
  "runner_Close r e = (if \<not> nr_open r then (r, None) else (r\<lparr>nr_open := False\<rparr>, e))"

text \<open>
  \<open>Run\<close> and \<open>Exec\<close>: the exit status, or why there is none. \<open>Run\<close> also returns what the command
  wrote to its errors. A command that dies without a status is an error of the first and 128 for
  the second.
\<close>

definition run_status :: "gostring \<Rightarrow> wait_error option \<Rightarrow> gostring + int" where
  "run_status missing ended =
     (case ended of
        None \<Rightarrow> Inr 0
      | Some (WaitExit st) \<Rightarrow> Inr st
      | Some WaitNoStatus \<Rightarrow> Inl (''running remote command: '' @ missing)
      | Some (WaitFault e) \<Rightarrow> Inl (''running remote command: '' @ e))"

definition runner_Run ::
  "node_runner \<Rightarrow> gostring \<Rightarrow> gostring \<Rightarrow> gostring option \<Rightarrow> wait_error option \<times> gostring \<Rightarrow>
   (gostring + int) \<times> gostring \<times> ssh_request list" where
  "runner_Run r missing cmd session ended =
     (if \<not> nr_open r then (Inl closed_text, [], [])
      else case session of
        Some e \<Rightarrow> (Inl (''opening remote session: '' @ e), [], [])
      | None \<Rightarrow> (run_status missing (fst ended), snd ended, [ReqExec cmd]))"

record exec_options =
  eo_command :: gostring
  eo_pty :: bool
  eo_term :: gostring
  eo_width :: int
  eo_height :: int

definition exec_pty :: "exec_options \<Rightarrow> ssh_request" where
  "exec_pty x =
     ReqPty (if eo_term x = '''' then ''xterm'' else eo_term x)
       (if eo_height x \<le> 0 then defaultHeight else eo_height x)
       (if eo_width x \<le> 0 then defaultWidth else eo_width x)"

definition exec_status :: "wait_error option \<Rightarrow> gostring + int" where
  "exec_status ended =
     (case ended of
        None \<Rightarrow> Inr 0
      | Some (WaitExit st) \<Rightarrow> Inr st
      | Some WaitNoStatus \<Rightarrow> Inr 128
      | Some (WaitFault e) \<Rightarrow> Inl (''running remote command: '' @ e))"

definition runner_Exec ::
  "node_runner \<Rightarrow> exec_options \<Rightarrow> gostring option \<Rightarrow> gostring option \<Rightarrow> wait_error option \<Rightarrow>
   (gostring + int) \<times> ssh_request list" where
  "runner_Exec r x session pty ended =
     (if \<not> nr_open r then (Inl closed_text, [])
      else case session of
        Some e \<Rightarrow> (Inl (''opening remote session: '' @ e), [])
      | None \<Rightarrow>
          if eo_pty x \<and> pty \<noteq> None then (Inl (''requesting remote pty: '' @ the pty), [exec_pty x])
          else (exec_status ended, (if eo_pty x then [exec_pty x] else []) @ [ReqExec (eo_command x)]))"

text \<open>The sizes a guest command is told, until the channel of sizes closes (\<open>None\<close>). There is no bar to
  leave a row to.\<close>

fun forwardResizes :: "(int \<times> int) option list \<Rightarrow> ssh_request list" where
  "forwardResizes [] = []"
| "forwardResizes (None # later) = []"
| "forwardResizes (Some (w, h) # later) = WindowChange h w # forwardResizes later"

text \<open>\<open>Stream\<close> and \<open>Subsystem\<close>: a session left running, or closed again when it did not start.\<close>

datatype stream_start = StreamCommand gostring | StreamSubsystem gostring

definition start_failure :: "(gostring \<Rightarrow> gostring) \<Rightarrow> stream_start \<Rightarrow> gostring \<Rightarrow> gostring" where
  "start_failure quote how e =
     (case how of
        StreamCommand cmd \<Rightarrow> ''starting remote command: '' @ e
      | StreamSubsystem name \<Rightarrow> ''requesting the '' @ quote name @ '' subsystem: '' @ e)"

definition start_request :: "stream_start \<Rightarrow> ssh_request" where
  "start_request how = (case how of StreamCommand cmd \<Rightarrow> ReqExec cmd | StreamSubsystem name \<Rightarrow> ReqSubsystem name)"

definition runner_stream ::
  "(gostring \<Rightarrow> gostring) \<Rightarrow> node_runner \<Rightarrow> stream_start \<Rightarrow> ssh_calls \<Rightarrow> gostring option \<times> ssh_request list" where
  "runner_stream quote r how c =
     (if \<not> nr_open r then (Some closed_text, [])
      else case sc_session c of
        Some e \<Rightarrow> (Some (''opening remote session: '' @ e), [])
      | None \<Rightarrow>
     (case sc_stdin c of
        Some e \<Rightarrow> (Some (''stdin pipe: '' @ e), [CloseChannel])
      | None \<Rightarrow>
     (case sc_stdout c of
        Some e \<Rightarrow> (Some (''stdout pipe: '' @ e), [CloseChannel])
      | None \<Rightarrow>
     (case sc_start c of
        Some e \<Rightarrow> (Some (start_failure quote how e), [start_request how, CloseChannel])
      | None \<Rightarrow> (None, [start_request how])))))"

definition stream_Close :: "read_error option \<Rightarrow> read_error option \<times> ssh_request list" where
  "stream_Close e = (if e \<noteq> None \<and> e \<noteq> Some EOF then e else None, [StdinEOF, CloseChannel])"

end
