(* ===== verification/ConsoleBridge.thy ===== *)
theory ConsoleBridge
  imports TermProxy
begin

text \<open>
  What the other end of a websocket console reads: every message is a frame, the stream of them
  decodes back, the data in it is what the user typed up to the escape key, and every size is one
  that leaves the bar its row.
\<close>

section \<open>Frames decode\<close>

lemma digits_no_colon: "CHR '':'' \<notin> set (nat_digits n)"
  using nat_digits_all_digits [of n] by (auto simp: list_all_iff is_digit_def)

lemma decode_number_itoa: "0 \<le> i \<Longrightarrow> decode_number (itoa i @ CHR '':'' # r) = Some (nat i, r)"
  by (simp add: decode_number_def itoa_def go_cut_append digits_no_colon nat_digits_all_digits)

fun frame_ok :: "frame \<Rightarrow> bool" where
  "frame_ok (Data p) \<longleftrightarrow> True"
| "frame_ok (Size w h) \<longleftrightarrow> 0 \<le> w \<and> 0 \<le> h"
| "frame_ok Ping \<longleftrightarrow> True"

lemma decode_frame: "frame_ok f \<Longrightarrow> decode_frames (frame_bytes f @ s) = map_option ((#) f) (decode_frames s)"
  by (cases f)
     (simp_all add: input_frame_def resize_frame_def keepalive_frame_def decode_frames.simps(2) decode_number_itoa)

lemma decode_stream: "list_all frame_ok fs \<Longrightarrow> decode_frames (concat (map frame_bytes fs)) = Some fs"
  by (induction fs) (simp_all add: decode_frame)

section \<open>A bridge that is not interrupted\<close>

fun live_event :: "tp_event \<Rightarrow> bool" where
  "live_event Tick \<longleftrightarrow> True"
| "live_event (Resized w h) \<longleftrightarrow> 0 \<le> w \<and> 0 \<le> h"
| "live_event ResizesClosed \<longleftrightarrow> True"
| "live_event (Typed p err sent) \<longleftrightarrow> sent \<and> length p \<le> 4096"
| "live_event (Shown p n) \<longleftrightarrow> n = length p"
| "live_event (Ended e) \<longleftrightarrow> False"

text \<open>What the terminal was read, up to its first error.\<close>

fun typed_reads :: "(time \<times> tp_event) list \<Rightarrow> (bytes \<times> read_error option) list" where
  "typed_reads [] = []"
| "typed_reads ((now, Typed p err sent) # evs) = (p, err) # (if err = None then typed_reads evs else [])"
| "typed_reads ((now, ev) # evs) = typed_reads evs"

definition payload :: "frame list \<Rightarrow> bytes" where
  "payload fs = concat (map (\<lambda>f. case f of Data p \<Rightarrow> p | _ \<Rightarrow> []) fs)"

lemma payload_simps [simp]:
  "payload [] = []" "payload (Data p # fs) = p @ payload fs" "payload (Size w h # fs) = payload fs"
  "payload (Ping # fs) = payload fs" "payload (fs @ gs) = payload fs @ payload gs"
  by (simp_all add: payload_def)

definition rows_left :: "bool \<Rightarrow> int \<Rightarrow> int" where
  "rows_left bar h = (if bar \<and> minBarRows \<le> h then h - 1 else h)"

lemma bar_Resize_rows: "snd (snd (bar_Resize now b w h)) = rows_left True h"
  by (simp add: bar_Resize_def rows_left_def guestRows_def Let_def case_prod_beta)

definition frames_of :: "bool \<Rightarrow> (time \<times> tp_event) list \<Rightarrow> frame list \<Rightarrow> bool" where
  "frames_of bar evs fs \<longleftrightarrow> list_all frame_ok fs \<and>
     (\<forall>p. Data p \<in> set fs \<longrightarrow> p \<noteq> [] \<and> length p \<le> 4096) \<and>
     (\<forall>w r. Size w r \<in> set fs \<longrightarrow> (\<exists>h. Resized w h \<in> snd ` set evs \<and> r = rows_left bar h))"

lemma frames_of_Nil [simp]: "frames_of bar evs []"
  by (simp add: frames_of_def)

lemma frames_of_mono: "frames_of bar evs fs \<Longrightarrow> set evs \<subseteq> set evs' \<Longrightarrow> frames_of bar evs' fs"
  unfolding frames_of_def by (meson image_mono subsetD)

lemma frames_of_append: "frames_of bar evs fs \<Longrightarrow> frames_of bar evs gs \<Longrightarrow> frames_of bar evs (fs @ gs)"
  by (auto simp: frames_of_def)

lemma escape_reads_one:
  "fst (snd (escape_reads e (r # rs))) = fst (snd (escape_read e r)) @ fst (snd (escape_reads (fst (escape_read e r)) rs))"
  by (simp add: case_prod_beta Let_def)

lemma escape_read_length: "length (fst (snd (escape_read e r))) \<le> length (fst r)"
  by (simp add: escape_read_def split: option.splits)

lemma escape_read_end:
  assumes "fst (snd (snd (escape_read e (p, err)))) = None"
  shows "err = None"
  using assms by (simp add: escape_read_def split: if_splits option.splits)

lemma escape_read_err_rest:
  assumes "fst (snd (snd (escape_read e (p, None)))) \<noteq> None"
  shows "er_done (fst (escape_read e (p, None)))"
  using assms by (simp add: escape_read_def split: if_splits option.splits)

definition bridge_ok :: "bridge \<Rightarrow> bool" where
  "bridge_ok br \<longleftrightarrow> br_running br \<and> br_open br = br_input br"

text \<open>What one event sends, as frames.\<close>

lemma typed_step:
  assumes "br_open br" "br_input br" "length p \<le> 4096"
  obtains fs br' where
    "br_typed br p err True = (br', map frame_bytes fs)" "frames_of (br_bar br \<noteq> None) [] fs"
    "payload fs = fst (snd (escape_read (br_reader br) (p, err)))"
    "br_running br' = br_running br" "br_bar br' = br_bar br" "br_open br' = br_input br'" "br_resizes br' = br_resizes br"
    "br_reader br' = fst (escape_read (br_reader br) (p, err))"
    "br_input br' \<longleftrightarrow> fst (snd (snd (escape_read (br_reader br) (p, err)))) = None"
proof -
  obtain e q err' fired where r: "escape_read (br_reader br) (p, err) = (e, q, err', fired)"
    by (cases "escape_read (br_reader br) (p, err)") auto
  have "length q \<le> 4096" using escape_read_length [of "br_reader br" "(p, err)"] assms(3) r by simp
  then show thesis
    by (intro that [of "if err' = None then br\<lparr>br_reader := e\<rparr> else br\<lparr>br_reader := e, br_input := False, br_open := False\<rparr>"
             "if q \<noteq> [] then [Data q] else []"])
       (use assms r in \<open>auto simp: br_typed_def br_send_def frames_of_def\<close>)
qed

text \<open>Every event of a bridge that is not interrupted.\<close>

lemma live_step:
  assumes "bridge_ok br" "live_event ev"
  obtains fs br' out where
    "tp_step zw now ev br = (br', map frame_bytes fs, out)" "bridge_ok br'"
    "frames_of (br_bar br \<noteq> None) [(now, ev)] fs" "(br_bar br' \<noteq> None) = (br_bar br \<noteq> None)"
    "br_input br' \<Longrightarrow> br_input br"
    "(\<And>p err sent. ev \<noteq> Typed p err sent) \<Longrightarrow>
       payload fs = [] \<and> br_reader br' = br_reader br \<and> br_input br' = br_input br"
    "\<And>p err sent. ev = Typed p err sent \<Longrightarrow> br_input br \<Longrightarrow>
       payload fs = fst (snd (escape_read (br_reader br) (p, err))) \<and>
       br_reader br' = fst (escape_read (br_reader br) (p, err)) \<and>
       (br_input br' \<longleftrightarrow> fst (snd (snd (escape_read (br_reader br) (p, err)))) = None)"
    "\<not> br_input br \<Longrightarrow> payload fs = []"
proof (cases ev)
  case (Typed p err sent)
  show thesis
  proof (cases "br_input br")
    case True
    have o1: "br_open br" "br_running br" "sent" "length p \<le> 4096" using assms Typed True by (auto simp: bridge_ok_def)
    obtain fs br' where t: "br_typed br p err True = (br', map frame_bytes fs)" "frames_of (br_bar br \<noteq> None) [] fs"
      "payload fs = fst (snd (escape_read (br_reader br) (p, err)))"
      "br_running br' = br_running br" "br_bar br' = br_bar br" "br_open br' = br_input br'" "br_resizes br' = br_resizes br"
      "br_reader br' = fst (escape_read (br_reader br) (p, err))"
      "br_input br' \<longleftrightarrow> fst (snd (snd (escape_read (br_reader br) (p, err)))) = None"
      by (rule typed_step [OF o1(1) True o1(4)])
    show thesis
      by (intro that [of br' fs "[]"])
         (use t o1 Typed True frames_of_mono [OF t(2), of "[(now, ev)]"] in \<open>auto simp: tp_step_def bridge_ok_def\<close>)
  qed (use assms Typed in \<open>intro that [of br "[]" "[]"]; auto simp: tp_step_def bridge_ok_def\<close>)
next
  case Tick
  then show thesis
    by (intro that [of br "if br_open br then [Ping] else []" "[]"])
       (use assms in \<open>auto simp: tp_step_def bridge_ok_def br_send_def frames_of_def\<close>)
next
  case ResizesClosed
  then show thesis
    by (intro that [of "br\<lparr>br_resizes := False\<rparr>" "[]" "[]"]) (use assms in \<open>auto simp: tp_step_def bridge_ok_def\<close>)
next
  case (Shown p n)
  then show thesis
    using assms
    by (intro that [of "fst (tp_step zw now ev br)" "[]" "snd (snd (tp_step zw now ev br))"])
       (auto simp: tp_step_def bridge_ok_def split: option.splits prod.splits)
next
  case (Ended e)
  then show thesis using assms by simp
next
  case (Resized w h)
  define rows where "rows = rows_left (br_bar br \<noteq> None) h"
  define fs where "fs = (if br_resizes br \<and> br_open br then [Size w rows] else [])"
  have "0 \<le> rows" using Resized assms by (simp add: rows_def rows_left_def minBarRows_def)
  then have "frames_of (br_bar br \<noteq> None) [(now, ev)] fs"
    using Resized assms by (auto simp: frames_of_def fs_def rows_def)
  moreover have "fst (snd (tp_step zw now ev br)) = map frame_bytes fs"
    using bar_Resize_rows [of now _ w h] Resized assms
    by (auto simp: tp_step_def bridge_ok_def br_send_def fs_def rows_def rows_left_def
          split: option.splits prod.splits) (metis snd_conv)+
  ultimately show thesis
    using Resized assms
    by (intro that [of "fst (tp_step zw now ev br)" fs "snd (snd (tp_step zw now ev br))"])
       (auto simp: tp_step_def bridge_ok_def fs_def split: option.splits prod.splits if_split_asm)
qed

text \<open>Runs: what is sent, and whether the connection is still open.\<close>

theorem live_run:
  assumes "bridge_ok br" "list_all live_event (map snd evs)"
  shows "\<exists>fs. fst (snd (tp_run zw evs br)) = map frame_bytes fs \<and> frames_of (br_bar br \<noteq> None) evs fs \<and>
    payload fs = (if br_input br then fst (snd (escape_reads (br_reader br) (typed_reads evs))) else [])"
  using assms
proof (induction evs arbitrary: br)
  case (Cons e evs)
  obtain now ev where e: "e = (now, ev)" by (cases e)
  from Cons.prems have l: "live_event ev" "list_all live_event (map snd evs)" by (simp_all add: e)
  obtain fs br' out where st:
    "tp_step zw now ev br = (br', map frame_bytes fs, out)" "bridge_ok br'"
    "frames_of (br_bar br \<noteq> None) [(now, ev)] fs" "(br_bar br' \<noteq> None) = (br_bar br \<noteq> None)"
    "br_input br' \<Longrightarrow> br_input br"
    "(\<And>p err sent. ev \<noteq> Typed p err sent) \<Longrightarrow>
       payload fs = [] \<and> br_reader br' = br_reader br \<and> br_input br' = br_input br"
    "\<And>p err sent. ev = Typed p err sent \<Longrightarrow> br_input br \<Longrightarrow>
       payload fs = fst (snd (escape_read (br_reader br) (p, err))) \<and>
       br_reader br' = fst (escape_read (br_reader br) (p, err)) \<and>
       (br_input br' \<longleftrightarrow> fst (snd (snd (escape_read (br_reader br) (p, err)))) = None)"
    "\<not> br_input br \<Longrightarrow> payload fs = []"
    by (rule live_step [OF Cons.prems(1) l(1), where now = now and zw = zw]) blast
  obtain gs where gs: "fst (snd (tp_run zw evs br')) = map frame_bytes gs" "frames_of (br_bar br' \<noteq> None) evs gs"
    "payload gs = (if br_input br' then fst (snd (escape_reads (br_reader br') (typed_reads evs))) else [])"
    using Cons.IH [OF st(2) l(2)] by blast
  have "fst (snd (tp_run zw (e # evs) br)) = map frame_bytes (fs @ gs)"
    using st(1) gs(1) by (simp add: e case_prod_beta)
  moreover have "frames_of (br_bar br \<noteq> None) (e # evs) (fs @ gs)"
    using frames_of_mono [OF st(3), of "e # evs"] frames_of_mono [OF gs(2), of "e # evs"] st(4)
    by (intro frames_of_append) (auto simp: e)
  moreover have "payload (fs @ gs) =
    (if br_input br then fst (snd (escape_reads (br_reader br) (typed_reads (e # evs)))) else [])"
  proof (cases "\<exists>p err sent. ev = Typed p err sent")
    case True
    then obtain p err sent where ev: "ev = Typed p err sent" by blast
    show ?thesis
    proof (cases "br_input br")
      case in1: True
      note t = st(7) [OF ev in1]
      show ?thesis
        using t gs(3) in1 escape_reads_one [of "br_reader br" "(p, err)"] escape_read_end [of "br_reader br" p err]
          escape_read_err_rest [of "br_reader br" p] escape_reads_done
        by (auto simp: e ev)
    qed (use st(5,8) gs(3) in auto)
  next
    case False
    then have "typed_reads (e # evs) = typed_reads evs" by (cases ev) (auto simp: e)
    then show ?thesis using False st(6) gs(3) by auto
  qed
  ultimately show ?case by blast
qed simp

text \<open>The connection stays open until a read of the terminal fails or the escape key is typed.\<close>

lemma live_end:
  assumes "bridge_ok br" "list_all live_event (map snd evs)" "br_input br \<Longrightarrow> \<not> er_done (br_reader br)"
  shows "bridge_ok (fst (tp_run zw evs br)) \<and>
    (br_input (fst (tp_run zw evs br)) \<longleftrightarrow>
       br_input br \<and> (\<forall>r\<in>set (typed_reads evs). snd r = None) \<and>
       escape_scan (er_pending (br_reader br)) (concat (map fst (typed_reads evs))) \<noteq> None)"
  using assms
proof (induction evs arbitrary: br)
  case (Cons e evs)
  obtain now ev where e: "e = (now, ev)" by (cases e)
  from Cons.prems have l: "live_event ev" "list_all live_event (map snd evs)" by (simp_all add: e)
  obtain fs br' out where st:
    "tp_step zw now ev br = (br', map frame_bytes fs, out)" "bridge_ok br'" "br_input br' \<Longrightarrow> br_input br"
    "(\<And>p err sent. ev \<noteq> Typed p err sent) \<Longrightarrow>
       payload fs = [] \<and> br_reader br' = br_reader br \<and> br_input br' = br_input br"
    "\<And>p err sent. ev = Typed p err sent \<Longrightarrow> br_input br \<Longrightarrow>
       payload fs = fst (snd (escape_read (br_reader br) (p, err))) \<and>
       br_reader br' = fst (escape_read (br_reader br) (p, err)) \<and>
       (br_input br' \<longleftrightarrow> fst (snd (snd (escape_read (br_reader br) (p, err)))) = None)"
    by (rule live_step [OF Cons.prems(1) l(1), where now = now and zw = zw]) blast
  have run: "fst (tp_run zw (e # evs) br) = fst (tp_run zw evs br')"
    using st(1) by (simp add: e case_prod_beta)
  show ?case
  proof (cases "\<exists>p err sent. ev = Typed p err sent")
    case True
    then obtain p err sent where ev: "ev = Typed p err sent" by blast
    show ?thesis
    proof (cases "br_input br")
      case in1: True
      note t = st(5) [OF ev in1]
      have nd: "\<not> er_done (br_reader br)" using Cons.prems(3) in1 by blast
      then have nd': "\<not> er_done (br_reader br')" if "br_input br'"
        using that t by (auto simp: escape_read_def split: option.splits)
      show ?thesis
        using t in1 nd Cons.IH [OF st(2) l(2) nd'] run
        by (auto simp: e ev escape_read_def escape_scan_append split: option.splits)
    next
      case False
      then show ?thesis using Cons.IH [OF st(2) l(2)] st(3) run by auto
    qed
  next
    case False
    then have "typed_reads (e # evs) = typed_reads evs" by (cases ev) (auto simp: e)
    moreover have "br_reader br' = br_reader br \<and> br_input br' = br_input br" using False st(4) by blast
    ultimately show ?thesis using Cons.IH [OF st(2) l(2)] Cons.prems(3) run by auto
  qed
qed simp

section \<open>From the ticket on\<close>

lemma startBar_rows: "snd (snd (startBar U nobar tv label hint)) =
    rows_left (fst (startBar U nobar tv label hint) \<noteq> None) (tv_height tv)"
  by (simp add: startBar_def rows_left_def bar_Start_def guestRows_def SetText_def NewStatusBar_def bar_request_def
      Let_def case_prod_beta)

lemma opened:
  assumes "open_termproxy env tm g inst label = (Inr br, sent, shown)"
  obtains tk where "sent = [in_token_id inst @ '':'' @ tk @ [CHR 0x0A],
      frame_bytes (Size (tv_width (normalize_term tm)) (rows_left (br_bar br \<noteq> None) (tv_height (normalize_term tm))))]"
    "bridge_ok br" "br_input br" "br_reader br = new_escape_reader"
proof -
  obtain tk conn where "start_bridge env (normalize_term tm) inst tk label conn = (Inr br, sent, shown)"
    using assms by (auto simp: open_termproxy_def Let_def split: sum.splits)
  then show thesis
    using startBar_rows [of "pe_fold env" "ce_nobar env" "term_view.truncate (normalize_term tm)" label EscapeHint]
    by (intro that [of "pt_ticket tk"])
       (auto simp: start_bridge_def Let_def bridge_ok_def term_view.defs split: option.splits sum.splits ws_error.splits if_splits prod.splits)
qed

lemma normalize_positive: "0 < tv_width (normalize_term tm)" "0 < tv_height (normalize_term tm)"
  by (simp_all add: normalize_term_def defaultWidth_def defaultHeight_def)

section \<open>Properties\<close>


definition demo_ticket :: jval where
  "demo_ticket = VObj [(''data'', VObj [(''ticket'', VStr ''T''), (''port'', VStr ''5900''), (''user'', VStr ''u'')])]"

definition demo_console :: console_env where
  "demo_console =
     \<lparr>pe_fold = id, pe_quote = id, pe_parse_url = (\<lambda>u. Inr (''https'', ''pve:8006'')), pe_json_error = id,
      pe_atoi_error = id, pe_net = (\<lambda>rq. Undelivered []), ce_post = (\<lambda>rq. Response 200 (json_marshal demo_ticket)),
      ce_dial = (\<lambda>r. Inr \<lparr>wc_auth = None, wc_first = Inr ''OK'', wc_early = None, wc_size = None\<rparr>),
      ce_ws_error = (\<lambda>e. []), ce_nobar = []\<rparr>"

definition demo_console_guest :: guest_row where
  "demo_console_guest = \<lparr>g_id = 1, g_type = GuestTypeCT, g_name = ''web'', g_status = StatusRunning, g_vmid = 100, g_instance = 1\<rparr>"

definition demo_pve_node :: instance_row where
  "demo_pve_node = \<lparr>in_id = 1, in_name = ''rome'', in_api_url = ''https://pve:8006'', in_token_id = ''t'', in_token_secret = ''s'',
     in_transport = ''termproxy'', in_node = ''n1'', in_insecure_tls = False, in_insecure_ssh = False, in_ssh_host = [],
     in_ssh_port = 0, in_ssh_user = [], in_fps = []\<rparr>"

definition demo_term :: session_term where
  "demo_term = \<lparr>tv_raw = True, tv_has_out = True, tv_width = 80, tv_height = 24, st_term = []\<rparr>"

lemma demo_opens: "\<exists>br sent shown. open_termproxy demo_console demo_term demo_console_guest demo_pve_node ''web'' = (Inr br, sent, shown)"
proof -
  have "parse_json (json_marshal demo_ticket) = Some (json_clean demo_ticket)"
    by (rule parse_json_marshal) (simp add: demo_ticket_def)
  moreover have "json_clean demo_ticket = demo_ticket" by code_simp
  ultimately have "decode_ticket (json_marshal demo_ticket) = Some \<lparr>td_ticket = ''T'', td_port = ''5900'', td_user = ''u''\<rparr>"
    by (simp add: decode_ticket_def demo_ticket_def) code_simp
  moreover have "atoi ''5900'' = Some 5900" by code_simp
  moreover have "trim_right_slash ''https://pve:8006'' = ''https://pve:8006''" by code_simp
  ultimately show ?thesis
    by (simp add: open_termproxy_def start_bridge_def NewAPIClient_def CreateTermProxyTicket_def doPost_def Let_def
        parseTermProxyTicket_def demo_console_def demo_console_guest_def demo_pve_node_def console_kind_def pve_env.defs
        handshake_ok_def case_prod_beta)
qed


end
