(* ===== verification/SshBridge.thy ===== *)
theory SshBridge
  imports SshConsole ConsoleBridge
begin

text \<open>
  What an SSH console asks of the node: the terminal it requests leaves the bar its row, what is
  typed reaches the remote command byte for byte, and the escape key ends it without an error.
\<close>

section \<open>Runs\<close>

fun ssh_live :: "ssh_event \<Rightarrow> bool" where
  "ssh_live (STyped p err sent) \<longleftrightarrow> sent"
| "ssh_live (SDone e) \<longleftrightarrow> False"
| "ssh_live _ \<longleftrightarrow> True"

fun ssh_reads :: "(time \<times> ssh_event) list \<Rightarrow> (bytes \<times> read_error option) list" where
  "ssh_reads [] = []"
| "ssh_reads ((now, STyped p err sent) # evs) = (p, err) # (if err = None then ssh_reads evs else [])"
| "ssh_reads ((now, ev) # evs) = ssh_reads evs"

fun stdin_of :: "ssh_request \<Rightarrow> bytes" where
  "stdin_of (Stdin p) = p"
| "stdin_of _ = []"

definition typed_part :: "ssh_request list \<Rightarrow> bytes" where
  "typed_part rs = concat (map stdin_of rs)"

lemma typed_part_simps [simp]:
  "typed_part [] = []" "typed_part (r # rs) = stdin_of r @ typed_part rs" "typed_part (rs @ rs') = typed_part rs @ typed_part rs'"
  by (simp_all add: typed_part_def)

definition sizes_ok :: "bool \<Rightarrow> (time \<times> ssh_event) list \<Rightarrow> ssh_request list \<Rightarrow> bool" where
  "sizes_ok bar evs rs \<longleftrightarrow>
     (\<forall>r w. WindowChange r w \<in> set rs \<longrightarrow> (\<exists>h. SResized w h \<in> snd ` set evs \<and> r = rows_left bar h))"

lemma sizes_ok_mono: "sizes_ok bar evs rs \<Longrightarrow> set evs \<subseteq> set evs' \<Longrightarrow> sizes_ok bar evs' rs"
  unfolding sizes_ok_def by (meson image_mono subsetD)

lemma sizes_ok_append: "sizes_ok bar evs rs \<Longrightarrow> sizes_ok bar evs rs' \<Longrightarrow> sizes_ok bar evs (rs @ rs')"
  by (auto simp: sizes_ok_def)

text \<open>One read of the terminal.\<close>

lemma ssh_typed_read:
  "typed_part (snd (ssh_typed s p err True)) = fst (snd (escape_read (sk_reader s) (p, err)))"
  "sk_reader (fst (ssh_typed s p err True)) = fst (escape_read (sk_reader s) (p, err))"
  "sk_bar (fst (ssh_typed s p err True)) = sk_bar s" "sk_running (fst (ssh_typed s p err True)) = sk_running s"
  "sk_input (fst (ssh_typed s p err True)) \<longleftrightarrow> sk_input s \<and> fst (snd (snd (escape_read (sk_reader s) (p, err)))) = None"
  "sizes_ok bar evs (snd (ssh_typed s p err True))"
  "sk_escaped (fst (ssh_typed s p err True)) \<longleftrightarrow> sk_escaped s \<or> snd (snd (snd (escape_read (sk_reader s) (p, err))))"
  "snd (snd (snd (escape_read (sk_reader s) (p, err)))) \<Longrightarrow> CloseChannel \<in> set (snd (ssh_typed s p err True))"
  by (auto simp: ssh_typed_def sizes_ok_def escape_read_def Let_def split: option.splits if_splits)

text \<open>Every other event leaves the reader alone.\<close>

lemma ssh_other_step:
  assumes "sk_running s" "ssh_live ev" "\<And>p err sent. ev \<noteq> STyped p err sent"
  shows "sk_reader (fst (ssh_step zw now ev s)) = sk_reader s" "sk_input (fst (ssh_step zw now ev s)) = sk_input s"
    "sk_escaped (fst (ssh_step zw now ev s)) = sk_escaped s" "sk_running (fst (ssh_step zw now ev s))"
    "(sk_bar (fst (ssh_step zw now ev s)) \<noteq> None) = (sk_bar s \<noteq> None)"
    "typed_part (fst (snd (ssh_step zw now ev s))) = []"
    "sizes_ok (sk_bar s \<noteq> None) [(now, ev)] (fst (snd (ssh_step zw now ev s)))"
proof -
  have r: "rows = rows_left True h" if "bar_Resize now b w h = (b', out, rows)" for b b' out rows w h
    using bar_Resize_rows [of now b w h] that by simp
  show "sk_reader (fst (ssh_step zw now ev s)) = sk_reader s" "sk_input (fst (ssh_step zw now ev s)) = sk_input s"
    "sk_escaped (fst (ssh_step zw now ev s)) = sk_escaped s" "sk_running (fst (ssh_step zw now ev s))"
    "(sk_bar (fst (ssh_step zw now ev s)) \<noteq> None) = (sk_bar s \<noteq> None)"
    "typed_part (fst (snd (ssh_step zw now ev s))) = []"
    "sizes_ok (sk_bar s \<noteq> None) [(now, ev)] (fst (snd (ssh_step zw now ev s)))"
    using assms by (cases ev; auto simp: ssh_step_def sizes_ok_def rows_left_def Let_def dest!: r split: option.splits prod.splits)+
qed

theorem ssh_live_run:
  assumes "sk_running s" "list_all ssh_live (map snd evs)" "sk_input s \<Longrightarrow> \<not> er_done (sk_reader s)"
  shows "sizes_ok (sk_bar s \<noteq> None) evs (fst (snd (ssh_run zw evs s))) \<and>
    typed_part (fst (snd (ssh_run zw evs s))) = (if sk_input s then fst (snd (escape_reads (sk_reader s) (ssh_reads evs))) else []) \<and>
    (sk_input s \<longrightarrow> escape_scan (er_pending (sk_reader s)) (concat (map fst (ssh_reads evs))) = None \<longrightarrow>
       sk_escaped (fst (ssh_run zw evs s)) \<and> CloseChannel \<in> set (fst (snd (ssh_run zw evs s)))) \<and>
    (sk_escaped s \<longrightarrow> sk_escaped (fst (ssh_run zw evs s)))"
  using assms
proof (induction evs arbitrary: s)
  case (Cons e evs)
  obtain now ev where e: "e = (now, ev)" by (cases e)
  from Cons.prems have l: "ssh_live ev" "list_all ssh_live (map snd evs)" by (simp_all add: e)
  define s' where "s' = fst (ssh_step zw now ev s)"
  define rs where "rs = fst (snd (ssh_step zw now ev s))"
  have run: "fst (ssh_run zw (e # evs) s) = fst (ssh_run zw evs s')"
    "fst (snd (ssh_run zw (e # evs) s)) = rs @ fst (snd (ssh_run zw evs s'))"
    by (simp_all add: e s'_def rs_def case_prod_beta)
  show ?case
  proof (cases "\<exists>p err sent. ev = STyped p err sent")
    case False
    then have no: "ev \<noteq> STyped p err sent" for p err sent by blast
    note o1 = ssh_other_step [OF Cons.prems(1) l(1) no, where zw = zw and now = now, folded s'_def rs_def]
    have "ssh_reads (e # evs) = ssh_reads evs" using False by (cases ev) (auto simp: e)
    then show ?thesis
      using Cons.IH [OF o1(4) l(2)] Cons.prems(3) o1 run sizes_ok_mono [OF o1(7), of "e # evs"]
        sizes_ok_mono [of "sk_bar s \<noteq> None" evs _ "e # evs"]
      by (auto simp: e intro!: sizes_ok_append)
  next
    case True
    then obtain p err sent where ev: "ev = STyped p err sent" by blast
    with l(1) have sent: "sent" by simp
    show ?thesis
    proof (cases "sk_input s")
      case in1: False
      then have "s' = s" "rs = []" using Cons.prems(1) by (simp_all add: s'_def rs_def ev ssh_step_def)
      then show ?thesis
        using Cons.IH [OF Cons.prems(1) l(2)] in1 run sizes_ok_mono [of "sk_bar s \<noteq> None" evs _ "e # evs"] by auto
    next
      case in1: True
      have st: "s' = fst (ssh_typed s p err True)" "rs = snd (ssh_typed s p err True)"
        using Cons.prems(1) in1 sent by (simp_all add: s'_def rs_def ev ssh_step_def case_prod_beta)
      note t = ssh_typed_read [where s = s and p = p and err = err, folded st]
      have nd: "\<not> er_done (sk_reader s)" using Cons.prems(3) in1 by blast
      then have nd': "\<not> er_done (sk_reader s')" if "sk_input s'"
        using that t(2,5) by (auto simp: escape_read_def split: option.splits)
      have run': "sk_running s'" using t(4) Cons.prems(1) by simp
      note IH = Cons.IH [OF run' l(2) nd']
      have typed: "typed_part (fst (snd (ssh_run zw (e # evs) s))) = fst (snd (escape_reads (sk_reader s) (ssh_reads (e # evs))))"
        using t in1 IH run escape_reads_one [of "sk_reader s" "(p, err)"] escape_read_end [of "sk_reader s" p err]
          escape_read_err_rest [of "sk_reader s" p] escape_reads_done
        by (auto simp: e ev)
      have "sk_escaped (fst (ssh_run zw (e # evs) s)) \<and> CloseChannel \<in> set (fst (snd (ssh_run zw (e # evs) s)))"
        if "escape_scan (er_pending (sk_reader s)) (concat (map fst (ssh_reads (e # evs)))) = None"
        using t(2,5,7,8) in1 nd IH run that
        by (auto simp: e ev escape_read_def escape_scan_append split: option.splits if_splits)
      then show ?thesis
        using typed in1 IH run t(3,7) t(6) [where bar = "sk_bar s \<noteq> None" and evs = "e # evs"] sizes_ok_mono [of "sk_bar s \<noteq> None" evs _ "e # evs"]
        by (auto intro!: sizes_ok_append)
    qed
  qed
qed (simp_all add: sizes_ok_def)

section \<open>Properties\<close>

lemma start_console_pty:
  assumes "start_console env t label cmd c = (Inr s, reqs, shown)"
  shows "reqs = [ReqPty (st_term t) (rows_left (sk_bar s \<noteq> None) (tv_height t)) (tv_width t),
      if cmd = '''' then ReqShell else ReqExec cmd] \<and>
    sk_running s \<and> sk_input s \<and> sk_reader s = new_escape_reader"
  using assms startBar_rows [of "sv_fold env" "sv_nobar env" "term_view.truncate t" label EscapeHint]
  by (auto simp: start_console_def startRemote_def Let_def term_view.defs split: option.splits prod.splits if_splits)

lemma open_ssh_pty:
  assumes "open_ssh env tm inst key label cmd = (Inr s, reqs, shown)"
  shows "reqs = [ReqPty (st_term (normalize_term tm)) (rows_left (sk_bar s \<noteq> None) (tv_height (normalize_term tm)))
      (tv_width (normalize_term tm)), if cmd = '''' then ReqShell else ReqExec cmd] \<and>
    sk_running s \<and> sk_input s \<and> sk_reader s = new_escape_reader"
  using assms start_console_pty [of env "normalize_term tm" label cmd _ s reqs shown]
  by (auto simp: open_ssh_def Let_def split: sum.splits option.splits)


definition demo_ssh :: ssh_env where
  "demo_ssh = \<lparr>sv_fold = id, sv_quote = id, sv_key_path = [], sv_nobar = [], sv_parse_key = (\<lambda>k. None),
     sv_dial = (\<lambda>d. Inr \<lparr>sc_session = None, sc_pty = None, sc_stdin = None, sc_stdout = None, sc_stderr = None, sc_start = None\<rparr>)\<rparr>"


section \<open>A terminal too short for a bar\<close>

text \<open>
  Such a terminal gets a bar that is not drawn, so neither the bar nor \<open>clearScreenNoBar\<close> clears
  the screen, over SSH as over the websocket.
\<close>

lemma short_terminal_not_cleared:
  assumes "0 < tv_height tm" "tv_height tm < minBarRows" "tv_raw tm" "\<not> barDisabled (sv_fold env) (sv_nobar env)"
    "start_console env (normalize_term tm) label cmd c = (Inr s, reqs, shown)"
  shows "shown = []"
  using assms
  by (auto simp: start_console_def startRemote_def startBar_def barEligible_def normalize_term_def term_view.defs bar_Start_def
      SetText_def NewStatusBar_def bar_request_def Let_def split: option.splits prod.splits if_splits)

end
