(* ===== verification/FoldNames.thy ===== *)
theory FoldNames
  imports RepoInvariant
begin

text \<open>
  \<open>internal/db/foldnames.go\<close>: on every open, names stored before names were folded are rewritten,
  or the open is refused when two of them would collapse. The three tables are told apart by
  \<open>name_table\<close>; whether a table can be read, what a write fails with and the order in which Go
  ranges over the tables are arguments.
\<close>

section \<open>The tables\<close>

datatype name_table = ClientNames | GroupNames | InstanceNames

definition nameTables :: "name_table list" where
  "nameTables = [ClientNames, GroupNames, InstanceNames]"

fun table_what :: "name_table \<Rightarrow> gostring" where
  "table_what ClientNames = ''client''"
| "table_what GroupNames = ''group''"
| "table_what InstanceNames = ''instance''"

fun name_rows :: "name_table \<Rightarrow> db \<Rightarrow> (int \<times> gostring) list" where
  "name_rows ClientNames d = map (\<lambda>c. (c_id c, c_name c)) (d_clients d)"
| "name_rows GroupNames d = map (\<lambda>g. (gr_id g, gr_name g)) (d_groups d)"
| "name_rows InstanceNames d = map (\<lambda>i. (in_id i, in_name i)) (d_instances d)"

fun rename_row :: "name_table \<Rightarrow> int \<Rightarrow> gostring \<Rightarrow> db \<Rightarrow> db" where
  "rename_row ClientNames i n d =
     d\<lparr>d_clients := update_where (\<lambda>c. c_id c = i) (c_name_update (\<lambda>_. n)) (d_clients d)\<rparr>"
| "rename_row GroupNames i n d =
     d\<lparr>d_groups := update_where (\<lambda>g. gr_id g = i) (gr_name_update (\<lambda>_. n)) (d_groups d)\<rparr>"
| "rename_row InstanceNames i n d =
     d\<lparr>d_instances := update_where (\<lambda>g. in_id g = i) (in_name_update (\<lambda>_. n)) (d_instances d)\<rparr>"

section \<open>Folding\<close>

record fold_env =
  fe_fold :: "bytes \<Rightarrow> bytes"
  fe_quote :: "gostring \<Rightarrow> gostring"
  fe_readable :: "name_table \<Rightarrow> bool"
  fe_unique_text :: gostring
  fe_write :: "name_table \<Rightarrow> int \<Rightarrow> gostring option"
  fe_order :: "name_table list"

text \<open>\<open>UPDATE ... SET name = ? WHERE id = ?\<close> under \<open>UNIQUE(name)\<close>.\<close>

definition update_name :: "fold_env \<Rightarrow> name_table \<Rightarrow> gostring \<Rightarrow> int \<Rightarrow> db \<Rightarrow> gostring + db" where
  "update_name env t n i d =
     (case fe_write env t i of
        Some e \<Rightarrow> Inl e
      | None \<Rightarrow>
          if list_ex (\<lambda>(j, m). j = i) (name_rows t d) \<and> list_ex (\<lambda>(j, m). j \<noteq> i \<and> m = n) (name_rows t d)
          then Inl (fe_unique_text env)
          else Inr (rename_row t i n d))"

definition pending_names :: "(gostring \<Rightarrow> gostring) \<Rightarrow> (int \<times> gostring) list \<Rightarrow> (int \<times> gostring) list" where
  "pending_names F rows = map (\<lambda>(i, n). (i, F n)) (filter (\<lambda>(i, n). F n \<noteq> n) rows)"

definition spellings :: "(gostring \<Rightarrow> gostring) \<Rightarrow> (int \<times> gostring) list \<Rightarrow> gostring \<Rightarrow> gostring list" where
  "spellings F rows folded = map snd (filter (\<lambda>(i, n). F n = folded) rows)"

definition name_problem :: "fold_env \<Rightarrow> name_table \<Rightarrow> gostring list \<Rightarrow> gostring \<Rightarrow> gostring" where
  "name_problem env t sp folded =
     ''  '' @ table_what t @ '' names '' @ go_join '' and '' (map (fe_quote env) (sort sp)) @
     '' differ only by case (all are '' @ fe_quote env folded @ '')''"

definition table_problems :: "fold_env \<Rightarrow> db \<Rightarrow> name_table \<Rightarrow> gostring list" where
  "table_problems env d t =
     (let F = FoldName (fe_fold env); rows = name_rows t d
      in map (\<lambda>folded. name_problem env t (spellings F rows folded) folded)
           (filter (\<lambda>folded. \<not> length (spellings F rows folded) < 2) (remdups (map (F \<circ> snd) rows))))"

definition collision_text :: "gostring list \<Rightarrow> gostring" where
  "collision_text problems =
     ''names must be unique ignoring case, and these are not:'' @ CHR 0x0A # go_join [CHR 0x0A] (sort problems) @ CHR 0x0A #
     ''Rename or remove one of each pair, then start again. Names are matched without regard to case so that '' @
     [CHR 0x60] @ ''ssh ROME@host'' @ [CHR 0x27] @ '' reaches the instance added as '' @ [CHR 0x60] @ ''rome'' @ [CHR 0x27] @
     ''; while both spellings exist there is no single answer to give''"

fun apply_pending :: "fold_env \<Rightarrow> name_table \<Rightarrow> (int \<times> gostring) list \<Rightarrow> db \<Rightarrow> gostring option \<times> db" where
  "apply_pending env t [] d = (None, d)"
| "apply_pending env t ((i, f) # ps) d =
     (case update_name env t f i d of
        Inl e \<Rightarrow> (Some (''folding '' @ table_what t @ '' names: '' @ e), d)
      | Inr d \<Rightarrow> apply_pending env t ps d)"

fun apply_tables :: "fold_env \<Rightarrow> (name_table \<Rightarrow> (int \<times> gostring) list) \<Rightarrow> name_table list \<Rightarrow> db \<Rightarrow> gostring option \<times> db" where
  "apply_tables env todo [] d = (None, d)"
| "apply_tables env todo (t # ts) d =
     (case apply_pending env t (todo t) d of
        (Some e, d) \<Rightarrow> (Some e, d)
      | (None, d) \<Rightarrow> apply_tables env todo ts d)"

definition foldStoredNames :: "fold_env \<Rightarrow> db \<Rightarrow> gostring option \<times> db" where
  "foldStoredNames env d =
     (let readable = filter (fe_readable env) nameTables;
          problems = concat (map (table_problems env d) readable)
      in if problems \<noteq> [] then (Some (collision_text problems), d)
         else apply_tables env (\<lambda>t. pending_names (FoldName (fe_fold env)) (name_rows t d))
                (filter (fe_readable env) (fe_order env)) d)"

section \<open>Collisions\<close>

lemma spellings_two: "distinct (map (F \<circ> snd) rows) \<Longrightarrow> length (spellings F rows f) < 2"
proof (induction rows)
  case (Cons r rows)
  have "F (snd r) \<notin> (F \<circ> snd) ` set rows" using Cons.prems by simp
  then have "F n \<noteq> F (snd r)" if "(i, n) \<in> set rows" for i n
    using that by (metis comp_apply image_eqI snd_conv)
  then have "spellings F rows f = []" if "F (snd r) = f"
    using that by (auto simp: spellings_def filter_empty_conv)
  then show ?case using Cons by (auto simp: spellings_def split: prod.splits)
qed (simp add: spellings_def)

lemma spellings_collide:
  assumes "\<not> distinct (map (F \<circ> snd) rows)"
  shows "\<exists>f\<in>set (map (F \<circ> snd) rows). \<not> length (spellings F rows f) < 2"
  using assms
proof (induction rows)
  case (Cons r rows)
  show ?case
  proof (cases "F (snd r) \<in> set (map (F \<circ> snd) rows)")
    case True
    then have "spellings F rows (F (snd r)) \<noteq> []" by (force simp: spellings_def filter_empty_conv)
    then have "\<not> length (spellings F (r # rows) (F (snd r))) < 2"
      by (cases "spellings F rows (F (snd r))") (auto simp: spellings_def split: prod.splits)
    then show ?thesis by auto
  next
    case False
    with Cons obtain f where "f \<in> set (map (F \<circ> snd) rows)" "\<not> length (spellings F rows f) < 2" by auto
    moreover have "length (spellings F rows f) \<le> length (spellings F (r # rows) f)"
      by (auto simp: spellings_def split: prod.splits)
    ultimately show ?thesis by (intro bexI [of _ f]) auto
  qed
qed simp

lemma table_problems_iff:
  "table_problems env d t = [] \<longleftrightarrow> distinct (map (FoldName (fe_fold env) \<circ> snd) (name_rows t d))"
  using spellings_collide [of "FoldName (fe_fold env)" "name_rows t d"] spellings_two
  by (auto simp: table_problems_def Let_def filter_empty_conv)

section \<open>Rewriting\<close>

text \<open>The rows of \<open>S\<close> folded.\<close>

definition folded_rows :: "(gostring \<Rightarrow> gostring) \<Rightarrow> (name_table \<Rightarrow> int \<Rightarrow> bool) \<Rightarrow> db \<Rightarrow> db" where
  "folded_rows F S d =
     d\<lparr>d_clients := map (\<lambda>c. if S ClientNames (c_id c) then c_name_update F c else c) (d_clients d),
       d_groups := map (\<lambda>g. if S GroupNames (gr_id g) then gr_name_update F g else g) (d_groups d),
       d_instances := map (\<lambda>i. if S InstanceNames (in_id i) then in_name_update F i else i) (d_instances d)\<rparr>"

lemma folded_name_rows:
  "name_rows t (folded_rows F S d) = map (\<lambda>(i, n). (i, if S t i then F n else n)) (name_rows t d)"
  by (cases t) (auto simp: folded_rows_def)

lemma row_unique: "distinct (map fst rows) \<Longrightarrow> (i, n) \<in> set rows \<Longrightarrow> (i, m) \<in> set rows \<Longrightarrow> m = n"
  by (metis eq_key_imp_eq_value)

lemma renamed_row:
  "c_name c = n \<Longrightarrow> c_name_update F c = c\<lparr>c_name := F n\<rparr>"
  "gr_name g = n \<Longrightarrow> gr_name_update F g = g\<lparr>gr_name := F n\<rparr>"
  "in_name i = n \<Longrightarrow> in_name_update F i = i\<lparr>in_name := F n\<rparr>"
  by (cases c; cases g; cases i; simp)+

lemma rename_rows:
  assumes "\<And>x. x \<in> set xs \<Longrightarrow> key x = i \<Longrightarrow> upd F x = upd (\<lambda>_. F n) x"
    "\<And>x f. key (upd f x) = key x" "\<And>x f. upd (\<lambda>_. F n) (upd f x) = upd (\<lambda>_. F n) x"
  shows "update_where (\<lambda>x. key x = i) (upd (\<lambda>_. F n)) (map (\<lambda>x. if Q (key x) then upd F x else x) xs) =
    map (\<lambda>x. if (Q(i := True)) (key x) then upd F x else x) xs"
  using assms by (auto simp: update_where_def)

lemma rename_folded:
  assumes "distinct (map fst (name_rows t d))" "(i, n) \<in> set (name_rows t d)"
  shows "rename_row t i (F n) (folded_rows F S d) = folded_rows F (S(t := (S t)(i := True))) d"
proof (cases t)
  case ClientNames
  have "c_name c = n" if "c \<in> set (d_clients d)" "c_id c = i" for c
    using row_unique [OF assms, of "c_name c"] that ClientNames by auto
  then show ?thesis
    using rename_rows [of "d_clients d" c_id i c_name_update F n "S ClientNames"] ClientNames renamed_row(1) [of _ n F]
    by (simp add: folded_rows_def)
next
  case GroupNames
  have "gr_name c = n" if "c \<in> set (d_groups d)" "gr_id c = i" for c
    using row_unique [OF assms, of "gr_name c"] that GroupNames by auto
  then show ?thesis
    using rename_rows [of "d_groups d" gr_id i gr_name_update F n "S GroupNames"] GroupNames renamed_row(2) [of _ n F]
    by (simp add: folded_rows_def)
next
  case InstanceNames
  have "in_name c = n" if "c \<in> set (d_instances d)" "in_id c = i" for c
    using row_unique [OF assms, of "in_name c"] that InstanceNames by auto
  then show ?thesis
    using rename_rows [of "d_instances d" in_id i in_name_update F n "S InstanceNames"] InstanceNames renamed_row(3) [of _ n F]
    by (simp add: folded_rows_def)
qed

lemma update_ok:
  assumes F: "\<And>m. F (F m) = F m" "distinct (map (F \<circ> snd) (name_rows t d))" "distinct (map fst (name_rows t d))"
    and n: "(i, n) \<in> set (name_rows t d)" and w: "fe_write env t i = None"
  shows "update_name env t (F n) i (folded_rows F S d) = Inr (folded_rows F (S(t := (S t)(i := True))) d)"
proof -
  have "j = i" if "(j, m) \<in> set (name_rows t d)" "F n = (if S t j then F m else m)" for j m
  proof -
    have "F m = F n" using that(2) F(1) [of n] by (auto split: if_splits)
    then have "(F \<circ> snd) (j, m) = (F \<circ> snd) (i, n)" by simp
    moreover have "inj_on (F \<circ> snd) (set (name_rows t d))" using F(2) by (simp add: distinct_map)
    ultimately have "(j, m) = (i, n)" using that(1) n by (blast dest: inj_onD)
    then show ?thesis by simp
  qed
  then have "\<not> list_ex (\<lambda>(j, m). j \<noteq> i \<and> m = F n) (name_rows t (folded_rows F S d))"
    by (auto simp: list_ex_iff folded_name_rows)
  then show ?thesis using w rename_folded [OF F(3) n, of F S] by (auto simp: update_name_def)
qed

lemma apply_pending_ok:
  assumes F: "\<And>m. F (F m) = F m" "distinct (map (F \<circ> snd) (name_rows t d))" "distinct (map fst (name_rows t d))"
    and w: "\<And>i. fe_write env t i = None"
    and ps: "set ps \<subseteq> set (pending_names F (name_rows t d))"
  shows "apply_pending env t ps (folded_rows F S d) =
    (None, folded_rows F (S(t := \<lambda>i. S t i \<or> i \<in> fst ` set ps)) d)"
  using ps
proof (induction ps arbitrary: S)
  case (Cons p ps)
  obtain i f where p: "p = (i, f)" by (cases p)
  with Cons.prems obtain n where n: "(i, n) \<in> set (name_rows t d)" "f = F n"
    by (auto simp: pending_names_def)
  have s: "(S(t := (S t)(i := True)))(t := \<lambda>j. (S(t := (S t)(i := True))) t j \<or> j \<in> fst ` set ps) =
      S(t := \<lambda>j. S t j \<or> j \<in> fst ` set (p # ps))"
    by (auto simp: p fun_eq_iff)
  have "set ps \<subseteq> set (pending_names F (name_rows t d))" using Cons.prems by simp
  from Cons.IH [OF this, of "S(t := (S t)(i := True))"] show ?case
    using update_ok [OF F n(1) w, where S = S] s by (simp only: apply_pending.simps p n(2) sum.case)
qed simp

lemma pending_all:
  "folded_rows F (S(t := \<lambda>i. S t i \<or> i \<in> fst ` set (pending_names F (name_rows t d)))) d = folded_rows F (S(t := \<lambda>i. True)) d"
  by (cases t) (force simp: folded_rows_def pending_names_def intro!: db.equality)+

lemma apply_tables_ok:
  assumes F: "\<And>m. F (F m) = F m" and w: "\<And>t i. fe_write env t i = None"
    and ts: "\<And>t. t \<in> set ts \<Longrightarrow> distinct (map (F \<circ> snd) (name_rows t d)) \<and> distinct (map fst (name_rows t d))"
  shows "apply_tables env (\<lambda>t. pending_names F (name_rows t d)) ts (folded_rows F S d) =
    (None, folded_rows F (\<lambda>t i. S t i \<or> t \<in> set ts) d)"
  using ts
proof (induction ts arbitrary: S)
  case (Cons t ts)
  have "apply_pending env t (pending_names F (name_rows t d)) (folded_rows F S d) = (None, folded_rows F (S(t := \<lambda>i. True)) d)"
    using apply_pending_ok [where F = F and env = env and t = t and d = d and S = S, OF F _ _ w] Cons.prems pending_all
    by simp
  moreover have s: "(\<lambda>t' i. (S(t := \<lambda>i. True)) t' i \<or> t' \<in> set ts) = (\<lambda>t' i. S t' i \<or> t' \<in> set (t # ts))"
    by (auto simp: fun_eq_iff)
  moreover have "apply_tables env (\<lambda>t. pending_names F (name_rows t d)) ts (folded_rows F (S(t := \<lambda>i. True)) d) =
      (None, folded_rows F (\<lambda>t' i. S t' i \<or> t' \<in> set (t # ts)) d)"
    using Cons.IH [of "S(t := \<lambda>i. True)"] Cons.prems unfolding s by (meson list.set_intros(2))
  ultimately show ?case by simp
qed simp

lemma folded_none: "folded_rows F (\<lambda>t i. False) d = d"
  by (simp add: folded_rows_def)

lemma named_ids: "db_inv d \<Longrightarrow> distinct (map fst (name_rows t d))"
  by (cases t) (auto simp: db_inv_def table_ok_def comp_def)

lemma find_by_key:
  assumes "distinct (map f xs)" "c \<in> set xs" "\<And>x. g (h x) = f x"
  shows "find (\<lambda>y. g y = f c) (map h xs) = Some (h c)"
  using assms by (induction xs) (auto simp: image_iff)

section \<open>Properties\<close>

text \<open>What an open leaves: the tables that could be read hold folded names, and nothing else changed.\<close>

definition folded_db :: "(gostring \<Rightarrow> gostring) \<Rightarrow> (name_table \<Rightarrow> bool) \<Rightarrow> db \<Rightarrow> db" where
  "folded_db F readable d =
     d\<lparr>d_clients := map (if readable ClientNames then c_name_update F else id) (d_clients d),
       d_groups := map (if readable GroupNames then gr_name_update F else id) (d_groups d),
       d_instances := map (if readable InstanceNames then in_name_update F else id) (d_instances d)\<rparr>"

text \<open>C18: with folding that is stable and writes that do not fail, opening a database whose names
  collide in some readable table refuses and leaves it as it was; opening any other rewrites
  exactly the names of the readable tables to their folded form, whatever order the tables are
  taken in and although each row is rewritten under the UNIQUE constraint one at a time, and a
  client is then found by every spelling of its name.\<close>

theorem names_folded_or_refused:
  assumes "db_inv d" "\<And>s. FoldName (fe_fold env) (FoldName (fe_fold env) s) = FoldName (fe_fold env) s"
    and "\<And>t i. fe_write env t i = None" "set (fe_order env) = set nameTables"
  shows "if \<exists>t. fe_readable env t \<and> \<not> distinct (map (FoldName (fe_fold env) \<circ> snd) (name_rows t d))
    then \<exists>e. foldStoredNames env d = (Some e, d)
    else foldStoredNames env d = (None, folded_db (FoldName (fe_fold env)) (fe_readable env) d) \<and>
      (fe_readable env ClientNames \<longrightarrow> (\<forall>c\<in>set (d_clients d). \<forall>s. NamesEqual (fe_fold env) s (c_name c) \<longrightarrow>
         GetClientByName (fe_fold env) s (snd (foldStoredNames env d)) =
           Inr (c\<lparr>c_name := FoldName (fe_fold env) (c_name c)\<rparr>)))"
proof -
  let ?F = "FoldName (fe_fold env)"
  let ?bad = "\<exists>t. fe_readable env t \<and> \<not> distinct (map (?F \<circ> snd) (name_rows t d))"
  have all: "set nameTables = UNIV"
    by (auto simp: nameTables_def) (metis name_table.exhaust)
  then have order: "set (fe_order env) = UNIV" using assms(4) by simp
  have probs: "concat (map (table_problems env d) (filter (fe_readable env) nameTables)) \<noteq> [] \<longleftrightarrow> ?bad"
    by (auto simp: table_problems_iff all)
  show ?thesis
  proof (cases ?bad)
    case True
    then show ?thesis using probs by (simp add: foldStoredNames_def Let_def del: concat_eq_Nil_conv)
  next
    case False
    have "apply_tables env (\<lambda>t. pending_names ?F (name_rows t d)) (filter (fe_readable env) (fe_order env)) d =
        (None, folded_rows ?F (\<lambda>t i. fe_readable env t) d)"
      using apply_tables_ok [where F = ?F and env = env and d = d and S = "\<lambda>t i. False"
          and ts = "filter (fe_readable env) (fe_order env)", OF assms(2,3)] False named_ids [OF assms(1)]
      by (simp add: order folded_none)
    moreover have "folded_rows ?F (\<lambda>t i. fe_readable env t) d = folded_db ?F (fe_readable env) d"
      by (simp add: folded_rows_def folded_db_def id_def)
    ultimately have run: "foldStoredNames env d = (None, folded_db ?F (fe_readable env) d)"
      using probs False by (simp add: foldStoredNames_def Let_def del: concat_eq_Nil_conv)
    have "GetClientByName (fe_fold env) s (folded_db ?F (fe_readable env) d) = Inr (c\<lparr>c_name := ?F (c_name c)\<rparr>)"
      if c: "c \<in> set (d_clients d)" "NamesEqual (fe_fold env) s (c_name c)" "fe_readable env ClientNames" for c s
    proof -
      have "distinct (map (?F \<circ> c_name) (d_clients d))"
        using False c(3) by (auto simp: comp_def)
      then have "find (\<lambda>c. c_name c = ?F s) (map (c_name_update ?F) (d_clients d)) = Some (c_name_update ?F c)"
        using find_by_key [of "?F \<circ> c_name" "d_clients d" c c_name "c_name_update ?F"] c(1,2) by (simp add: NamesEqual_def)
      then show ?thesis using c(3) by (simp add: GetClientByName_def folded_db_def)
    qed
    then show ?thesis using False run by simp
  qed
qed

definition plain_fold :: fold_env where
  "plain_fold = \<lparr>fe_fold = id, fe_quote = id, fe_readable = (\<lambda>t. True), fe_unique_text = ''unique'', fe_write = (\<lambda>t i. None),
     fe_order = [InstanceNames, ClientNames, GroupNames]\<rparr>"

definition old_client :: client_row where
  "old_client = \<lparr>c_id = 1, c_name = ''Alice'', c_keys = [''k''], c_groups = []\<rparr>"

definition old_db :: db where
  "old_db = empty_db\<lparr>d_clients := [old_client], d_seq_client := 2\<rparr>"

theorem names_folded_or_refused_witness:
  "GetClientByName id ''ALICE'' old_db = Inl ErrNoRows \<and>
   GetClientByName id ''ALICE'' (snd (foldStoredNames plain_fold old_db)) = Inr (old_client\<lparr>c_name := ''alice''\<rparr>)"
proof -
  have inv: "db_inv old_db"
    by (simp add: old_db_def old_client_def db_inv_def empty_db_def table_ok_def)
  have idem: "FoldName (fe_fold plain_fold) (FoldName (fe_fold plain_fold) s) = FoldName (fe_fold plain_fold) s" for s
    using FoldName_ascii_idem [of s id] by (cases "is_ascii s") (auto simp: plain_fold_def FoldName_def to_lower_def)
  have low: "FoldName id ''Alice'' = ''alice''" "FoldName id ''ALICE'' = ''alice''" by code_simp+
  have "distinct (map (FoldName (fe_fold plain_fold) \<circ> snd) (name_rows t old_db))" for t
    by (cases t) (simp_all add: old_db_def empty_db_def)
  moreover have "set (fe_order plain_fold) = set nameTables" "fe_write plain_fold t i = None" for t i
    by (auto simp: plain_fold_def nameTables_def)
  moreover have "old_client \<in> set (d_clients old_db)" "NamesEqual (fe_fold plain_fold) ''ALICE'' (c_name old_client)"
    "fe_readable plain_fold ClientNames"
    by (simp_all add: NamesEqual_def old_client_def old_db_def plain_fold_def low)
  ultimately have "GetClientByName (fe_fold plain_fold) ''ALICE'' (snd (foldStoredNames plain_fold old_db)) =
      Inr (old_client\<lparr>c_name := FoldName (fe_fold plain_fold) (c_name old_client)\<rparr>)"
    using names_folded_or_refused [OF inv idem] by (metis (no_types))
  moreover have "GetClientByName id ''ALICE'' old_db = Inl ErrNoRows"
    by (simp add: GetClientByName_def old_db_def old_client_def low)
  ultimately show ?thesis using low(1) by (simp add: plain_fold_def) (simp add: old_client_def)
qed

end
