(* ===== verification/Startup.thy ===== *)
theory Startup
  imports CliInstance Tokens Directory HostKey FoldNames GoUrl
begin

text \<open>
  \<open>cmd/proxpass/main.go\<close>, \<open>internal/loglevel\<close> and \<open>internal/api/nssconfig.go\<close>: what \<open>serve\<close> does
  before it listens, and what it then serves. Flags are values; the environment, the opening of
  the database, the file system's answers and the printing of durations are arguments. What is
  written to the log is not modelled.
\<close>

section \<open>Log levels\<close>

datatype log_level = LevelDebug | LevelInfo | LevelWarn | LevelError

definition parse_level :: "(bytes \<Rightarrow> bytes) \<Rightarrow> (gostring \<Rightarrow> gostring) \<Rightarrow> gostring \<Rightarrow> gostring + log_level" where
  "parse_level U quote s =
     (let v = to_lower U (trim_space s) in
      if v = ''debug'' then Inr LevelDebug
      else if v = ''info'' \<or> v = '''' then Inr LevelInfo
      else if v = ''warn'' \<or> v = ''warning'' then Inr LevelWarn
      else if v = ''error'' then Inr LevelError
      else Inl (''unknown log level '' @ quote s @ '': use debug, info, warn or error''))"

fun level_string :: "log_level \<Rightarrow> gostring" where
  "level_string LevelDebug = ''debug''"
| "level_string LevelInfo = ''info''"
| "level_string LevelWarn = ''warn''"
| "level_string LevelError = ''error''"

fun level_rank :: "log_level \<Rightarrow> nat" where
  "level_rank LevelDebug = 0"
| "level_rank LevelInfo = 1"
| "level_rank LevelWarn = 2"
| "level_rank LevelError = 3"

definition level_enabled :: "log_level \<Rightarrow> log_level \<Rightarrow> bool" where
  "level_enabled l want \<longleftrightarrow> level_rank want \<ge> level_rank l"

section \<open>The configuration of the login lookup\<close>

definition loopback_host :: "gostring \<Rightarrow> gostring" where
  "loopback_host listenAddr =
     (case split_host_port listenAddr of
        Some (h, port) \<Rightarrow> if port \<noteq> '''' then join_host_port ''127.0.0.1'' port else ''127.0.0.1''
      | None \<Rightarrow> ''127.0.0.1'')"

definition nss_config_json :: "gostring \<Rightarrow> gostring \<Rightarrow> jval" where
  "nss_config_json listenAddr nssToken =
     (let base = ''http://'' @ loopback_host listenAddr in
      VObj [(''Providers'', VArr [VObj [
              (''Name'', VStr ''http''),
              (''URLs'', VObj [
                 (''Users'', VStr (base @ ''/users'')),
                 (''UserUID'', VStr (base @ ''/user/uid/'')),
                 (''UserName'', VStr (base @ ''/user/name/'')),
                 (''Groups'', VStr (base @ ''/groups'')),
                 (''GroupGID'', VStr (base @ ''/group/gid/'')),
                 (''GroupName'', VStr (base @ ''/group/name/''))]),
              (''RequestTimeout'', VStr ''5s''),
              (''Headers'', VObj [(''Authorization'', VStr (''Bearer '' @ nssToken))])]]),
            (''Cache'', VObj [(''Name'', VStr ''disabled'')]),
            (''AllowListingOfUsers'', VBool False),
            (''AllowListingOfGroups'', VBool False),
            (''DisableShadow'', VBool False)])"

text \<open>A file: the document in it (written indented, with a newline), none before it is written, and its mode.\<close>

record conf_file =
  cf_document :: "jval option"
  cf_mode :: int

type_synonym conf_dir = "gostring \<Rightarrow> conf_file option"

text \<open>How far the file system goes along: the step that fails, with its error.\<close>

datatype write_step = StepCreate | StepWrite | StepClose | StepChmod | StepRename

record write_env =
  we_dir :: gostring
  we_temp :: gostring
  we_fault :: "(write_step \<times> gostring) option"

definition fault_at :: "write_env \<Rightarrow> write_step \<Rightarrow> gostring option" where
  "fault_at w s = (case we_fault w of None \<Rightarrow> None | Some (s', e) \<Rightarrow> if s' = s then Some e else None)"

definition WriteNSSConfig ::
  "write_env \<Rightarrow> gostring \<Rightarrow> gostring \<Rightarrow> gostring \<Rightarrow> conf_dir \<Rightarrow> gostring option \<times> conf_dir" where
  "WriteNSSConfig w path listenAddr nssToken fs =
     (let data = nss_config_json listenAddr nssToken; tmp = we_temp w in
      case fault_at w StepCreate of
        Some e \<Rightarrow> (Some (''creating temp nss config in '' @ we_dir w @ '': '' @ e), fs)
      | None \<Rightarrow>
          let fs = fs(tmp \<mapsto> \<lparr>cf_document = None, cf_mode = 384\<rparr>) in
     (case fault_at w StepWrite of
        Some e \<Rightarrow> (Some (''writing temp nss config: '' @ e), fs(tmp := None))
      | None \<Rightarrow>
          let fs = fs(tmp \<mapsto> \<lparr>cf_document = Some data, cf_mode = 384\<rparr>) in
     (case fault_at w StepClose of
        Some e \<Rightarrow> (Some (''closing temp nss config: '' @ e), fs(tmp := None))
      | None \<Rightarrow>
     (case fault_at w StepChmod of
        Some e \<Rightarrow> (Some (''chmod temp nss config: '' @ e), fs(tmp := None))
      | None \<Rightarrow>
          let fs = fs(tmp \<mapsto> \<lparr>cf_document = Some data, cf_mode = 420\<rparr>) in
     (case fault_at w StepRename of
        Some e \<Rightarrow> (Some (''installing nss config at '' @ path @ '': '' @ e), fs(tmp := None))
      | None \<Rightarrow> (None, fs(tmp := None, path \<mapsto> \<lparr>cf_document = Some data, cf_mode = 420\<rparr>)))))))"

section \<open>What serve stores\<close>

fun has_texts :: "(gostring list \<Rightarrow> prog) \<Rightarrow> answer \<Rightarrow> prog" where
  "has_texts k (Texts ts) = k ts"
| "has_texts k _ = Return None"

fun has_text :: "(gostring \<Rightarrow> prog) \<Rightarrow> answer \<Rightarrow> prog" where
  "has_text k (AText s) = k s"
| "has_text k _ = Return None"

definition storeAdminKey :: "cli_env \<Rightarrow> gostring \<Rightarrow> prog \<Rightarrow> prog" where
  "storeAdminKey env rawKey p =
     (let rawKey = trim_space rawKey in
      if rawKey = '''' then p
      else case ValidatePublicKey env rawKey of
        Inl e \<Rightarrow> Fail (''invalid --admin-key: '' @ e)
      | Inr key \<Rightarrow>
          Ask ListAdminKeysOp (\<lambda>e. ''listing admin keys: '' @ e) (has_texts (\<lambda>existing.
            if list_ex (\<lambda>k. trim_space k = key) existing then p
            else Ask (AddAdminKeyOp key) (\<lambda>e. ''storing admin key: '' @ e) (\<lambda>_. p))))"

definition SettingPublicEndpoint :: gostring where "SettingPublicEndpoint = ''public_endpoint''"

definition storePublicEndpoint :: "gostring \<Rightarrow> prog \<Rightarrow> prog" where
  "storePublicEndpoint rawEndpoint p =
     (let endpoint = trim_space rawEndpoint in
      Ask (GetSettingOp SettingPublicEndpoint) (\<lambda>e. ''reading public endpoint: '' @ e) (has_text (\<lambda>current.
        if current = endpoint then p
        else Ask (SetSettingOp SettingPublicEndpoint endpoint) (\<lambda>e. ''storing public endpoint: '' @ e) (\<lambda>_. p))))"

section \<open>Serving\<close>

record serve_flags =
  sf_listen :: gostring
  sf_data :: gostring
  sf_interval :: int
  sf_nss_token :: gostring
  sf_nss_config :: gostring
  sf_rest_token :: gostring
  sf_update_check :: bool
  sf_retention :: int
  sf_prune_interval :: int
  sf_log_level :: gostring
  sf_admin_key :: gostring
  sf_public_endpoint :: gostring

record serve_env =
  se_cli :: cli_env
  se_lookup :: "gostring \<Rightarrow> gostring option"
  se_layout_text :: "layout_error \<Rightarrow> gostring"
  se_open :: "gostring + db"
  se_duration :: "int \<Rightarrow> gostring"
  se_write :: write_env
  se_version :: gostring
  se_handler :: handler

text \<open>The activity log's pruner: \<open>NewActivityPruner\<close>.\<close>

record activity_pruner =
  ap_retention :: int
  ap_interval :: int

definition defaultActivityPruneInterval :: int where "defaultActivityPruneInterval = 3600 * 1000000000"

definition NewActivityPruner :: "int \<Rightarrow> int \<Rightarrow> activity_pruner" where
  "NewActivityPruner retention interval =
     \<lparr>ap_retention = retention, ap_interval = (if interval \<le> 0 then defaultActivityPruneInterval else interval)\<rparr>"

record server =
  sv_handler :: handler
  sv_nss_hash :: gostring
  sv_ids :: id_layout
  sv_listen :: gostring
  sv_update_check :: bool
  sv_discovery_interval :: int
  sv_pruner :: activity_pruner

definition serve_settings :: "serve_env \<Rightarrow> serve_flags \<Rightarrow> log_level \<Rightarrow> gostring \<Rightarrow> settings_snapshot" where
  "serve_settings env f level nssToken =
     \<lparr>ss_data = sf_data f, ss_log_level = level_string level, ss_discovery_interval = se_duration env (sf_interval f),
      ss_listen = sf_listen f, ss_admin_key = trim_space (sf_admin_key f), ss_nss_token_set = nssToken \<noteq> '''',
      ss_rest_token_set = sf_rest_token f \<noteq> '''', ss_activity_retention = se_duration env (sf_retention f),
      ss_prune_interval = se_duration env (sf_prune_interval f)\<rparr>"

definition build_server :: "serve_env \<Rightarrow> serve_flags \<Rightarrow> log_level \<Rightarrow> id_layout \<Rightarrow> gostring \<Rightarrow> server" where
  "build_server env f level ids nssToken =
     (let h = se_handler env in
      \<lparr>sv_handler = WithProtectedAdminKey (sf_admin_key f)
         (h\<lparr>h_rest := WithRESTAPIToken (h_hash h) (sf_rest_token f),
            h_settings := Some (serve_settings env f level nssToken),
            h_version := se_version env, h_retention := sf_retention f\<rparr>),
       sv_nss_hash = WithNSSToken (h_hash h) nssToken, sv_ids = ids, sv_listen = sf_listen f,
       sv_update_check = sf_update_check f, sv_discovery_interval = sf_interval f,
       sv_pruner = NewActivityPruner (sf_retention f) (sf_prune_interval f)\<rparr>)"

text \<open>\<open>runServe\<close> up to the listener: the server or an error, the database if it was opened, the files.\<close>

definition runServe ::
  "serve_env \<Rightarrow> serve_flags \<Rightarrow> conf_dir \<Rightarrow> (gostring + server) \<times> db option \<times> conf_dir" where
  "runServe env f fs =
     (case parse_level (ce_fold (se_cli env)) (ce_quote (se_cli env)) (sf_log_level f) of
        Inl e \<Rightarrow> (Inl e, None, fs)
      | Inr level \<Rightarrow>
     (case LoadIDLayout (se_lookup env) of
        Inl e \<Rightarrow> (Inl (''id layout: '' @ se_layout_text env e), None, fs)
      | Inr ids \<Rightarrow>
     (case se_open env of
        Inl e \<Rightarrow> (Inl (''failed to open database: '' @ e), None, fs)
      | Inr d \<Rightarrow>
     (case run_prog (storeAdminKey (se_cli env) (sf_admin_key f)
             (storePublicEndpoint (sf_public_endpoint f) (Return None))) (db_repo (se_handler env)) d of
        (Failed e, o1, e1, d) \<Rightarrow> (Inl e, Some d, fs)
      | (Crashed e, o1, e1, d) \<Rightarrow> (Inl e, Some d, fs)
      | (Returned x, o1, e1, d) \<Rightarrow>
          let nssToken = trim_space (sf_nss_token f) in
          if nssToken = ''''
          then (Inl (''a non-empty PROXPASS_NSS_TOKEN (--nss-token) is required: without it the NSS directory is closed and no login can resolve''),
                Some d, fs)
          else
            let path = trim_space (sf_nss_config f);
                (fault, fs) = (if path \<noteq> '''' then WriteNSSConfig (se_write env) path (sf_listen f) nssToken fs else (None, fs))
            in (case fault of
                  Some e \<Rightarrow> (Inl (''writing nss config: '' @ e), Some d, fs)
                | None \<Rightarrow> (Inr (build_server env f level ids nssToken), Some d, fs))))))"

section \<open>What is stored\<close>

definition with_admin_key :: "gostring \<Rightarrow> db \<Rightarrow> db" where
  "with_admin_key k d = (if list_ex (\<lambda>x. trim_space x = k) (ListAdminKeys d) then d else AddAdminKey k d)"

definition with_endpoint :: "gostring \<Rightarrow> db \<Rightarrow> db" where
  "with_endpoint e d = (if GetSetting SettingPublicEndpoint d = e then d else SetSetting SettingPublicEndpoint e d)"

lemma endpoint_stored:
  "run_prog (storePublicEndpoint raw p) (db_repo h) d = run_prog p (db_repo h) (with_endpoint (trim_space raw) d)"
  by (simp add: storePublicEndpoint_def with_endpoint_def run_ask_db Let_def del: run_prog.simps(3))

lemma admin_key_stored:
  "run_prog (storeAdminKey env raw p) (db_repo h) d =
     (if trim_space raw = '''' then run_prog p (db_repo h) d
      else case ValidatePublicKey env raw of
        Inl e \<Rightarrow> (Failed (''invalid --admin-key: '' @ e), [], [], d)
      | Inr key \<Rightarrow> run_prog p (db_repo h) (with_admin_key key d))"
proof -
  have "ValidatePublicKey env (trim_space raw) = ValidatePublicKey env raw"
    by (simp add: ValidatePublicKey_def trim_space_idem)
  then show ?thesis
    by (simp add: storeAdminKey_def with_admin_key_def run_ask_db Let_def del: run_prog.simps(3) split: sum.split)
qed

lemma GetSetting_set: "GetSetting k (SetSetting k v d) = v"
proof (cases "k \<in> set (map fst (d_settings d))")
  case True
  have "map_of (map (\<lambda>(k', v'). (k', if k' = k then v else v')) xs) k = Some v" if "k \<in> set (map fst xs)" for xs
    using that by (induction xs) auto
  then show ?thesis using True by (simp add: SetSetting_def GetSetting_def)
next
  case False
  then have "map_of (d_settings d) k = None" by (simp add: map_of_eq_None_iff)
  then show ?thesis using False by (simp add: SetSetting_def GetSetting_def map_add_def)
qed

lemma endpoint_kept: "GetSetting SettingPublicEndpoint (with_endpoint e d) = e"
  by (simp add: with_endpoint_def GetSetting_set)

lemma endpoint_keys: "ListAdminKeys (with_endpoint e d) = ListAdminKeys d"
  by (simp add: with_endpoint_def ListAdminKeys_def SetSetting_def)

lemma admin_key_there:
  "set (ListAdminKeys d) \<subseteq> set (ListAdminKeys (with_admin_key k d))"
  "trim_space k = k \<Longrightarrow> \<exists>x\<in>set (ListAdminKeys (with_admin_key k d)). trim_space x = k"
  by (auto simp: with_admin_key_def ListAdminKeys_def AddAdminKey_def list_ex_iff)

section \<open>The file and the token\<close>

lemma WriteNSSConfig_atomic:
  assumes "we_temp w \<noteq> path"
  shows "(case WriteNSSConfig w path listenAddr tok fs of
      (None, fs') \<Rightarrow> fs' path = Some \<lparr>cf_document = Some (nss_config_json listenAddr tok), cf_mode = 420\<rparr>
    | (Some e, fs') \<Rightarrow> fs' path = fs path) \<and>
    (fs (we_temp w) = None \<longrightarrow> (\<forall>p. p \<noteq> path \<longrightarrow> snd (WriteNSSConfig w path listenAddr tok fs) p = fs p))"
  using assms by (auto simp: WriteNSSConfig_def Let_def split: option.splits)

lemma own_token_accepted:
  assumes "trim_space tok = tok" "tok \<noteq> ''''" "H tok \<noteq> ''''"
  shows "nssAuth H E (WithNSSToken H tok) (''Bearer '' @ tok) rep = rep"
proof -
  have "equal_fold E ''Bearer '' ''Bearer ''" by (simp add: equal_fold_def is_ascii_def)
  then have "withBearerToken E (''Bearer '' @ tok) = Some tok"
    using assms(1,2) by (simp add: withBearerToken_def bearer_prefix_def Let_def)
  then show ?thesis using assms(2,3) by (simp add: nssAuth_def WithNSSToken_def)
qed

section \<open>Properties\<close>

text \<open>The database after the two settings were stored.\<close>

lemma configured_db:
  assumes "run_prog (storeAdminKey env key (storePublicEndpoint endpoint (Return None))) (db_repo h) d = (Returned x, o1, e1, d1)"
  shows "GetSetting SettingPublicEndpoint d1 = trim_space endpoint" "set (ListAdminKeys d) \<subseteq> set (ListAdminKeys d1)"
    "trim_space key \<noteq> '''' \<Longrightarrow> (\<exists>k\<in>set (ListAdminKeys d1). trim_space k = trim_space key) \<and> one_entry env (trim_space key)"
proof -
  let ?d1 = "with_endpoint (trim_space endpoint) (if trim_space key = '''' then d else with_admin_key (trim_space key) d)"
  have entry: "k = trim_space key \<and> one_entry env k" if "ValidatePublicKey env key = Inr k" for k
    using ValidatePublicKey_entry [OF that] that by (auto simp: ValidatePublicKey_def Let_def split: if_splits sum.splits)
  have stored: "(trim_space key = '''' \<or> one_entry env (trim_space key)) \<and> d1 = ?d1"
    using assms entry by (auto simp: admin_key_stored endpoint_stored split: if_splits sum.splits)
  show "GetSetting SettingPublicEndpoint d1 = trim_space endpoint" "set (ListAdminKeys d) \<subseteq> set (ListAdminKeys d1)"
    "trim_space key \<noteq> '''' \<Longrightarrow> (\<exists>k\<in>set (ListAdminKeys d1). trim_space k = trim_space key) \<and> one_entry env (trim_space key)"
    using stored admin_key_there [where d = d and k = "trim_space key"]
    by (simp_all add: endpoint_kept endpoint_keys trim_space_idem)
qed

lemma directory_closed:
  "\<forall>t. withBearerToken E header = Some t \<longrightarrow> H t \<noteq> H tok \<Longrightarrow>
     nssAuth H E (WithNSSToken H tok) header rep = Unauthorized401 ''unauthorized''"
  by (auto simp: nssAuth_def WithNSSToken_def split: option.split)

text \<open>What lies behind a server that starts.\<close>

lemma started:
  assumes "runServe env f fs = (Inr srv, d', fs')" "se_open env = Inr d"
  obtains ids x o1 e1 d1 where "Validate (sv_ids srv) = None"
    "run_prog (storeAdminKey (se_cli env) (sf_admin_key f) (storePublicEndpoint (sf_public_endpoint f) (Return None)))
       (db_repo (se_handler env)) d = (Returned x, o1, e1, d1)"
    "trim_space (sf_nss_token f) \<noteq> ''''" "d' = Some d1"
    "sv_nss_hash srv = WithNSSToken (h_hash (se_handler env)) (trim_space (sf_nss_token f))"
    "(if trim_space (sf_nss_config f) \<noteq> ''''
      then WriteNSSConfig (se_write env) (trim_space (sf_nss_config f)) (sf_listen f) (trim_space (sf_nss_token f)) fs
      else (None, fs)) = (None, fs')"
proof -
  have layout: "Validate ids = None" if "LoadIDLayout (se_lookup env) = Inr ids" for ids
    using that by (auto simp: LoadIDLayout_def split: sum.splits option.splits)
  obtain level ids x o1 e1 d1 where r: "LoadIDLayout (se_lookup env) = Inr ids"
    "run_prog (storeAdminKey (se_cli env) (sf_admin_key f) (storePublicEndpoint (sf_public_endpoint f) (Return None)))
       (db_repo (se_handler env)) d = (Returned x, o1, e1, d1)"
    "trim_space (sf_nss_token f) \<noteq> ''''" "d' = Some d1" "srv = build_server env f level ids (trim_space (sf_nss_token f))"
    "(if trim_space (sf_nss_config f) \<noteq> ''''
      then WriteNSSConfig (se_write env) (trim_space (sf_nss_config f)) (sf_listen f) (trim_space (sf_nss_token f)) fs
      else (None, fs)) = (None, fs')"
    using assms by (auto simp: runServe_def Let_def split: sum.splits outcome.splits if_splits option.splits prod.splits)
  show thesis
    using layout [OF r(1)] by (intro that [OF _ r(2-4) _ r(6)]) (simp_all add: r(5) build_server_def Let_def)
qed


definition demo_serve_env :: serve_env where
  "demo_serve_env =
     \<lparr>se_cli = demo_env, se_lookup = (\<lambda>v. None), se_layout_text = (\<lambda>e. []), se_open = Inr empty_db, se_duration = itoa,
      se_write = \<lparr>we_dir = ''/etc'', we_temp = ''/etc/.nss_http.1.json'', we_fault = None\<rparr>, se_version = ''v1'',
      se_handler = demo_handler\<lparr>h_hash := (#) CHR ''h''\<rparr>\<rparr>"

definition demo_serve_flags :: serve_flags where
  "demo_serve_flags =
     \<lparr>sf_listen = ''127.0.0.1:8080'', sf_data = ''db'', sf_interval = 300, sf_nss_token = '' secret'',
      sf_nss_config = ''/etc/nss_http.json'', sf_rest_token = [], sf_update_check = True, sf_retention = 7, sf_prune_interval = 0,
      sf_log_level = [], sf_admin_key = [], sf_public_endpoint = ''host''\<rparr>"

lemma demo_serves: "\<exists>srv d' fs'. runServe demo_serve_env demo_serve_flags Map.empty = (Inr srv, d', fs')"
proof -
  have "trim_space [] = []" "trim_space '' secret'' = ''secret''" "trim_space ''/etc/nss_http.json'' = ''/etc/nss_http.json''"
    by code_simp+
  moreover have "parse_level (ce_fold demo_env) (ce_quote demo_env) [] = Inr LevelInfo"
    by (simp add: parse_level_def to_lower_def is_ascii_def) code_simp
  ultimately show ?thesis
    using default_loads
    by (simp add: runServe_def demo_serve_env_def demo_serve_flags_def admin_key_stored endpoint_stored WriteNSSConfig_def
        fault_at_def Let_def)
qed


section \<open>The static token\<close>

text \<open>
  Unlike the login lookup's token, the static administrator's token is stored as it was given,
  while what a request presents is trimmed: a token with space around it never matches.
\<close>

lemma presented_token_trimmed: "withBearerToken E header = Some t \<Longrightarrow> trim_space t = t"
  by (auto simp: withBearerToken_def Let_def trim_space_idem split: if_splits)

lemma padded_rest_token_unusable:
  assumes "trim_space tok \<noteq> tok" "inj H" "H tok \<noteq> ''''" "withBearerToken E header = Some t"
  shows "H t \<noteq> WithRESTAPIToken H tok"
proof
  assume "H t = WithRESTAPIToken H tok"
  moreover have "tok \<noteq> ''''" using assms(1) by (auto simp: trim_space_def)
  ultimately have "t = tok" using assms(2) by (simp add: WithRESTAPIToken_def inj_eq)
  then show False using presented_token_trimmed [OF assms(4)] assms(1) by simp
qed

section \<open>Secrets in the settings\<close>

text \<open>
  What the settings show of a connection string does not depend on its password, as long as that
  holds no \<open>@\<close>; what follows one in a password is shown.
\<close>

lemma masked_password:
  assumes "CHR '':'' \<notin> set user" "CHR 0x40 \<notin> set (user @ pass)"
  shows "maskDataSource (''postgres://'' @ user @ CHR '':'' # pass @ CHR 0x40 # host) =
    ''postgres://'' @ user @ '':***'' @ CHR 0x40 # host"
proof -
  have "go_cut CHR 0x40 ((user @ CHR '':'' # pass) @ CHR 0x40 # host) = (user @ CHR '':'' # pass, host, True)"
    using assms(2) by (intro go_cut_append) auto
  moreover have "go_cut CHR '':'' (user @ CHR '':'' # pass) = (user, pass, True)"
    using assms(1) by (rule go_cut_append)
  ultimately show ?thesis by (simp add: maskDataSource_def has_prefix_def)
qed

lemma password_with_at_shown:
  assumes "CHR '':'' \<notin> set user" "CHR 0x40 \<notin> set (user @ p1)"
  shows "maskDataSource (''postgres://'' @ user @ CHR '':'' # (p1 @ CHR 0x40 # p2) @ CHR 0x40 # host) =
    ''postgres://'' @ user @ '':***'' @ CHR 0x40 # p2 @ CHR 0x40 # host"
  using masked_password [OF assms, of "p2 @ CHR 0x40 # host"] by simp

end
