(* ===== verification/SessionProcess.thy ===== *)
theory SessionProcess
  imports SessionDispatch Startup
begin

text \<open>
  \<open>cmd/proxpass/main.go\<close> from \<open>sshd\<close>'s side: \<open>authorized-keys\<close> and \<open>session\<close>, and the exchange and
  revocation of \<open>internal/session/apiclient.go\<close>. A session is one process: it spends the token it
  was given, runs as the identity that comes back, and gives its credential up. What the server's
  database goes through while it runs is an argument.
\<close>

section \<open>The client of the loopback API\<close>

record session_env =
  sn_hash :: "gostring \<Rightarrow> gostring"
  sn_fold :: "bytes \<Rightarrow> bytes"
  sn_efold :: "bytes \<Rightarrow> bytes \<Rightarrow> bool"
  sn_quote :: "gostring \<Rightarrow> gostring"
  sn_rest :: gostring
  sn_order :: "int list \<Rightarrow> int list"
  sn_keyfile :: "gostring + gostring"
  sn_now :: time
  sn_fresh :: gostring
  sn_reachable :: bool
  sn_revocable :: bool
  sn_meanwhile :: "db \<Rightarrow> db"

definition bearer :: "gostring \<Rightarrow> gostring" where
  "bearer tok = ''Bearer '' @ tok"

definition exchange_error :: "'a reply \<Rightarrow> gostring" where
  "exchange_error r =
     (case r of
        Unauthorized401 msg \<Rightarrow> ''the API rejected this session'' @ [CHR 0x27] @ ''s credential''
      | Forbidden403 msg \<Rightarrow> ''forbidden''
      | _ \<Rightarrow> ''/session/exchange: 500 Internal Server Error'')"

definition client_Exchange :: "session_env \<Rightarrow> gostring \<Rightarrow> db \<Rightarrow> (gostring + session_credential) \<times> db" where
  "client_Exchange env tok d =
     (if tok = '''' then (Inl ''no session token in the environment'', d)
      else if \<not> sn_reachable env then (Inl ''calling /session/exchange'', d)
      else case ExchangeSessionToken (sn_hash env) (sn_now env) (sn_fresh env) (withBearerToken (sn_efold env) (bearer tok)) d of
        (OK200 sc, d) \<Rightarrow> (Inr sc, d)
      | (r, d) \<Rightarrow> (Inl (exchange_error r), d))"

text \<open>\<open>Revoke\<close>, whose error is only logged.\<close>

definition client_Revoke :: "session_env \<Rightarrow> gostring \<Rightarrow> db \<Rightarrow> db" where
  "client_Revoke env credential d =
     (if credential = '''' \<or> \<not> sn_revocable env then d
      else snd (RevokeSessionCredential (sn_hash env) (withBearerToken (sn_efold env) (bearer credential)) d))"

definition identity_of :: "identity_response \<Rightarrow> identity" where
  "identity_of r =
     \<lparr>id_login = ir_login r, id_name = ir_name r, id_admin = ir_admin r,
      id_client = (case ir_client r of None \<Rightarrow> 0 | Some c \<Rightarrow> c)\<rparr>"

definition exchangeIdentity :: "session_env \<Rightarrow> gostring \<Rightarrow> db \<Rightarrow> (gostring + gostring \<times> identity) \<times> db" where
  "exchangeIdentity env mintedToken d =
     (if mintedToken = '''' then (Inl ''no session token in the environment; is PermitUserEnvironment set?'', d)
      else case client_Exchange env mintedToken d of
        (Inl e, d) \<Rightarrow> (Inl e, d)
      | (Inr sc, d) \<Rightarrow> (Inr (sc_token sc, identity_of (sc_identity sc)), d))"

section \<open>The session\<close>

record session_args =
  sa_user :: gostring
  sa_command :: gostring
  sa_log_level :: gostring
  sa_token :: gostring

definition deps_for :: "session_env \<Rightarrow> session_deps \<Rightarrow> gostring \<Rightarrow> gostring \<Rightarrow> identity \<Rightarrow> db \<Rightarrow> session_deps" where
  "deps_for env deps command credential ident d =
     deps\<lparr>sd_dir := api_directory (sn_hash env) (sn_rest env) (sn_order env) (sn_keyfile env) (sn_now env)
            (withBearerToken (sn_efold env) (bearer credential)) d,
          sd_login := id_login ident, sd_identity := id_name ident, sd_admin := id_admin ident, sd_command := command\<rparr>"

text \<open>The error it ends with before it runs, or its effects and exit code; and the database after it.\<close>

definition runSession ::
  "session_env \<Rightarrow> session_deps \<Rightarrow> session_args \<Rightarrow> db \<Rightarrow> (gostring + session_effect list \<times> int) \<times> db" where
  "runSession env deps args d =
     (if sa_user args = '''' then (Inl ''no user; sshd should set $USER'', d)
      else case parse_level (sn_fold env) (sn_quote env) (sa_log_level args) of
        Inl e \<Rightarrow> (Inl e, d)
      | Inr level \<Rightarrow>
          (case exchangeIdentity env (sa_token args) d of
             (Inl e, d) \<Rightarrow>
               (Inl (''could not reach the proxpass API ('' @ e @ ''); a session cannot run without it -- check that '' @
                     [CHR 0x60] @ ''proxpass serve'' @ [CHR 0x27] @ '' is up and that sshd sets '' @ TokenEnv), d)
           | (Inr (credential, ident), d) \<Rightarrow>
               (Inr (session_run (sn_fold env) (sn_efold env) (deps_for env deps (sa_command args) credential ident d)),
                client_Revoke env credential (sn_meanwhile env d))))"

text \<open>\<open>authorized-keys\<close>: nothing for no user, otherwise the lines of \<open>WriteAuthorizedKeys\<close>.\<close>

definition runAuthorizedKeys :: "gostring \<Rightarrow> gostring + db \<Rightarrow> (db \<Rightarrow> 'r) \<Rightarrow> 'r \<Rightarrow> gostring + 'r" where
  "runAuthorizedKeys user opened write nothing =
     (if user = '''' then Inr nothing
      else case opened of
        Inl e \<Rightarrow> Inl (''failed to open database: '' @ e)
      | Inr d \<Rightarrow> Inr (write d))"

section \<open>Properties\<close>

lemma bearer_token: "withBearerToken E (bearer tok) = (if trim_space tok = '''' then None else Some (trim_space tok))"
proof -
  have "equal_fold E ''Bearer '' ''Bearer ''" by (simp add: equal_fold_def is_ascii_def)
  moreover have "tok = '''' \<Longrightarrow> trim_space tok = ''''" by (simp add: trim_space_def)
  ultimately show ?thesis by (auto simp: withBearerToken_def bearer_prefix_def bearer_def Let_def)
qed

lemma identity_roundtrip: "identity_of (identityResponse i) = i"
  by (simp add: identity_of_def identityResponse_def)

lemma revoked_unknown:
  assumes "H tok \<noteq> rest"
  shows "callerIdentity H rest t (Some tok) (RevokeAPISession (H tok) d) = Inl NoSuchToken"
proof -
  have "find (token_live (H tok) t) (filter (\<lambda>r. tk_hash r \<noteq> H tok) rs) = None" for rs
    by (auto simp: find_None_iff token_live_def)
  then show ?thesis
    using assms by (simp add: callerIdentity_def LookupAPISession_def RevokeAPISession_def)
qed


definition demo_session_env :: session_env where
  "demo_session_env =
     \<lparr>sn_hash = id, sn_fold = id, sn_efold = (=), sn_quote = id, sn_rest = [], sn_order = id, sn_keyfile = Inr [], sn_now = 10,
      sn_fresh = ''c'', sn_reachable = True, sn_revocable = True, sn_meanwhile = id\<rparr>"

definition demo_args :: session_args where
  "demo_args = \<lparr>sa_user = ''mallory'', sa_command = [], sa_log_level = [], sa_token = ''t''\<rparr>"


end
