(* ===== verification/Background.thy ===== *)
theory Background
  imports Startup
begin

text \<open>
  What a server does beside answering: \<open>internal/api/activitypruner.go\<close>, \<open>internal/api/latestversion.go\<close>
  and the tickers of \<open>cmd/proxpass/main.go\<close>'s loops. Time is an argument, in the unit of the log's
  time stamps; so are GitHub's answer and the comparison of versions (\<open>golang.org/x/mod/semver\<close>).
\<close>

section \<open>The activity log over time\<close>

text \<open>\<open>time.NewTicker\<close> panics for a duration that is not positive.\<close>

definition new_ticker :: "int \<Rightarrow> int option" where
  "new_ticker interval = (if interval \<le> 0 then None else Some interval)"

definition pruneOnce :: "activity_pruner \<Rightarrow> time \<Rightarrow> db \<Rightarrow> db" where
  "pruneOnce p now d = snd (DeleteActivityOlderThan (now - ap_retention p) d)"

text \<open>A row logged, or the pruner's turn (its first, and one per tick).\<close>

datatype log_event_step = LogEvent activity_event | PrunerTurn time

fun log_turn :: "activity_pruner \<Rightarrow> log_event_step \<Rightarrow> db \<Rightarrow> db" where
  "log_turn p (LogEvent ev) d = snd (AddActivityEvent ev d)"
| "log_turn p (PrunerTurn now) d = (if ap_retention p \<le> 0 then d else pruneOnce p now d)"

definition log_run :: "activity_pruner \<Rightarrow> log_event_step list \<Rightarrow> db \<Rightarrow> db" where
  "log_run p steps d = fold (log_turn p) steps d"

lemma log_run_simps [simp]:
  "log_run p [] d = d" "log_run p (s # steps) d = log_run p steps (log_turn p s d)"
  "log_run p (steps @ steps') d = log_run p steps' (log_run p steps d)"
  by (simp_all add: log_run_def)

lemma pruned_rows: "d_activity (pruneOnce p now d) = filter (\<lambda>e. now - ap_retention p \<le> ev_at e) (d_activity d)"
  by (simp add: pruneOnce_def DeleteActivityOlderThan_def not_less)

lemma logged_rows: "d_activity (snd (AddActivityEvent ev d)) = d_activity d @ [ev\<lparr>ev_id := d_seq_activity d\<rparr>]"
  by (simp add: AddActivityEvent_def Let_def)

text \<open>A row outlives every turn in whose window it is, and without a retention every turn.\<close>

lemma row_kept:
  assumes "e \<in> set (d_activity d)"
    "0 < ap_retention p \<Longrightarrow> \<forall>now. PrunerTurn now \<in> set steps \<longrightarrow> now - ap_retention p \<le> ev_at e"
  shows "e \<in> set (d_activity (log_run p steps d))"
  using assms
proof (induction steps arbitrary: d)
  case (Cons s steps)
  then have "e \<in> set (d_activity (log_turn p s d))"
    by (cases s) (auto simp: logged_rows pruned_rows)
  then show ?case using Cons by simp
qed simp

lemma young_rows:
  assumes "\<forall>e\<in>set (d_activity d). low \<le> ev_at e" "\<forall>ev. LogEvent ev \<in> set steps \<longrightarrow> low \<le> ev_at ev"
  shows "\<forall>e\<in>set (d_activity (log_run p steps d)). low \<le> ev_at e"
  using assms
proof (induction steps arbitrary: d)
  case (Cons s steps)
  have "\<forall>e\<in>set (d_activity (log_turn p s d)). low \<le> ev_at e"
    using Cons.prems by (cases s) (auto simp: logged_rows pruned_rows)
  then show ?case using Cons.IH Cons.prems(2) by simp
qed simp

text \<open>with the pruner a server starts with, the log keeps every row for the whole retention and
  none for longer than the retention and one interval: no turn removes a row that is younger than
  the retention, and up to the next turn no row is older than the two together, whatever is
  logged meanwhile. The interval is positive whatever was configured, so the ticker does not
  panic; with no retention nothing is removed.\<close>

theorem log_age_bounded:
  assumes "p = NewActivityPruner retention interval" "0 < retention"
    and "\<forall>ev. LogEvent ev \<in> set later \<longrightarrow> turn \<le> ev_at ev" "now \<le> turn + ap_interval p"
  shows "new_ticker (ap_interval p) \<noteq> None \<and>
    (\<forall>e\<in>set (d_activity (log_run p (steps @ PrunerTurn turn # later) d)). now - ev_at e \<le> retention + ap_interval p) \<and>
    (\<forall>e\<in>set (d_activity d). (\<forall>t. PrunerTurn t \<in> set steps \<longrightarrow> t - ev_at e \<le> retention) \<longrightarrow>
       e \<in> set (d_activity (log_run p steps d)))"
proof (intro conjI)
  have p: "ap_retention p = retention" "0 < ap_interval p"
    by (simp_all add: assms(1) NewActivityPruner_def defaultActivityPruneInterval_def)
  show "new_ticker (ap_interval p) \<noteq> None" using p by (simp add: new_ticker_def)
  have "\<forall>e\<in>set (d_activity (log_turn p (PrunerTurn turn) (log_run p steps d))). turn - retention \<le> ev_at e"
    using assms(2) by (simp add: p pruned_rows)
  moreover have "\<forall>ev. LogEvent ev \<in> set later \<longrightarrow> turn - retention \<le> ev_at ev"
    using assms(2,3) by (meson diff_le_eq le_add_same_cancel1 less_imp_le order_trans)
  ultimately have "\<forall>e\<in>set (d_activity (log_run p later (log_turn p (PrunerTurn turn) (log_run p steps d)))). turn - retention \<le> ev_at e"
    by (rule young_rows)
  then show "\<forall>e\<in>set (d_activity (log_run p (steps @ PrunerTurn turn # later) d)). now - ev_at e \<le> retention + ap_interval p"
    using assms(4) by fastforce
  show "\<forall>e\<in>set (d_activity d). (\<forall>t. PrunerTurn t \<in> set steps \<longrightarrow> t - ev_at e \<le> retention) \<longrightarrow>
       e \<in> set (d_activity (log_run p steps d))"
    using p by (intro ballI impI row_kept) (auto simp: algebra_simps)
qed

theorem log_age_bounded_witness:
  "\<exists>d. d_activity d \<noteq> [] \<and> (\<forall>e\<in>set (d_activity (log_run (NewActivityPruner 100 0) ([] @ PrunerTurn 500 # []) d)). 600 - ev_at e \<le> 100 + 3600 * 1000000000)"
proof -
  let ?p = "NewActivityPruner 100 0"
  let ?d = "empty_db\<lparr>d_activity := [\<lparr>ev_id = 1, ev_event = [], ev_actor = [], ev_at = 450, ev_params = []\<rparr>]\<rparr>"
  have i: "ap_interval ?p = 3600 * 1000000000" by (simp add: NewActivityPruner_def defaultActivityPruneInterval_def)
  have "\<forall>e\<in>set (d_activity (log_run ?p ([] @ PrunerTurn 500 # []) ?d)). 600 - ev_at e \<le> 100 + ap_interval ?p"
    by (rule log_age_bounded [THEN conjunct2, THEN conjunct1, OF refl]) (simp_all add: i)
  then show ?thesis unfolding i by (intro exI [of _ ?d]) simp
qed

text \<open>The discovery loop takes its interval as it is configured: one that is not positive ends the server.\<close>

lemma interval_passed_on: "runServe env f fs = (Inr srv, d', fs') \<Longrightarrow> sv_discovery_interval srv = sf_interval f"
  by (auto simp: runServe_def build_server_def Let_def split: sum.splits outcome.splits if_splits option.splits prod.splits)

lemma zero_interval_crashes:
  "runServe env f fs = (Inr srv, d', fs') \<Longrightarrow> sf_interval f \<le> 0 \<Longrightarrow> new_ticker (sv_discovery_interval srv) = None"
  using interval_passed_on by (simp add: new_ticker_def)

section \<open>The latest release\<close>

record release =
  rl_tag :: gostring
  rl_url :: gostring

record latest_state =
  lt_cache :: "release option"
  lt_fetched :: time

definition latestVersionTTL :: time where "latestVersionTTL = 6 * 3600"

text \<open>The answer, the state after it, and whether GitHub was asked; \<open>fetch\<close> is what it answered.\<close>

definition latestResult :: "time \<Rightarrow> time \<Rightarrow> gostring + release \<Rightarrow> latest_state \<Rightarrow> release \<times> latest_state \<times> bool" where
  "latestResult now after fetch s =
     (case lt_cache s of
        Some rel \<Rightarrow>
          if now - lt_fetched s < latestVersionTTL then (rel, s, False)
          else (case fetch of
                  Inl e \<Rightarrow> (rel, s, True)
                | Inr new \<Rightarrow> (new, \<lparr>lt_cache = Some new, lt_fetched = after\<rparr>, True))
      | None \<Rightarrow>
          (case fetch of
             Inl e \<Rightarrow> (\<lparr>rl_tag = [], rl_url = []\<rparr>, s, True)
           | Inr new \<Rightarrow> (new, \<lparr>lt_cache = Some new, lt_fetched = after\<rparr>, True)))"

definition updateAvailable ::
  "(gostring \<Rightarrow> bool) \<Rightarrow> (gostring \<Rightarrow> gostring \<Rightarrow> int) \<Rightarrow> gostring \<Rightarrow> gostring \<Rightarrow> bool" where
  "updateAvailable valid compare current latest \<longleftrightarrow>
     (if \<not> valid current \<or> \<not> valid latest then False else compare latest current > 0)"

record latest_version =
  lv_current :: gostring
  lv_latest :: gostring
  lv_url :: gostring
  lv_available :: bool

definition GetLatestVersion ::
  "(gostring \<Rightarrow> bool) \<Rightarrow> (gostring \<Rightarrow> gostring \<Rightarrow> int) \<Rightarrow> bool \<Rightarrow> time \<Rightarrow> gostring + release \<Rightarrow> handler \<Rightarrow> api_call \<Rightarrow>
   latest_state \<Rightarrow> db \<Rightarrow> latest_version reply \<times> latest_state" where
  "GetLatestVersion valid compare updateCheck after fetch h c s d =
     (case gateAdmin h c d of
        Some denied \<Rightarrow> (denied, s)
      | None \<Rightarrow>
          let current = (if h_version h = '''' then ''dev'' else h_version h) in
          if updateCheck
          then (let (rel, s, asked) = latestResult (c_now c) after fetch s
                in (OK200 \<lparr>lv_current = current, lv_latest = rl_tag rel, lv_url = rl_url rel,
                           lv_available = updateAvailable valid compare current (rl_tag rel)\<rparr>, s))
          else (OK200 \<lparr>lv_current = current, lv_latest = [], lv_url = [], lv_available = False\<rparr>, s))"

text \<open>After an answer GitHub is not asked again for the time to live; while it fails, every poll asks.\<close>

lemma asked_once:
  assumes "latestResult now after (Inr rel) s = (r, s', True)" "now' < after + latestVersionTTL"
  shows "latestResult now' after' fetch s' = (rel, s', False)"
  using assms by (auto simp: latestResult_def split: option.splits if_splits)

lemma failing_asks_again:
  assumes "latestResult now after (Inl e) s = (r, s', True)" "now \<le> now'"
  shows "\<exists>r'. latestResult now' after' (Inl e') s' = (r', s', True)"
  using assms by (auto simp: latestResult_def split: option.splits if_splits)

text \<open>A development build is never offered an update, but is told the latest release all the same.\<close>

lemma dev_build_told:
  assumes "(gateAdmin h c d :: latest_version reply option) = None" "h_version h = ''''" "\<not> valid ''dev''" "lt_cache s = None"
  shows "fst (GetLatestVersion valid compare True after (Inr rel) h c s d) =
    OK200 \<lparr>lv_current = ''dev'', lv_latest = rl_tag rel, lv_url = rl_url rel, lv_available = False\<rparr>"
  using assms by (simp add: GetLatestVersion_def latestResult_def updateAvailable_def)

end
