(* ===== verification/AdminRpc.thy ===== *)
theory AdminRpc
  imports HelperProtocol SshConsole Tokens
begin

text \<open>
  The two operations on the deployment's SSH key, which are not resources of the REST API:
  \<open>internal/api/adminrpc.go\<close> and \<open>sshkeyops.go\<close> on the server's side, \<open>sshRPC\<close>, \<open>SSHPublicKey\<close> and
  \<open>CheckInstanceSSHAccess\<close> of \<open>internal/session/adminrepo.go\<close> on the session's. Requests and answers
  travel as JSON. The key file, the SSH library's answers and the texts of decoding errors are
  arguments.
\<close>

section \<open>Opening a session on a node\<close>

text \<open>A failure: its text, and the host and fingerprint of a key that could not be verified.\<close>

type_synonym dial_failure = "gostring \<times> (gostring \<times> gostring) option"

record key_env =
  ke_hash :: "gostring \<Rightarrow> gostring"
  ke_efold :: "bytes \<Rightarrow> bytes \<Rightarrow> bool"
  ke_quote :: "gostring \<Rightarrow> gostring"
  ke_read :: "gostring + gostring"
  ke_path :: gostring
  ke_public_line :: "gostring \<Rightarrow> gostring + gostring"
  ke_parse :: "gostring \<Rightarrow> gostring option"
  ke_connect :: "gostring \<Rightarrow> gostring option"
  ke_deadline :: "gostring option"
  ke_auth :: "ssh_dial \<Rightarrow> dial_failure option"
  ke_session :: "ssh_dial \<Rightarrow> gostring option"
  ke_decode_error :: gostring

definition dialSSHSession :: "key_env \<Rightarrow> instance_row \<Rightarrow> gostring \<Rightarrow> dial_failure option" where
  "dialSSHSession env inst keyPEM =
     (let d = node_dial inst keyPEM; plain = (\<lambda>what e. Some (what @ e, None)) in
      case ke_parse env keyPEM of
        Some e \<Rightarrow> plain ''parsing the proxpass key: '' e
      | None \<Rightarrow>
     (case ke_connect env (dl_addr d) of
        Some e \<Rightarrow> plain (''connecting to '' @ dl_addr d @ '': '') e
      | None \<Rightarrow>
     (case ke_deadline env of
        Some e \<Rightarrow> plain ''setting deadline: '' e
      | None \<Rightarrow>
     (case ke_auth env d of
        Some (e, unverified) \<Rightarrow> Some (''authenticating as '' @ in_ssh_user inst @ '': '' @ e, unverified)
      | None \<Rightarrow>
     (case ke_session env d of
        Some e \<Rightarrow> plain ''opening a session: '' e
      | None \<Rightarrow> None)))))"

definition no_key_text :: "key_env \<Rightarrow> gostring" where
  "no_key_text env = ''no ssh key at '' @ ke_path env @ '': the container entrypoint generates one at startup, so this deployment is either running an older image or has had the file removed''"

section \<open>What travels\<close>

definition instance_value :: "instance_row \<Rightarrow> jval" where
  "instance_value i = VObj
     [(''id'', VInt (in_id i)), (''name'', VStr (in_name i)), (''api_url'', VStr (in_api_url i)),
      (''api_token_id'', VStr (in_token_id i)), (''api_token_secret'', VStr (in_token_secret i)),
      (''console_transport'', VStr (in_transport i)), (''node'', VStr (in_node i)),
      (''insecure_tls'', VBool (in_insecure_tls i)), (''insecure_ssh'', VBool (in_insecure_ssh i)),
      (''ssh_host'', VStr (in_ssh_host i)), (''ssh_port'', VInt (in_ssh_port i)), (''ssh_user'', VStr (in_ssh_user i)),
      (''ssh_fingerprints'', if in_fps i = [] then VNull else VArr (map VStr (in_fps i)))]"

fun strings_of :: "jval list \<Rightarrow> gostring list option" where
  "strings_of [] = Some []"
| "strings_of (VStr s # vs) = map_option ((#) s) (strings_of vs)"
| "strings_of (VNull # vs) = map_option ((#) []) (strings_of vs)"
| "strings_of (v # vs) = None"

fun strs_field :: "((gostring list \<Rightarrow> gostring list) \<Rightarrow> 'h \<Rightarrow> 'h) \<Rightarrow> jval \<Rightarrow> 'h \<Rightarrow> 'h option" where
  "strs_field upd (VArr vs) h = map_option (\<lambda>ss. upd (\<lambda>_. ss) h) (strings_of vs)"
| "strs_field upd VNull h = Some (upd (\<lambda>_. []) h)"
| "strs_field upd _ h = None"

definition instance_fields :: "instance_row field_table" where
  "instance_fields =
     [(''id'', int64_field in_id_update), (''name'', str_field in_name_update), (''api_url'', str_field in_api_url_update),
      (''api_token_id'', str_field in_token_id_update), (''api_token_secret'', str_field in_token_secret_update),
      (''console_transport'', str_field in_transport_update), (''node'', str_field in_node_update),
      (''insecure_tls'', bool_field in_insecure_tls_update), (''insecure_ssh'', bool_field in_insecure_ssh_update),
      (''ssh_host'', str_field in_ssh_host_update), (''ssh_port'', int64_field in_ssh_port_update),
      (''ssh_user'', str_field in_ssh_user_update), (''ssh_fingerprints'', strs_field in_fps_update)]"

definition zero_instance :: instance_row where
  "zero_instance = \<lparr>in_id = 0, in_name = [], in_api_url = [], in_token_id = [], in_token_secret = [], in_transport = [],
     in_node = [], in_insecure_tls = False, in_insecure_ssh = False, in_ssh_host = [], in_ssh_port = 0, in_ssh_user = [],
     in_fps = []\<rparr>"

text \<open>A pointer to an instance, and a \<open>json.RawMessage\<close>.\<close>

fun instance_field :: "jval \<Rightarrow> instance_row option \<Rightarrow> instance_row option option" where
  "instance_field VNull h = Some None"
| "instance_field v h = map_option Some (decode_struct instance_fields v (case h of None \<Rightarrow> zero_instance | Some i \<Rightarrow> i))"

record rpc_request =
  aq_op :: gostring
  aq_params :: "jval option"

definition rpc_request_fields :: "rpc_request field_table" where
  "rpc_request_fields = [(''op'', str_field aq_op_update), (''params'', \<lambda>v h. Some (h\<lparr>aq_params := Some v\<rparr>))]"

definition rpc_request_value :: "rpc_request \<Rightarrow> jval" where
  "rpc_request_value q = VObj ([(''op'', VStr (aq_op q))] @ (case aq_params q of None \<Rightarrow> [] | Some v \<Rightarrow> [(''params'', v)]))"

record admin_response =
  as_result :: "jval option"
  as_error :: gostring

definition admin_response_fields :: "admin_response field_table" where
  "admin_response_fields = [(''result'', \<lambda>v h. Some (h\<lparr>as_result := Some v\<rparr>)), (''error'', str_field as_error_update)]"

definition admin_response_value :: "admin_response \<Rightarrow> jval" where
  "admin_response_value r =
     VObj ((case as_result r of None \<Rightarrow> [] | Some v \<Rightarrow> [(''result'', v)]) @ omit_str ''error'' (as_error r))"

record access_result =
  ar_ok :: bool
  ar_err :: gostring
  ar_unverified :: "(gostring \<times> gostring) option"

definition access_value :: "access_result \<Rightarrow> jval" where
  "access_value a = VObj ([(''ok'', VBool (ar_ok a))] @ omit_str ''err'' (ar_err a) @
     (case ar_unverified a of None \<Rightarrow> []
      | Some (h, f) \<Rightarrow> [(''no_fingerprint'', VObj [(''host'', VStr h), (''fingerprint'', VStr f)])]))"

record unverified_key =
  uk_host :: gostring
  uk_fingerprint :: gostring

definition unverified_fields :: "unverified_key field_table" where
  "unverified_fields = [(''host'', str_field uk_host_update), (''fingerprint'', str_field uk_fingerprint_update)]"

fun unverified_field :: "jval \<Rightarrow> access_result \<Rightarrow> access_result option" where
  "unverified_field VNull h = Some (h\<lparr>ar_unverified := None\<rparr>)"
| "unverified_field v h =
     map_option (\<lambda>u. h\<lparr>ar_unverified := Some (uk_host u, uk_fingerprint u)\<rparr>)
       (decode_struct unverified_fields v \<lparr>uk_host = [], uk_fingerprint = []\<rparr>)"

definition access_fields :: "access_result field_table" where
  "access_fields = [(''ok'', bool_field ar_ok_update), (''err'', str_field ar_err_update), (''no_fingerprint'', unverified_field)]"

section \<open>The server\<close>

definition getSSHPublicKey :: "key_env \<Rightarrow> gostring + jval" where
  "getSSHPublicKey env =
     (case ke_read env of
        Inl e \<Rightarrow> Inl e
      | Inr pem \<Rightarrow>
          map_sum id (\<lambda>key. VObj [(''key'', VStr key), (''path'', VStr (ke_path env))])
            (if pem \<noteq> '''' then ke_public_line env pem else Inr ''''))"

definition access_params :: "key_env \<Rightarrow> jval option \<Rightarrow> gostring + instance_row option" where
  "access_params env p =
     (case p of
        None \<Rightarrow> Inr None
      | Some v \<Rightarrow>
          (case decode_struct [(''instance'', instance_field)] v None of
             None \<Rightarrow> Inl (ke_decode_error env)
           | Some i \<Rightarrow> Inr i))"

definition access_of :: "dial_failure option \<Rightarrow> access_result" where
  "access_of r =
     (case r of
        None \<Rightarrow> \<lparr>ar_ok = True, ar_err = '''', ar_unverified = None\<rparr>
      | Some (e, unverified) \<Rightarrow> \<lparr>ar_ok = False, ar_err = e, ar_unverified = unverified\<rparr>)"

definition checkInstanceSSHAccess :: "key_env \<Rightarrow> jval option \<Rightarrow> gostring + jval" where
  "checkInstanceSSHAccess env p =
     (case access_params env p of
        Inl e \<Rightarrow> Inl e
      | Inr None \<Rightarrow> Inl ''checking ssh access: no instance given''
      | Inr (Some inst) \<Rightarrow>
          (case ke_read env of
             Inl e \<Rightarrow> Inl e
           | Inr pem \<Rightarrow>
               if pem = '''' then Inl (no_key_text env)
               else Inr (access_value (access_of (dialSSHSession env inst pem)))))"

definition admin_op :: "key_env \<Rightarrow> gostring \<Rightarrow> (jval option \<Rightarrow> gostring + jval) option" where
  "admin_op env name =
     (if name = ''GetSSHPublicKey'' then Some (\<lambda>p. getSSHPublicKey env)
      else if name = ''CheckInstanceSSHAccess'' then Some (checkInstanceSSHAccess env)
      else None)"

datatype admin_auth_error = TokenMissing | TokenUnknown | NotTheAdmin

text \<open>Only a session's credential counts here, never the static token.\<close>

definition adminIdentity :: "key_env \<Rightarrow> time \<Rightarrow> gostring \<Rightarrow> db \<Rightarrow> admin_auth_error + identity" where
  "adminIdentity env now header d =
     (case withBearerToken (ke_efold env) header of
        None \<Rightarrow> Inl TokenMissing
      | Some token \<Rightarrow>
          (case LookupAPISession (ke_hash env token) now d of
             Inl _ \<Rightarrow> Inl TokenUnknown
           | Inr ident \<Rightarrow> if \<not> id_admin ident then Inl NotTheAdmin else Inr ident))"

definition maxAdminBody :: nat where "maxAdminBody = 2 ^ 20"

text \<open>\<open>Decoder.Decode\<close> reads the first value of the body and no further.\<close>

definition decode_first :: "bytes \<Rightarrow> jval option" where
  "decode_first body = map_option fst (parse_value (Suc (length body)) body)"

definition error_reply :: "nat \<Rightarrow> gostring \<Rightarrow> nat \<times> bytes" where
  "error_reply status msg = (status, json_marshal (admin_response_value \<lparr>as_result = None, as_error = msg\<rparr>) @ [CHR 0x0A])"

definition admin_reply :: "admin_response \<Rightarrow> nat \<times> bytes" where
  "admin_reply r = (200, json_marshal (admin_response_value r) @ [CHR 0x0A])"

definition ServeAdminRPC :: "key_env \<Rightarrow> time \<Rightarrow> gostring \<Rightarrow> gostring \<Rightarrow> bytes \<Rightarrow> db \<Rightarrow> nat \<times> bytes" where
  "ServeAdminRPC env now verb header body d =
     (if verb \<noteq> ''POST'' then (405, ''method not allowed'' @ [CHR 0x0A])
      else case adminIdentity env now header d of
        Inl TokenMissing \<Rightarrow> error_reply 401 ''missing token''
      | Inl TokenUnknown \<Rightarrow> error_reply 401 ''invalid token''
      | Inl NotTheAdmin \<Rightarrow> error_reply 403 ''this operation requires the administrator''
      | Inr ident \<Rightarrow>
          (case Option.bind (decode_first (take maxAdminBody body))
                  (\<lambda>v. decode_struct rpc_request_fields v \<lparr>aq_op = [], aq_params = None\<rparr>) of
             None \<Rightarrow> error_reply 400 ''malformed request''
           | Some q \<Rightarrow>
               (case admin_op env (aq_op q) of
                  None \<Rightarrow> admin_reply \<lparr>as_result = None, as_error = ''unknown operation '' @ ke_quote env (aq_op q)\<rparr>
                | Some f \<Rightarrow>
                    (case f (aq_params q) of
                       Inl e \<Rightarrow> admin_reply \<lparr>as_result = None, as_error = e\<rparr>
                     | Inr v \<Rightarrow> admin_reply \<lparr>as_result = Some v, as_error = ''''\<rparr>))))"

section \<open>The session\<close>

text \<open>The status line of the statuses this endpoint answers with.\<close>

definition status_line :: "nat \<Rightarrow> gostring" where
  "status_line status =
     itoa (int status) @ (if status = 400 then '' Bad Request'' else if status = 405 then '' Method Not Allowed'' else '''')"

definition rpc_error :: "nat \<Rightarrow> gostring option" where
  "rpc_error status =
     (if status = 401 then Some (''the API rejected this session'' @ [CHR 0x27] @ ''s credential'')
      else if status = 403 then Some ''this operation requires the administrator''
      else if status < 200 \<or> status > 299 then Some (''/admin/rpc: '' @ status_line status)
      else None)"

text \<open>\<open>sshRPC\<close> over the server: the result's value, absent when there is none.\<close>

definition sshRPC :: "key_env \<Rightarrow> time \<Rightarrow> gostring \<Rightarrow> db \<Rightarrow> gostring \<Rightarrow> jval option \<Rightarrow> gostring + jval option" where
  "sshRPC env now credential d op params =
     (let (status, body) = ServeAdminRPC env now ''POST'' (''Bearer '' @ credential)
            (json_marshal (rpc_request_value \<lparr>aq_op = op, aq_params = params\<rparr>)) d
      in case rpc_error status of
           Some e \<Rightarrow> Inl (op @ '': '' @ e)
         | None \<Rightarrow>
             (case Option.bind (parse_json body)
                     (\<lambda>v. decode_struct admin_response_fields v \<lparr>as_result = None, as_error = []\<rparr>) of
                None \<Rightarrow> Inl (op @ '': decoding /admin/rpc: '' @ ke_decode_error env)
              | Some r \<Rightarrow> if as_error r \<noteq> '''' then Inl (as_error r) else Inr (as_result r)))"

datatype access_answer = AccessOpen | AccessUnverified gostring gostring | AccessRefused gostring

definition answer_of :: "access_result \<Rightarrow> access_answer" where
  "answer_of a =
     (if ar_ok a then AccessOpen
      else case ar_unverified a of
        Some (h, f) \<Rightarrow> AccessUnverified h f
      | None \<Rightarrow> AccessRefused (ar_err a))"

definition CheckInstanceSSHAccess :: "key_env \<Rightarrow> time \<Rightarrow> gostring \<Rightarrow> db \<Rightarrow> instance_row \<Rightarrow> access_answer" where
  "CheckInstanceSSHAccess env now credential d inst =
     (case sshRPC env now credential d ''CheckInstanceSSHAccess'' (Some (VObj [(''instance'', instance_value inst)])) of
        Inl e \<Rightarrow> AccessRefused e
      | Inr r \<Rightarrow>
          (case (case r of None \<Rightarrow> Some \<lparr>ar_ok = False, ar_err = [], ar_unverified = None\<rparr>
                 | Some v \<Rightarrow> decode_struct access_fields v \<lparr>ar_ok = False, ar_err = [], ar_unverified = None\<rparr>) of
             None \<Rightarrow> AccessRefused (''decoding CheckInstanceSSHAccess: '' @ ke_decode_error env)
           | Some a \<Rightarrow> answer_of a))"

definition SSHPublicKey :: "key_env \<Rightarrow> time \<Rightarrow> gostring \<Rightarrow> db \<Rightarrow> gostring + gostring \<times> gostring" where
  "SSHPublicKey env now credential d =
     (case sshRPC env now credential d ''GetSSHPublicKey'' None of
        Inl e \<Rightarrow> Inl e
      | Inr None \<Rightarrow> Inr ([], [])
      | Inr (Some v) \<Rightarrow>
          (case decode_struct [(''key'', str_field apfst), (''path'', str_field apsnd)] v ([], []) of
             None \<Rightarrow> Inl (''decoding GetSSHPublicKey: '' @ ke_decode_error env)
           | Some kp \<Rightarrow> Inr kp))"

section \<open>Round trips\<close>

definition sendable_instance :: "instance_row \<Rightarrow> bool" where
  "sendable_instance i \<longleftrightarrow> in_int64 (in_id i) \<and> in_int64 (in_ssh_port i) \<and>
     list_all valid_utf8 ([in_name i, in_api_url i, in_token_id i, in_token_secret i, in_transport i, in_node i, in_ssh_host i,
       in_ssh_user i] @ in_fps i)"

lemma instance_members:
  "in_int64 i \<Longrightarrow> decode_member instance_fields (''id'', VInt i) h = Some (h\<lparr>in_id := i\<rparr>)"
  "decode_member instance_fields (''name'', VStr s) h = Some (h\<lparr>in_name := s\<rparr>)"
  "decode_member instance_fields (''api_url'', VStr s) h = Some (h\<lparr>in_api_url := s\<rparr>)"
  "decode_member instance_fields (''api_token_id'', VStr s) h = Some (h\<lparr>in_token_id := s\<rparr>)"
  "decode_member instance_fields (''api_token_secret'', VStr s) h = Some (h\<lparr>in_token_secret := s\<rparr>)"
  "decode_member instance_fields (''console_transport'', VStr s) h = Some (h\<lparr>in_transport := s\<rparr>)"
  "decode_member instance_fields (''node'', VStr s) h = Some (h\<lparr>in_node := s\<rparr>)"
  "decode_member instance_fields (''insecure_tls'', VBool b) h = Some (h\<lparr>in_insecure_tls := b\<rparr>)"
  "decode_member instance_fields (''insecure_ssh'', VBool b) h = Some (h\<lparr>in_insecure_ssh := b\<rparr>)"
  "decode_member instance_fields (''ssh_host'', VStr s) h = Some (h\<lparr>in_ssh_host := s\<rparr>)"
  "in_int64 i \<Longrightarrow> decode_member instance_fields (''ssh_port'', VInt i) h = Some (h\<lparr>in_ssh_port := i\<rparr>)"
  "decode_member instance_fields (''ssh_user'', VStr s) h = Some (h\<lparr>in_ssh_user := s\<rparr>)"
  "decode_member instance_fields (''ssh_fingerprints'', v) h = strs_field in_fps_update v h"
  by (simp_all add: decode_member_def instance_fields_def in_int64_def)

lemma strings_roundtrip: "strings_of (map VStr ss) = Some ss"
  by (induction ss) simp_all

lemma decode_instance:
  assumes "sendable_instance i"
  shows "decode_struct instance_fields (instance_value i) zero_instance = Some i"
proof -
  have "strs_field in_fps_update (if in_fps i = [] then VNull else VArr (map VStr (in_fps i))) h = Some (h\<lparr>in_fps := in_fps i\<rparr>)"
    for h :: instance_row
    by (simp add: strings_roundtrip)
  then show ?thesis using assms
    by (simp add: instance_value_def instance_members sendable_instance_def zero_instance_def del: strs_field.simps)
qed

lemma instance_value_clean:
  assumes "sendable_instance i"
  shows "json_clean (instance_value i) = instance_value i" "no_float (instance_value i)"
  using assms
  by (auto simp: instance_value_def sendable_instance_def valid_utf8_def clean_ascii is_ascii_def list_all_iff)

lemma access_members:
  "decode_member access_fields (''ok'', VBool b) h = Some (h\<lparr>ar_ok := b\<rparr>)"
  "decode_member access_fields (''err'', VStr s) h = Some (h\<lparr>ar_err := s\<rparr>)"
  "decode_member access_fields (''no_fingerprint'', VObj m) h = unverified_field (VObj m) h"
  by (simp_all add: decode_member_def access_fields_def)

lemma unverified_members:
  "decode_member unverified_fields (''host'', VStr s) h = Some (h\<lparr>uk_host := s\<rparr>)"
  "decode_member unverified_fields (''fingerprint'', VStr s) h = Some (h\<lparr>uk_fingerprint := s\<rparr>)"
  by (simp_all add: decode_member_def unverified_fields_def)

lemma decode_access:
  "decode_struct access_fields (access_value a) \<lparr>ar_ok = False, ar_err = [], ar_unverified = None\<rparr> = Some a"
  by (cases a)
     (auto simp: access_value_def omit_def access_members unverified_members split: option.splits prod.splits)

definition sendable_access :: "access_result \<Rightarrow> bool" where
  "sendable_access a \<longleftrightarrow> valid_utf8 (ar_err a) \<and>
     (case ar_unverified a of None \<Rightarrow> True | Some (h, f) \<Rightarrow> valid_utf8 h \<and> valid_utf8 f)"

lemma access_value_clean:
  assumes "sendable_access a"
  shows "json_clean (access_value a) = access_value a" "no_float (access_value a)"
  using assms
  by (auto simp: access_value_def sendable_access_def omit_def valid_utf8_def clean_ascii is_ascii_def
      split: option.splits prod.splits)

text \<open>A value read back from what was written, alone or with a newline behind it.\<close>

lemma decode_first_marshal:
  assumes "no_float v" "length (json_marshal v) \<le> maxAdminBody"
  shows "decode_first (take maxAdminBody (json_marshal v)) = Some (json_clean v)"
  using parse_value_marshal [of v "[]" "Suc (length (json_marshal v))"] assms
  by (simp add: decode_first_def num_end_close)

lemma parse_line_marshal: "no_float v \<Longrightarrow> parse_json (json_marshal v @ [CHR 0x0A]) = Some (json_clean v)"
  using parse_value_marshal [of v "[CHR 0x0A]" "Suc (Suc (length (json_marshal v)))"]
  by (simp add: parse_json_def num_end_def is_digit_def skip_ws_def is_ws_def)

lemma rpc_request_roundtrip:
  "decode_struct rpc_request_fields (rpc_request_value \<lparr>aq_op = op, aq_params = Some v\<rparr>) \<lparr>aq_op = [], aq_params = None\<rparr> =
     Some \<lparr>aq_op = op, aq_params = Some v\<rparr>"
  by (simp add: rpc_request_value_def rpc_request_fields_def decode_member_def)

lemma admin_response_roundtrip:
  "decode_struct admin_response_fields (admin_response_value r) \<lparr>as_result = None, as_error = []\<rparr> = Some r"
  by (cases r) (auto simp: admin_response_value_def admin_response_fields_def decode_member_def omit_def split: option.splits)

lemma admin_response_clean:
  assumes "valid_utf8 (as_error r)" "\<And>v. as_result r = Some v \<Longrightarrow> json_clean v = v \<and> no_float v"
  shows "json_clean (admin_response_value r) = admin_response_value r" "no_float (admin_response_value r)"
  using assms
  by (auto simp: admin_response_value_def omit_def valid_utf8_def clean_ascii is_ascii_def split: option.splits)

section \<open>Properties\<close>

text \<open>What the server itself finds.\<close>

definition local_access :: "key_env \<Rightarrow> instance_row \<Rightarrow> access_answer" where
  "local_access env inst =
     (case ke_read env of
        Inl e \<Rightarrow> AccessRefused e
      | Inr pem \<Rightarrow> if pem = '''' then AccessRefused (no_key_text env) else answer_of (access_of (dialSSHSession env inst pem)))"

text \<open>Who a credential is, read off the sessions the server keeps.\<close>

lemma admin_of_credential:
  "adminIdentity env now (''Bearer '' @ credential) d =
     (if trim_space credential = '''' then Inl TokenMissing
      else case live_in (d_sessions d) (ke_hash env (trim_space credential)) now of
        None \<Rightarrow> Inl TokenUnknown
      | Some i \<Rightarrow> if id_admin i then Inr i else Inl NotTheAdmin)"
proof -
  have "equal_fold (ke_efold env) ''Bearer '' ''Bearer ''" by (simp add: equal_fold_def is_ascii_def)
  moreover have "credential = '''' \<Longrightarrow> trim_space credential = ''''" by (simp add: trim_space_def)
  ultimately show ?thesis
    by (auto simp: adminIdentity_def withBearerToken_def bearer_prefix_def LookupAPISession_def live_in_def Let_def
        split: option.splits)
qed

text \<open>The answer over the API, by what the server makes of the caller.\<close>

lemma access_check_cases:
  assumes "sendable_instance inst"
    "length (json_marshal (rpc_request_value \<lparr>aq_op = ''CheckInstanceSSHAccess'', aq_params = Some (VObj [(''instance'', instance_value inst)])\<rparr>)) \<le> maxAdminBody"
    "\<And>pem. ke_read env = Inr pem \<Longrightarrow> sendable_access (access_of (dialSSHSession env inst pem))"
    "\<And>e. ke_read env = Inl e \<Longrightarrow> e \<noteq> '''' \<and> valid_utf8 e" "valid_utf8 (no_key_text env)"
  shows "CheckInstanceSSHAccess env now credential d inst =
    (case adminIdentity env now (''Bearer '' @ credential) d of
       Inr ident \<Rightarrow> local_access env inst
     | Inl NotTheAdmin \<Rightarrow> AccessRefused ''CheckInstanceSSHAccess: this operation requires the administrator''
     | Inl _ \<Rightarrow> AccessRefused (''CheckInstanceSSHAccess: the API rejected this session'' @ [CHR 0x27] @ ''s credential''))"
proof (cases "adminIdentity env now (''Bearer '' @ credential) d")
  case (Inl e)
  then show ?thesis
    by (cases e) (simp_all add: CheckInstanceSSHAccess_def sshRPC_def ServeAdminRPC_def error_reply_def rpc_error_def)
next
  case (Inr ident)
  let ?params = "VObj [(''instance'', instance_value inst)]"
  let ?q = "\<lparr>aq_op = ''CheckInstanceSSHAccess'', aq_params = Some ?params\<rparr>"
  note inst = instance_value_clean [OF assms(1)]
  have "json_clean (rpc_request_value ?q) = rpc_request_value ?q" "no_float (rpc_request_value ?q)"
    using inst by (simp_all add: rpc_request_value_def clean_ascii is_ascii_def)
  then have body: "Option.bind (decode_first (take maxAdminBody (json_marshal (rpc_request_value ?q))))
      (\<lambda>v. decode_struct rpc_request_fields v \<lparr>aq_op = [], aq_params = None\<rparr>) = Some ?q"
    using decode_first_marshal [OF _ assms(2)] rpc_request_roundtrip by simp
  have params: "access_params env (Some ?params) = Inr (Some inst)"
    using decode_instance [OF assms(1)]
    by (simp add: access_params_def decode_member_def instance_value_def)
  have reply: "Option.bind (parse_json (json_marshal (admin_response_value r) @ [CHR 0x0A]))
      (\<lambda>v. decode_struct admin_response_fields v \<lparr>as_result = None, as_error = []\<rparr>) = Some r"
    if "valid_utf8 (as_error r)" "\<And>v. as_result r = Some v \<Longrightarrow> json_clean v = v \<and> no_float v" for r
    using admin_response_clean [OF that] parse_line_marshal admin_response_roundtrip by simp
  have serve: "ServeAdminRPC env now ''POST'' (''Bearer '' @ credential) (json_marshal (rpc_request_value ?q)) d =
      (case checkInstanceSSHAccess env (Some ?params) of
         Inl e \<Rightarrow> admin_reply \<lparr>as_result = None, as_error = e\<rparr>
       | Inr v \<Rightarrow> admin_reply \<lparr>as_result = Some v, as_error = ''''\<rparr>)"
    using Inr body by (simp add: ServeAdminRPC_def admin_op_def)
  have said: "CheckInstanceSSHAccess env now credential d inst = AccessRefused e"
    if "checkInstanceSSHAccess env (Some ?params) = Inl e" "e \<noteq> ''''" "valid_utf8 e" for e
    using serve that reply [of "\<lparr>as_result = None, as_error = e\<rparr>"]
    by (simp add: CheckInstanceSSHAccess_def sshRPC_def admin_reply_def rpc_error_def)
  show ?thesis
  proof (cases "ke_read env")
    case (Inl e)
    then show ?thesis
      using said [of e] assms(4) Inr params by (simp add: checkInstanceSSHAccess_def local_access_def)
  next
    case read: (Inr pem)
    show ?thesis
    proof (cases "pem = ''''")
      case True
      have "no_key_text env \<noteq> ''''" by (simp add: no_key_text_def)
      then show ?thesis
        using True read said [of "no_key_text env"] assms(5) Inr params by (simp add: checkInstanceSSHAccess_def local_access_def)
    next
      case False
      let ?a = "access_of (dialSSHSession env inst pem)"
      have "checkInstanceSSHAccess env (Some ?params) = Inr (access_value ?a)"
        using False read params by (simp add: checkInstanceSSHAccess_def)
      then show ?thesis
        using serve reply [of "\<lparr>as_result = Some (access_value ?a), as_error = ''''\<rparr>"] decode_access [of ?a]
          access_value_clean [OF assms(3) [OF read]] False read Inr
        by (simp add: CheckInstanceSSHAccess_def sshRPC_def admin_reply_def rpc_error_def local_access_def valid_utf8_def
            clean_ascii is_ascii_def)
    qed
  qed
qed

text \<open>C25: an administrator's session that asks whether the deployment's key opens a node gets, over
  the API, exactly the server's own answer: open, a host key nobody vouches for with its host and
  fingerprint, or refused for the same reason. The holder of any other credential gets neither:
  a credential that is not an administrator's is refused without the node being asked, and so is
  the static token, which is no session's.\<close>

theorem access_check_over_api:
  assumes "sendable_instance inst"
    "length (json_marshal (rpc_request_value \<lparr>aq_op = ''CheckInstanceSSHAccess'', aq_params = Some (VObj [(''instance'', instance_value inst)])\<rparr>)) \<le> maxAdminBody"
    "\<And>pem. ke_read env = Inr pem \<Longrightarrow> sendable_access (access_of (dialSSHSession env inst pem))"
    "\<And>e. ke_read env = Inl e \<Longrightarrow> e \<noteq> '''' \<and> valid_utf8 e" "valid_utf8 (no_key_text env)"
  shows "CheckInstanceSSHAccess env now credential d inst =
    (case (if trim_space credential = '''' then None
           else live_in (d_sessions d) (ke_hash env (trim_space credential)) now) of
       Some i \<Rightarrow> if id_admin i then local_access env inst
         else AccessRefused ''CheckInstanceSSHAccess: this operation requires the administrator''
     | None \<Rightarrow> AccessRefused (''CheckInstanceSSHAccess: the API rejected this session'' @ [CHR 0x27] @ ''s credential''))"
  using access_check_cases [where env = env and inst = inst and now = now and credential = credential and d = d, OF assms]
  unfolding admin_of_credential by (simp split: option.splits if_splits)

text \<open>An administrator asks about a node whose host key is not on record, and the holder of a client's
  session asks the same.\<close>

definition demo_key_env :: key_env where
  "demo_key_env = \<lparr>ke_hash = id, ke_efold = (=), ke_quote = id, ke_read = Inr ''pem'', ke_path = ''/k'', ke_public_line = Inr,
     ke_parse = (\<lambda>_. None), ke_connect = (\<lambda>_. None), ke_deadline = None,
     ke_auth = (\<lambda>_. Some (''unverified'', Some (''pve'', ''SHA256:x''))), ke_session = (\<lambda>_. None), ke_decode_error = ''bad''\<rparr>"

definition demo_sessions :: db where
  "demo_sessions = empty_db\<lparr>d_sessions :=
     [\<lparr>tk_hash = ''root'', tk_identity = \<lparr>id_login = ''root'', id_name = ''root'', id_admin = True, id_client = 0\<rparr>, tk_expires = 9\<rparr>,
      \<lparr>tk_hash = ''eve'', tk_identity = \<lparr>id_login = ''eve'', id_name = ''eve'', id_admin = False, id_client = 1\<rparr>, tk_expires = 9\<rparr>]\<rparr>"

theorem access_check_over_api_witness:
  "CheckInstanceSSHAccess demo_key_env 5 ''root'' demo_sessions (zero_instance\<lparr>in_ssh_user := ''root''\<rparr>) =
     AccessUnverified ''pve'' ''SHA256:x'' \<and>
   CheckInstanceSSHAccess demo_key_env 5 ''eve'' demo_sessions (zero_instance\<lparr>in_ssh_user := ''root''\<rparr>) =
     AccessRefused ''CheckInstanceSSHAccess: this operation requires the administrator''"
proof -
  let ?i = "zero_instance\<lparr>in_ssh_user := ''root''\<rparr>"
  have i: "sendable_instance ?i" by code_simp
  have "int (length (json_marshal (rpc_request_value \<lparr>aq_op = ''CheckInstanceSSHAccess'',
      aq_params = Some (VObj [(''instance'', instance_value ?i)])\<rparr>))) \<le> 500" by code_simp
  then have l: "length (json_marshal (rpc_request_value \<lparr>aq_op = ''CheckInstanceSSHAccess'',
      aq_params = Some (VObj [(''instance'', instance_value ?i)])\<rparr>)) \<le> maxAdminBody" by (simp add: maxAdminBody_def)
  have a: "sendable_access (access_of (dialSSHSession demo_key_env ?i pem))" if "ke_read demo_key_env = Inr pem" for pem
  proof -
    have "pem = ''pem''" using that by (simp add: demo_key_env_def)
    moreover have "sendable_access (access_of (dialSSHSession demo_key_env ?i ''pem''))" by code_simp
    ultimately show ?thesis by simp
  qed
  have n: "valid_utf8 (no_key_text demo_key_env)"
    by (simp add: no_key_text_def demo_key_env_def valid_utf8_def clean_ascii is_ascii_def)
  have e: "e \<noteq> '''' \<and> valid_utf8 e" if "ke_read demo_key_env = Inl e" for e
    using that by (simp add: demo_key_env_def)
  have "trim_space ''root'' = ''root''" "trim_space ''eve'' = ''eve''"
    "live_in (d_sessions demo_sessions) (ke_hash demo_key_env ''root'') 5 = Some \<lparr>id_login = ''root'', id_name = ''root'', id_admin = True, id_client = 0\<rparr>"
    "live_in (d_sessions demo_sessions) (ke_hash demo_key_env ''eve'') 5 = Some \<lparr>id_login = ''eve'', id_name = ''eve'', id_admin = False, id_client = 1\<rparr>"
    "local_access demo_key_env ?i = AccessUnverified ''pve'' ''SHA256:x''"
    by code_simp+
  moreover note asked = access_check_over_api [where env = demo_key_env and inst = ?i and now = 5 and d = demo_sessions, OF i l a e n]
  ultimately show ?thesis
    using asked [of "''root''"] asked [of "''eve''"] by simp
qed

end
