(* ===== verification/PickerView.thy ===== *)
theory PickerView
  imports PickerPrompt StatusBar
begin

text \<open>
  What the picker paints: the frame of \<open>internal/session/interactive.go\<close> (\<open>render\<close> and the functions under
  it) and the numbered table of \<open>internal/session/picker.go\<close>. Text is measured in runes, escape sequences
  not counted. \<open>L\<close> is \<open>unicode.IsLetter\<close> beyond ASCII and \<open>U\<close> is \<open>strings.ToLower\<close> beyond ASCII.
\<close>

section \<open>Measuring and cutting\<close>

definition is_letter :: "(nat \<Rightarrow> bool) \<Rightarrow> nat \<Rightarrow> bool" where
  "is_letter L r = (if r < 128 then (65 \<le> r \<and> r \<le> 90) \<or> (97 \<le> r \<and> r \<le> 122) else L r)"

fun shown_runes :: "(nat \<Rightarrow> bool) \<Rightarrow> bool \<Rightarrow> nat list \<Rightarrow> nat" where
  "shown_runes L inEsc [] = 0"
| "shown_runes L inEsc (r # rs) =
     (if inEsc then shown_runes L (\<not> is_letter L r) rs
      else if r = 27 then shown_runes L True rs
      else Suc (shown_runes L False rs))"

definition displayWidth :: "(nat \<Rightarrow> bool) \<Rightarrow> gostring \<Rightarrow> int" where
  "displayWidth L s = int (shown_runes L False (runes s))"

definition pad_to :: "gostring \<Rightarrow> int \<Rightarrow> int \<Rightarrow> gostring" where
  "pad_to styled width to_width = (if width \<ge> to_width then styled else styled @ spaces (to_width - width))"

definition cut_mark :: gostring where "cut_mark = encode_rune 0x2026"

definition truncate_text :: "gostring \<Rightarrow> int \<Rightarrow> gostring" where
  "truncate_text s width =
     (if width \<le> 0 then s
      else let r = runes s in
        if int (length r) \<le> width then s
        else if width = 1 then cut_mark
        else concat (map encode_rune (take (nat (width - 1)) r)) @ cut_mark)"

fun cut_styled :: "(nat \<Rightarrow> bool) \<Rightarrow> int \<Rightarrow> int \<Rightarrow> bool \<Rightarrow> nat list \<Rightarrow> gostring" where
  "cut_styled L width shown inEsc [] = []"
| "cut_styled L width shown inEsc (r # rs) =
     (if inEsc then encode_rune r @ cut_styled L width shown (\<not> is_letter L r) rs
      else if r = 27 then encode_rune r @ cut_styled L width shown True rs
      else if shown \<ge> width - 1 then cut_mark
      else encode_rune r @ cut_styled L width (shown + 1) False rs)"

definition truncateStyled :: "(nat \<Rightarrow> bool) \<Rightarrow> gostring \<Rightarrow> int \<Rightarrow> gostring" where
  "truncateStyled L s width =
     (if width \<le> 0 \<or> displayWidth L s \<le> width then s else cut_styled L width 0 False (runes s))"

text \<open>\<open>%-*s\<close>, \<open>%*s\<close> and \<open>%*d\<close> of \<open>fmt\<close>, which count runes.\<close>

definition fmt_left :: "int \<Rightarrow> gostring \<Rightarrow> gostring" where
  "fmt_left w s = s @ spaces (w - int (length (runes s)))"

definition fmt_right :: "int \<Rightarrow> gostring \<Rightarrow> gostring" where
  "fmt_right w s = spaces (w - int (length (runes s))) @ s"

section \<open>Columns\<close>

definition pickerColID :: gostring where "pickerColID = ''ID''"
definition pickerColName :: gostring where "pickerColName = ''NAME''"
definition pickerColStatus :: gostring where "pickerColStatus = ''STATUS''"
definition pickerColHost :: gostring where "pickerColHost = ''HOST''"

record col_widths =
  cw_num :: int
  cw_id :: int
  cw_name :: int
  cw_status :: int

definition columnWidths :: "(nat \<Rightarrow> bool) \<Rightarrow> picker_row list \<Rightarrow> col_widths" where
  "columnWidths L rows =
     foldl (\<lambda>w r.
         let w = (if displayWidth L (pr_id r) > cw_id w then w\<lparr>cw_id := displayWidth L (pr_id r)\<rparr> else w);
             w = (if displayWidth L (pr_name r) > cw_name w then w\<lparr>cw_name := displayWidth L (pr_name r)\<rparr> else w)
         in if displayWidth L (row_status r) > cw_status w then w\<lparr>cw_status := displayWidth L (row_status r)\<rparr> else w)
       \<lparr>cw_num = int (length (itoa (int (length rows)))), cw_id = int (length pickerColID), cw_name = int (length pickerColName),
        cw_status = int (length pickerColStatus)\<rparr> rows"

definition pickerTitle :: "gostring \<Rightarrow> gostring" where
  "pickerTitle user = ''proxpass '' @ encode_rune 0x2014 @ '' available to '' @ user"

definition sortMarker :: gostring where "sortMarker = '' '' @ encode_rune 0x25B2"

definition headerCell :: "gostring \<Rightarrow> bool \<Rightarrow> gostring" where
  "headerCell label active = (if \<not> active then label else label @ sortMarker)"

definition headerRow :: "picker_state \<Rightarrow> col_widths \<Rightarrow> gostring" where
  "headerRow s w =
     (let active = (if ps_sort s = SortUnset then SortByName else ps_sort s);
          active = (if ps_filter s \<noteq> '''' then SortModeCount else active)
      in fmt_left (cw_id w) (headerCell pickerColID (active = SortByID)) @ ''  '' @
         fmt_left (cw_name w) (headerCell pickerColName (active = SortByName)) @ ''  '' @
         fmt_left (cw_status w) (headerCell pickerColStatus (active = SortByStatus)) @ ''  '' @
         headerCell pickerColHost (active = SortByHost))"

definition writeGuestTable :: "(nat \<Rightarrow> bool) \<Rightarrow> picker_row list \<Rightarrow> gostring" where
  "writeGuestTable L rows =
     (if rows = [] then ''  (nothing available)'' @ [CHR 0x0A]
      else let w = columnWidths L rows;
               line = (\<lambda>num rid name status host. ''  '' @ fmt_right (cw_num w) num @ ''  '' @ fmt_left (cw_id w) rid @ ''  '' @
                 fmt_left (cw_name w) name @ ''  '' @ fmt_left (cw_status w) status @ ''  '' @ host @ [CHR 0x0A])
        in line ''#'' pickerColID pickerColName pickerColStatus pickerColHost @
           concat (map (\<lambda>(i, r). line (itoa (int i + 1)) (pr_id r) (pr_name r) (row_status r) (pr_inst_name r))
             (enumerate 0 rows)))"

definition numbered_screen :: "(nat \<Rightarrow> bool) \<Rightarrow> gostring \<Rightarrow> picker_row list \<Rightarrow> gostring" where
  "numbered_screen L user rows =
     pickerTitle user @ [CHR 0x0A, CHR 0x0A] @ writeGuestTable L rows @
     CHR 0x0A # ''Select [1-'' @ itoa (int (length rows)) @ ''], or q to quit: ''"

section \<open>Highlighting the match\<close>

fun rune_index :: "nat \<Rightarrow> nat list \<Rightarrow> nat option" where
  "rune_index c [] = None"
| "rune_index c (x # xs) = (if x = c then Some 0 else map_option Suc (rune_index c xs))"

fun match_runes :: "nat list \<Rightarrow> nat \<Rightarrow> nat list \<Rightarrow> nat list" where
  "match_runes hay hi [] = []"
| "match_runes hay hi (c # cs) =
     (case rune_index c (drop hi hay) of
        None \<Rightarrow> match_runes hay (length hay) cs
      | Some k \<Rightarrow> (hi + k) # match_runes hay (hi + k + 1) cs)"

definition matchIndices :: "(bytes \<Rightarrow> bytes) \<Rightarrow> gostring \<Rightarrow> gostring \<Rightarrow> nat list" where
  "matchIndices U txt filt =
     (let needle = runes (to_lower U (trim_space filt)); found = match_runes (runes (to_lower U txt)) 0 needle
      in if length found \<noteq> length needle then [] else found)"

definition styleMatch :: gostring where "styleMatch = ESC # ''[4m''"
definition match_off :: gostring where "match_off = ESC # ''[24m''"

definition highlight :: "(bytes \<Rightarrow> bytes) \<Rightarrow> gostring \<Rightarrow> gostring \<Rightarrow> gostring" where
  "highlight U txt filt =
     (if filt = '''' then txt
      else let idx = matchIndices U txt filt in
        if idx = [] then txt
        else concat (map (\<lambda>(i, r). if i \<in> set idx then styleMatch @ encode_rune r @ match_off else encode_rune r)
               (enumerate 0 (runes txt))))"

section \<open>The frame\<close>

definition seqClear :: gostring where "seqClear = ESC # ''[H'' @ ESC # ''[2J''"
definition seqReset :: gostring where "seqReset = ESC # ''[0m''"
definition styleTitle :: gostring where "styleTitle = ESC # ''[1;35m''"
definition styleHeader :: gostring where "styleHeader = ESC # ''[1m''"
definition styleSelected :: gostring where "styleSelected = ESC # ''[7m''"
definition styleRunning :: gostring where "styleRunning = ESC # ''[32m''"
definition styleStopped :: gostring where "styleStopped = ESC # ''[2m''"
definition styleHelp :: gostring where "styleHelp = ESC # ''[2m''"
definition styleWarn :: gostring where "styleWarn = ESC # ''[33m''"

definition frame_break :: gostring where "frame_break = [CHR 0x0D, CHR 0x0A]"

definition renderRow ::
  "(bytes \<Rightarrow> bytes) \<Rightarrow> (nat \<Rightarrow> bool) \<Rightarrow> picker_state \<Rightarrow> picker_row \<Rightarrow> col_widths \<Rightarrow> bool \<Rightarrow> gostring" where
  "renderRow U L s r w selected =
     (let marker = (if selected then encode_rune 0x25B8 @ '' '' else ''  '');
          rid = pad_to (highlight U (pr_id r) (ps_filter s)) (displayWidth L (pr_id r)) (cw_id w);
          name = pad_to (highlight U (pr_name r) (ps_filter s)) (displayWidth L (pr_name r)) (cw_name w);
          status = pad_to (row_status r) (displayWidth L (row_status r)) (cw_status w);
          host = highlight U (pr_inst_name r) (ps_filter s);
          body = marker @ rid @ ''  '' @ name @ ''  '' @ status @ ''  '' @ host;
          style = (if selected then styleSelected else if \<not> isRunning r then styleStopped else styleRunning)
      in style @ truncateStyled L body (ps_width s) @ seqReset)"

definition renderStatus :: "picker_state \<Rightarrow> int \<Rightarrow> gostring" where
  "renderStatus s total_rows =
     (if ps_notice s \<noteq> '''' then styleWarn @ truncate_text (''  '' @ ps_notice s) (ps_width s) @ seqReset
      else if ps_filter s = ''''
      then styleHelp @ truncate_text (''  '' @ itoa total_rows @ '' targets '' @ encode_rune 0xB7 @ '' sort: '' @
             sort_label (ps_sort s)) (ps_width s) @ seqReset
      else truncate_text (''  filter: '' @ ps_filter s @ encode_rune 0x2588 @ ''  ('' @ itoa (int (length (ps_shown s))) @ ''/'' @
             itoa total_rows @ '') '' @ encode_rune 0xB7 @ '' sort: best match'') (ps_width s))"

definition help_text :: gostring where
  "help_text =
     (let dot = '' '' @ encode_rune 0xB7 @ '' ''
      in ''  '' @ encode_rune 0x2191 @ ''/'' @ encode_rune 0x2193 @ '' move'' @ dot @ ''type to filter'' @ dot @
         encode_rune 0x23CE @ '' connect'' @ dot @ ''tab sort'' @ dot @ ''esc clear'' @ dot @ ''ctrl+c quit'')"

definition picker_render :: "(bytes \<Rightarrow> bytes) \<Rightarrow> (nat \<Rightarrow> bool) \<Rightarrow> picker_state \<Rightarrow> gostring" where
  "picker_render U L s =
     (let w = columnWidths L (ps_shown s);
          rows = listRows s;
          end_row = ps_offset s + rows;
          end_row = (if end_row > int (length (ps_shown s)) then int (length (ps_shown s)) else end_row)
      in seqClear @
         styleTitle @ truncate_text (pickerTitle (ps_user s)) (ps_width s) @ seqReset @ frame_break @ frame_break @
         styleHeader @ truncate_text (''  '' @ headerRow s w) (ps_width s) @ seqReset @ frame_break @
         concat (map (\<lambda>i. renderRow U L s (ps_shown s ! nat i) w (i = ps_cursor s) @ frame_break) [ps_offset s .. end_row - 1]) @
         concat (map (\<lambda>i. frame_break) [end_row - ps_offset s .. rows - 1]) @
         frame_break @ renderStatus s (int (length (ps_all s))) @ frame_break @
         styleHelp @ truncate_text help_text (ps_width s) @ seqReset)"

section \<open>How wide a painted text is\<close>

text \<open>Where a text leaves the parser of escape sequences.\<close>

fun esc_after :: "(nat \<Rightarrow> bool) \<Rightarrow> bool \<Rightarrow> nat list \<Rightarrow> bool" where
  "esc_after L inEsc [] = inEsc"
| "esc_after L inEsc (r # rs) = esc_after L (if inEsc then \<not> is_letter L r else r = 27) rs"

lemma shown_runes_append:
  "shown_runes L e (xs @ ys) = shown_runes L e xs + shown_runes L (esc_after L e xs) ys"
  by (induction xs arbitrary: e) auto

lemma shown_runes_le: "shown_runes L e rs \<le> length rs"
  by (induction rs arbitrary: e) (auto intro: le_SucI)

lemma runes_append_ascii: "ys = [] \<or> code (hd ys) < 0x80 \<Longrightarrow> runes (xs @ ys) = runes xs @ runes ys"
  by (simp add: runes_def segments_append_ascii)

text \<open>Decoding never gives a surrogate or a rune past the last one, so what is decoded is written back
  as it was read.\<close>

lemma decode_tail_Suc:
  "decode_tail acc lo hi (Suc k) bs = Some r \<longleftrightarrow>
     (\<exists>c cs. bs = c # cs \<and> lo \<le> code c \<and> code c \<le> hi \<and> decode_tail (acc * 64 + code c mod 64) 0x80 0xBF k cs = Some r)"
  by (cases bs) auto

lemma low_bits: "128 \<le> x \<Longrightarrow> x < 192 \<Longrightarrow> x mod 64 = x - 128" for x :: nat
  by (rule mod_nat_eqI) simp_all

lemma valid_parts:
  fixes a m n k :: nat
  shows "a < 32 \<Longrightarrow> m < 64 \<Longrightarrow> valid_rune (a * 64 + m)"
    "a < 16 \<Longrightarrow> a \<noteq> 13 \<or> m < 32 \<Longrightarrow> m < 64 \<Longrightarrow> n < 64 \<Longrightarrow> valid_rune ((a * 64 + m) * 64 + n)"
    "0 < a \<or> 16 \<le> m \<Longrightarrow> a < 4 \<or> a = 4 \<and> m < 16 \<Longrightarrow> m < 64 \<Longrightarrow> n < 64 \<Longrightarrow> k < 64 \<Longrightarrow>
       valid_rune (((a * 64 + m) * 64 + n) * 64 + k)"
  by ((cases "a \<le> 13"; cases "a = 0"), auto simp: valid_rune_def algebra_simps)+

lemma decode_rune_valid: "valid_rune (fst (decode_rune s))"
proof (cases s)
  case (Cons b bs)
  have err: "valid_rune rune_error" by (simp add: valid_rune_def rune_error_def)
  show ?thesis
  proof (cases "utf8_lead (code b)")
    case None
    then show ?thesis using Cons err by (simp add: valid_rune_def)
  next
    case (Some t)
    obtain sz lo hi where t: "t = (sz, lo, hi)" by (cases t)
    have "valid_rune r" if r: "decode_tail (code b mod 2 ^ (7 - sz)) lo hi (sz - 1) bs = Some r" for r
    proof -
      have m: "code c mod 64 < 64" for c by simp
      consider "sz = 2" "code b \<le> 0xDF" "0xC2 \<le> code b" | "sz = 3" "0xE0 \<le> code b" "code b \<le> 0xEF" "code b = 0xED \<longrightarrow> hi = 0x9F" "0x80 \<le> lo"
        | "sz = 4" "0xF0 \<le> code b" "code b \<le> 0xF4" "code b = 0xF4 \<longrightarrow> hi = 0x8F" "0x80 \<le> lo"
          "code b = 0xF0 \<longrightarrow> lo = 0x90 \<and> hi = 0xBF"
        using Some t by (auto simp: utf8_lead_def split: if_splits)
      then show ?thesis
      proof cases
        case 1
        then have "sz - 1 = Suc 0" "2 ^ (7 - sz) = (32 :: nat)" by simp_all
        with r have "decode_tail (code b mod 32) lo hi (Suc 0) bs = Some r" by (simp only:)
        then obtain c where "r = (code b mod 32) * 64 + code c mod 64" by (auto simp: decode_tail_Suc)
        then show ?thesis by (simp add: valid_parts)
      next
        case 2
        then have "sz - 1 = Suc (Suc 0)" "2 ^ (7 - sz) = (16 :: nat)" by simp_all
        with r have "decode_tail (code b mod 16) lo hi (Suc (Suc 0)) bs = Some r" by (simp only:)
        then obtain c c2 where c: "r = ((code b mod 16) * 64 + code c mod 64) * 64 + code c2 mod 64"
          "lo \<le> code c" "code c \<le> hi" by (auto simp: decode_tail_Suc)
        have "code c mod 64 < 32" if "code b mod 16 = 13"
        proof -
          have "code b = 0xED" using that 2(2,3) by presburger
          then have "128 \<le> code c" "code c \<le> 159" using 2(4,5) c(2,3) by simp_all
          then show ?thesis using low_bits [of "code c"] by simp
        qed
        then show ?thesis
          using c(1) valid_parts(2) [of "code b mod 16" "code c mod 64" "code c2 mod 64"] by auto
      next
        case 3
        then have "sz - 1 = Suc (Suc (Suc 0))" "2 ^ (7 - sz) = (8 :: nat)" by simp_all
        with r have "decode_tail (code b mod 8) lo hi (Suc (Suc (Suc 0))) bs = Some r" by (simp only:)
        then obtain c c2 c3 where c: "r = (((code b mod 8) * 64 + code c mod 64) * 64 + code c2 mod 64) * 64 + code c3 mod 64"
          "lo \<le> code c" "code c \<le> hi" by (auto simp: decode_tail_Suc)
        have small: "code b mod 8 < 4 \<or> code b mod 8 = 4 \<and> code b = 0xF4" "0 < code b mod 8 \<or> code b = 0xF0"
          using 3(2,3) by presburger+
        have "16 \<le> code c mod 64" if "code b = 0xF0"
        proof -
          have "144 \<le> code c" "code c \<le> 191" using 3(6) c(2,3) that by simp_all
          then show ?thesis using low_bits [of "code c"] by simp
        qed
        moreover
        have "code c mod 64 < 16" if "code b = 0xF4"
        proof -
          have "128 \<le> code c" "code c \<le> 143" using 3(4,5) c(2,3) that by simp_all
          then show ?thesis using low_bits [of "code c"] by simp
        qed
        ultimately show ?thesis
          using small c(1) valid_parts(3) [of "code b mod 8" "code c mod 64" "code c2 mod 64" "code c3 mod 64"] by auto
      qed
    qed
    then show ?thesis using Cons Some t err by (auto simp: valid_rune_def split: option.splits)
  qed
qed (simp add: valid_rune_def rune_error_def)

lemma runes_valid: "list_all valid_rune (runes s)"
proof (induction s rule: segments.induct)
  case (2 b bs)
  obtain r n where d: "decode_rune (b # bs) = (r, n)" by (cases "decode_rune (b # bs)")
  have "valid_rune r" using decode_rune_valid [of "b # bs"] d by simp
  then show ?case using 2 [OF d [symmetric]] d by (simp add: runes_def)
qed (simp add: runes_def)

lemma runes_cut_mark: "runes cut_mark = [0x2026]"
  using runes_encode [of "[0x2026]" "[]"] by (simp add: cut_mark_def valid_rune_def runes_def)

lemma truncate_text_width:
  assumes "1 \<le> width" shows "int (length (runes (truncate_text s width))) \<le> width"
proof -
  have "list_all valid_rune (take n (runes s))" for n
    using runes_valid [of s] by (auto simp: list_all_iff dest: in_set_takeD)
  then show ?thesis
    using assms by (auto simp: truncate_text_def Let_def runes_encode runes_cut_mark)
qed

lemma runes_encode_cons: "valid_rune r \<Longrightarrow> runes (encode_rune r @ s) = r # runes s"
  by (simp add: runes_def segments_encode_rune)

lemma cut_styled_width:
  "list_all valid_rune rs \<Longrightarrow> shown < width \<Longrightarrow>
     int (shown_runes L e (runes (cut_styled L width shown e rs))) \<le> width - shown"
proof (induction rs arbitrary: shown e)
  case (Cons r rs)
  have z: "is_letter L 27 = False" by (simp add: is_letter_def)
  show ?case
    using Cons.prems Cons.IH [of shown "\<not> is_letter L r"] Cons.IH [of shown True] Cons.IH [of "shown + 1" False]
    by (auto simp: runes_encode_cons runes_cut_mark)
qed (simp add: runes_def)

lemma truncateStyled_width:
  assumes "1 \<le> width" shows "displayWidth L (truncateStyled L s width) \<le> width"
  using assms cut_styled_width [OF runes_valid, where shown = 0 and width = width and e = False]
  by (auto simp: truncateStyled_def displayWidth_def)

text \<open>A line in a style: the sequences around it take no room.\<close>

definition style_seq :: "gostring \<Rightarrow> bool" where
  "style_seq t \<longleftrightarrow> t \<noteq> [] \<and> is_ascii t \<and>
     (\<forall>L e. shown_runes L e (runes t) = 0 \<and> \<not> esc_after L e (runes t))"

lemma style_seqs:
  "style_seq seqReset" "style_seq styleTitle" "style_seq styleHeader" "style_seq styleSelected" "style_seq styleRunning"
  "style_seq styleStopped" "style_seq styleHelp" "style_seq styleWarn"
  by (simp_all add: style_seq_def is_ascii_def seqReset_def styleTitle_def styleHeader_def styleSelected_def styleRunning_def
      styleStopped_def styleHelp_def styleWarn_def runes_ascii_cons is_letter_def runes_def [of "[]"])

lemma runes_ascii_append: "is_ascii t \<Longrightarrow> runes (t @ x) = runes t @ runes x"
  by (induction t) (simp_all add: runes_ascii_cons is_ascii_def runes_def [of "[]"])

lemma styled_width:
  assumes "style_seq t" "displayWidth L m \<le> width"
  shows "displayWidth L (t @ m @ seqReset) \<le> width"
proof -
  have r: "style_seq seqReset" by (rule style_seqs)
  then have "seqReset = [] \<or> code (hd seqReset) < 0x80" by (simp add: seqReset_def)
  then have "runes (m @ seqReset) = runes m @ runes seqReset" by (rule runes_append_ascii)
  then show ?thesis
    using assms r by (simp add: displayWidth_def style_seq_def runes_ascii_append shown_runes_append)
qed

lemma truncated_width: "1 \<le> width \<Longrightarrow> displayWidth L (truncate_text s width) \<le> width"
  using truncate_text_width [of width s] shown_runes_le [of L False "runes (truncate_text s width)"]
  by (simp add: displayWidth_def)

section \<open>The frame as lines\<close>

definition frame_row :: "(bytes \<Rightarrow> bytes) \<Rightarrow> (nat \<Rightarrow> bool) \<Rightarrow> picker_state \<Rightarrow> int \<Rightarrow> gostring" where
  "frame_row U L s k =
     (let i = ps_offset s + k in
      if i < int (length (ps_shown s))
      then renderRow U L s (ps_shown s ! nat i) (columnWidths L (ps_shown s)) (i = ps_cursor s)
      else '''')"

definition frame_lines :: "(bytes \<Rightarrow> bytes) \<Rightarrow> (nat \<Rightarrow> bool) \<Rightarrow> picker_state \<Rightarrow> gostring list" where
  "frame_lines U L s =
     [styleTitle @ truncate_text (pickerTitle (ps_user s)) (ps_width s) @ seqReset, '''',
      styleHeader @ truncate_text (''  '' @ headerRow s (columnWidths L (ps_shown s))) (ps_width s) @ seqReset] @
     map (frame_row U L s) [0 .. listRows s - 1] @
     ['''', renderStatus s (int (length (ps_all s))), styleHelp @ truncate_text help_text (ps_width s) @ seqReset]"

lemma join_lines: "concat (map (\<lambda>x. f x @ sep) xs) @ go_join sep (l # ls) = go_join sep (map f xs @ l # ls)"
proof (induction xs)
  case (Cons x xs)
  have "map f xs @ l # ls \<noteq> []" by simp
  then obtain y ys where y: "map f xs @ l # ls = y # ys" by (cases "map f xs @ l # ls") auto
  show ?case using Cons by (simp add: y)
qed simp

lemma join_two:
  "concat (map (\<lambda>x. f x @ sep) xs) @ concat (map (\<lambda>x. g x @ sep) ys) @ go_join sep (l # ls) =
     go_join sep (map f xs @ map g ys @ l # ls)"
proof -
  obtain y rest where "map g ys @ l # ls = y # rest" by (cases "map g ys @ l # ls") auto
  then show ?thesis using join_lines [of f sep xs y rest] join_lines [of g sep ys l ls] by simp
qed

lemma upto_shift: "map (\<lambda>k. f (a + k)) [0 .. n - 1] = map f [a .. a + n - 1]" for a n :: int
  by (rule nth_equalityI) (auto simp: nth_upto)

lemma render_lines:
  assumes "0 \<le> ps_offset s" "ps_offset s \<le> int (length (ps_shown s))"
  shows "picker_render U L s = seqClear @ go_join frame_break (frame_lines U L s)"
proof -
  let ?n = "int (length (ps_shown s))" and ?rows = "listRows s"
  let ?w = "columnWidths L (ps_shown s)"
  define e where "e = (if ps_offset s + ?rows > ?n then ?n else ps_offset s + ?rows)"
  let ?g = "\<lambda>i. renderRow U L s (ps_shown s ! nat i) ?w (i = ps_cursor s)"
  have rows: "0 < ?rows" by (simp add: listRows_def minListRows_def Let_def)
  have e: "0 \<le> e - ps_offset s" "e - ps_offset s \<le> ?rows" using assms rows by (auto simp: e_def)
  have "[0 .. ?rows - 1] = [0 .. e - ps_offset s - 1] @ [e - ps_offset s .. ?rows - 1]"
    using upto_split1 [of 0 "e - ps_offset s" "?rows - 1"] upto_split2 [of 0 "e - ps_offset s - 1" "?rows - 1"] e rows
    by (cases "ps_offset s < e") auto
  moreover have "map (frame_row U L s) [0 .. e - ps_offset s - 1] = map (\<lambda>k. ?g (ps_offset s + k)) [0 .. e - ps_offset s - 1]"
    by (auto simp: frame_row_def Let_def e_def split: if_splits)
  moreover have "map (frame_row U L s) [e - ps_offset s .. ?rows - 1] = map (\<lambda>k. '''') [e - ps_offset s .. ?rows - 1]"
    by (auto simp: frame_row_def Let_def e_def split: if_splits)
  ultimately have rows: "map (frame_row U L s) [0 .. ?rows - 1] =
      map ?g [ps_offset s .. e - 1] @ map (\<lambda>k. '''') [e - ps_offset s .. ?rows - 1]"
    using upto_shift [of ?g "ps_offset s" "e - ps_offset s"] by simp
  let ?tail = "[renderStatus s (int (length (ps_all s))), styleHelp @ truncate_text help_text (ps_width s) @ seqReset]"
  let ?C = "map ?g [ps_offset s .. e - 1] @ map (\<lambda>k. '''') [e - ps_offset s .. ?rows - 1] @ '''' # ?tail"
  have body: "concat (map (\<lambda>i. ?g i @ frame_break) [ps_offset s .. e - 1]) @ concat (map (\<lambda>k. frame_break) [e - ps_offset s .. ?rows - 1]) @
      go_join frame_break ('''' # ?tail) = go_join frame_break ?C"
    using join_two [of ?g frame_break "[ps_offset s .. e - 1]" "\<lambda>k. ''''" "[e - ps_offset s .. ?rows - 1]" "''''" ?tail] by simp
  obtain y rest where C: "?C = y # rest" by (cases ?C) auto
  let ?title = "styleTitle @ truncate_text (pickerTitle (ps_user s)) (ps_width s) @ seqReset"
  let ?header = "styleHeader @ truncate_text (''  '' @ headerRow s ?w) (ps_width s) @ seqReset"
  have "frame_lines U L s = [?title, '''', ?header] @ ?C"
    by (simp add: frame_lines_def rows)
  then have "go_join frame_break (frame_lines U L s) = ?title @ frame_break @ frame_break @ ?header @ frame_break @ go_join frame_break ?C"
    unfolding C by simp
  moreover have "picker_render U L s = seqClear @ ?title @ frame_break @ frame_break @ ?header @ frame_break @
      concat (map (\<lambda>i. ?g i @ frame_break) [ps_offset s .. e - 1]) @ concat (map (\<lambda>k. frame_break) [e - ps_offset s .. ?rows - 1]) @
      go_join frame_break ('''' # ?tail)"
    by (simp add: picker_render_def Let_def e_def)
  ultimately show ?thesis unfolding body by simp
qed

lemma selected_prefix:
  "has_prefix styleSelected (renderRow U L s r w sel) = sel"
  "\<not> has_prefix styleSelected (styleTitle @ t)" "\<not> has_prefix styleSelected (styleHeader @ t)"
  "\<not> has_prefix styleSelected (styleHelp @ t)" "\<not> has_prefix styleSelected (styleWarn @ t)"
  "\<not> has_prefix styleSelected ''''"
  by (simp_all add: renderRow_def Let_def has_prefix_def styleSelected_def styleTitle_def styleHeader_def styleHelp_def
      styleWarn_def styleRunning_def styleStopped_def)

lemma truncated_plain: "\<not> has_prefix styleSelected (truncate_text (CHR '' '' # t) width)"
proof -
  have "\<not> has_prefix styleSelected (CHR '' '' # x)" for x
    by (simp add: has_prefix_def styleSelected_def)
  moreover have "take n (runes (CHR '' '' # t)) = 32 # take (n - 1) (runes t)" if "0 < n" for n
    using that by (cases n) (simp_all add: runes_ascii_cons)
  moreover have "encode_rune 32 = '' ''" by (simp add: encode_rune_def char_of_def bit_0)
  moreover have "\<not> has_prefix styleSelected cut_mark"
    by (simp add: has_prefix_def styleSelected_def cut_mark_def encode_rune_def valid_rune_def char_of_def bit_0)
  ultimately show ?thesis
    by (auto simp: truncate_text_def Let_def)
qed

lemma renderStatus_line:
  assumes "1 \<le> ps_width s"
  shows "displayWidth L (renderStatus s n) \<le> ps_width s" "\<not> has_prefix styleSelected (renderStatus s n)"
  using assms truncated_plain
  by (simp_all add: renderStatus_def selected_prefix styled_width style_seqs truncated_width)

lemma row_width:
  assumes "1 \<le> ps_width s" shows "displayWidth L (frame_row U L s k) \<le> ps_width s"
proof -
  have "displayWidth L (renderRow U L s r w sel) \<le> ps_width s" for r w sel
    unfolding renderRow_def Let_def
    by (rule styled_width) (simp_all add: style_seqs truncateStyled_width assms)
  moreover have "displayWidth L '''' = 0" by (simp add: displayWidth_def runes_def)
  ultimately show ?thesis using assms by (simp add: frame_row_def Let_def)
qed

section \<open>Properties\<close>



text \<open>The measure counts runes where the terminal counts cells: a name of wide characters is as wide as
  two columns each, so a row the picker takes to fit can be twice as wide as the terminal.\<close>

lemma wide_text_overflows:
  assumes "1 \<le> n" "\<not> zw 0x4E16"
  shows "truncate_text (concat (replicate n (encode_rune 0x4E16))) (int n) = concat (replicate n (encode_rune 0x4E16))"
    "cellWidth zw (concat (replicate n (encode_rune 0x4E16))) = 2 * int n"
proof -
  have r: "runes (concat (replicate n (encode_rune 0x4E16))) = replicate n 0x4E16" for n
    using runes_encode [of "replicate n 0x4E16" "[]"] by (simp add: valid_rune_def runes_def [of "[]"] list_all_iff)
  show "truncate_text (concat (replicate n (encode_rune 0x4E16))) (int n) = concat (replicate n (encode_rune 0x4E16))"
    using assms by (simp add: truncate_text_def r Let_def)
  show "cellWidth zw (concat (replicate n (encode_rune 0x4E16))) = 2 * int n"
    using assms(2) by (simp add: cellWidth_def r foldl_plus sum_list_replicate runeCells_def isWideRune_def zero_width_def)
qed

end
