(* ===== verification/Spec2Isabelle.thy ===== *)
theory Spec2Isabelle
  imports Crlf EscapeKey BarTerminal Discovery Tokens HostKey Resolve AccessQuery PickerState HelperSession SessionDispatch
    InstanceEffects SftpServer SshBridge SessionProcess Background AdminRpc PickerView
begin

text \<open>
  Verification of proxpass, the SSH front door to Proxmox guests.

  THE PROGRAM. OpenSSH owns the inbound protocol and starts proxpass twice per login:
  \<open>proxpass authorized-keys\<close> prints the keys that may log in, each with a fresh login token in its
  options, and \<open>proxpass session\<close> runs as the login command. The session spends its token at the
  API of \<open>proxpass serve\<close> for a credential, learns who it is, shows a picker or resolves the login
  name, asks the API for the connection details of the guest or node it wants, and attaches the
  terminal over SSH or over the Proxmox websocket, or transfers files through a helper binary it
  stages on the node and runs inside the container. An administrator's session runs the
  administrator's commands instead. \<open>proxpass serve\<close> owns the database, answers the API, the
  directory of the login lookup (NSS) and the administrator's routes, discovers guests and prunes
  the activity log. Everything below models the Go code under src/cmd and src/internal.

  HOW IT IS MODELLED. A definition carries the name of the Go function it translates, with a prefix
  or suffix where the name is taken. State is passed explicitly: the database is the record
  \<open>db\<close> (one row list per table and the AUTOINCREMENT counters), the bar, the filter, the picker,
  the consoles and the helper are records of their own. Errors are the left of a sum, or
  constructors of the reply type of the HTTP handlers. Goroutines and select loops are step
  functions over a list of events, so an order of events is an argument of every theorem about
  them. Strings are lists of bytes; UTF-8 is decoded where Go ranges over runes. Sizes and ids
  are unbounded integers unless their width matters: uids and gids are \<open>32 word\<close>, the numbers of
  the wire protocol carry their ranges as conditions (\<open>in_int64\<close>, \<open>in_uint32\<close>).

  THE THEORIES.
  Shared: Prelude (byte strings, association lists, the locale \<open>chunked\<close>: a stream processor whose
  result does not depend on where the stream is cut), GoText (strings, strconv, UTF-8), GoJson
  (encoding/json with its round trip), GoUrl (escaping of net/url).

  Data and database: Models (internal/models), Repository (internal/db/sql_repository.go, every
  operation that changes a table), RepoInvariant (\<open>db_step\<close>, reachability, the invariant
  \<open>db_inv\<close>), AccessControl (HasAccess, HasInstanceAccess and the rule they implement),
  FilterLang, FilterBackends (internal/filter: one language, two back ends, the locale
  \<open>query_meaning\<close> interpreted on both), AccessQuery (the filtered queries), FoldNames
  (db/foldnames.go).

  Discovery: ProxmoxClient (internal/proxmox/client.go), Discovery (reconcile.go, discovery.go, the
  locale \<open>guest_store\<close> interpreted on the repository).

  API: SessionApi (api/session.go, sessiondata.go), Tokens (the locales \<open>token_table\<close>,
  \<open>single_use\<close> and \<open>access_oracle\<close>, interpreted on the repository; what a caller gets), Directory
  (idlayout.go, loginname.go, the NSS handlers), AdminApi (adminhandlers.go), AdminAudit (the
  locale \<open>pass_relation\<close>; the activity log), AdminRpc (adminrpc.go, sshkeyops.go), Background
  (activitypruner.go, latestversion.go), Startup (cmd/proxpass/main.go serve, loglevel.go,
  nssconfig.go).

  Session: AuthorizedKeys (token.go, authorizedkeys.go), SessionProcess (main.go session,
  apiclient.go), SessionDispatch (session.go, guestcommand.go, sftp.go, directory.go,
  apidirectory.go), AdminRepo (adminrepo.go), Keys, PickerRows, PickerState, PickerPrompt,
  PickerView (keys.go, guestrow.go, filter.go, sortmode.go, interactive.go, picker.go), Resolve
  (cli/resolve.go).

  Commands: CliProgram (a command is a program over the repository interface; the locale
  \<open>repository_substitute\<close> makes one repository as good as another), CliCommands, CliAccess,
  CliEffects, CliInstance, InstanceEffects (internal/cli).

  Consoles: Crlf, EscapeKey, ModeFilter, StatusBar, BarTerminal (with the terminal the bar talks
  to), TermProxy and ConsoleBridge (the websocket transport), SshConsole and SshBridge (the SSH
  transport and the node runner) over internal/console; HostKey (internal/sshhostkey).

  Files: HelperProtocol, HelperServer, HelperClient, HelperSession, ContainerCommand
  (internal/guesthelper, cmd/proxpass-helper), SftpServer (internal/sftpserver, the locale
  \<open>regular_file\<close> interpreted on the helper).

  WHAT IS SHOWN. The access rule: HasAccess and HasInstanceAccess decide exactly the documented rule
  (C3, C4), the handlers send credentials only behind that check (C5) and refuse exactly what
  they do not list (C6), and a session over them reaches, and can even tell apart, only what it was
  granted (C1, C2) and reports every connection first. Tokens: a token is spent at most once, the
  exchange grants what was minted, a session process runs as that identity and gives the
  credential up. Administration: the routes refuse everybody else, no change is silent, the log is
  typed, the commands mean the same over the API as on the database, a grant is all or nothing,
  a key that was added logs in. Database: every reachable state keeps its keys and counters,
  discovery stores exactly the running guests, both filter back ends agree, names are folded or
  refused. Directory: uids identify accounts and resolve back. Consoles: the bar's row stays
  reserved on the terminal, both transports carry exactly what was typed up to the escape and
  sizes that leave the row, the observer does not care where the output is cut. Files: reads and
  writes through the client, the wire and the helper are exact and end. Picker: no row is lost
  and the frame fits. Startup: a server that runs has a token, and the configuration file of the
  login lookup holds this token.
  Many lemmas beside the properties record where the code does something else than its comments
  say; their text blocks tell which.

  BOUNDS AND FUEL. The JSON parser takes fuel of the input's length plus one; every value consumes a
  byte, and the round-trip lemmas show it is enough for whatever the encoder wrote. Recursion over
  UTF-8, frames and terminal input ends by the length of the rest. A range read asks for chunks of
  \<open>chunkSize\<close> and is shown to end. A wire header is limited to \<open>MaxFrame\<close> and a payload to
  \<open>MaxPayload\<close>, an administrator's request to \<open>maxAdminBody\<close>, one read of the terminal to 4096 bytes,
  the open escape sequence to 64; the theorems that need these limits have them as hypotheses.

  PARAMETERS. Code that is not in the repository is an argument: the hash of tokens, the random bytes
  and the clock, \<open>strings.ToLower\<close>, \<open>unicode.IsLetter\<close> and the character categories beyond ASCII,
  the texts of \<open>%q\<close> and of library errors, the iteration order of Go maps, url.Parse, the HTTP, SSH
  and websocket libraries (as their answers to the calls the code makes), the DNS records, the file
  system under the helper, semver, the regular expressions of the SQL engines.

  NOT MODELLED. The generated API bindings and the flag parser with its help texts; the browser
  application; the SQL text of the schema migrations and the drivers (the repository's operations
  are modelled by what they do to the rows, and of the database's errors only those the code tells
  apart); ListenAndServe, HTTP transport and log lines; raw mode and SIGWINCH; connections that
  scan host keys; contexts, timeouts and cancellation beyond the points where the code asks for
  them; the order of lock acquisition (an operation of the bar or of a console is atomic).
\<close>

end
